(* ===== verification/Prelude.thy ===== *)
theory Prelude
  imports Complex_Main "HOL-Library.Char_ord" "HOL-Library.List_Lexorder"
begin

text \<open>
  Shared vocabulary of the development: JavaScript values as the TypeScript sources see them,
  results of code that may throw, the list idioms of the sources (\<open>new Set\<close>, \<open>Map.set\<close>,
  \<open>Array.find\<close>, stable \<open>Array.sort\<close>), and reachability for the components whose state is
  changed by a sequence of commands.

  Conventions used everywhere:
  \<^item> a JavaScript string is a \<^typ>\<open>string\<close>, one \<^typ>\<open>char\<close> per UTF-16 code unit below 256;
    the order of strings is the code unit order of JavaScript's default sort;
  \<^item> a JavaScript \<open>Date\<close> is its \<open>getTime()\<close> value, an \<^typ>\<open>int\<close> of milliseconds;
  \<^item> \<open>null\<close> and an absent optional field are \<^const>\<open>None\<close>;
  \<^item> a \<open>throw\<close> is \<^const>\<open>Inl\<close>, a normal return \<^const>\<open>Inr\<close>.
\<close>

named_theorems result_simps "equations for code that may throw"
named_theorems table_simps "equations for the rows of a database table"

section \<open>JavaScript values\<close>

type_synonym time_ms = int

text \<open>A JavaScript number: every finite double is a rational, and the other three values are named.\<close>

datatype js_number = Fin rat | PosInf | NegInf | NaN

definition js_num_eq :: "js_number \<Rightarrow> js_number \<Rightarrow> bool" where
  "js_num_eq a b \<longleftrightarrow> a \<noteq> NaN \<and> b \<noteq> NaN \<and> a = b"

fun js_num_lt :: "js_number \<Rightarrow> js_number \<Rightarrow> bool" where
  "js_num_lt NaN _ = False"
| "js_num_lt _ NaN = False"
| "js_num_lt (Fin a) (Fin b) = (a < b)"
| "js_num_lt NegInf b = (b \<noteq> NegInf)"
| "js_num_lt a NegInf = False"
| "js_num_lt a PosInf = (a \<noteq> PosInf)"
| "js_num_lt PosInf b = False"

definition js_num_le :: "js_number \<Rightarrow> js_number \<Rightarrow> bool" where
  "js_num_le a b \<longleftrightarrow> js_num_lt a b \<or> js_num_eq a b"

text \<open>Plain data values: what \<open>JSON.parse\<close> and the database's JSON columns deliver.\<close>

datatype json =
    JNull
  | JBool bool
  | JNum js_number
  | JStr string
  | JArr "json list"
  | JObj "(string \<times> json) list"

text \<open>An own property of an object; every other value has no own property the code reads.\<close>

fun json_prop :: "json \<Rightarrow> string \<Rightarrow> json option" where
  "json_prop (JObj ps) k = map_of ps k"
| "json_prop _ k = None"

fun is_json_object :: "json \<Rightarrow> bool" where
  "is_json_object (JObj _) = True"
| "is_json_object _ = False"

text \<open>The members every plain object inherits from \<open>Object.prototype\<close>; all of them are truthy.\<close>

definition object_prototype_members :: "string list" where
  "object_prototype_members =
     [''constructor'', ''__defineGetter__'', ''__defineSetter__'', ''hasOwnProperty'',
      ''__lookupGetter__'', ''__lookupSetter__'', ''isPrototypeOf'', ''propertyIsEnumerable'',
      ''toString'', ''valueOf'', ''__proto__'', ''toLocaleString'']"

text \<open>\<open>String.prototype.trim\<close> on code units below 256: tab to carriage return, space, no-break space.\<close>

definition js_space :: "char \<Rightarrow> bool" where
  "js_space c \<longleftrightarrow> (let n = (of_char c :: nat) in (9 \<le> n \<and> n \<le> 13) \<or> n = 32 \<or> n = 160)"

definition js_trim :: "string \<Rightarrow> string" where
  "js_trim s = rev (dropWhile js_space (rev (dropWhile js_space s)))"

lemma dropWhile_rev_keeps_hd:
  assumes "xs \<noteq> []" and "\<not> P (hd xs)"
  shows "\<exists>ys. rev (dropWhile P (rev xs)) = hd xs # ys"
proof (cases xs)
  case (Cons a list)
  have "\<exists>ys. dropWhile P (rev list) = rev ys"
    by (rule exI [where x = "rev (dropWhile P (rev list))"]) simp
  with assms Cons show ?thesis by (auto simp: dropWhile_append)
qed (use assms in simp)

lemma js_trim_idem: "js_trim (js_trim s) = js_trim s"
proof (cases "dropWhile js_space s = []")
  case True
  then have e: "js_trim s = []" unfolding js_trim_def by (simp only: True) simp
  show ?thesis unfolding e by (simp add: js_trim_def)
next
  case False
  define t where "t = dropWhile js_space s"
  from False have "t \<noteq> []" and hd: "\<not> js_space (hd t)"
    by (simp_all add: t_def hd_dropWhile)
  from dropWhile_rev_keeps_hd [where P = js_space, OF this]
  obtain ys where ys: "rev (dropWhile js_space (rev t)) = hd t # ys"
    by blast
  with hd have "dropWhile js_space (rev (dropWhile js_space (rev t)))
      = rev (dropWhile js_space (rev t))"
    by simp
  then show ?thesis
    unfolding js_trim_def t_def [symmetric] by (simp add: dropWhile_idem)
qed

lemma set_js_trim: "set (js_trim s) \<subseteq> set s"
  by (auto simp: js_trim_def dest!: set_dropWhileD)

section \<open>Code that may throw\<close>

definition rbind :: "'e + 'a \<Rightarrow> ('a \<Rightarrow> 'e + 'b) \<Rightarrow> 'e + 'b" where
  "rbind r f = (case r of Inl e \<Rightarrow> Inl e | Inr x \<Rightarrow> f x)"

lemma rbind_Inl [simp]: "rbind (Inl e) f = Inl e"
  by (simp add: rbind_def)

lemma rbind_Inr [simp]: "rbind (Inr x) f = f x"
  by (simp add: rbind_def)

lemma rbind_eq_Inr_iff [result_simps]: "rbind r f = Inr y \<longleftrightarrow> (\<exists>x. r = Inr x \<and> f x = Inr y)"
  by (cases r) auto

lemma rbind_eq_Inl_iff [result_simps]:
  "rbind r f = Inl e \<longleftrightarrow> r = Inl e \<or> (\<exists>x. r = Inr x \<and> f x = Inl e)"
  by (cases r) auto

lemma rbind_cong [fundef_cong]:
  "r = r' \<Longrightarrow> (\<And>x. r' = Inr x \<Longrightarrow> f x = g x) \<Longrightarrow> rbind r f = rbind r' g"
  by (cases r') auto

text \<open>A guard: \<open>if (c) throw e\<close>.\<close>

definition throw_if :: "bool \<Rightarrow> 'e \<Rightarrow> 'e + unit" where
  "throw_if c e = (if c then Inl e else Inr ())"

lemma throw_if_eq_Inr_iff [simp]: "throw_if c e = Inr u \<longleftrightarrow> \<not> c"
  by (simp add: throw_if_def)

lemma throw_if_eq_Inl_iff [simp]: "throw_if c e = Inl e' \<longleftrightarrow> c \<and> e' = e"
  by (auto simp: throw_if_def)

lemma throw_if_True [simp]: "throw_if True e = Inl e"
  by (simp add: throw_if_def)

lemma throw_if_False [simp]: "throw_if False e = Inr ()"
  by (simp add: throw_if_def)

text \<open>\<open>xs.map(f)\<close> for a callback that may throw: the first throw wins.\<close>

fun rmap :: "('a \<Rightarrow> 'e + 'b) \<Rightarrow> 'a list \<Rightarrow> 'e + 'b list" where
  "rmap f [] = Inr []"
| "rmap f (x # xs) = rbind (f x) (\<lambda>y. rbind (rmap f xs) (\<lambda>ys. Inr (y # ys)))"

lemma rmap_Inr_iff: "rmap f xs = Inr ys \<longleftrightarrow> list_all2 (\<lambda>x y. f x = Inr y) xs ys"
  by (induction xs arbitrary: ys) (auto simp: result_simps list_all2_Cons1)

lemma rmap_map: "rmap f (map g xs) = rmap (f \<circ> g) xs"
  by (induction xs) simp_all

lemma rmap_pure: "(\<And>x. x \<in> set xs \<Longrightarrow> f x = Inr (g x)) \<Longrightarrow> rmap f xs = Inr (map g xs)"
  by (induction xs) auto

section \<open>List idioms of the sources\<close>

text \<open>\<open>[...new Set(xs)]\<close>: the first occurrence of every element, in order.\<close>

primrec js_uniq :: "'a list \<Rightarrow> 'a list" where
  "js_uniq [] = []"
| "js_uniq (x # xs) = x # filter (\<lambda>y. y \<noteq> x) (js_uniq xs)"

lemma set_js_uniq [simp]: "set (js_uniq xs) = set xs"
  by (induction xs) auto

lemma distinct_js_uniq [simp]: "distinct (js_uniq xs)"
  by (induction xs) auto

lemma js_uniq_distinct: "distinct xs \<Longrightarrow> js_uniq xs = xs"
  by (induction xs) (auto simp: filter_id_conv)

text \<open>\<open>map.set(k, v)\<close> on an insertion-ordered map: an existing key keeps its place.\<close>

fun js_map_set :: "'k \<Rightarrow> 'v \<Rightarrow> ('k \<times> 'v) list \<Rightarrow> ('k \<times> 'v) list" where
  "js_map_set k v [] = [(k, v)]"
| "js_map_set k v ((k', v') # m) = (if k' = k then (k, v) # m else (k', v') # js_map_set k v m)"

lemma js_map_set_keys: "fst ` set (js_map_set k v m) = insert k (fst ` set m)"
  by (induction k v m rule: js_map_set.induct) auto

lemma js_map_set_distinct: "distinct (map fst m) \<Longrightarrow> distinct (map fst (js_map_set k v m))"
proof (induction k v m rule: js_map_set.induct)
  case (2 k v k' v' m)
  have "set (map fst (js_map_set k v m)) = insert k (set (map fst m))"
    using js_map_set_keys [of k v m] by simp
  with 2 show ?case by auto
qed simp

lemma js_map_set_subset: "set (js_map_set k v m) \<subseteq> insert (k, v) (set m)"
  by (induction k v m rule: js_map_set.induct) auto

lemma js_map_set_map: "js_map_set k (g v) (map (apsnd g) m) = map (apsnd g) (js_map_set k v m)"
  by (induction k v m rule: js_map_set.induct) auto

lemma find_Some_in: "find P xs = Some x \<Longrightarrow> x \<in> set xs \<and> P x"
  by (auto simp: find_Some_iff)

lemma find_None_all: "find P xs = None \<Longrightarrow> x \<in> set xs \<Longrightarrow> \<not> P x"
  by (simp add: find_None_iff)

text \<open>The head of a stable sort is an element of least key.\<close>

lemma hd_sort_key:
  assumes "xs \<noteq> []"
  shows "hd (sort_key f xs) \<in> set xs" and "\<And>x. x \<in> set xs \<Longrightarrow> f (hd (sort_key f xs)) \<le> f x"
proof -
  have ne: "sort_key f xs \<noteq> []"
    using assms by (metis length_0_conv length_sort)
  then show "hd (sort_key f xs) \<in> set xs"
    using hd_in_set [OF ne] by simp
  fix x assume "x \<in> set xs"
  then have "x \<in> set (sort_key f xs)" by simp
  moreover have "sorted (map f (sort_key f xs))" by simp
  ultimately show "f (hd (sort_key f xs)) \<le> f x"
    using ne by (cases "sort_key f xs") auto
qed

section \<open>Reachable states\<close>

text \<open>
  The contract of a component that is driven by commands: an invariant holds of every initial
  state and every step keeps it. The one lemma every such component needs is that the invariant
  then holds in each state a sequence of steps reaches.
\<close>

inductive steps :: "('s \<Rightarrow> 's \<Rightarrow> bool) \<Rightarrow> 's \<Rightarrow> 's \<Rightarrow> bool" for step where
  steps_refl [intro]: "steps step s s"
| steps_step: "steps step s t \<Longrightarrow> step t u \<Longrightarrow> steps step s u"

lemma steps_trans: "steps step t u \<Longrightarrow> steps step s t \<Longrightarrow> steps step s u"
  by (induction rule: steps.induct) (auto intro: steps.intros)

locale invariant_system =
  fixes initial :: "'s \<Rightarrow> bool"
    and step :: "'s \<Rightarrow> 's \<Rightarrow> bool"
    and invar :: "'s \<Rightarrow> bool"
  assumes initial_invar: "initial s \<Longrightarrow> invar s"
    and step_invar: "invar s \<Longrightarrow> step s t \<Longrightarrow> invar t"
begin

lemma steps_invar: "steps step s t \<Longrightarrow> invar s \<Longrightarrow> invar t"
  by (induction rule: steps.induct) (auto intro: step_invar)

lemma reachable_invar: "initial s \<Longrightarrow> steps step s t \<Longrightarrow> invar t"
  by (blast intro: steps_invar initial_invar)

end

section \<open>Idempotent commands\<close>

text \<open>
  A command with an idempotency key: a client that saw no answer sends it again, with another
  clock and other fresh identifiers. The contract is that the retry changes nothing and answers
  the same; then any number of retries does.
\<close>

fun retries :: "('v \<Rightarrow> 's \<Rightarrow> 'e + 's \<times> 'r) \<Rightarrow> 'v list \<Rightarrow> 's \<Rightarrow> 'e + 's \<times> 'r list" where
  "retries cmd [] s = Inr (s, [])"
| "retries cmd (v # vs) s =
     rbind (cmd v s) (\<lambda>(s', r). rbind (retries cmd vs s') (\<lambda>(s'', rs). Inr (s'', r # rs)))"

locale idempotent_command =
  fixes cmd :: "'i \<Rightarrow> 'v \<Rightarrow> 's \<Rightarrow> 'e + 's \<times> 'r"
  assumes replay: "cmd i v s = Inr (s', r) \<Longrightarrow> cmd i v' s' = Inr (s', r)"
begin

lemma replay_all: "cmd i v s = Inr (s', r) \<Longrightarrow>
    retries (cmd i) vs s' = Inr (s', replicate (length vs) r)"
  by (induction vs) (simp_all add: replay)

lemma retries_once: "cmd i v s = Inr (s', r) \<Longrightarrow>
    retries (cmd i) (v # vs) s = Inr (s', replicate (Suc (length vs)) r)"
  by (simp add: replay_all)

end

end
