(* ===== verification/RuleRegistry.thy ===== *)
theory RuleRegistry
  imports Prelude
begin

text \<open>
  The closed CG4 rule registry and the override eligibility check
  (\<open>apps/contact-governance/src/cg4-rule-registry.ts\<close>), with the wire types it uses from
  \<open>packages/cxa-contracts/src/contact-governance-cg4.ts\<close>. The locale \<open>override_gate\<close> at the
  end is what the exception evaluator relies on.
\<close>

section \<open>Contract types\<close>

datatype ContactChannel = VOICE | WEBCHAT | LINE | FACEBOOK | WHATSAPP | EMAIL

datatype Cg4RuleClass = NON_OVERRIDABLE | CUSTOMER_REQUEST_SCOPED | APPROVAL_REQUIRED_OPERATIONAL

datatype Cg4OverrideMechanism = CUSTOMER_CALLBACK | APPROVED_EXCEPTION

datatype Cg4IdentityScopeKind = EXACT_IDENTITY | CONTACT_WIDE

datatype Cg4ExceptionRiskTier = STANDARD | HIGH | EMERGENCY

definition CG4_POLICY_SCHEMA_VERSION :: int where
  "CG4_POLICY_SCHEMA_VERSION = 1"

definition CG4_RULE_REGISTRY_VERSION :: string where
  "CG4_RULE_REGISTRY_VERSION = ''CG4_RULE_REGISTRY_V1''"

definition CG4_EVALUATOR_VERSION :: string where
  "CG4_EVALUATOR_VERSION = ''CG4_EVALUATOR_V1''"

record Cg4RuleMetadata =
  rm_ruleCode :: string
  rm_ruleClass :: Cg4RuleClass
  rm_overridable :: bool
  rm_allowedOverrideMechanisms :: "Cg4OverrideMechanism list"
  rm_supportedExceptionScopes :: "Cg4IdentityScopeKind list"
  rm_riskFloor :: "Cg4ExceptionRiskTier option"
  rm_platformLifetimeCapSeconds :: "Cg4ExceptionRiskTier \<Rightarrow> int"
  rm_registryVersion :: string

section \<open>The registry\<close>

definition CG4_PLATFORM_LIFETIME_CAP_SECONDS :: "Cg4ExceptionRiskTier \<Rightarrow> int" where
  "CG4_PLATFORM_LIFETIME_CAP_SECONDS tier =
     (case tier of STANDARD \<Rightarrow> 4 * 60 * 60 | HIGH \<Rightarrow> 24 * 60 * 60 | EMERGENCY \<Rightarrow> 30 * 60)"

definition NO_LIFETIME :: "Cg4ExceptionRiskTier \<Rightarrow> int" where
  "NO_LIFETIME tier = 0"

definition ALL_SCOPES :: "Cg4IdentityScopeKind list" where
  "ALL_SCOPES = [EXACT_IDENTITY, CONTACT_WIDE]"

record RuleOptions =
  ro_ruleClass :: Cg4RuleClass
  ro_mechanisms :: "Cg4OverrideMechanism list option"
  ro_scopes :: "Cg4IdentityScopeKind list option"
  ro_riskFloor :: "Cg4ExceptionRiskTier option"
  ro_lifetimeCapSeconds :: "(Cg4ExceptionRiskTier \<Rightarrow> int) option"

definition rule :: "string \<Rightarrow> RuleOptions \<Rightarrow> Cg4RuleMetadata" where
  "rule ruleCode options =
     (let mechanisms = (case ro_mechanisms options of None \<Rightarrow> [] | Some ms \<Rightarrow> ms);
          scopes = (case ro_scopes options of None \<Rightarrow> [] | Some ss \<Rightarrow> ss);
          overridable = (length mechanisms > 0)
      in \<lparr>rm_ruleCode = ruleCode,
          rm_ruleClass = ro_ruleClass options,
          rm_overridable = overridable,
          rm_allowedOverrideMechanisms = mechanisms,
          rm_supportedExceptionScopes = scopes,
          rm_riskFloor = ro_riskFloor options,
          rm_platformLifetimeCapSeconds =
            (case ro_lifetimeCapSeconds options of None \<Rightarrow> NO_LIFETIME | Some c \<Rightarrow> c),
          rm_registryVersion = CG4_RULE_REGISTRY_VERSION\<rparr>)"

definition hard :: "string \<Rightarrow> Cg4RuleMetadata" where
  "hard ruleCode =
     rule ruleCode \<lparr>ro_ruleClass = NON_OVERRIDABLE, ro_mechanisms = None, ro_scopes = None,
       ro_riskFloor = None, ro_lifetimeCapSeconds = None\<rparr>"

definition callbackScoped :: "string \<Rightarrow> Cg4RuleMetadata" where
  "callbackScoped ruleCode =
     rule ruleCode \<lparr>ro_ruleClass = CUSTOMER_REQUEST_SCOPED,
       ro_mechanisms = Some [CUSTOMER_CALLBACK], ro_scopes = Some ALL_SCOPES,
       ro_riskFloor = Some STANDARD,
       ro_lifetimeCapSeconds = Some CG4_PLATFORM_LIFETIME_CAP_SECONDS\<rparr>"

definition operational ::
  "string \<Rightarrow> Cg4ExceptionRiskTier \<Rightarrow> Cg4OverrideMechanism list \<Rightarrow> Cg4RuleMetadata" where
  "operational ruleCode riskFloor mechanisms =
     rule ruleCode \<lparr>ro_ruleClass = APPROVAL_REQUIRED_OPERATIONAL,
       ro_mechanisms = Some mechanisms, ro_scopes = Some ALL_SCOPES,
       ro_riskFloor = Some riskFloor,
       ro_lifetimeCapSeconds = Some CG4_PLATFORM_LIFETIME_CAP_SECONDS\<rparr>"

text \<open>The codes whose registry entry is \<open>hard(...)\<close>, in source order.\<close>

definition hard_rule_codes :: "string list" where
  "hard_rule_codes =
     [''IDENTITY_AMBIGUOUS'', ''IDENTITY_NOT_FOUND'', ''TENANT_SCOPE_NOT_ALLOWED'',
      ''TEAM_SEGMENT_NOT_ALLOWED'', ''CAPABILITY_REQUIRED'',
      ''AUTHORIZATION_CONTEXT_UNAVAILABLE'', ''DNC_GLOBAL'', ''PURPOSE_OBJECTED'',
      ''CONSENT_REVOKED'', ''CONSENT_REQUIRED'', ''CONSENT_EXPIRED'', ''LAWFUL_BASIS_REQUIRED'',
      ''REGULATORY_RESTRICTION'', ''SAFETY_RESTRICTION'', ''PREFERENCE_BLOCKED'',
      ''PREFERENCE_DEFERRED'', ''TIMEZONE_UNKNOWN'', ''SENDER_IDENTITY_REQUIRED'',
      ''SENDER_IDENTITY_INVALID'', ''GOVERNANCE_KILL_SWITCH_ACTIVE'',
      ''OUTBOUND_TRAFFIC_DISABLED'', ''GOVERNANCE_VERSION_STALE'',
      ''GOVERNANCE_STATE_UNAVAILABLE'', ''GOVERNANCE_POLICY_VERSION_UNSUPPORTED'',
      ''CALLBACK_OVERRIDE_NOT_ALLOWED'', ''CALLBACK_OVERRIDE_EXPIRED'']"

definition CG4_RULE_REGISTRY :: "(string \<times> Cg4RuleMetadata) list" where
  "CG4_RULE_REGISTRY =
     map (\<lambda>code. (code, hard code)) hard_rule_codes @
     [(''PREFERENCE_WINDOW_CLOSED'', callbackScoped ''PREFERENCE_WINDOW_CLOSED''),
      (''QUIET_HOURS'', operational ''QUIET_HOURS'' STANDARD [CUSTOMER_CALLBACK, APPROVED_EXCEPTION]),
      (''TENANT_HOLIDAY'', operational ''TENANT_HOLIDAY'' STANDARD [CUSTOMER_CALLBACK, APPROVED_EXCEPTION]),
      (''MIN_GAP'', operational ''MIN_GAP'' HIGH [APPROVED_EXCEPTION]),
      (''DAILY_ATTEMPT_CAP'', operational ''DAILY_ATTEMPT_CAP'' HIGH [APPROVED_EXCEPTION]),
      (''DAILY_TOUCH_CAP'', operational ''DAILY_TOUCH_CAP'' HIGH [APPROVED_EXCEPTION])]"

definition unknownRule :: "string \<Rightarrow> Cg4RuleMetadata" where
  "unknownRule ruleCode =
     \<lparr>rm_ruleCode = ruleCode, rm_ruleClass = NON_OVERRIDABLE, rm_overridable = False,
      rm_allowedOverrideMechanisms = [], rm_supportedExceptionScopes = [], rm_riskFloor = None,
      rm_platformLifetimeCapSeconds = NO_LIFETIME,
      rm_registryVersion = CG4_RULE_REGISTRY_VERSION\<rparr>"

text \<open>
  \<open>CG4_RULE_REGISTRY[ruleCode]\<close> also finds the members every object inherits from
  \<open>Object.prototype\<close>, so a code such as \<open>constructor\<close> resolves to a foreign object. Of that
  object the callers only read \<open>overridable\<close>, which is \<open>undefined\<close>.
\<close>

datatype rule_lookup = RuleEntry Cg4RuleMetadata | InheritedMember string

fun lookup_overridable :: "rule_lookup \<Rightarrow> bool" where
  "lookup_overridable (RuleEntry m) = rm_overridable m"
| "lookup_overridable (InheritedMember _) = False"

record Cg4RuleResolution =
  rr_known :: bool
  rr_metadata :: rule_lookup

definition resolveCg4RuleMetadata :: "string \<Rightarrow> Cg4RuleResolution" where
  "resolveCg4RuleMetadata ruleCode =
     (case map_of CG4_RULE_REGISTRY ruleCode of
        Some m \<Rightarrow> \<lparr>rr_known = True, rr_metadata = RuleEntry m\<rparr>
      | None \<Rightarrow>
          if ruleCode \<in> set object_prototype_members
          then \<lparr>rr_known = True, rr_metadata = InheritedMember ruleCode\<rparr>
          else \<lparr>rr_known = False, rr_metadata = RuleEntry (unknownRule ruleCode)\<rparr>)"

section \<open>Override eligibility\<close>

datatype Cg4OverrideIneligibilityReason =
    RULE_NOT_REGISTERED
  | NON_OVERRIDABLE_RULE
  | OVERRIDE_MECHANISM_NOT_ALLOWED
  | SCOPE_NOT_SUPPORTED
  | RULE_NOT_ENABLED_BY_POLICY
  | RULE_SET_INVALID
  | RISK_TIER_UNSUPPORTED
  | RISK_TIER_TOO_LOW
  | LIFETIME_EXCEEDS_CAP

datatype Cg4OverrideEligibility =
    Eligible Cg4RuleMetadata int
  | Ineligible Cg4OverrideIneligibilityReason rule_lookup

definition RISK_RANK :: "Cg4ExceptionRiskTier \<Rightarrow> int" where
  "RISK_RANK tier = (case tier of STANDARD \<Rightarrow> 0 | HIGH \<Rightarrow> 1 | EMERGENCY \<Rightarrow> 2)"

record Cg4OverrideEligibilityInput =
  oe_ruleCode :: string
  oe_mechanism :: Cg4OverrideMechanism
  oe_identityScope :: Cg4IdentityScopeKind
  oe_policyAllowedRuleCodes :: "string list"
  oe_riskTier :: Cg4ExceptionRiskTier
  oe_requestedRuleCount :: int
  oe_lifetimeSeconds :: int

definition effectiveRiskFloor ::
  "Cg4OverrideEligibilityInput \<Rightarrow> Cg4RuleMetadata \<Rightarrow> Cg4ExceptionRiskTier option" where
  "effectiveRiskFloor i m =
     (if oe_identityScope i = CONTACT_WIDE \<or> oe_requestedRuleCount i > 1 then Some HIGH
      else rm_riskFloor m)"

text \<open>
  The tier is a value of the closed union, so the \<open>Object.hasOwn(RISK_RANK, ...)\<close> test always
  succeeds; the counts are integers, so the \<open>Number.isInteger\<close> tests do too.
\<close>

fun eligibility_of_entry :: "Cg4OverrideEligibilityInput \<Rightarrow> rule_lookup \<Rightarrow> Cg4OverrideEligibility" where
  "eligibility_of_entry i (InheritedMember c) = Ineligible NON_OVERRIDABLE_RULE (InheritedMember c)"
| "eligibility_of_entry i (RuleEntry m) =
     (if \<not> rm_overridable m then Ineligible NON_OVERRIDABLE_RULE (RuleEntry m)
      else if oe_mechanism i \<notin> set (rm_allowedOverrideMechanisms m)
        then Ineligible OVERRIDE_MECHANISM_NOT_ALLOWED (RuleEntry m)
      else if oe_identityScope i \<notin> set (rm_supportedExceptionScopes m)
        then Ineligible SCOPE_NOT_SUPPORTED (RuleEntry m)
      else if oe_ruleCode i \<notin> set (oe_policyAllowedRuleCodes i)
        then Ineligible RULE_NOT_ENABLED_BY_POLICY (RuleEntry m)
      else if oe_requestedRuleCount i \<le> 0 then Ineligible RULE_SET_INVALID (RuleEntry m)
      else if (case effectiveRiskFloor i m of None \<Rightarrow> False
               | Some fl \<Rightarrow> RISK_RANK (oe_riskTier i) < RISK_RANK fl)
        then Ineligible RISK_TIER_TOO_LOW (RuleEntry m)
      else let lifetimeCapSeconds = rm_platformLifetimeCapSeconds m (oe_riskTier i) in
        if oe_lifetimeSeconds i \<le> 0 \<or> oe_lifetimeSeconds i > lifetimeCapSeconds
        then Ineligible LIFETIME_EXCEEDS_CAP (RuleEntry m)
        else Eligible m lifetimeCapSeconds)"

definition resolveCg4OverrideEligibility :: "Cg4OverrideEligibilityInput \<Rightarrow> Cg4OverrideEligibility" where
  "resolveCg4OverrideEligibility i =
     (let resolution = resolveCg4RuleMetadata (oe_ruleCode i) in
      if \<not> rr_known resolution then Ineligible RULE_NOT_REGISTERED (rr_metadata resolution)
      else eligibility_of_entry i (rr_metadata resolution))"

section \<open>Properties of the registry\<close>

definition exception_rule_codes :: "string list" where
  "exception_rule_codes =
     [''QUIET_HOURS'', ''TENANT_HOLIDAY'', ''MIN_GAP'', ''DAILY_ATTEMPT_CAP'', ''DAILY_TOUCH_CAP'']"

definition callback_rule_codes :: "string list" where
  "callback_rule_codes = [''PREFERENCE_WINDOW_CLOSED'', ''QUIET_HOURS'', ''TENANT_HOLIDAY'']"

lemmas rule_builder_defs = rule_def hard_def callbackScoped_def operational_def

lemma rm_overridable_hard [simp]: "\<not> rm_overridable (hard c)"
  by (simp add: rule_builder_defs)

lemma registry_entry_cases:
  assumes "map_of CG4_RULE_REGISTRY c = Some m"
  obtains (hard) "c \<in> set hard_rule_codes" "m = hard c"
    | (callback) "c = ''PREFERENCE_WINDOW_CLOSED''" "m = callbackScoped c"
    | (temporal) "c \<in> {''QUIET_HOURS'', ''TENANT_HOLIDAY''}"
        "m = operational c STANDARD [CUSTOMER_CALLBACK, APPROVED_EXCEPTION]"
    | (cap) "c \<in> {''MIN_GAP'', ''DAILY_ATTEMPT_CAP'', ''DAILY_TOUCH_CAP''}"
        "m = operational c HIGH [APPROVED_EXCEPTION]"
proof -
  from assms have "(c, m) \<in> set CG4_RULE_REGISTRY" by (rule map_of_SomeD)
  then show ?thesis
    unfolding CG4_RULE_REGISTRY_def set_append Un_iff
    by (elim disjE) (auto intro: that)
qed

lemma registry_hard:
  assumes "c \<in> set hard_rule_codes"
  shows "map_of CG4_RULE_REGISTRY c = Some (hard c)"
proof -
  have "map_of (map (\<lambda>code. (code, hard code)) hard_rule_codes) c = Some (hard c)"
    using assms by (simp add: map_of_map_restrict)
  then show ?thesis by (simp add: CG4_RULE_REGISTRY_def map_add_Some_iff)
qed

lemma resolve_hard [simp]:
  "c \<in> set hard_rule_codes \<Longrightarrow>
     resolveCg4RuleMetadata c = \<lparr>rr_known = True, rr_metadata = RuleEntry (hard c)\<rparr>"
  by (simp add: resolveCg4RuleMetadata_def registry_hard)

lemma registry_overridable:
  assumes "map_of CG4_RULE_REGISTRY c = Some m"
  shows "rm_overridable m \<longleftrightarrow> c \<notin> set hard_rule_codes"
  using assms
  by (cases rule: registry_entry_cases)
     (auto simp: rule_builder_defs registry_hard, auto simp: hard_rule_codes_def)

lemma registry_mechanism:
  assumes "map_of CG4_RULE_REGISTRY c = Some m"
  shows "APPROVED_EXCEPTION \<in> set (rm_allowedOverrideMechanisms m) \<longleftrightarrow> c \<in> set exception_rule_codes"
    and "CUSTOMER_CALLBACK \<in> set (rm_allowedOverrideMechanisms m) \<longleftrightarrow> c \<in> set callback_rule_codes"
  using assms
  by (cases rule: registry_entry_cases,
      auto simp: rule_builder_defs exception_rule_codes_def callback_rule_codes_def hard_rule_codes_def)+

lemma registry_lifetime:
  assumes "map_of CG4_RULE_REGISTRY c = Some m" and "rm_overridable m"
  shows "rm_platformLifetimeCapSeconds m = CG4_PLATFORM_LIFETIME_CAP_SECONDS"
    and "set (rm_supportedExceptionScopes m) = UNIV"
proof -
  have "set ALL_SCOPES = UNIV"
    by (auto simp: ALL_SCOPES_def intro: Cg4IdentityScopeKind.exhaust)
  with assms show "set (rm_supportedExceptionScopes m) = UNIV"
    by (cases rule: registry_entry_cases [OF assms(1)]) (auto simp: rule_builder_defs)
  from assms show "rm_platformLifetimeCapSeconds m = CG4_PLATFORM_LIFETIME_CAP_SECONDS"
    by (cases rule: registry_entry_cases [OF assms(1)]) (auto simp: rule_builder_defs)
qed

definition cap_rule_codes :: "string list" where
  "cap_rule_codes = [''MIN_GAP'', ''DAILY_ATTEMPT_CAP'', ''DAILY_TOUCH_CAP'']"

lemma registry_risk_floor:
  assumes "map_of CG4_RULE_REGISTRY c = Some m" and "rm_overridable m"
  shows "rm_riskFloor m = Some (if c \<in> set cap_rule_codes then HIGH else STANDARD)"
  using assms
  by (cases rule: registry_entry_cases [OF assms(1)])
     (auto simp: rule_builder_defs cap_rule_codes_def)

lemma registry_dom:
  assumes "c \<in> set exception_rule_codes \<union> set callback_rule_codes"
  shows "\<exists>m. map_of CG4_RULE_REGISTRY c = Some m"
proof -
  have "c \<in> fst ` set CG4_RULE_REGISTRY"
    using assms
    by (auto simp: CG4_RULE_REGISTRY_def exception_rule_codes_def callback_rule_codes_def image_Un)
  then show ?thesis by (metis map_of_eq_None_iff option.exhaust)
qed

lemma resolve_registered:
  "map_of CG4_RULE_REGISTRY c = Some m \<Longrightarrow>
     resolveCg4RuleMetadata c = \<lparr>rr_known = True, rr_metadata = RuleEntry m\<rparr>"
  by (simp add: resolveCg4RuleMetadata_def)

lemma eligible_entry:
  assumes "resolveCg4OverrideEligibility i = Eligible m cap"
  shows "map_of CG4_RULE_REGISTRY (oe_ruleCode i) = Some m"
  using assms
  by (auto simp: resolveCg4OverrideEligibility_def resolveCg4RuleMetadata_def Let_def
           split: option.splits if_splits)

lemma RISK_RANK_less_iff:
  "RISK_RANK t < RISK_RANK HIGH \<longleftrightarrow> t = STANDARD"
  "\<not> RISK_RANK t < RISK_RANK STANDARD"
  by (cases t; simp add: RISK_RANK_def)+

definition mechanism_rule_codes :: "Cg4OverrideMechanism \<Rightarrow> string list" where
  "mechanism_rule_codes m =
     (case m of CUSTOMER_CALLBACK \<Rightarrow> callback_rule_codes | APPROVED_EXCEPTION \<Rightarrow> exception_rule_codes)"

lemma registry_mechanism_codes:
  assumes "map_of CG4_RULE_REGISTRY c = Some m"
  shows "k \<in> set (rm_allowedOverrideMechanisms m) \<longleftrightarrow> c \<in> set (mechanism_rule_codes k)"
  using registry_mechanism [OF assms] by (cases k) (simp_all add: mechanism_rule_codes_def)

lemma eligibility_of_registered:
  assumes "map_of CG4_RULE_REGISTRY (oe_ruleCode i) = Some m"
  shows "(\<exists>m c. resolveCg4OverrideEligibility i = Eligible m c) \<longleftrightarrow>
     oe_ruleCode i \<in> set (mechanism_rule_codes (oe_mechanism i)) \<and>
     oe_ruleCode i \<in> set (oe_policyAllowedRuleCodes i) \<and>
     0 < oe_requestedRuleCount i \<and>
     (oe_riskTier i = STANDARD \<longrightarrow>
        oe_identityScope i = EXACT_IDENTITY \<and> oe_requestedRuleCount i = 1 \<and>
        oe_ruleCode i \<notin> set cap_rule_codes) \<and>
     0 < oe_lifetimeSeconds i \<and>
     oe_lifetimeSeconds i \<le> CG4_PLATFORM_LIFETIME_CAP_SECONDS (oe_riskTier i)"
    (is "?L \<longleftrightarrow> ?R")
proof (cases "rm_overridable m")
  case False
  then have "rm_allowedOverrideMechanisms m = []"
    using assms by (cases rule: registry_entry_cases [OF assms]) (auto simp: rule_builder_defs)
  with registry_mechanism_codes [OF assms] have "\<not> ?R" by auto
  moreover from False have "\<not> ?L"
    by (simp add: resolveCg4OverrideEligibility_def resolve_registered [OF assms])
  ultimately show ?thesis by blast
next
  case True
  note reg = registry_mechanism_codes [OF assms] registry_lifetime [OF assms True]
    registry_risk_floor [OF assms True]
  from True show ?thesis
    by (cases "oe_identityScope i")
       (auto simp: resolveCg4OverrideEligibility_def resolve_registered [OF assms] Let_def reg
             effectiveRiskFloor_def RISK_RANK_less_iff split: if_splits)
qed

text \<open>
  C16. An override is granted exactly when the rule is one the platform registry opens for the
  requested mechanism, the policy lists the rule, the request names at least one rule, a
  STANDARD request is for one exact identity, one rule and no frequency cap, and the lifetime
  is positive and within the platform cap of the tier.
\<close>

theorem override_eligible_iff:
  "(\<exists>m c. resolveCg4OverrideEligibility i = Eligible m c) \<longleftrightarrow>
     oe_ruleCode i \<in> set (mechanism_rule_codes (oe_mechanism i)) \<and>
     oe_ruleCode i \<in> set (oe_policyAllowedRuleCodes i) \<and>
     0 < oe_requestedRuleCount i \<and>
     (oe_riskTier i = STANDARD \<longrightarrow>
        oe_identityScope i = EXACT_IDENTITY \<and> oe_requestedRuleCount i = 1 \<and>
        oe_ruleCode i \<notin> set cap_rule_codes) \<and>
     0 < oe_lifetimeSeconds i \<and>
     oe_lifetimeSeconds i \<le> CG4_PLATFORM_LIFETIME_CAP_SECONDS (oe_riskTier i)"
proof (cases "map_of CG4_RULE_REGISTRY (oe_ruleCode i)")
  case None
  then have "oe_ruleCode i \<notin> set (mechanism_rule_codes (oe_mechanism i))"
    using registry_dom by (fastforce simp: mechanism_rule_codes_def split: Cg4OverrideMechanism.splits)
  moreover from None have "\<nexists>m c. resolveCg4OverrideEligibility i = Eligible m c"
    using eligible_entry by fastforce
  ultimately show ?thesis by blast
qed (rule eligibility_of_registered)

definition example_override_input :: Cg4OverrideEligibilityInput where
  "example_override_input =
     \<lparr>oe_ruleCode = ''QUIET_HOURS'', oe_mechanism = APPROVED_EXCEPTION,
      oe_identityScope = EXACT_IDENTITY, oe_policyAllowedRuleCodes = [''QUIET_HOURS''],
      oe_riskTier = STANDARD, oe_requestedRuleCount = 1, oe_lifetimeSeconds = 3600\<rparr>"

theorem override_eligible_iff_witness:
  "\<exists>m c. resolveCg4OverrideEligibility example_override_input = Eligible m c"
  unfolding override_eligible_iff [of example_override_input]
  by (simp add: example_override_input_def mechanism_rule_codes_def exception_rule_codes_def
      cap_rule_codes_def CG4_PLATFORM_LIFETIME_CAP_SECONDS_def)

text \<open>
  The registry fails closed: a hard rule, an unregistered code and a code inherited from
  \<open>Object.prototype\<close> are refused for every mechanism, scope, tier and lifetime.
\<close>

lemma protected_rules_never_overridable:
  "oe_ruleCode i \<notin> set (exception_rule_codes @ callback_rule_codes) \<Longrightarrow>
     \<exists>r md. resolveCg4OverrideEligibility i = Ineligible r md \<and>
       r \<in> {RULE_NOT_REGISTERED, NON_OVERRIDABLE_RULE}"
proof -
  assume a: "oe_ruleCode i \<notin> set (exception_rule_codes @ callback_rule_codes)"
  show ?thesis
  proof (cases "map_of CG4_RULE_REGISTRY (oe_ruleCode i)")
    case (Some m)
    with a have "\<not> rm_overridable m"
      by (cases rule: registry_entry_cases [OF Some])
         (auto simp: exception_rule_codes_def callback_rule_codes_def)
    then show ?thesis
      by (simp add: resolveCg4OverrideEligibility_def resolve_registered [OF Some])
  qed (simp add: resolveCg4OverrideEligibility_def resolveCg4RuleMetadata_def Let_def)
qed

section \<open>The interface the exception evaluator relies on\<close>

locale override_gate =
  fixes eligible :: "Cg4OverrideEligibilityInput \<Rightarrow> bool"
    and overridable :: "Cg4OverrideMechanism \<Rightarrow> string \<Rightarrow> bool"
  assumes eligible_overridable: "eligible i \<Longrightarrow> overridable (oe_mechanism i) (oe_ruleCode i)"
    and eligible_enabled: "eligible i \<Longrightarrow> oe_ruleCode i \<in> set (oe_policyAllowedRuleCodes i)"
    and eligible_lifetime: "eligible i \<Longrightarrow> 0 < oe_lifetimeSeconds i \<and>
      oe_lifetimeSeconds i \<le> CG4_PLATFORM_LIFETIME_CAP_SECONDS (oe_riskTier i)"
begin

text \<open>Whatever scan a client runs, what it finds through the gate carries the gate's promises.\<close>

lemma found_through_gate:
  assumes "find P xs = Some x" and "\<And>x. P x \<Longrightarrow> eligible (req x)"
  shows "x \<in> set xs" and "overridable (oe_mechanism (req x)) (oe_ruleCode (req x))"
    and "oe_ruleCode (req x) \<in> set (oe_policyAllowedRuleCodes (req x))"
    and "oe_lifetimeSeconds (req x) \<le> CG4_PLATFORM_LIFETIME_CAP_SECONDS (oe_riskTier (req x))"
  using find_Some_in [OF assms(1)] assms(2) eligible_overridable eligible_enabled eligible_lifetime
  by blast+

end

definition override_eligible :: "Cg4OverrideEligibilityInput \<Rightarrow> bool" where
  "override_eligible i = (case resolveCg4OverrideEligibility i of Eligible _ _ \<Rightarrow> True | _ \<Rightarrow> False)"

lemma override_eligible_conv:
  "override_eligible i \<longleftrightarrow> (\<exists>m c. resolveCg4OverrideEligibility i = Eligible m c)"
  by (auto simp: override_eligible_def split: Cg4OverrideEligibility.splits)

lemma override_eligible_laws:
  assumes "override_eligible i"
  shows "oe_ruleCode i \<in> set (mechanism_rule_codes (oe_mechanism i))"
    and "oe_ruleCode i \<in> set (oe_policyAllowedRuleCodes i)"
    and "0 < oe_lifetimeSeconds i \<and>
      oe_lifetimeSeconds i \<le> CG4_PLATFORM_LIFETIME_CAP_SECONDS (oe_riskTier i)"
  using assms eligible_entry [of i] eligibility_of_registered [of i]
  unfolding override_eligible_conv by blast+

interpretation registry_gate: override_gate override_eligible
  "\<lambda>k c. c \<in> set (mechanism_rule_codes k)"
  by unfold_locales (rule override_eligible_laws; assumption)+

end
