(* ===== verification/ExceptionEvaluation.thy ===== *)
theory ExceptionEvaluation
  imports RuleRegistry
begin

text \<open>
  Matching of approved exceptions (\<open>apps/contact-governance/src/cg4-exception-evaluation.ts\<close>):
  the effective state of an exception, its scope match, the rule coverage decision with its
  reasons, and the scan over the candidates. The lemmas show that the scan fails closed.
\<close>

section \<open>Facts\<close>

datatype Cg4ExceptionWorkflowState = PENDING | APPROVED | REJECTED | CANCELLED | REVOKED

datatype Cg4ExceptionEffectiveState = SCHEDULED | ACTIVE | EXPIRED | INACTIVE

record Cg4ExceptionFacts =
  ef_seriesId :: string
  ef_revisionId :: string
  ef_revision :: int
  ef_workflowState :: Cg4ExceptionWorkflowState
  ef_identityId :: "string option"
  ef_scopeKind :: Cg4IdentityScopeKind
  ef_channel :: ContactChannel
  ef_purpose :: string
  ef_sourceType :: string
  ef_sourceId :: string
  ef_allowedRuleCodes :: "string list"
  ef_policyId :: string
  ef_policyVersionId :: string
  ef_policyVersion :: int
  ef_policyContentDigest :: string
  ef_currentPolicyContentDigest :: "string option"
  ef_policyAllowedRuleCodes :: "string list"
  ef_registryVersion :: string
  ef_startsAt :: time_ms
  ef_expiresAt :: time_ms
  ef_tier :: Cg4ExceptionRiskTier
  ef_contentDigest :: string
  ef_approvalDigest :: string

record Cg4ExceptionMatchContext =
  mc_identityId :: "string option"
  mc_channel :: ContactChannel
  mc_purpose :: string
  mc_source :: string
  mc_sourceId :: string
  mc_now :: time_ms

record Cg4AppliedExceptionPin =
  pin_seriesId :: string
  pin_revisionId :: string
  pin_version :: int
  pin_contentDigest :: string
  pin_approvalDigest :: string
  pin_matchedRuleCode :: string

section \<open>Matching\<close>

definition resolveCg4EffectiveState ::
  "Cg4ExceptionWorkflowState \<Rightarrow> time_ms \<Rightarrow> time_ms \<Rightarrow> time_ms \<Rightarrow> Cg4ExceptionEffectiveState" where
  "resolveCg4EffectiveState workflowState startsAt expiresAt now =
     (if workflowState \<noteq> APPROVED then INACTIVE
      else if now < startsAt then SCHEDULED
      else if now \<ge> expiresAt then EXPIRED
      else ACTIVE)"

datatype Cg4ExceptionMismatchReason =
    NOT_ACTIVE
  | SCOPE_MISMATCH
  | RULE_NOT_COVERED
  | POLICY_BINDING_STALE
  | REGISTRY_VERSION_STALE
  | RULE_NOT_OVERRIDABLE

datatype Cg4ExceptionCoverage =
    Covered Cg4ExceptionFacts Cg4AppliedExceptionPin
  | NotCovered Cg4ExceptionMismatchReason

definition scopeMatches :: "Cg4ExceptionFacts \<Rightarrow> Cg4ExceptionMatchContext \<Rightarrow> bool" where
  "scopeMatches exc ctx \<longleftrightarrow>
     (let identityMatches =
        (if ef_scopeKind exc = CONTACT_WIDE then ef_identityId exc = None
         else ef_identityId exc \<noteq> None \<and> ef_identityId exc = mc_identityId ctx)
      in identityMatches \<and>
         ef_channel exc = mc_channel ctx \<and>
         ef_purpose exc = mc_purpose ctx \<and>
         ef_sourceType exc = mc_source ctx \<and>
         ef_sourceId exc = mc_sourceId ctx)"

text \<open>\<open>Math.floor((expiresAt - startsAt) / 1000)\<close> rounds down, as \<open>div\<close> on \<^typ>\<open>int\<close> does.\<close>

definition eligibilityInput :: "Cg4ExceptionFacts \<Rightarrow> string \<Rightarrow> Cg4OverrideEligibilityInput" where
  "eligibilityInput exc reasonCode =
     \<lparr>oe_ruleCode = reasonCode,
      oe_mechanism = APPROVED_EXCEPTION,
      oe_identityScope = ef_scopeKind exc,
      oe_policyAllowedRuleCodes = ef_policyAllowedRuleCodes exc,
      oe_riskTier = ef_tier exc,
      oe_requestedRuleCount = int (length (ef_allowedRuleCodes exc)),
      oe_lifetimeSeconds = (ef_expiresAt exc - ef_startsAt exc) div 1000\<rparr>"

definition exceptionPin :: "Cg4ExceptionFacts \<Rightarrow> string \<Rightarrow> Cg4AppliedExceptionPin" where
  "exceptionPin exc reasonCode =
     \<lparr>pin_seriesId = ef_seriesId exc, pin_revisionId = ef_revisionId exc,
      pin_version = ef_revision exc, pin_contentDigest = ef_contentDigest exc,
      pin_approvalDigest = ef_approvalDigest exc, pin_matchedRuleCode = reasonCode\<rparr>"

definition coversRule ::
  "Cg4ExceptionFacts \<Rightarrow> Cg4ExceptionMatchContext \<Rightarrow> string \<Rightarrow> Cg4ExceptionCoverage" where
  "coversRule exc ctx reasonCode =
     (let effectiveState = resolveCg4EffectiveState (ef_workflowState exc) (ef_startsAt exc)
            (ef_expiresAt exc) (mc_now ctx) in
      if effectiveState \<noteq> ACTIVE then NotCovered NOT_ACTIVE
      else if \<not> scopeMatches exc ctx then NotCovered SCOPE_MISMATCH
      else if reasonCode \<notin> set (ef_allowedRuleCodes exc) then NotCovered RULE_NOT_COVERED
      else if ef_registryVersion exc \<noteq> CG4_RULE_REGISTRY_VERSION
        then NotCovered REGISTRY_VERSION_STALE
      else if ef_currentPolicyContentDigest exc \<noteq> Some (ef_policyContentDigest exc)
        then NotCovered POLICY_BINDING_STALE
      else case resolveCg4OverrideEligibility (eligibilityInput exc reasonCode) of
             Ineligible _ _ \<Rightarrow> NotCovered RULE_NOT_OVERRIDABLE
           | Eligible _ _ \<Rightarrow> Covered exc (exceptionPin exc reasonCode))"

fun coverage_scan ::
  "Cg4ExceptionFacts list \<Rightarrow> Cg4ExceptionMatchContext \<Rightarrow> string \<Rightarrow> Cg4ExceptionMismatchReason \<Rightarrow>
     Cg4ExceptionCoverage" where
  "coverage_scan [] ctx reasonCode lastReason = NotCovered lastReason"
| "coverage_scan (exc # excs) ctx reasonCode lastReason =
     (case coversRule exc ctx reasonCode of
        Covered e p \<Rightarrow> Covered e p
      | NotCovered r \<Rightarrow> coverage_scan excs ctx reasonCode r)"

definition resolveCg4ExceptionCoverage ::
  "Cg4ExceptionFacts list \<Rightarrow> Cg4ExceptionMatchContext \<Rightarrow> string \<Rightarrow> Cg4ExceptionCoverage" where
  "resolveCg4ExceptionCoverage excs ctx reasonCode = coverage_scan excs ctx reasonCode RULE_NOT_COVERED"

record Cg4PolicyBinding =
  pb_policyId :: string
  pb_policyVersionId :: string
  pb_policyVersion :: int
  pb_policyContentDigest :: string
  pb_policySchemaVersion :: int
  pb_ruleRegistryVersion :: string
  pb_evaluatorVersion :: string

definition toCg4PolicyBinding :: "Cg4ExceptionFacts \<Rightarrow> Cg4PolicyBinding" where
  "toCg4PolicyBinding exc =
     \<lparr>pb_policyId = ef_policyId exc, pb_policyVersionId = ef_policyVersionId exc,
      pb_policyVersion = ef_policyVersion exc,
      pb_policyContentDigest = ef_policyContentDigest exc,
      pb_policySchemaVersion = CG4_POLICY_SCHEMA_VERSION,
      pb_ruleRegistryVersion = CG4_RULE_REGISTRY_VERSION,
      pb_evaluatorVersion = CG4_EVALUATOR_VERSION\<rparr>"

section \<open>Properties\<close>

lemma effective_active_iff:
  "resolveCg4EffectiveState w st ex now = ACTIVE \<longleftrightarrow> w = APPROVED \<and> st \<le> now \<and> now < ex"
  by (auto simp: resolveCg4EffectiveState_def)

definition is_covered :: "Cg4ExceptionMatchContext \<Rightarrow> string \<Rightarrow> Cg4ExceptionFacts \<Rightarrow> bool" where
  "is_covered ctx reasonCode exc = (case coversRule exc ctx reasonCode of Covered _ _ \<Rightarrow> True | _ \<Rightarrow> False)"

lemma coversRule_Covered_iff:
  "coversRule exc ctx rc = Covered e p \<longleftrightarrow>
     e = exc \<and> p = exceptionPin exc rc \<and>
     ef_workflowState exc = APPROVED \<and> ef_startsAt exc \<le> mc_now ctx \<and> mc_now ctx < ef_expiresAt exc \<and>
     scopeMatches exc ctx \<and> rc \<in> set (ef_allowedRuleCodes exc) \<and>
     ef_registryVersion exc = CG4_RULE_REGISTRY_VERSION \<and>
     ef_currentPolicyContentDigest exc = Some (ef_policyContentDigest exc) \<and>
     override_eligible (eligibilityInput exc rc)"
  by (auto simp: coversRule_def Let_def effective_active_iff override_eligible_def
           split: Cg4OverrideEligibility.splits)

lemma is_covered_conv: "is_covered ctx rc exc \<longleftrightarrow> coversRule exc ctx rc = Covered exc (exceptionPin exc rc)"
proof (cases "coversRule exc ctx rc")
  case (Covered e p)
  then have "e = exc \<and> p = exceptionPin exc rc" by (simp only: coversRule_Covered_iff)
  with Covered show ?thesis by (simp add: is_covered_def)
qed (simp add: is_covered_def)

lemma coverage_scan_find:
  "(case coverage_scan excs ctx rc r of Covered e p \<Rightarrow> Some (e, p) | NotCovered _ \<Rightarrow> None)
     = map_option (\<lambda>e. (e, exceptionPin e rc)) (find (is_covered ctx rc) excs)"
proof (induction excs arbitrary: r)
  case (Cons x excs)
  show ?case
  proof (cases "coversRule x ctx rc")
    case (Covered e p)
    then have "is_covered ctx rc x" by (simp add: is_covered_def)
    then show ?thesis by (simp add: is_covered_conv is_covered_def)
  next
    case (NotCovered r')
    then show ?thesis using Cons.IH by (simp add: is_covered_def)
  qed
qed simp

lemma coverage_Covered_iff:
  "resolveCg4ExceptionCoverage excs ctx rc = Covered e p \<longleftrightarrow>
     find (is_covered ctx rc) excs = Some e \<and> p = exceptionPin e rc"
  using coverage_scan_find [of excs ctx rc RULE_NOT_COVERED]
  by (cases "find (is_covered ctx rc) excs")
     (auto simp: resolveCg4ExceptionCoverage_def split: Cg4ExceptionCoverage.splits)

lemma is_covered_eligible: "is_covered ctx rc e \<Longrightarrow> override_eligible (eligibilityInput e rc)"
  by (simp add: is_covered_conv coversRule_Covered_iff)

lemma coverage_through_gate:
  assumes "resolveCg4ExceptionCoverage excs ctx rc = Covered e p"
  shows "e \<in> set excs" and "rc \<in> set exception_rule_codes" and "rc \<in> set (ef_policyAllowedRuleCodes e)"
proof -
  from assms have f: "find (is_covered ctx rc) excs = Some e"
    by (simp add: coverage_Covered_iff)
  note g = registry_gate.found_through_gate [where req = "\<lambda>e. eligibilityInput e rc",
      OF f is_covered_eligible]
  show "e \<in> set excs" by (rule g(1))
  show "rc \<in> set exception_rule_codes"
    using g(2) by (simp add: eligibilityInput_def mechanism_rule_codes_def)
  show "rc \<in> set (ef_policyAllowedRuleCodes e)"
    using g(3) by (simp add: eligibilityInput_def)
qed

text \<open>
  C17. An exception that is applied was approved, is inside its validity window (expiry excluded),
  matches every scope dimension exactly, lists the failed rule, is bound to the current registry
  version and to the policy content it was approved against, and lifts a rule that both the
  platform registry and the pinned policy open for approved exceptions.
\<close>

theorem applied_exception_is_exact:
  assumes "resolveCg4ExceptionCoverage excs ctx rc = Covered e p"
  shows "e \<in> set excs \<and> ef_workflowState e = APPROVED \<and>
     ef_startsAt e \<le> mc_now ctx \<and> mc_now ctx < ef_expiresAt e \<and>
     ef_channel e = mc_channel ctx \<and> ef_purpose e = mc_purpose ctx \<and>
     ef_sourceType e = mc_source ctx \<and> ef_sourceId e = mc_sourceId ctx \<and>
     (ef_scopeKind e = EXACT_IDENTITY \<longrightarrow> ef_identityId e = mc_identityId ctx \<and> mc_identityId ctx \<noteq> None) \<and>
     (ef_scopeKind e = CONTACT_WIDE \<longrightarrow> ef_identityId e = None) \<and>
     rc \<in> set (ef_allowedRuleCodes e) \<and> rc \<in> set (ef_policyAllowedRuleCodes e) \<and>
     rc \<in> set exception_rule_codes \<and>
     ef_registryVersion e = CG4_RULE_REGISTRY_VERSION \<and>
     ef_currentPolicyContentDigest e = Some (ef_policyContentDigest e) \<and>
     pin_seriesId p = ef_seriesId e \<and> pin_matchedRuleCode p = rc"
proof -
  from assms have "is_covered ctx rc e" and p: "p = exceptionPin e rc"
    using find_Some_in by (fastforce simp: coverage_Covered_iff)+
  then have c: "coversRule e ctx rc = Covered e (exceptionPin e rc)"
    by (simp add: is_covered_conv)
  then have "scopeMatches e ctx" by (simp add: coversRule_Covered_iff)
  with c coverage_through_gate [OF assms] p show ?thesis
    by (auto simp: coversRule_Covered_iff scopeMatches_def exceptionPin_def Let_def)
qed

definition example_exception :: Cg4ExceptionFacts where
  "example_exception =
     \<lparr>ef_seriesId = ''s1'', ef_revisionId = ''r1'', ef_revision = 1, ef_workflowState = APPROVED,
      ef_identityId = Some ''id1'', ef_scopeKind = EXACT_IDENTITY, ef_channel = LINE,
      ef_purpose = ''billing'', ef_sourceType = ''JOURNEY'', ef_sourceId = ''j1'',
      ef_allowedRuleCodes = [''QUIET_HOURS''], ef_policyId = ''p'', ef_policyVersionId = ''pv'',
      ef_policyVersion = 1, ef_policyContentDigest = ''d'',
      ef_currentPolicyContentDigest = Some ''d'', ef_policyAllowedRuleCodes = [''QUIET_HOURS''],
      ef_registryVersion = CG4_RULE_REGISTRY_VERSION, ef_startsAt = 0, ef_expiresAt = 3600000,
      ef_tier = STANDARD, ef_contentDigest = ''c'', ef_approvalDigest = ''a''\<rparr>"

definition example_match_context :: Cg4ExceptionMatchContext where
  "example_match_context =
     \<lparr>mc_identityId = Some ''id1'', mc_channel = LINE, mc_purpose = ''billing'',
      mc_source = ''JOURNEY'', mc_sourceId = ''j1'', mc_now = 1000\<rparr>"

lemma example_eligible:
  "override_eligible (eligibilityInput example_exception ''QUIET_HOURS'')"
proof -
  have q: "''QUIET_HOURS'' \<in> set exception_rule_codes" by (simp add: exception_rule_codes_def)
  then obtain m where "map_of CG4_RULE_REGISTRY ''QUIET_HOURS'' = Some m"
    using registry_dom by blast
  then have "map_of CG4_RULE_REGISTRY (oe_ruleCode (eligibilityInput example_exception ''QUIET_HOURS'')) = Some m"
    by (simp add: eligibilityInput_def)
  from eligibility_of_registered [OF this] show ?thesis
    unfolding override_eligible_conv
    by (simp add: eligibilityInput_def example_exception_def mechanism_rule_codes_def q
        cap_rule_codes_def CG4_PLATFORM_LIFETIME_CAP_SECONDS_def)
qed

lemma example_exception_covers:
  "resolveCg4ExceptionCoverage [example_exception] example_match_context ''QUIET_HOURS''
     = Covered example_exception (exceptionPin example_exception ''QUIET_HOURS'')"
proof -
  have "scopeMatches example_exception example_match_context"
    by (simp add: scopeMatches_def example_exception_def example_match_context_def)
  moreover have "ef_workflowState example_exception = APPROVED"
    "ef_startsAt example_exception \<le> mc_now example_match_context"
    "mc_now example_match_context < ef_expiresAt example_exception"
    "''QUIET_HOURS'' \<in> set (ef_allowedRuleCodes example_exception)"
    "ef_registryVersion example_exception = CG4_RULE_REGISTRY_VERSION"
    "ef_currentPolicyContentDigest example_exception = Some (ef_policyContentDigest example_exception)"
    by (simp_all add: example_exception_def example_match_context_def)
  ultimately have "is_covered example_match_context ''QUIET_HOURS'' example_exception"
    using example_eligible by (simp add: is_covered_conv coversRule_Covered_iff)
  then show ?thesis by (simp add: coverage_Covered_iff)
qed

theorem applied_exception_is_exact_witness:
  "example_exception \<in> set [example_exception] \<and> ''QUIET_HOURS'' \<in> set exception_rule_codes \<and>
     mc_now example_match_context < ef_expiresAt example_exception"
  using applied_exception_is_exact [OF example_exception_covers] by blast

text \<open>
  The scan is complete and deterministic: it applies an exception exactly when some candidate
  covers the rule, and then the first such candidate in the caller's order; a candidate before it
  never changes the choice.
\<close>

lemma coverage_first_match:
  assumes "\<forall>x \<in> set pre. \<not> is_covered ctx rc x" and "is_covered ctx rc e"
  shows "resolveCg4ExceptionCoverage (pre @ e # post) ctx rc = Covered e (exceptionPin e rc)"
proof -
  from assms(1) have "find (is_covered ctx rc) (pre @ e # post) = Some e"
    by (induction pre) (simp_all add: assms(2))
  then show ?thesis by (simp add: coverage_Covered_iff)
qed

end
