(* ===== verification/Authorization.thy ===== *)
theory Authorization
  imports RuleRegistry
begin

text \<open>
  Maker-checker authorization (\<open>apps/contact-governance/src/cg4-authorization-engine.ts\<close>) and the
  quorum tables of \<open>packages/cxa-contracts/src/contact-governance-cg4-authorization.ts\<close>. Instants
  that the sources carry as ISO strings are modelled by the instant they denote.
\<close>

section \<open>Contract types\<close>

datatype Cg4Capability =
    ExceptionRequest
  | ExceptionAmend
  | ExceptionApproveStandard
  | ExceptionApproveHigh
  | ExceptionRevoke
  | PolicyDraft
  | PolicyPublish
  | PolicyPublishRelaxation
  | PolicyRollback

definition CG4_DELEGABLE_CAPABILITIES :: "Cg4Capability list" where
  "CG4_DELEGABLE_CAPABILITIES = [ExceptionRequest, ExceptionApproveStandard]"

datatype Cg4CapabilityGrantSource = DIRECT | DELEGATED

datatype Cg4AuthenticationStrength = StandardStrength | StrongStrength

record Cg4CapabilityGrant =
  cg_capability :: Cg4Capability
  cg_scopeKey :: string
  cg_source :: Cg4CapabilityGrantSource
  cg_delegationId :: "string option"
  cg_expiresAt :: "time_ms option"

record Cg4AuthorizationSubject =
  sub_subjectId :: string
  sub_tenantId :: string
  sub_authenticationStrength :: Cg4AuthenticationStrength
  sub_capabilities :: "Cg4CapabilityGrant list"
  sub_directComplianceAuthority :: bool
  sub_emergencyAuthority :: bool
  sub_authorizationEpoch :: int
  sub_scopeVersion :: int
  sub_evaluatedAt :: time_ms

record Cg4RecordedApproval =
  ra_checkerSubjectId :: string
  ra_capability :: Cg4Capability
  ra_directComplianceAuthority :: bool
  ra_emergencyAuthority :: bool
  ra_source :: Cg4CapabilityGrantSource
  ra_delegationId :: "string option"
  ra_authorizationEpoch :: int
  ra_scopeVersion :: int
  ra_decidedAt :: time_ms

record Cg4QuorumRequirement =
  qr_requiredApprovers :: nat
  qr_requireDirectCompliance :: nat
  qr_requireEmergencyAuthority :: nat
  qr_emergencyAcknowledgementWindowSeconds :: "int option"

datatype Cg4QuorumStatus =
    QuorumPending
  | QuorumMet
  | QuorumRejected
  | EmergencyActivatedAckPending
  | EmergencyAckExpired

record Cg4QuorumEvaluation =
  qe_status :: Cg4QuorumStatus
  qe_required :: nat
  qe_current :: nat
  qe_distinctApprovers :: "string list"

datatype Cg4PolicyDiffClass = TIGHTENING | NEUTRAL | RELAXATION

definition resolveCg4ExceptionQuorum :: "Cg4ExceptionRiskTier \<Rightarrow> Cg4QuorumRequirement" where
  "resolveCg4ExceptionQuorum tier =
     (case tier of
        STANDARD \<Rightarrow> \<lparr>qr_requiredApprovers = 1, qr_requireDirectCompliance = 0,
          qr_requireEmergencyAuthority = 0, qr_emergencyAcknowledgementWindowSeconds = None\<rparr>
      | HIGH \<Rightarrow> \<lparr>qr_requiredApprovers = 2, qr_requireDirectCompliance = 1,
          qr_requireEmergencyAuthority = 0, qr_emergencyAcknowledgementWindowSeconds = None\<rparr>
      | EMERGENCY \<Rightarrow> \<lparr>qr_requiredApprovers = 2, qr_requireDirectCompliance = 1,
          qr_requireEmergencyAuthority = 1,
          qr_emergencyAcknowledgementWindowSeconds = Some (15 * 60)\<rparr>)"

definition resolveCg4PolicyQuorum :: "Cg4PolicyDiffClass \<Rightarrow> Cg4QuorumRequirement" where
  "resolveCg4PolicyQuorum diffClass =
     (if diffClass = RELAXATION
      then \<lparr>qr_requiredApprovers = 2, qr_requireDirectCompliance = 1,
        qr_requireEmergencyAuthority = 0, qr_emergencyAcknowledgementWindowSeconds = None\<rparr>
      else \<lparr>qr_requiredApprovers = 1, qr_requireDirectCompliance = 1,
        qr_requireEmergencyAuthority = 0, qr_emergencyAcknowledgementWindowSeconds = None\<rparr>)"

section \<open>Errors\<close>

datatype delegation_refusal =
    DelegatedGrantNotDelegable
  | CapabilityNotDelegable
  | DelegateIsDelegator
  | SubDelegation
  | ServicePrincipalDelegate
  | WindowTooLong

datatype cg4_auth_error =
    Cg4CapabilityRequiredError Cg4Capability
  | Cg4SelfApprovalError
  | Cg4DuplicateCheckerError
  | Cg4DelegationNotAllowedError delegation_refusal
  | Cg4ApprovalStaleError
  | Cg4QuorumNotMetError nat nat
  | DelegationRangeError

section \<open>Capability checks\<close>

definition findActiveGrant ::
  "Cg4AuthorizationSubject \<Rightarrow> Cg4Capability \<Rightarrow> string \<Rightarrow> time_ms \<Rightarrow> Cg4CapabilityGrant option" where
  "findActiveGrant subject capability scopeKey now =
     find (\<lambda>grant. cg_capability grant = capability \<and> cg_scopeKey grant = scopeKey \<and>
             (case cg_expiresAt grant of None \<Rightarrow> True | Some e \<Rightarrow> e > now))
       (sub_capabilities subject)"

definition assertDelegationAllowed :: "Cg4Capability \<Rightarrow> Cg4CapabilityGrant \<Rightarrow> cg4_auth_error + unit" where
  "assertDelegationAllowed capability grant =
     throw_if (cg_source grant = DELEGATED \<and> capability \<notin> set CG4_DELEGABLE_CAPABILITIES)
       (Cg4DelegationNotAllowedError DelegatedGrantNotDelegable)"

definition assertCg4RequestAuthorization ::
  "Cg4AuthorizationSubject \<Rightarrow> Cg4Capability \<Rightarrow> string \<Rightarrow> time_ms \<Rightarrow> cg4_auth_error + unit" where
  "assertCg4RequestAuthorization subject capability scopeKey now =
     (case findActiveGrant subject capability scopeKey now of
        None \<Rightarrow> Inl (Cg4CapabilityRequiredError capability)
      | Some grant \<Rightarrow> assertDelegationAllowed capability grant)"

record AssertCg4ApprovalAuthorizationInput =
  aa_requiredCapability :: Cg4Capability
  aa_checker :: Cg4AuthorizationSubject
  aa_scopeKey :: string
  aa_makerSubjectId :: string
  aa_existingApprovals :: "Cg4RecordedApproval list"
  aa_now :: time_ms

definition assertCg4ApprovalAuthorization ::
  "AssertCg4ApprovalAuthorizationInput \<Rightarrow> cg4_auth_error + Cg4CapabilityGrant" where
  "assertCg4ApprovalAuthorization i =
     (if sub_subjectId (aa_checker i) = aa_makerSubjectId i then Inl Cg4SelfApprovalError
      else if list_ex (\<lambda>a. ra_checkerSubjectId a = sub_subjectId (aa_checker i)) (aa_existingApprovals i)
        then Inl Cg4DuplicateCheckerError
      else case findActiveGrant (aa_checker i) (aa_requiredCapability i) (aa_scopeKey i) (aa_now i) of
             None \<Rightarrow> Inl (Cg4CapabilityRequiredError (aa_requiredCapability i))
           | Some grant \<Rightarrow>
               rbind (assertDelegationAllowed (aa_requiredCapability i) grant) (\<lambda>_. Inr grant))"

definition isCg4ApprovalStale :: "Cg4RecordedApproval \<Rightarrow> Cg4AuthorizationSubject \<Rightarrow> bool" where
  "isCg4ApprovalStale approval currentSubject \<longleftrightarrow>
     ra_authorizationEpoch approval \<noteq> sub_authorizationEpoch currentSubject \<or>
     ra_scopeVersion approval \<noteq> sub_scopeVersion currentSubject"

definition assertCg4ApprovalFresh ::
  "Cg4RecordedApproval \<Rightarrow> Cg4AuthorizationSubject \<Rightarrow> cg4_auth_error + unit" where
  "assertCg4ApprovalFresh approval currentSubject =
     throw_if (isCg4ApprovalStale approval currentSubject) Cg4ApprovalStaleError"

definition resolveCg4RequiredExceptionCapability :: "Cg4ExceptionRiskTier \<Rightarrow> Cg4Capability" where
  "resolveCg4RequiredExceptionCapability tier =
     (if tier = STANDARD then ExceptionApproveStandard else ExceptionApproveHigh)"

definition resolveCg4RequiredPolicyCapability :: "Cg4PolicyDiffClass \<Rightarrow> Cg4Capability" where
  "resolveCg4RequiredPolicyCapability diffClass =
     (if diffClass = RELAXATION then PolicyPublishRelaxation else PolicyPublish)"

section \<open>Quorum\<close>

definition distinctBySubject :: "Cg4RecordedApproval list \<Rightarrow> (string \<times> Cg4RecordedApproval) list" where
  "distinctBySubject approvals =
     fold (\<lambda>approval m. js_map_set (ra_checkerSubjectId approval) approval m) approvals []"

definition evaluateCg4Quorum ::
  "Cg4QuorumRequirement \<Rightarrow> Cg4RecordedApproval list \<Rightarrow> bool \<Rightarrow> time_ms \<Rightarrow> Cg4QuorumEvaluation" where
  "evaluateCg4Quorum requirement approvals rejected now =
     (let distinctApprovals = map snd (distinctBySubject approvals);
          approvers = map ra_checkerSubjectId distinctApprovals;
          current = length distinctApprovals;
          evaluation = (\<lambda>status. \<lparr>qe_status = status, qe_required = qr_requiredApprovers requirement,
            qe_current = current, qe_distinctApprovers = approvers\<rparr>) in
      if rejected then evaluation QuorumRejected
      else
        let directComplianceCount = length (filter ra_directComplianceAuthority distinctApprovals);
            emergencyCount = length (filter ra_emergencyAuthority distinctApprovals);
            quorumSizeMet = (current \<ge> qr_requiredApprovers requirement);
            complianceMet = (directComplianceCount \<ge> qr_requireDirectCompliance requirement);
            emergencyMet = (emergencyCount \<ge> qr_requireEmergencyAuthority requirement) in
        case qr_emergencyAcknowledgementWindowSeconds requirement of
          Some window \<Rightarrow>
            (case find ra_emergencyAuthority distinctApprovals of
               None \<Rightarrow> evaluation QuorumPending
             | Some activation \<Rightarrow>
                 if quorumSizeMet \<and> complianceMet \<and> emergencyMet then evaluation QuorumMet
                 else let deadline = ra_decidedAt activation + window * 1000 in
                   evaluation (if now > deadline then EmergencyAckExpired
                               else EmergencyActivatedAckPending))
        | None \<Rightarrow> evaluation (if quorumSizeMet \<and> complianceMet then QuorumMet else QuorumPending))"

definition assertCg4QuorumMet :: "Cg4QuorumEvaluation \<Rightarrow> cg4_auth_error + unit" where
  "assertCg4QuorumMet evaluation =
     throw_if (qe_status evaluation \<noteq> QuorumMet)
       (Cg4QuorumNotMetError (qe_required evaluation) (qe_current evaluation))"

section \<open>Delegation\<close>

definition CG4_DELEGATION_MAX_WINDOW_MS :: time_ms where
  "CG4_DELEGATION_MAX_WINDOW_MS = 8 * 60 * 60 * 1000"

record AssertCg4DelegationGrantAllowedInput =
  dg_capability :: Cg4Capability
  dg_delegatorSubjectId :: string
  dg_delegateSubjectId :: string
  dg_delegatorHoldsCapabilityDirectly :: bool
  dg_delegateIsServicePrincipal :: bool
  dg_startsAt :: time_ms
  dg_expiresAt :: time_ms

definition assertCg4DelegationGrantAllowed ::
  "AssertCg4DelegationGrantAllowedInput \<Rightarrow> cg4_auth_error + unit" where
  "assertCg4DelegationGrantAllowed i =
     (if dg_capability i \<notin> set CG4_DELEGABLE_CAPABILITIES
        then Inl (Cg4DelegationNotAllowedError CapabilityNotDelegable)
      else if dg_delegatorSubjectId i = dg_delegateSubjectId i
        then Inl (Cg4DelegationNotAllowedError DelegateIsDelegator)
      else if \<not> dg_delegatorHoldsCapabilityDirectly i
        then Inl (Cg4DelegationNotAllowedError SubDelegation)
      else if dg_delegateIsServicePrincipal i
        then Inl (Cg4DelegationNotAllowedError ServicePrincipalDelegate)
      else if dg_expiresAt i \<le> dg_startsAt i then Inl DelegationRangeError
      else if dg_expiresAt i - dg_startsAt i > CG4_DELEGATION_MAX_WINDOW_MS
        then Inl (Cg4DelegationNotAllowedError WindowTooLong)
      else Inr ())"

section \<open>Properties\<close>

text \<open>The insertion-ordered map of the votes: one entry per checker, the vote being the last one.\<close>

lemma fold_votes:
  fixes m :: "(string \<times> Cg4RecordedApproval) list" and approvals :: "Cg4RecordedApproval list"
  assumes "\<forall>(k, v) \<in> set m. k = ra_checkerSubjectId v" and "distinct (map fst m)"
  defines "m' \<equiv> fold (\<lambda>a m. js_map_set (ra_checkerSubjectId a) a m) approvals m"
  shows "distinct (map fst m')"
    and "\<forall>(k, v) \<in> set m'. k = ra_checkerSubjectId v"
    and "fst ` set m' = fst ` set m \<union> ra_checkerSubjectId ` set approvals"
    and "snd ` set m' \<subseteq> snd ` set m \<union> set approvals"
proof -
  have "distinct (map fst m') \<and> (\<forall>(k, v) \<in> set m'. k = ra_checkerSubjectId v) \<and>
      fst ` set m' = fst ` set m \<union> ra_checkerSubjectId ` set approvals \<and>
      snd ` set m' \<subseteq> snd ` set m \<union> set approvals"
    unfolding m'_def using assms(1,2)
  proof (induction approvals arbitrary: m)
    case (Cons a as)
    let ?m = "js_map_set (ra_checkerSubjectId a) a m"
    have keys: "\<forall>(k, v) \<in> set ?m. k = ra_checkerSubjectId v"
      using Cons.prems(1) js_map_set_subset [of "ra_checkerSubjectId a" a m] by fastforce
    have dist: "distinct (map fst ?m)"
      using Cons.prems(2) by (rule js_map_set_distinct)
    have vals: "snd ` set ?m \<subseteq> insert a (snd ` set m)"
      using js_map_set_subset [of "ra_checkerSubjectId a" a m] by force
    note ih = Cons.IH [OF keys dist]
    from ih vals have "snd ` set (fold (\<lambda>a m. js_map_set (ra_checkerSubjectId a) a m) as ?m)
        \<subseteq> insert a (snd ` set m) \<union> set as"
      by blast
    with ih show ?case by (simp add: js_map_set_keys)
  qed simp
  then show "distinct (map fst m')" "\<forall>(k, v) \<in> set m'. k = ra_checkerSubjectId v"
    "fst ` set m' = fst ` set m \<union> ra_checkerSubjectId ` set approvals"
    "snd ` set m' \<subseteq> snd ` set m \<union> set approvals"
    by blast+
qed

lemmas votes_start = fold_votes [where m = "[]", simplified, folded distinctBySubject_def]

lemma distinctBySubject_approvers:
  "map (ra_checkerSubjectId \<circ> snd) (distinctBySubject approvals) = map fst (distinctBySubject approvals)"
  using votes_start(2) [of approvals] by (auto intro!: map_cong)

lemma quorum_approvers:
  "distinct (qe_distinctApprovers (evaluateCg4Quorum req approvals rejected now))"
  "set (qe_distinctApprovers (evaluateCg4Quorum req approvals rejected now)) =
     ra_checkerSubjectId ` set approvals"
  "qe_current (evaluateCg4Quorum req approvals rejected now) = card (ra_checkerSubjectId ` set approvals)"
proof -
  let ?e = "evaluateCg4Quorum req approvals rejected now"
  have d: "qe_distinctApprovers ?e = map fst (distinctBySubject approvals)"
    unfolding distinctBySubject_approvers [symmetric]
    by (simp add: evaluateCg4Quorum_def Let_def split: option.splits)
  show "distinct (qe_distinctApprovers ?e)"
    unfolding d by (rule votes_start(1))
  show s: "set (qe_distinctApprovers ?e) = ra_checkerSubjectId ` set approvals"
    unfolding d using votes_start(3) [of approvals] by simp
  have "qe_current ?e = length (qe_distinctApprovers ?e)"
    by (simp add: evaluateCg4Quorum_def Let_def split: option.splits)
  also have "\<dots> = card (set (qe_distinctApprovers ?e))"
    unfolding d using distinct_card [OF votes_start(1)] by metis
  finally show "qe_current ?e = card (ra_checkerSubjectId ` set approvals)"
    unfolding s .
qed

lemma filter_length_pos: "0 < length (filter P xs) \<longleftrightarrow> (\<exists>x \<in> set xs. P x)"
  by (auto simp: filter_empty_conv)

lemma quorum_met_counts:
  assumes "qe_status (evaluateCg4Quorum req approvals rejected now) = QuorumMet"
  shows "\<not> rejected"
    and "qr_requiredApprovers req \<le> card (ra_checkerSubjectId ` set approvals)"
    and "0 < qr_requireDirectCompliance req \<Longrightarrow> \<exists>a \<in> set approvals. ra_directComplianceAuthority a"
    and "qr_emergencyAcknowledgementWindowSeconds req \<noteq> None \<Longrightarrow>
      \<exists>a \<in> set approvals. ra_emergencyAuthority a"
proof -
  let ?d = "map snd (distinctBySubject approvals)"
  have in_votes: "\<exists>a \<in> set ?d. P a \<Longrightarrow> \<exists>a \<in> set approvals. P a" for P
    using votes_start(4) [of approvals] by auto
  from assms have "\<not> rejected \<and> qr_requiredApprovers req \<le> length ?d \<and>
      qr_requireDirectCompliance req \<le> length (filter ra_directComplianceAuthority ?d) \<and>
      (qr_emergencyAcknowledgementWindowSeconds req \<noteq> None \<longrightarrow> find ra_emergencyAuthority ?d \<noteq> None)"
    by (auto simp: evaluateCg4Quorum_def Let_def simp del: length_map
             split: option.splits if_splits)
  then have r: "\<not> rejected" and n: "qr_requiredApprovers req \<le> length ?d"
    and c: "qr_requireDirectCompliance req \<le> length (filter ra_directComplianceAuthority ?d)"
    and e: "qr_emergencyAcknowledgementWindowSeconds req \<noteq> None \<Longrightarrow> find ra_emergencyAuthority ?d \<noteq> None"
    by blast+
  from r show "\<not> rejected" .
  have "qe_current (evaluateCg4Quorum req approvals rejected now) = length ?d"
    by (simp add: evaluateCg4Quorum_def Let_def split: option.splits)
  with n quorum_approvers(3) show "qr_requiredApprovers req \<le> card (ra_checkerSubjectId ` set approvals)"
    by metis
  show "\<exists>a \<in> set approvals. ra_directComplianceAuthority a" if "0 < qr_requireDirectCompliance req"
    using c that by (intro in_votes) (metis filter_length_pos less_le_trans)
  show "\<exists>a \<in> set approvals. ra_emergencyAuthority a"
    if "qr_emergencyAcknowledgementWindowSeconds req \<noteq> None"
    using e [OF that] by (intro in_votes) (auto simp: find_None_iff)
qed

lemma list_ex_image: "list_ex (\<lambda>a. f a = x) as \<longleftrightarrow> x \<in> f ` set as"
  by (auto simp: list_ex_iff)

lemma approval_authorized_iff:
  "assertCg4ApprovalAuthorization i = Inr g \<longleftrightarrow>
     sub_subjectId (aa_checker i) \<noteq> aa_makerSubjectId i \<and>
     sub_subjectId (aa_checker i) \<notin> ra_checkerSubjectId ` set (aa_existingApprovals i) \<and>
     findActiveGrant (aa_checker i) (aa_requiredCapability i) (aa_scopeKey i) (aa_now i) = Some g \<and>
     \<not> (cg_source g = DELEGATED \<and> aa_requiredCapability i \<notin> set CG4_DELEGABLE_CAPABILITIES)"
  by (auto simp: assertCg4ApprovalAuthorization_def assertDelegationAllowed_def list_ex_image
      result_simps split: option.splits)

lemma active_grant_facts:
  assumes "findActiveGrant s c k now = Some g"
  shows "g \<in> set (sub_capabilities s)" "cg_capability g = c" "cg_scopeKey g = k"
    "\<forall>e. cg_expiresAt g = Some e \<longrightarrow> now < e"
  using assms by (auto simp: findActiveGrant_def dest!: find_Some_in split: option.splits)

text \<open>
  A vote is admitted only from a checker who is not the maker, has not voted on this revision,
  and holds an unexpired grant of exactly the required capability and scope; a delegated grant
  is enough only for the two delegable capabilities, so never for a HIGH or EMERGENCY exception
  or a policy.
\<close>

lemma admitted_vote_separation_of_duties:
  assumes "assertCg4ApprovalAuthorization i = Inr g"
  shows "sub_subjectId (aa_checker i) \<noteq> aa_makerSubjectId i \<and>
     sub_subjectId (aa_checker i) \<notin> ra_checkerSubjectId ` set (aa_existingApprovals i) \<and>
     g \<in> set (sub_capabilities (aa_checker i)) \<and>
     cg_capability g = aa_requiredCapability i \<and> cg_scopeKey g = aa_scopeKey i \<and>
     (\<forall>e. cg_expiresAt g = Some e \<longrightarrow> aa_now i < e) \<and>
     (cg_source g = DELEGATED \<longrightarrow>
        aa_requiredCapability i \<in> {ExceptionRequest, ExceptionApproveStandard})"
proof -
  from assms have a: "findActiveGrant (aa_checker i) (aa_requiredCapability i) (aa_scopeKey i) (aa_now i) = Some g"
    by (simp add: approval_authorized_iff)
  from assms active_grant_facts [OF a] show ?thesis
    by (auto simp: approval_authorized_iff CG4_DELEGABLE_CAPABILITIES_def)
qed

definition example_checker :: Cg4AuthorizationSubject where
  "example_checker =
     \<lparr>sub_subjectId = ''bob'', sub_tenantId = ''t1'', sub_authenticationStrength = StrongStrength,
      sub_capabilities = [\<lparr>cg_capability = ExceptionApproveHigh, cg_scopeKey = ''k'', cg_source = DIRECT,
        cg_delegationId = None, cg_expiresAt = Some 100\<rparr>],
      sub_directComplianceAuthority = True, sub_emergencyAuthority = False,
      sub_authorizationEpoch = 1, sub_scopeVersion = 1, sub_evaluatedAt = 0\<rparr>"

definition example_vote_input :: AssertCg4ApprovalAuthorizationInput where
  "example_vote_input =
     \<lparr>aa_requiredCapability = ExceptionApproveHigh, aa_checker = example_checker, aa_scopeKey = ''k'',
      aa_makerSubjectId = ''alice'', aa_existingApprovals = [], aa_now = 50\<rparr>"

lemma admitted_vote_separation_of_duties_witness:
  "sub_subjectId (aa_checker example_vote_input) \<noteq> aa_makerSubjectId example_vote_input"
proof -
  have "assertCg4ApprovalAuthorization example_vote_input = Inr (hd (sub_capabilities example_checker))"
    by (simp add: approval_authorized_iff example_vote_input_def example_checker_def findActiveGrant_def)
  from admitted_vote_separation_of_duties [OF this] show ?thesis by blast
qed

text \<open>
  The two-person rule: whatever list of votes is presented, duplicates included, a HIGH or
  EMERGENCY exception or a relaxing policy reaches MET only with votes of two different subjects,
  one of them with direct Compliance authority, and an EMERGENCY exception only with a vote of an
  emergency authority as well.
\<close>

lemma quorum_met_two_persons:
  assumes "qe_status (evaluateCg4Quorum req approvals rejected now) = QuorumMet"
    and "req \<in> {resolveCg4ExceptionQuorum HIGH, resolveCg4ExceptionQuorum EMERGENCY,
      resolveCg4PolicyQuorum RELAXATION}"
  shows "\<not> rejected \<and>
     (\<exists>a \<in> set approvals. \<exists>b \<in> set approvals. ra_checkerSubjectId a \<noteq> ra_checkerSubjectId b) \<and>
     (\<exists>a \<in> set approvals. ra_directComplianceAuthority a) \<and>
     (req = resolveCg4ExceptionQuorum EMERGENCY \<longrightarrow> (\<exists>a \<in> set approvals. ra_emergencyAuthority a))"
proof -
  note q = quorum_met_counts [OF assms(1)]
  have "qr_requiredApprovers req = 2" "qr_requireDirectCompliance req = 1"
    using assms(2) by (auto simp: resolveCg4ExceptionQuorum_def resolveCg4PolicyQuorum_def)
  with q(2,3) have two: "2 \<le> card (ra_checkerSubjectId ` set approvals)"
    and compliance: "\<exists>a \<in> set approvals. ra_directComplianceAuthority a"
    by auto
  have "\<exists>a \<in> set approvals. \<exists>b \<in> set approvals. ra_checkerSubjectId a \<noteq> ra_checkerSubjectId b"
  proof (rule ccontr)
    assume "\<not> ?thesis"
    then have "\<forall>x \<in> ra_checkerSubjectId ` set approvals. \<forall>y \<in> ra_checkerSubjectId ` set approvals. x = y"
      by blast
    then have "card (ra_checkerSubjectId ` set approvals) \<le> Suc 0"
      by (subst card_le_Suc0_iff_eq) (rule finite_imageI, rule finite_set, assumption)
    with two show False by simp
  qed
  moreover have "req = resolveCg4ExceptionQuorum EMERGENCY \<longrightarrow> (\<exists>a \<in> set approvals. ra_emergencyAuthority a)"
    using q(4) by (auto simp: resolveCg4ExceptionQuorum_def)
  ultimately show ?thesis using q(1) compliance by (intro conjI)
qed

definition example_approval :: "string \<Rightarrow> bool \<Rightarrow> bool \<Rightarrow> time_ms \<Rightarrow> Cg4RecordedApproval" where
  "example_approval who compliance emergency tm =
     \<lparr>ra_checkerSubjectId = who, ra_capability = ExceptionApproveHigh,
      ra_directComplianceAuthority = compliance, ra_emergencyAuthority = emergency,
      ra_source = DIRECT, ra_delegationId = None, ra_authorizationEpoch = 1, ra_scopeVersion = 1,
      ra_decidedAt = tm\<rparr>"

lemma quorum_met_two_persons_witness:
  "\<exists>a \<in> set [example_approval ''bob'' True False 0, example_approval ''eve'' False False 0].
     \<exists>b \<in> set [example_approval ''bob'' True False 0, example_approval ''eve'' False False 0].
       ra_checkerSubjectId a \<noteq> ra_checkerSubjectId b"
proof -
  have "qe_status (evaluateCg4Quorum (resolveCg4ExceptionQuorum HIGH)
      [example_approval ''bob'' True False 0, example_approval ''eve'' False False 0] False 0) = QuorumMet"
    by (simp add: evaluateCg4Quorum_def distinctBySubject_def example_approval_def
        resolveCg4ExceptionQuorum_def)
  from quorum_met_two_persons [OF this] show ?thesis by blast
qed

text \<open>
  Each checker is counted once: the reported count is the number of different subjects among
  the votes, and the reported approvers are exactly those subjects without repetition.
\<close>

lemma quorum_counts_each_checker_once:
  "qe_current (evaluateCg4Quorum req approvals rejected now) = card (ra_checkerSubjectId ` set approvals) \<and>
   distinct (qe_distinctApprovers (evaluateCg4Quorum req approvals rejected now)) \<and>
   set (qe_distinctApprovers (evaluateCg4Quorum req approvals rejected now)) =
     ra_checkerSubjectId ` set approvals"
  using quorum_approvers by blast

lemma distinctBySubject_map:
  assumes "\<And>a. ra_checkerSubjectId (g a) = ra_checkerSubjectId a"
  shows "distinctBySubject (map g approvals) = map (apsnd g) (distinctBySubject approvals)"
proof -
  have "fold (\<lambda>a m. js_map_set (ra_checkerSubjectId a) a m) (map g as) (map (apsnd g) m)
      = map (apsnd g) (fold (\<lambda>a m. js_map_set (ra_checkerSubjectId a) a m) as m)" for as m
    by (induction as arbitrary: m) (simp_all add: assms js_map_set_map)
  from this [of approvals "[]"] show ?thesis by (simp add: distinctBySubject_def)
qed

definition redated :: "(Cg4RecordedApproval \<Rightarrow> time_ms) \<Rightarrow> Cg4RecordedApproval \<Rightarrow> Cg4RecordedApproval" where
  "redated f a = a\<lparr>ra_decidedAt := f a\<rparr>"

lemma redated_votes:
  "map snd (distinctBySubject (map (redated f) approvals))
     = map (redated f) (map snd (distinctBySubject approvals))"
  by (simp add: distinctBySubject_map redated_def)

lemma emergency_met_iff:
  fixes approvals :: "Cg4RecordedApproval list"
  defines "votes \<equiv> map snd (distinctBySubject approvals)"
  shows "qe_status (evaluateCg4Quorum (resolveCg4ExceptionQuorum EMERGENCY) approvals False now) = QuorumMet \<longleftrightarrow>
     2 \<le> length votes \<and> list_ex ra_directComplianceAuthority votes \<and> list_ex ra_emergencyAuthority votes"
proof -
  have some: "Suc 0 \<le> length (filter P votes) \<longleftrightarrow> list_ex P votes" for P
    using filter_length_pos [of P votes] by (simp add: Suc_le_eq list_ex_iff)
  have none: "find P votes = None \<longleftrightarrow> \<not> list_ex P votes" for P
    by (auto simp: find_None_iff list_ex_iff)
  show ?thesis
    unfolding evaluateCg4Quorum_def votes_def [symmetric]
    by (auto simp: resolveCg4ExceptionQuorum_def Let_def some none split: option.splits)
qed

text \<open>
  C34. The acknowledgement window of an EMERGENCY exception never decides whether its quorum is met:
  MET is reported exactly when two different checkers voted, one with direct Compliance authority and
  one with emergency authority, whatever the instants of the votes and the current time; moving every
  vote to any other instant and asking at any other time gives MET in the same cases, so an
  acknowledgement that lands long after the fifteen minutes still completes the quorum.
\<close>

theorem emergency_late_acknowledgement_is_met:
  "(qe_status (evaluateCg4Quorum (resolveCg4ExceptionQuorum EMERGENCY) approvals False now) = QuorumMet \<longleftrightarrow>
     2 \<le> length (distinctBySubject approvals) \<and>
     list_ex ra_directComplianceAuthority (map snd (distinctBySubject approvals)) \<and>
     list_ex ra_emergencyAuthority (map snd (distinctBySubject approvals))) \<and>
   (qe_status (evaluateCg4Quorum (resolveCg4ExceptionQuorum EMERGENCY) (map (redated f) approvals) False now')
       = QuorumMet \<longleftrightarrow>
     qe_status (evaluateCg4Quorum (resolveCg4ExceptionQuorum EMERGENCY) approvals False now) = QuorumMet)"
  unfolding emergency_met_iff redated_votes by (simp add: list_ex_iff redated_def)

text \<open>
  A delegation that passes the check hands one of the two delegable capabilities from a direct
  holder to another human subject, for a positive window of at most eight hours; and every such
  request passes.
\<close>

lemma delegation_allowed_iff:
  "assertCg4DelegationGrantAllowed i = Inr () \<longleftrightarrow>
     dg_capability i \<in> {ExceptionRequest, ExceptionApproveStandard} \<and>
     dg_delegatorSubjectId i \<noteq> dg_delegateSubjectId i \<and>
     dg_delegatorHoldsCapabilityDirectly i \<and> \<not> dg_delegateIsServicePrincipal i \<and>
     dg_startsAt i < dg_expiresAt i \<and> dg_expiresAt i \<le> dg_startsAt i + 28800000"
  by (auto simp: assertCg4DelegationGrantAllowed_def CG4_DELEGABLE_CAPABILITIES_def
      CG4_DELEGATION_MAX_WINDOW_MS_def)

end
