(* ===== verification/ApprovalRepository.thy ===== *)
theory ApprovalRepository
  imports Authorization ExceptionEvaluation
begin

text \<open>
  Recording of checker votes (\<open>apps/contact-governance/src/cg4-approval-repository.ts\<close>): both
  commands run in one database transaction over the tables modelled by \<open>cg4_store\<close>. The digest
  of a request (\<open>stableDigest\<close>, SHA-256 of canonical JSON) and the supply of fresh identifiers
  are parameters; the clock value is the instant the injected \<open>now()\<close> returns.
\<close>

section \<open>Tables\<close>

datatype Cg4ApprovalDecision = APPROVE | REJECT

datatype stored_decision = DecisionApproved | DecisionRejected

definition toPrismaDecision :: "Cg4ApprovalDecision \<Rightarrow> stored_decision" where
  "toPrismaDecision d = (if d = APPROVE then DecisionApproved else DecisionRejected)"

datatype exception_scope_kind = ScopeIdentity | ScopeContactWide

datatype policy_status =
    PS_DRAFT | PS_IN_REVIEW | PS_APPROVED | PS_PUBLISHED | PS_SCHEDULED | PS_ACTIVE
  | PS_SUPERSEDED | PS_REJECTED | PS_WITHDRAWN

record exception_head =
  eh_tenantId :: string
  eh_exceptionId :: string
  eh_currentRevision :: int
  eh_currentRevisionId :: string
  eh_status :: Cg4ExceptionWorkflowState

record exception_row =
  ex_tenantId :: string
  ex_id :: string
  ex_exceptionId :: string
  ex_revision :: int
  ex_contactId :: string
  ex_identityId :: "string option"
  ex_scopeKind :: exception_scope_kind
  ex_channel :: ContactChannel
  ex_purpose :: string
  ex_sourceType :: string
  ex_sourceId :: string
  ex_allowedRuleCodes :: "string list"
  ex_policyId :: string
  ex_policyVersion :: int
  ex_policyContentDigest :: string
  ex_registryVersion :: string
  ex_startsAt :: time_ms
  ex_expiresAt :: time_ms
  ex_tier :: Cg4ExceptionRiskTier
  ex_status :: Cg4ExceptionWorkflowState
  ex_reasonCode :: string
  ex_ticketRef :: "string option"
  ex_evidenceRef :: string
  ex_actorRef :: string
  ex_requestHash :: string
  ex_supersedesId :: "string option"
  ex_renewsExceptionId :: "string option"
  ex_createdAt :: time_ms

record policy_row =
  po_tenantId :: string
  po_id :: string
  po_policyId :: string
  po_version :: int
  po_contentDigest :: string
  po_content :: json
  po_registryVersion :: string
  po_status :: policy_status

text \<open>A row of \<open>cg_exception_approval\<close> or \<open>cg_policy_approval\<close>; the target is the exception or policy.\<close>

record approval_row =
  ap_id :: string
  ap_tenantId :: string
  ap_targetId :: string
  ap_targetRevision :: int
  ap_decision :: stored_decision
  ap_approverRef :: string
  ap_evidenceRef :: string
  ap_decidedAt :: time_ms
  ap_capability :: Cg4Capability
  ap_capabilitySource :: Cg4CapabilityGrantSource
  ap_delegationId :: "string option"
  ap_directCompliance :: bool
  ap_emergencyAuthority :: bool
  ap_authorizationEpoch :: int
  ap_scopeVersion :: int

record audit_row =
  au_id :: string
  au_tenantId :: string
  au_mutationId :: string
  au_aggregateType :: string
  au_aggregateId :: string
  au_aggregateVersion :: int
  au_action :: string
  au_actorClass :: string
  au_actorRef :: string
  au_sourceKind :: string
  au_evidenceRef :: string
  au_beforeDigest :: "string option"
  au_afterDigest :: string
  au_occurredAt :: time_ms

record Cg4ApprovalCommandResult =
  cr_approvalId :: string
  cr_quorum :: Cg4QuorumEvaluation

datatype receipt_operation = CG4_EXCEPTION_APPROVAL_RECORD | CG4_POLICY_APPROVAL_RECORD

record receipt_row =
  rc_id :: string
  rc_tenantId :: string
  rc_operation :: receipt_operation
  rc_idempotencyKey :: string
  rc_requestHash :: string
  rc_expectedVersion :: int
  rc_aggregateVersion :: int
  rc_responseStatus :: int
  rc_responseBody :: Cg4ApprovalCommandResult

record cg4_store =
  st_heads :: "exception_head list"
  st_exceptions :: "exception_row list"
  st_policies :: "policy_row list"
  st_exceptionApprovals :: "approval_row list"
  st_policyApprovals :: "approval_row list"
  st_receipts :: "receipt_row list"
  st_audit :: "audit_row list"

section \<open>Commands\<close>

datatype approval_error =
    EmptyFieldError string
  | Cg3IdempotencyConflictError string
  | Cg3ResourceNotFoundError
  | Cg3VersionConflictError int int
  | AuthorizationError cg4_auth_error
  | BlankIdentifierError string

definition identifier_of :: "string \<Rightarrow> string \<Rightarrow> approval_error + string" where
  "identifier_of value kind =
     (if length (js_trim value) = 0 then Inl (BlankIdentifierError kind) else Inr value)"

definition cg4SubjectId :: "string \<Rightarrow> approval_error + string" where
  "cg4SubjectId value = identifier_of value ''Cg4SubjectId''"

definition cg4DelegationId :: "string \<Rightarrow> approval_error + string" where
  "cg4DelegationId value = identifier_of value ''Cg4DelegationId''"

definition toRecordedApproval :: "approval_row \<Rightarrow> approval_error + Cg4RecordedApproval" where
  "toRecordedApproval row =
     rbind (cg4SubjectId (ap_approverRef row)) (\<lambda>subject.
     rbind (case ap_delegationId row of
              Some d \<Rightarrow> if d = [] then Inr None else rbind (cg4DelegationId d) (\<lambda>x. Inr (Some x))
            | None \<Rightarrow> Inr None) (\<lambda>delegation.
     Inr \<lparr>ra_checkerSubjectId = subject, ra_capability = ap_capability row,
      ra_directComplianceAuthority = ap_directCompliance row,
      ra_emergencyAuthority = ap_emergencyAuthority row, ra_source = ap_capabilitySource row,
      ra_delegationId = delegation, ra_authorizationEpoch = ap_authorizationEpoch row,
      ra_scopeVersion = ap_scopeVersion row, ra_decidedAt = ap_decidedAt row\<rparr>))"

record RecordCg4ApprovalInput =
  ri_tenantId :: string
  ri_targetId :: string
  ri_expectedRevision :: int
  ri_expectedContentDigest :: string
  ri_diffClass :: Cg4PolicyDiffClass \<comment> \<open>read by the policy command only\<close>
  ri_decision :: Cg4ApprovalDecision
  ri_evidenceRef :: string
  ri_makerSubjectId :: string
  ri_scopeKey :: string
  ri_checker :: Cg4AuthorizationSubject
  ri_idempotencyKey :: string

definition nonEmpty :: "string \<Rightarrow> string \<Rightarrow> approval_error + string" where
  "nonEmpty value field =
     (let normalized = js_trim value in
      if normalized = [] then Inl (EmptyFieldError field) else Inr normalized)"

definition checkRequiredFields :: "string \<Rightarrow> RecordCg4ApprovalInput \<Rightarrow> approval_error + unit" where
  "checkRequiredFields targetField i =
     rbind (nonEmpty (ri_tenantId i) ''tenantId'') (\<lambda>_.
     rbind (nonEmpty (ri_targetId i) targetField) (\<lambda>_.
     rbind (nonEmpty (ri_evidenceRef i) ''evidenceRef'') (\<lambda>_.
     rbind (nonEmpty (ri_makerSubjectId i) ''makerSubjectId'') (\<lambda>_.
     rbind (nonEmpty (ri_scopeKey i) ''scopeKey'') (\<lambda>_.
     rbind (nonEmpty (ri_idempotencyKey i) ''idempotencyKey'') (\<lambda>_. Inr ()))))))"

text \<open>The object the request hash covers; the policy command adds its diff class.\<close>

definition requestFields :: "receipt_operation \<Rightarrow> RecordCg4ApprovalInput \<Rightarrow>
    string \<times> string \<times> int \<times> string \<times> Cg4PolicyDiffClass option \<times> Cg4ApprovalDecision \<times>
    string \<times> string \<times> string \<times> string \<times> int \<times> int" where
  "requestFields op i =
     (ri_tenantId i, ri_targetId i, ri_expectedRevision i, ri_expectedContentDigest i,
      (case op of CG4_POLICY_APPROVAL_RECORD \<Rightarrow> Some (ri_diffClass i) | _ \<Rightarrow> None),
      ri_decision i, ri_evidenceRef i, ri_makerSubjectId i, ri_scopeKey i,
      sub_subjectId (ri_checker i), sub_authorizationEpoch (ri_checker i),
      sub_scopeVersion (ri_checker i))"

type_synonym request_digest =
  "string \<times> string \<times> int \<times> string \<times> Cg4PolicyDiffClass option \<times> Cg4ApprovalDecision \<times>
    string \<times> string \<times> string \<times> string \<times> int \<times> int \<Rightarrow> string"

definition findReceipt :: "cg4_store \<Rightarrow> receipt_operation \<Rightarrow> RecordCg4ApprovalInput \<Rightarrow> receipt_row option" where
  "findReceipt st op i =
     find (\<lambda>r. rc_tenantId r = ri_tenantId i \<and> rc_operation r = op \<and>
             rc_idempotencyKey r = ri_idempotencyKey i) (st_receipts st)"

definition newApproval ::
  "string \<Rightarrow> RecordCg4ApprovalInput \<Rightarrow> Cg4Capability \<Rightarrow> Cg4CapabilityGrant \<Rightarrow> time_ms \<Rightarrow> approval_row" where
  "newApproval rowId i requiredCapability grant now =
     \<lparr>ap_id = rowId, ap_tenantId = ri_tenantId i, ap_targetId = ri_targetId i,
      ap_targetRevision = ri_expectedRevision i, ap_decision = toPrismaDecision (ri_decision i),
      ap_approverRef = sub_subjectId (ri_checker i), ap_evidenceRef = ri_evidenceRef i,
      ap_decidedAt = now, ap_capability = requiredCapability, ap_capabilitySource = cg_source grant,
      ap_delegationId = cg_delegationId grant,
      ap_directCompliance = sub_directComplianceAuthority (ri_checker i),
      ap_emergencyAuthority = sub_emergencyAuthority (ri_checker i),
      ap_authorizationEpoch = sub_authorizationEpoch (ri_checker i),
      ap_scopeVersion = sub_scopeVersion (ri_checker i)\<rparr>"

text \<open>
  The part the two commands share: authorize the checker against the votes already recorded for
  this target and revision, build the row, and evaluate the quorum over all votes.
\<close>

definition admitVote ::
  "RecordCg4ApprovalInput \<Rightarrow> Cg4Capability \<Rightarrow> Cg4QuorumRequirement \<Rightarrow> approval_row list \<Rightarrow>
     string \<Rightarrow> time_ms \<Rightarrow> approval_error + approval_row \<times> Cg4QuorumEvaluation" where
  "admitVote i requiredCapability requirement existingRows rowId now =
     rbind (rmap toRecordedApproval existingRows) (\<lambda>existingApprovals.
      case assertCg4ApprovalAuthorization
             \<lparr>aa_requiredCapability = requiredCapability, aa_checker = ri_checker i,
              aa_scopeKey = ri_scopeKey i, aa_makerSubjectId = ri_makerSubjectId i,
              aa_existingApprovals = existingApprovals, aa_now = now\<rparr> of
        Inl e \<Rightarrow> Inl (AuthorizationError e)
      | Inr grant \<Rightarrow>
          let approval = newApproval rowId i requiredCapability grant now in
          rbind (toRecordedApproval approval) (\<lambda>recorded.
            let allApprovals = existingApprovals @ [recorded] in
            Inr (approval, evaluateCg4Quorum requirement allApprovals (ri_decision i = REJECT) now)))"

definition auditRow ::
  "(nat \<Rightarrow> string) \<Rightarrow> RecordCg4ApprovalInput \<Rightarrow> string \<Rightarrow> string \<Rightarrow> string \<Rightarrow> string \<Rightarrow> string \<Rightarrow> time_ms \<Rightarrow> audit_row" where
  "auditRow ids i aggregateType aggregateId approvedAction rejectedAction digest now =
     \<lparr>au_id = ids 2, au_tenantId = ri_tenantId i, au_mutationId = ids 1,
      au_aggregateType = aggregateType, au_aggregateId = aggregateId,
      au_aggregateVersion = ri_expectedRevision i,
      au_action = (if ri_decision i = APPROVE then approvedAction else rejectedAction),
      au_actorClass = ''COMPLIANCE'', au_actorRef = sub_subjectId (ri_checker i),
      au_sourceKind = ''COMPLIANCE'', au_evidenceRef = ri_evidenceRef i,
      au_beforeDigest = Some digest, au_afterDigest = digest, au_occurredAt = now\<rparr>"

definition receiptRow ::
  "(nat \<Rightarrow> string) \<Rightarrow> receipt_operation \<Rightarrow> RecordCg4ApprovalInput \<Rightarrow> string \<Rightarrow> Cg4ApprovalCommandResult \<Rightarrow> receipt_row" where
  "receiptRow ids op i requestHash result =
     \<lparr>rc_id = ids 3, rc_tenantId = ri_tenantId i, rc_operation = op,
      rc_idempotencyKey = ri_idempotencyKey i, rc_requestHash = requestHash,
      rc_expectedVersion = ri_expectedRevision i, rc_aggregateVersion = ri_expectedRevision i,
      rc_responseStatus = 201, rc_responseBody = result\<rparr>"

definition votesOn :: "approval_row list \<Rightarrow> RecordCg4ApprovalInput \<Rightarrow> approval_row list" where
  "votesOn rows i = filter (\<lambda>r. ap_tenantId r = ri_tenantId i \<and> ap_targetId r = ri_targetId i \<and>
     ap_targetRevision r = ri_expectedRevision i) rows"

definition recordExceptionApproval ::
  "request_digest \<Rightarrow> (nat \<Rightarrow> string) \<Rightarrow> time_ms \<Rightarrow> RecordCg4ApprovalInput \<Rightarrow> cg4_store \<Rightarrow>
     approval_error + cg4_store \<times> Cg4ApprovalCommandResult" where
  "recordExceptionApproval stableDigest ids now i st =
     rbind (checkRequiredFields ''exceptionId'' i) (\<lambda>_.
     let op = CG4_EXCEPTION_APPROVAL_RECORD;
         requestHash = stableDigest (requestFields op i) in
     case findReceipt st op i of
       Some receipt \<Rightarrow>
         if rc_requestHash receipt \<noteq> requestHash
         then Inl (Cg3IdempotencyConflictError (ri_idempotencyKey i))
         else Inr (st, rc_responseBody receipt)
     | None \<Rightarrow>
     (case find (\<lambda>h. eh_tenantId h = ri_tenantId i \<and> eh_exceptionId h = ri_targetId i) (st_heads st) of
        None \<Rightarrow> Inl Cg3ResourceNotFoundError
      | Some head \<Rightarrow>
        if eh_currentRevision head \<noteq> ri_expectedRevision i
        then Inl (Cg3VersionConflictError (ri_expectedRevision i) (eh_currentRevision head))
        else (case find (\<lambda>e. ex_tenantId e = ri_tenantId i \<and> ex_id e = eh_currentRevisionId head)
                     (st_exceptions st) of
          None \<Rightarrow> Inl Cg3ResourceNotFoundError
        | Some exception \<Rightarrow>
          if ex_requestHash exception \<noteq> ri_expectedContentDigest i
          then Inl (Cg3VersionConflictError (ri_expectedRevision i) (eh_currentRevision head))
          else rbind (admitVote i (resolveCg4RequiredExceptionCapability (ex_tier exception))
                   (resolveCg4ExceptionQuorum (ex_tier exception))
                   (votesOn (st_exceptionApprovals st) i) (ids 0) now)
            (\<lambda>(approval, quorum).
               let result = \<lparr>cr_approvalId = ap_id approval, cr_quorum = quorum\<rparr> in
               Inr (st\<lparr>st_exceptionApprovals := st_exceptionApprovals st @ [approval],
                 st_audit := st_audit st @ [auditRow ids i ''CONTACT'' (ex_contactId exception)
                   ''CG4_EXCEPTION_APPROVAL_RECORDED'' ''CG4_EXCEPTION_REJECTION_RECORDED''
                   (ex_requestHash exception) now],
                 st_receipts := st_receipts st @ [receiptRow ids op i requestHash result]\<rparr>,
                 result)))))"

definition recordPolicyApproval ::
  "request_digest \<Rightarrow> (nat \<Rightarrow> string) \<Rightarrow> time_ms \<Rightarrow> RecordCg4ApprovalInput \<Rightarrow> cg4_store \<Rightarrow>
     approval_error + cg4_store \<times> Cg4ApprovalCommandResult" where
  "recordPolicyApproval stableDigest ids now i st =
     rbind (checkRequiredFields ''policyId'' i) (\<lambda>_.
     let op = CG4_POLICY_APPROVAL_RECORD;
         requestHash = stableDigest (requestFields op i) in
     case findReceipt st op i of
       Some receipt \<Rightarrow>
         if rc_requestHash receipt \<noteq> requestHash
         then Inl (Cg3IdempotencyConflictError (ri_idempotencyKey i))
         else Inr (st, rc_responseBody receipt)
     | None \<Rightarrow>
     (case find (\<lambda>p. po_tenantId p = ri_tenantId i \<and> po_policyId p = ri_targetId i \<and>
                  po_version p = ri_expectedRevision i) (st_policies st) of
        None \<Rightarrow> Inl Cg3ResourceNotFoundError
      | Some policy \<Rightarrow>
        if po_contentDigest policy \<noteq> ri_expectedContentDigest i
        then Inl (Cg3VersionConflictError (ri_expectedRevision i) (po_version policy))
        else rbind (admitVote i (resolveCg4RequiredPolicyCapability (ri_diffClass i))
                 (resolveCg4PolicyQuorum (ri_diffClass i))
                 (votesOn (st_policyApprovals st) i) (ids 0) now)
          (\<lambda>(approval, quorum).
             let result = \<lparr>cr_approvalId = ap_id approval, cr_quorum = quorum\<rparr> in
             Inr (st\<lparr>st_policyApprovals := st_policyApprovals st @ [approval],
               st_audit := st_audit st @ [auditRow ids i ''POLICY'' (po_id policy)
                 ''CG4_POLICY_APPROVAL_RECORDED'' ''CG4_POLICY_REJECTION_RECORDED''
                 (po_contentDigest policy) now],
               st_receipts := st_receipts st @ [receiptRow ids op i requestHash result]\<rparr>,
               result))))"

section \<open>Properties\<close>

lemma record_exception_outcome:
  assumes "recordExceptionApproval dg ids now i st = Inr (st', res)"
  obtains (replayed) rec where "findReceipt st CG4_EXCEPTION_APPROVAL_RECORD i = Some rec"
      "rc_requestHash rec = dg (requestFields CG4_EXCEPTION_APPROVAL_RECORD i)"
      "st' = st" "res = rc_responseBody rec" "checkRequiredFields ''exceptionId'' i = Inr ()"
    | (recorded) exc row q au where "findReceipt st CG4_EXCEPTION_APPROVAL_RECORD i = None"
      "checkRequiredFields ''exceptionId'' i = Inr ()"
      "exc \<in> set (st_exceptions st)"
      "admitVote i (resolveCg4RequiredExceptionCapability (ex_tier exc))
         (resolveCg4ExceptionQuorum (ex_tier exc)) (votesOn (st_exceptionApprovals st) i) (ids 0) now
         = Inr (row, q)"
      "res = \<lparr>cr_approvalId = ap_id row, cr_quorum = q\<rparr>"
      "st' = st\<lparr>st_exceptionApprovals := st_exceptionApprovals st @ [row], st_audit := st_audit st @ [au],
         st_receipts := st_receipts st @ [receiptRow ids CG4_EXCEPTION_APPROVAL_RECORD i
           (dg (requestFields CG4_EXCEPTION_APPROVAL_RECORD i)) res]\<rparr>"
  using assms
  by (auto simp: recordExceptionApproval_def Let_def result_simps
      split: option.splits if_splits dest!: find_Some_in)

lemma record_policy_outcome:
  assumes "recordPolicyApproval dg ids now i st = Inr (st', res)"
  obtains (replayed) rec where "findReceipt st CG4_POLICY_APPROVAL_RECORD i = Some rec"
      "rc_requestHash rec = dg (requestFields CG4_POLICY_APPROVAL_RECORD i)"
      "st' = st" "res = rc_responseBody rec" "checkRequiredFields ''policyId'' i = Inr ()"
    | (recorded) row q au where "findReceipt st CG4_POLICY_APPROVAL_RECORD i = None"
      "checkRequiredFields ''policyId'' i = Inr ()"
      "admitVote i (resolveCg4RequiredPolicyCapability (ri_diffClass i))
         (resolveCg4PolicyQuorum (ri_diffClass i)) (votesOn (st_policyApprovals st) i) (ids 0) now
         = Inr (row, q)"
      "res = \<lparr>cr_approvalId = ap_id row, cr_quorum = q\<rparr>"
      "st' = st\<lparr>st_policyApprovals := st_policyApprovals st @ [row], st_audit := st_audit st @ [au],
         st_receipts := st_receipts st @ [receiptRow ids CG4_POLICY_APPROVAL_RECORD i
           (dg (requestFields CG4_POLICY_APPROVAL_RECORD i)) res]\<rparr>"
  using assms
  by (auto simp: recordPolicyApproval_def Let_def result_simps split: option.splits if_splits)

lemma findReceipt_appended:
  assumes "findReceipt st op i = None" and "st_receipts st' = st_receipts st @ [receiptRow ids op i h res]"
  shows "findReceipt st' op i = Some (receiptRow ids op i h res)"
proof -
  have "find P xs = None \<Longrightarrow> P x \<Longrightarrow> find P (xs @ [x]) = Some x" for P xs and x :: receipt_row
    by (induction xs) (auto split: if_splits)
  with assms show ?thesis by (simp add: findReceipt_def receiptRow_def)
qed

interpretation exception_votes: idempotent_command
  "\<lambda>i (ids, now). recordExceptionApproval dg ids now i"
proof (unfold_locales, clarsimp)
  fix i ids now st st' res ids' now'
  assume r: "recordExceptionApproval dg ids now i st = Inr (st', res)"
  then show "recordExceptionApproval dg ids' now' i st' = Inr (st', res)"
  proof (cases rule: record_exception_outcome)
    case (recorded exc row q au)
    then have "findReceipt st' CG4_EXCEPTION_APPROVAL_RECORD i = Some (receiptRow ids CG4_EXCEPTION_APPROVAL_RECORD i
        (dg (requestFields CG4_EXCEPTION_APPROVAL_RECORD i)) res)"
      by (intro findReceipt_appended [OF recorded(1)]) simp
    with recorded(2) show ?thesis by (simp add: recordExceptionApproval_def receiptRow_def)
  qed (simp add: recordExceptionApproval_def)
qed

interpretation policy_votes: idempotent_command
  "\<lambda>i (ids, now). recordPolicyApproval dg ids now i"
proof (unfold_locales, clarsimp)
  fix i ids now st st' res ids' now'
  assume r: "recordPolicyApproval dg ids now i st = Inr (st', res)"
  then show "recordPolicyApproval dg ids' now' i st' = Inr (st', res)"
  proof (cases rule: record_policy_outcome)
    case (recorded row q au)
    then have "findReceipt st' CG4_POLICY_APPROVAL_RECORD i = Some (receiptRow ids CG4_POLICY_APPROVAL_RECORD i
        (dg (requestFields CG4_POLICY_APPROVAL_RECORD i)) res)"
      by (intro findReceipt_appended [OF recorded(1)]) simp
    with recorded(2) show ?thesis by (simp add: recordPolicyApproval_def receiptRow_def)
  qed (simp add: recordPolicyApproval_def)
qed

text \<open>One vote per checker, target and revision, which every command keeps.\<close>

definition vote_key :: "approval_row \<Rightarrow> string \<times> string \<times> int \<times> string" where
  "vote_key r = (ap_tenantId r, ap_targetId r, ap_targetRevision r, ap_approverRef r)"

definition one_vote_each :: "cg4_store \<Rightarrow> bool" where
  "one_vote_each st \<longleftrightarrow> distinct (map vote_key (st_exceptionApprovals st)) \<and>
     distinct (map vote_key (st_policyApprovals st))"

inductive vote_step :: "request_digest \<Rightarrow> cg4_store \<Rightarrow> cg4_store \<Rightarrow> bool" for dg where
  exception_vote: "recordExceptionApproval dg ids now i st = Inr (st', res) \<Longrightarrow> vote_step dg st st'"
| policy_vote: "recordPolicyApproval dg ids now i st = Inr (st', res) \<Longrightarrow> vote_step dg st st'"

lemma recorded_subject: "toRecordedApproval row = Inr a \<Longrightarrow> ra_checkerSubjectId a = ap_approverRef row"
  by (auto simp: toRecordedApproval_def cg4SubjectId_def identifier_of_def result_simps split: if_splits)

lemma recorded_subjects:
  assumes "rmap toRecordedApproval rows = Inr as"
  shows "ra_checkerSubjectId ` set as = ap_approverRef ` set rows"
proof -
  from assms have "list_all2 (\<lambda>r a. toRecordedApproval r = Inr a) rows as" by (simp add: rmap_Inr_iff)
  then show ?thesis by (induction rule: list_all2_induct) (auto dest: recorded_subject)
qed

lemma admitVote_row:
  assumes "admitVote i c req rows rowId now = Inr (row, q)"
  shows "vote_key row = (ri_tenantId i, ri_targetId i, ri_expectedRevision i, sub_subjectId (ri_checker i))"
    and "sub_subjectId (ri_checker i) \<noteq> ri_makerSubjectId i"
    and "sub_subjectId (ri_checker i) \<notin> ap_approverRef ` set rows"
proof -
  from assms obtain as where as: "rmap toRecordedApproval rows = Inr as"
    by (auto simp: admitVote_def result_simps)
  with assms obtain g where g: "assertCg4ApprovalAuthorization
       \<lparr>aa_requiredCapability = c, aa_checker = ri_checker i, aa_scopeKey = ri_scopeKey i,
        aa_makerSubjectId = ri_makerSubjectId i, aa_existingApprovals = as, aa_now = now\<rparr> = Inr g"
    and row: "row = newApproval rowId i c g now"
    by (auto simp: admitVote_def Let_def result_simps split: sum.splits)
  from row show "vote_key row = (ri_tenantId i, ri_targetId i, ri_expectedRevision i, sub_subjectId (ri_checker i))"
    by (simp add: newApproval_def vote_key_def)
  from g show "sub_subjectId (ri_checker i) \<noteq> ri_makerSubjectId i"
    by (simp add: approval_authorized_iff)
  from g show "sub_subjectId (ri_checker i) \<notin> ap_approverRef ` set rows"
    unfolding recorded_subjects [OF as, symmetric] by (simp add: approval_authorized_iff)
qed

lemma admitted_vote_is_new:
  assumes "admitVote i c req (votesOn rows i) rowId now = Inr (row, q)"
  shows "vote_key row \<notin> set (map vote_key rows)"
  using admitVote_row(1,3) [OF assms] by (force simp: vote_key_def votesOn_def)

interpretation voting: invariant_system
  "\<lambda>st. st_exceptionApprovals st = [] \<and> st_policyApprovals st = []" "vote_step dg" one_vote_each
proof
  fix st st'
  assume inv: "one_vote_each st" and step: "vote_step dg st st'"
  from step show "one_vote_each st'"
  proof cases
    case (exception_vote ids now i res)
    from exception_vote show ?thesis
      by (cases rule: record_exception_outcome)
         (use inv admitted_vote_is_new in \<open>auto simp: one_vote_each_def\<close>)
  next
    case (policy_vote ids now i res)
    from policy_vote show ?thesis
      by (cases rule: record_policy_outcome)
         (use inv admitted_vote_is_new in \<open>auto simp: one_vote_each_def\<close>)
  qed
qed (simp add: one_vote_each_def)

section \<open>Example store\<close>

definition example_row :: exception_row where
  "example_row =
     \<lparr>ex_tenantId = ''t1'', ex_id = ''r1'', ex_exceptionId = ''e1'', ex_revision = 1, ex_contactId = ''c1'',
      ex_identityId = None, ex_scopeKind = ScopeContactWide, ex_channel = VOICE, ex_purpose = ''p'',
      ex_sourceType = ''AGENT'', ex_sourceId = ''s'', ex_allowedRuleCodes = [''QUIET_HOURS''],
      ex_policyId = ''pol'', ex_policyVersion = 1, ex_policyContentDigest = ''pd'', ex_registryVersion = ''v'',
      ex_startsAt = 0, ex_expiresAt = 1000, ex_tier = HIGH, ex_status = PENDING, ex_reasonCode = ''r'',
      ex_ticketRef = None, ex_evidenceRef = ''ev'', ex_actorRef = ''alice'', ex_requestHash = ''d'',
      ex_supersedesId = None, ex_renewsExceptionId = None, ex_createdAt = 0\<rparr>"

definition example_store :: cg4_store where
  "example_store =
     \<lparr>st_heads = [\<lparr>eh_tenantId = ''t1'', eh_exceptionId = ''e1'', eh_currentRevision = 1,
        eh_currentRevisionId = ''r1'', eh_status = PENDING\<rparr>],
      st_exceptions = [example_row],
      st_policies = [], st_exceptionApprovals = [], st_policyApprovals = [], st_receipts = [], st_audit = []\<rparr>"

definition example_vote :: "string \<Rightarrow> Cg4ApprovalDecision \<Rightarrow> RecordCg4ApprovalInput" where
  "example_vote who decision =
     \<lparr>ri_tenantId = ''t1'', ri_targetId = ''e1'', ri_expectedRevision = 1, ri_expectedContentDigest = ''d'',
      ri_diffClass = NEUTRAL, ri_decision = decision, ri_evidenceRef = ''ev'', ri_makerSubjectId = ''alice'',
      ri_scopeKey = ''k'', ri_checker = example_checker\<lparr>sub_subjectId := who\<rparr>, ri_idempotencyKey = who\<rparr>"

lemma example_vote_fields [simp]: "checkRequiredFields ''exceptionId'' (example_vote ''bob'' d) = Inr ()"
  "checkRequiredFields ''exceptionId'' (example_vote ''eve'' d) = Inr ()"
  by (simp_all add: checkRequiredFields_def nonEmpty_def example_vote_def js_trim_def js_space_def Let_def)

lemmas example_vote_eval =
  recordExceptionApproval_def findReceipt_def votesOn_def admitVote_def
  assertCg4ApprovalAuthorization_def assertDelegationAllowed_def findActiveGrant_def newApproval_def
  receiptRow_def auditRow_def toRecordedApproval_def cg4SubjectId_def cg4DelegationId_def identifier_of_def
  js_trim_def js_space_def example_store_def example_row_def example_checker_def
  resolveCg4RequiredExceptionCapability_def resolveCg4ExceptionQuorum_def evaluateCg4Quorum_def
  distinctBySubject_def toPrismaDecision_def CG4_DELEGABLE_CAPABILITIES_def

text \<open>
  A client that retries a vote gets the recorded answer back and records nothing further,
  whatever the clock and the identifier supply of the retries: after the first success every
  retry leaves all tables unchanged and returns the first answer.
\<close>

lemma exception_vote_retries:
  assumes "recordExceptionApproval dg ids now i st = Inr (st', res)"
  shows "retries (\<lambda>(ids, now). recordExceptionApproval dg ids now i) ((ids, now) # envs) st
     = Inr (st', replicate (Suc (length envs)) res)"
  using exception_votes.retries_once [where v = "(ids, now)"] assms by simp

lemma example_vote_runs:
  "\<exists>st r. recordExceptionApproval dg (\<lambda>_. ''x'') 10 (example_vote ''bob'' REJECT) example_store = Inr (st, r)"
  unfolding recordExceptionApproval_def example_vote_fields rbind_Inr
  by (simp add: example_vote_eval example_vote_def Let_def)

lemma exception_vote_retries_witness:
  "\<exists>st r. retries (\<lambda>(ids, now). recordExceptionApproval (\<lambda>_. ''h'') ids now (example_vote ''bob'' REJECT))
      [(\<lambda>_. ''x'', 10), (\<lambda>_. ''y'', 99)] example_store = Inr (st, [r, r])"
proof -
  obtain st r where "recordExceptionApproval (\<lambda>_. ''h'') (\<lambda>_. ''x'') 10 (example_vote ''bob'' REJECT) example_store
      = Inr (st, r)"
    using example_vote_runs by blast
  from exception_vote_retries [OF this, of "[(\<lambda>_. ''y'', 99)]"] show ?thesis by auto
qed

text \<open>
  In every state a sequence of votes can reach from a store without votes, no checker has two
  votes on the same revision of the same exception or policy.
\<close>

lemma reachable_one_vote_each:
  assumes "st_exceptionApprovals st0 = []" and "st_policyApprovals st0 = []"
    and "steps (vote_step dg) st0 st"
  shows "distinct (map vote_key (st_exceptionApprovals st)) \<and> distinct (map vote_key (st_policyApprovals st))"
  using voting.reachable_invar [OF _ assms(3)] assms(1,2) by (simp add: one_vote_each_def)

lemma reachable_one_vote_each_witness:
  "\<exists>st. steps (vote_step (\<lambda>_. ''h'')) example_store st \<and> st \<noteq> example_store \<and>
     distinct (map vote_key (st_exceptionApprovals st))"
proof -
  obtain st r where run: "recordExceptionApproval (\<lambda>_. ''h'') (\<lambda>_. ''x'') 10 (example_vote ''bob'' REJECT) example_store
      = Inr (st, r)"
    using example_vote_runs by blast
  then have "vote_step (\<lambda>_. ''h'') example_store st" by (rule exception_vote)
  then have s: "steps (vote_step (\<lambda>_. ''h'')) example_store st"
    by (rule steps_step [OF steps_refl])
  have "st_receipts st \<noteq> []"
    using run by (cases rule: record_exception_outcome) (auto simp: findReceipt_def example_store_def)
  then have "st \<noteq> example_store" by (auto simp: example_store_def)
  moreover from reachable_one_vote_each [OF _ _ s] have "distinct (map vote_key (st_exceptionApprovals st))"
    by (simp add: example_store_def)
  ultimately show ?thesis using s by blast
qed

text \<open>The store with the decisions of the recorded exception votes exchanged for others.\<close>

definition redecide :: "(approval_row \<Rightarrow> stored_decision) \<Rightarrow> cg4_store \<Rightarrow> cg4_store" where
  "redecide d st = st\<lparr>st_exceptionApprovals := map (\<lambda>v. v\<lparr>ap_decision := d v\<rparr>) (st_exceptionApprovals st)\<rparr>"

lemma toRecordedApproval_redecided [simp]:
  "toRecordedApproval (v\<lparr>ap_decision := x\<rparr>) = toRecordedApproval v"
  by (simp add: toRecordedApproval_def)

lemma votesOn_redecided:
  "votesOn (map (\<lambda>v. v\<lparr>ap_decision := d v\<rparr>) rows) i = map (\<lambda>v. v\<lparr>ap_decision := d v\<rparr>) (votesOn rows i)"
  by (simp add: votesOn_def filter_map o_def)

lemma admitVote_redecided:
  "admitVote i c req (votesOn (map (\<lambda>v. v\<lparr>ap_decision := d v\<rparr>) rows) i) rowId now
     = admitVote i c req (votesOn rows i) rowId now"
  by (simp add: votesOn_redecided admitVote_def rmap_map o_def)

lemma redecide_simps [simp]:
  "st_exceptionApprovals (redecide d st) = map (\<lambda>v. v\<lparr>ap_decision := d v\<rparr>) (st_exceptionApprovals st)"
  "st_heads (redecide d st) = st_heads st" "st_exceptions (redecide d st) = st_exceptions st"
  "findReceipt (redecide d st) op i = findReceipt st op i"
  by (simp_all add: redecide_def findReceipt_def)

lemma record_redecided:
  assumes "recordExceptionApproval dg ids now i st = Inr (st', r)"
  shows "\<exists>st''. recordExceptionApproval dg ids now i (redecide d st) = Inr (st'', r)"
  using assms
  by (auto simp: recordExceptionApproval_def admitVote_redecided Let_def result_simps
      split: option.splits if_splits)

lemma admitted_quorum:
  assumes "admitVote i c req rows rowId now = Inr (row, q)"
  shows "qe_current q = card (insert (sub_subjectId (ri_checker i)) (ap_approverRef ` set rows))"
    and "qe_status q = QuorumRejected \<longleftrightarrow> ri_decision i = REJECT"
proof -
  from assms obtain as where as: "rmap toRecordedApproval rows = Inr as"
    by (auto simp: admitVote_def result_simps)
  with assms obtain g a where a: "toRecordedApproval (newApproval rowId i c g now) = Inr a"
    and q: "q = evaluateCg4Quorum req (as @ [a]) (ri_decision i = REJECT) now"
    by (auto simp: admitVote_def Let_def result_simps split: sum.splits)
  have "ra_checkerSubjectId a = sub_subjectId (ri_checker i)"
    using recorded_subject [OF a] by (simp add: newApproval_def)
  then show "qe_current q = card (insert (sub_subjectId (ri_checker i)) (ap_approverRef ` set rows))"
    using recorded_subjects [OF as] by (simp add: q quorum_approvers(3))
  show "qe_status q = QuorumRejected \<longleftrightarrow> ri_decision i = REJECT"
    by (simp add: q evaluateCg4Quorum_def Let_def split: option.splits)
qed

text \<open>
  C35. The quorum a recorded exception vote reports takes the earlier votes on the revision for
  approvals whatever they decided. For any exception, checker and store: were the recorded decisions
  any others, the same vote would be accepted with the same answer; the reported count is the number
  of different checkers who voted, those who rejected included; and REJECTED is reported for
  this vote's own rejection only, so an earlier rejection is not terminal.
\<close>

theorem rejection_counted_towards_quorum:
  assumes "recordExceptionApproval dg ids now i st = Inr (st', r)"
    and "findReceipt st CG4_EXCEPTION_APPROVAL_RECORD i = None"
  shows "(\<exists>st''. recordExceptionApproval dg ids now i (redecide d st) = Inr (st'', r)) \<and>
     qe_current (cr_quorum r) =
       card (insert (sub_subjectId (ri_checker i)) (ap_approverRef ` set (votesOn (st_exceptionApprovals st) i))) \<and>
     (qe_status (cr_quorum r) = QuorumRejected \<longleftrightarrow> ri_decision i = REJECT)"
  using assms(1)
proof (cases rule: record_exception_outcome)
  case (recorded exc row q au)
  from admitted_quorum [OF recorded(4)] record_redecided [OF assms(1), of d] show ?thesis
    by (simp add: recorded(5))
qed (simp add: assms(2))

text \<open>A HIGH exception that one checker rejected and one approved.\<close>

definition rejected_store :: cg4_store where
  "rejected_store = example_store\<lparr>st_exceptionApprovals :=
     [newApproval ''v1'' (example_vote ''bob'' REJECT) ExceptionApproveHigh
        (hd (sub_capabilities example_checker)) 10]\<rparr>"

lemma rejected_store_vote:
  "\<exists>st r. recordExceptionApproval dg (\<lambda>_. ''y'') 20 (example_vote ''eve'' APPROVE) rejected_store = Inr (st, r) \<and>
     qe_status (cr_quorum r) = QuorumMet"
  unfolding recordExceptionApproval_def example_vote_fields rbind_Inr
  by (simp add: rejected_store_def example_vote_eval example_vote_def Let_def)

lemma rejection_counted_towards_quorum_witness:
  "\<exists>st r st''. recordExceptionApproval (\<lambda>_. ''h'') (\<lambda>_. ''y'') 20 (example_vote ''eve'' APPROVE) rejected_store
       = Inr (st, r) \<and>
     map ap_decision (st_exceptionApprovals rejected_store) = [DecisionRejected] \<and>
     qe_status (cr_quorum r) = QuorumMet \<and> qe_current (cr_quorum r) = 2 \<and>
     recordExceptionApproval (\<lambda>_. ''h'') (\<lambda>_. ''y'') 20 (example_vote ''eve'' APPROVE)
       (redecide (\<lambda>_. DecisionApproved) rejected_store) = Inr (st'', r)"
proof -
  obtain st r where run: "recordExceptionApproval (\<lambda>_. ''h'') (\<lambda>_. ''y'') 20 (example_vote ''eve'' APPROVE)
      rejected_store = Inr (st, r)" and met: "qe_status (cr_quorum r) = QuorumMet"
    using rejected_store_vote by blast
  have new: "findReceipt rejected_store CG4_EXCEPTION_APPROVAL_RECORD (example_vote ''eve'' APPROVE) = None"
    by (simp add: findReceipt_def rejected_store_def example_store_def)
  have voters: "ap_approverRef ` set (votesOn (st_exceptionApprovals rejected_store) (example_vote ''eve'' APPROVE))
      = {''bob''}" "sub_subjectId (ri_checker (example_vote ''eve'' APPROVE)) = ''eve''"
    "map ap_decision (st_exceptionApprovals rejected_store) = [DecisionRejected]"
    by (simp_all add: votesOn_def rejected_store_def example_vote_def example_store_def newApproval_def
        example_checker_def toPrismaDecision_def)
  from rejection_counted_towards_quorum [OF run new, of "\<lambda>_. DecisionApproved"] run met voters
  show ?thesis by auto
qed

end
