(* ===== verification/Calendar.thy ===== *)
theory Calendar
  imports Prelude
begin

text \<open>
  Instants, civil dates and local-time windows as the contact governance code uses them:
  \<open>Date.UTC\<close> and the civil date of an instant, the wall clock of an IANA zone
  (\<open>zonedPartsAt\<close> and \<open>zonedToUtc\<close> of \<open>cg3-policy-evaluator.ts\<close>), and the reading of
  \<open>HH:mm\<close> strings. The time zone database is a parameter: a zone is the function that gives its
  offset from UTC at an instant, in milliseconds, and a name without a zone is not valid.
\<close>

section \<open>Civil dates\<close>

text \<open>
  Day numbers count from 1970-01-01. Years start in March inside the computation, so that the leap
  day is the last day of a year; 400 years are 146097 days.
\<close>

definition days_from_civil :: "int \<Rightarrow> int \<Rightarrow> int \<Rightarrow> int" where
  "days_from_civil y m d =
     (let yy = (if m \<le> 2 then y - 1 else y);
          mp = (if m > 2 then m - 3 else m + 9)
      in 365 * yy + yy div 4 - yy div 100 + yy div 400 + (153 * mp + 2) div 5 + d - 1 - 719468)"

definition civil_from_days :: "int \<Rightarrow> int \<times> int \<times> int" where
  "civil_from_days n =
     (let z = n + 719468;
          era = z div 146097; doe = z mod 146097;
          c = min 3 (doe div 36524); rc = doe - c * 36524;
          q = rc div 1461; rq = rc mod 1461;
          a = min 3 (rq div 365); doy = rq - a * 365;
          mp = (5 * doy + 2) div 153;
          d = doy - (153 * mp + 2) div 5 + 1;
          m = (if mp < 10 then mp + 3 else mp - 9);
          yy = 400 * era + 100 * c + 4 * q + a
      in (if m \<le> 2 then yy + 1 else yy, m, d))"

lemma civil_year_arith:
  fixes e c q a :: int
  assumes "0 \<le> c" "c \<le> 3" "0 \<le> q" "q \<le> 24" "0 \<le> a" "a \<le> 3"
  defines "yy \<equiv> 400 * e + 100 * c + 4 * q + a"
  shows "yy div 4 = 100 * e + 25 * c + q" "yy div 100 = 4 * e + c" "yy div 400 = e"
proof -
  show "yy div 4 = 100 * e + 25 * c + q"
    by (rule int_div_pos_eq [where r = a]) (use assms(1-6) in \<open>simp_all add: yy_def\<close>)
  show "yy div 100 = 4 * e + c"
    by (rule int_div_pos_eq [where r = "4 * q + a"]) (use assms(1-6) in \<open>simp_all add: yy_def\<close>)
  show "yy div 400 = e"
    by (rule int_div_pos_eq [where r = "100 * c + 4 * q + a"]) (use assms(1-6) in \<open>simp_all add: yy_def\<close>)
qed

lemma capped_division:
  fixes x b n :: int
  assumes "0 \<le> x" "0 < b" "0 \<le> n" "x \<le> (n + 1) * b"
  defines "k \<equiv> min n (x div b)"
  shows "0 \<le> x - k * b" "x - k * b \<le> b" "0 \<le> k" "k \<le> n"
proof -
  have x: "x = b * (x div b) + x mod b" "0 \<le> x mod b" "x mod b < b" "0 \<le> x div b"
    using assms(1,2) by (simp_all add: pos_imp_zdiv_nonneg_iff)
  then show "0 \<le> k" "k \<le> n" using assms(3) by (auto simp: k_def)
  show "x - k * b \<le> b"
  proof (cases "n \<le> x div b")
    case True
    then show ?thesis using assms(4) by (simp add: k_def algebra_simps)
  next
    case False
    then have "x - k * b = x mod b" by (simp add: k_def minus_div_mult_eq_mod)
    with x(3) show ?thesis by simp
  qed
  have "k * b \<le> (x div b) * b"
    using assms(2) by (intro mult_right_mono) (auto simp: k_def)
  moreover have "(x div b) * b = x - x mod b" by (simp add: minus_mod_eq_div_mult)
  ultimately show "0 \<le> x - k * b" using x(2) by linarith
qed

lemma civil_decomposition:
  fixes doe :: int
  assumes "0 \<le> doe" "doe < 146097"
  defines "c \<equiv> min 3 (doe div 36524)"
  defines "rc \<equiv> doe - c * 36524"
  defines "q \<equiv> rc div 1461" and "rq \<equiv> rc mod 1461"
  defines "a \<equiv> min 3 (rq div 365)"
  shows "0 \<le> c" "c \<le> 3" "0 \<le> q" "q \<le> 24" "0 \<le> a" "a \<le> 3" "0 \<le> rq - a * 365" "rq - a * 365 \<le> 365"
proof -
  have rc: "0 \<le> rc" "rc \<le> 36524" and c: "0 \<le> c" "c \<le> 3"
    using capped_division [of doe 36524 3] assms(1,2) by (simp_all add: rc_def c_def)
  show "0 \<le> c" "c \<le> 3" by (rule c)+
  from rc show "0 \<le> q" "q \<le> 24" unfolding q_def by auto
  have rq: "0 \<le> rq" "rq \<le> 1460" using rc unfolding rq_def by auto
  then show "0 \<le> a" "a \<le> 3" "0 \<le> rq - a * 365" "rq - a * 365 \<le> 365"
    using capped_division [of rq 365 3] by (simp_all add: a_def)
qed

lemma month_of_day_arith:
  fixes doy :: int
  assumes "0 \<le> doy" "doy \<le> 365"
  shows "0 \<le> (5 * doy + 2) div 153" "(5 * doy + 2) div 153 \<le> 11"
    "0 \<le> doy - (153 * ((5 * doy + 2) div 153) + 2) div 5"
    "doy - (153 * ((5 * doy + 2) div 153) + 2) div 5 \<le> 30"
proof -
  define mp where "mp = (5 * doy + 2) div 153"
  define t where "t = (153 * mp + 2) div 5"
  have mp: "153 * mp \<le> 5 * doy + 2" "5 * doy + 2 < 153 * mp + 153"
    unfolding mp_def by linarith+
  have t: "5 * t \<le> 153 * mp + 2" "153 * mp + 2 < 5 * t + 5"
    unfolding t_def by linarith+
  show "0 \<le> (5 * doy + 2) div 153" "(5 * doy + 2) div 153 \<le> 11"
    unfolding mp_def [symmetric] using mp assms by linarith+
  show "0 \<le> doy - (153 * ((5 * doy + 2) div 153) + 2) div 5"
    "doy - (153 * ((5 * doy + 2) div 153) + 2) div 5 \<le> 30"
    unfolding mp_def [symmetric] t_def [symmetric] using mp t by linarith+
qed

text \<open>Every day number comes back from its civil date, whose month and day are in range.\<close>

lemma civil_roundtrip:
  assumes "civil_from_days n = (y, m, d)"
  shows "days_from_civil y m d = n" and "1 \<le> m" and "m \<le> 12" and "1 \<le> d" and "d \<le> 31"
    and "400 * ((n + 719468) div 146097) \<le> y"
proof -
  define z where "z = n + 719468"
  define e doe where "e = z div 146097" and "doe = z mod 146097"
  define c where "c = min 3 (doe div 36524)"
  define rc where "rc = doe - c * 36524"
  define q rq where "q = rc div 1461" and "rq = rc mod 1461"
  define a where "a = min 3 (rq div 365)"
  define doy where "doy = rq - a * 365"
  define mp where "mp = (5 * doy + 2) div 153"
  define yy where "yy = 400 * e + 100 * c + 4 * q + a"
  have doe: "0 \<le> doe" "doe < 146097" by (simp_all add: doe_def)
  note dec = civil_decomposition [OF doe, folded c_def, folded rc_def, folded q_def rq_def,
      folded a_def, folded doy_def]
  note mon = month_of_day_arith [OF dec(7,8), folded mp_def]
  note yr = civil_year_arith [where e = e, OF dec(1-6), folded yy_def]
  have ymd: "m = (if mp < 10 then mp + 3 else mp - 9)" "d = doy - (153 * mp + 2) div 5 + 1"
    "y = (if m \<le> 2 then yy + 1 else yy)"
    using assms [unfolded civil_from_days_def Let_def, folded z_def, folded e_def doe_def,
        folded c_def, folded rc_def, folded q_def rq_def, folded a_def, folded doy_def,
        folded mp_def, folded yy_def]
    by (auto split: if_splits)
  have inv: "(if m \<le> 2 then y - 1 else y) = yy" "(if m > 2 then m - 3 else m + 9) = mp"
    using ymd mon(1,2) by auto
  have "rc = 1461 * q + rq" "z = 146097 * e + doe" by (simp_all add: q_def rq_def e_def doe_def)
  then have "z = 146097 * e + 36524 * c + 1461 * q + 365 * a + doy"
    using rc_def doy_def by linarith
  then show "days_from_civil y m d = n"
    unfolding days_from_civil_def Let_def inv yr using ymd(2) by (simp add: z_def yy_def)
  show "1 \<le> m" "m \<le> 12" "1 \<le> d" "d \<le> 31" using ymd mon by auto
  have "400 * e \<le> yy" using dec(1,3,5) by (simp add: yy_def)
  then show "400 * ((n + 719468) div 146097) \<le> y"
    unfolding z_def [symmetric] e_def [symmetric] using ymd(3) by (simp split: if_splits)
qed

lemma civil_year_large:
  assumes "civil_from_days n = (y, m, d)" and "0 \<le> n"
  shows "100 \<le> y"
proof -
  have "1 \<le> (n + 719468) div 146097" using assms(2) by linarith
  with civil_roundtrip(6) [OF assms(1)] show ?thesis by linarith
qed

section \<open>Wall clocks\<close>

type_synonym zone = "time_ms \<Rightarrow> int"

record ZonedParts =
  zp_year :: int
  zp_month :: int
  zp_day :: int
  zp_weekday :: int
  zp_hour :: int
  zp_minute :: int

text \<open>The calendar fields that \<open>Intl.DateTimeFormat\<close> prints for a wall clock reading.\<close>

definition partsOfLocal :: "time_ms \<Rightarrow> ZonedParts" where
  "partsOfLocal x =
     (let n = x div 86400000; r = x mod 86400000 in
      case civil_from_days n of (y, m, d) \<Rightarrow>
        \<lparr>zp_year = y, zp_month = m, zp_day = d, zp_weekday = (n + 3) mod 7 + 1,
         zp_hour = r div 3600000, zp_minute = r mod 3600000 div 60000\<rparr>)"

definition zonedPartsAt :: "time_ms \<Rightarrow> zone \<Rightarrow> ZonedParts" where
  "zonedPartsAt instant tz = partsOfLocal (instant + tz instant)"

text \<open>\<open>Date.UTC\<close> maps the years 0 to 99 to 1900 to 1999.\<close>

definition Date_UTC :: "int \<Rightarrow> int \<Rightarrow> int \<Rightarrow> int \<Rightarrow> int \<Rightarrow> time_ms" where
  "Date_UTC y m d h mi =
     days_from_civil (if 0 \<le> y \<and> y \<le> 99 then 1900 + y else y) m d * 86400000 + h * 3600000 + mi * 60000"

definition zonedToUtc_step :: "time_ms \<Rightarrow> zone \<Rightarrow> time_ms \<Rightarrow> time_ms" where
  "zonedToUtc_step target tz guess =
     (let displayed = zonedPartsAt guess tz;
          displayedUtc = Date_UTC (zp_year displayed) (zp_month displayed) (zp_day displayed)
            (zp_hour displayed) (zp_minute displayed)
      in guess + (target - displayedUtc))"

definition zonedToUtc :: "int \<Rightarrow> int \<Rightarrow> int \<Rightarrow> int \<Rightarrow> int \<Rightarrow> zone \<Rightarrow> time_ms" where
  "zonedToUtc year month day hour minute tz =
     (let target = Date_UTC year month day hour minute in
      zonedToUtc_step target tz (zonedToUtc_step target tz target))"

lemma day_split:
  fixes x :: int
  defines "r \<equiv> x mod 86400000"
  shows "x div 86400000 * 86400000 + r div 3600000 * 3600000 + r mod 3600000 div 60000 * 60000
    = x - x mod 60000"
proof -
  have a: "x div 86400000 * 86400000 = x - r" by (simp add: r_def minus_mod_eq_div_mult)
  have b: "r div 3600000 * 3600000 = r - r mod 3600000" by (simp add: minus_mod_eq_div_mult)
  have c: "r mod 3600000 div 60000 * 60000 = r mod 3600000 - r mod 3600000 mod 60000"
    by (rule minus_mod_eq_div_mult [symmetric])
  have "r mod 3600000 mod 60000 = r mod 60000" by (simp add: mod_mod_cancel)
  also have "\<dots> = x mod 60000" by (simp add: r_def mod_mod_cancel)
  finally show ?thesis using a b c by linarith
qed

lemma Date_UTC_partsOfLocal:
  assumes "0 \<le> x"
  defines "p \<equiv> partsOfLocal x"
  shows "Date_UTC (zp_year p) (zp_month p) (zp_day p) (zp_hour p) (zp_minute p) = x - x mod 60000"
proof -
  obtain y m d where c: "civil_from_days (x div 86400000) = (y, m, d)" by (metis prod_cases3)
  have "100 \<le> y" using civil_year_large [OF c] assms(1) by simp
  then have y: "(if 0 \<le> y \<and> y \<le> 99 then 1900 + y else y) = y" by simp
  have f: "zp_year p = y" "zp_month p = m" "zp_day p = d"
    "zp_hour p = x mod 86400000 div 3600000" "zp_minute p = x mod 86400000 mod 3600000 div 60000"
    by (simp_all add: p_def partsOfLocal_def Let_def c)
  show ?thesis
    unfolding Date_UTC_def f y civil_roundtrip(1) [OF c] by (rule day_split)
qed

lemma partsOfLocal_minute: "partsOfLocal (x - x mod 60000) = partsOfLocal x"
proof -
  define y where "y = x - x mod 60000"
  define r where "r = x mod 86400000"
  have x: "x = y + x mod 60000" "0 \<le> x mod 60000" "x mod 60000 < 60000" by (simp_all add: y_def)
  have y60: "y = 60000 * (x div 60000)" by (simp add: y_def minus_mod_eq_mult_div)
  have d: "y div 86400000 = x div 86400000"
    unfolding y60 by (simp add: div_mult2_eq [of _ 60000 1440, simplified] zdiv_zmult2_eq [symmetric])
  have r': "y mod 86400000 = r - r mod 60000"
  proof -
    have "y mod 86400000 = y - y div 86400000 * 86400000" by (simp add: minus_div_mult_eq_mod)
    also have "\<dots> = x mod 86400000 - x mod 60000"
      unfolding d y_def by (simp add: minus_div_mult_eq_mod [symmetric])
    also have "x mod 60000 = r mod 60000" by (simp add: r_def mod_mod_cancel)
    finally show ?thesis by (simp add: r_def)
  qed
  have h: "(r - r mod 60000) div 3600000 = r div 3600000"
    by (simp add: minus_mod_eq_mult_div)
  have mi: "(r - r mod 60000) mod 3600000 div 60000 = r mod 3600000 div 60000"
  proof -
    have "(r - r mod 60000) mod 3600000 = 60000 * (r div 60000 mod 60)"
      by (simp add: minus_mod_eq_mult_div mult_mod_right)
    moreover have "r mod 3600000 = 60000 * (r div 60000 mod 60) + r mod 60000"
      using zmod_zmult2_eq [of 60 r 60000] by simp
    moreover have "r mod 60000 div 60000 = 0" by (rule div_pos_pos_trivial) simp_all
    ultimately show ?thesis by (simp only: div_mult_self4 nonzero_mult_div_cancel_left)
  qed
  show ?thesis
    unfolding y_def [symmetric] partsOfLocal_def Let_def d r' r_def [symmetric] h mi ..
qed

text \<open>
  The two corrections read the zone at the target and at the first correction: from a wall clock
  reading the code arrives at that reading less the offset at the first correction.
\<close>

lemma zonedToUtc_corrections:
  fixes tz :: zone and x :: time_ms
  defines "p \<equiv> partsOfLocal x" and "L \<equiv> x - x mod 60000"
  assumes "0 \<le> x" and "60000 dvd tz L" and "60000 dvd tz (L - tz L)"
    and "0 \<le> L + tz L" and "0 \<le> L - tz L + tz (L - tz L)"
  shows "zonedToUtc (zp_year p) (zp_month p) (zp_day p) (zp_hour p) (zp_minute p) tz = L - tz (L - tz L)"
proof -
  have L: "60000 dvd L" by (simp add: L_def minus_mod_eq_mult_div)
  then have "(L + tz L) mod 60000 = 0" "(L - tz L + tz (L - tz L)) mod 60000 = 0"
    using assms(4,5) by (meson dvd_add dvd_diff dvd_imp_mod_0)+
  then have s: "zonedToUtc_step L tz L = L - tz L" "zonedToUtc_step L tz (L - tz L) = L - tz (L - tz L)"
    using Date_UTC_partsOfLocal [OF assms(6)] Date_UTC_partsOfLocal [OF assms(7)]
    by (simp_all add: zonedToUtc_step_def Let_def zonedPartsAt_def)
  have "Date_UTC (zp_year p) (zp_month p) (zp_day p) (zp_hour p) (zp_minute p) = L"
    using Date_UTC_partsOfLocal [OF assms(3)] by (simp add: p_def L_def)
  then show ?thesis by (simp add: zonedToUtc_def s)
qed

text \<open>
  A zone that changes its offset at most once in a period, at \<open>T\<close> from \<open>a\<close> to \<open>b\<close>, all of them whole
  minutes: a zone of fixed offset (\<open>a = b\<close>), a clock set forward (\<open>a < b\<close>) or back (\<open>b < a\<close>).
\<close>

definition shiftsOnce :: "zone \<Rightarrow> time_ms \<Rightarrow> time_ms \<Rightarrow> time_ms \<Rightarrow> int \<Rightarrow> int \<Rightarrow> bool" where
  "shiftsOnce tz lo hi T a b \<longleftrightarrow> 60000 dvd T \<and> 60000 dvd a \<and> 60000 dvd b \<and>
     \<bar>a\<bar> \<le> 86400000 \<and> \<bar>b\<bar> \<le> 86400000 \<and> (\<forall>s. lo \<le> s \<and> s \<le> hi \<longrightarrow> tz s = (if s < T then a else b))"

lemma minute_less:
  fixes x T :: int
  assumes "60000 dvd T"
  shows "x - x mod 60000 < T \<longleftrightarrow> x < T"
proof -
  obtain k where k: "T = 60000 * k" using assms by (rule dvdE)
  define q where "q = x div 60000"
  have q: "x - x mod 60000 = 60000 * q" "x < 60000 * q + 60000" "60000 * q \<le> x"
    unfolding q_def by (simp_all add: minus_mod_eq_mult_div)
  have "q < k \<longleftrightarrow> x < 60000 * k" using q(2,3) by linarith
  then show ?thesis unfolding k q(1) by simp
qed

text \<open>The result of the two corrections in such a zone, for the wall clock of the minute of \<open>c\<close>.\<close>

definition convertedInstant :: "time_ms \<Rightarrow> int \<Rightarrow> int \<Rightarrow> time_ms \<Rightarrow> time_ms" where
  "convertedInstant T a b c =
     (let d = c - c mod 60000 in
      if c < T then (if T \<le> d + a \<and> T \<le> d + a - b then d + (a - b) else d)
      else (if d + b < T \<and> d + b - a < T then d - (a - b) else d))"

lemma convertedInstant_repeated:
  assumes "b < a" and "T - (a - b) \<le> c" and "c < T + (a - b)"
  shows "convertedInstant T a b c \<in> {c - c mod 60000 - (a - b), c - c mod 60000, c - c mod 60000 + (a - b)}"
  by (simp add: convertedInstant_def Let_def)

lemma convertedInstant_exact:
  assumes "60000 dvd T" "60000 dvd a" "60000 dvd b" and "\<not> (b < a \<and> T - (a - b) \<le> c \<and> c < T + (a - b))"
  shows "convertedInstant T a b c = c - c mod 60000"
proof -
  have "60000 dvd T + (a - b)" using assms(1-3) by simp
  from minute_less [OF this, of c] minute_less [OF assms(1), of c] pos_mod_sign [of 60000 c] assms(4)
  show ?thesis unfolding convertedInstant_def Let_def by (simp split: if_split) linarith
qed

lemma convertedInstant_second_pass:
  assumes "b < a" "a \<le> 0" "T \<le> c" "c < T + (a - b)"
  shows "convertedInstant T a b c < T"
proof -
  have "c - c mod 60000 + b < T" "c - c mod 60000 + b - a < T"
    using assms pos_mod_sign [of 60000 c] by linarith+
  with assms(3) show ?thesis by (simp add: convertedInstant_def Let_def)
qed

lemma shift_arith:
  fixes T a b d zc zL zg :: int
  assumes "zc = (if d < T then a else b)" and "zL = (if d + zc < T then a else b)"
    and "zg = (if d + zc - zL < T then a else b)"
  shows "d + zc - zg = (if d < T then (if T \<le> d + a \<and> T \<le> d + a - b then d + (a - b) else d)
      else (if d + b < T \<and> d + b - a < T then d - (a - b) else d))"
    and "(if d + zc - zg < T then a else b) = zg"
  using assms by (auto split: if_splits)

text \<open>
  What the conversion of the wall clock at \<open>c\<close> gives in such a zone: the start of the minute of \<open>c\<close>,
  or, when the clock is set back and \<open>c\<close> reads a repeated time, in some cases the other instant with
  the same reading.
\<close>

lemma zonedToUtc_shift:
  fixes tz :: zone and c :: time_ms
  assumes "shiftsOnce tz lo hi T a b" and "lo \<le> c - 259200000" and "c + 259200000 \<le> hi" and "259260000 \<le> c"
  defines "p \<equiv> zonedPartsAt c tz" and "d \<equiv> c - c mod 60000"
  defines "t \<equiv> zonedToUtc (zp_year p) (zp_month p) (zp_day p) (zp_hour p) (zp_minute p) tz"
  shows "t = convertedInstant T a b c"
    and "zonedPartsAt t tz = zonedPartsAt c tz"
    and "t mod 60000 = 0"
proof -
  have ab: "60000 dvd T" "60000 dvd a" "60000 dvd b" "\<bar>a\<bar> \<le> 86400000" "\<bar>b\<bar> \<le> 86400000"
    and tz: "\<And>s. lo \<le> s \<Longrightarrow> s \<le> hi \<Longrightarrow> tz s = (if s < T then a else b)"
    using assms(1) by (auto simp: shiftsOnce_def)
  have c: "0 \<le> c mod 60000" "c mod 60000 < 60000" by simp_all
  have less: "d < T \<longleftrightarrow> c < T" unfolding d_def by (rule minute_less [OF ab(1)])
  have zc: "tz c = (if d < T then a else b)" using tz [of c] assms(2,3) less by simp
  then have dz: "60000 dvd tz c" "\<bar>tz c\<bar> \<le> 86400000" using ab by auto
  define L where "L = d + tz c"
  have m: "(c + tz c) mod 60000 = c mod 60000"
    using dz(1) by (metis add.right_neutral dvd_imp_mod_0 mod_add_right_eq)
  then have L: "L = c + tz c - (c + tz c) mod 60000" by (simp add: L_def d_def)
  have zL: "tz L = (if L < T then a else b)"
    using tz [of L] assms(2,3) dz c by (simp add: L_def d_def)
  then have dL: "60000 dvd tz L" "\<bar>tz L\<bar> \<le> 86400000" using ab by auto
  define g where "g = L - tz L"
  have zg: "tz g = (if g < T then a else b)"
    using tz [of g] assms(2,3) dz dL c by (simp add: g_def L_def d_def)
  then have dg: "60000 dvd tz g" "\<bar>tz g\<bar> \<le> 86400000" using ab by auto
  have pos: "0 \<le> c + tz c" "0 \<le> L + tz L" "0 \<le> g + tz g"
    using dz(2) dL(2) dg(2) assms(4) c unfolding g_def L_def d_def by linarith+
  have t: "t = L - tz g"
    unfolding t_def p_def zonedPartsAt_def g_def
    using zonedToUtc_corrections [OF pos(1), folded L, folded g_def] dL(1) dg(1) pos(2,3) by (simp add: g_def)
  show form: "t = convertedInstant T a b c"
    using shift_arith(1) [OF zc zL [unfolded L_def] zg [unfolded g_def L_def]]
    unfolding t less by (simp only: g_def L_def convertedInstant_def Let_def d_def [symmetric])
  have zt: "tz t = tz g"
  proof -
    have "lo \<le> t" "t \<le> hi" using assms(2,3) dz dg c by (simp_all add: t L_def d_def)
    with tz have "tz t = (if t < T then a else b)" by simp
    then show ?thesis
      using shift_arith(2) [OF zc zL [unfolded L_def] zg [unfolded g_def L_def]] by (simp add: t g_def L_def)
  qed
  then have "t + tz t = L" by (simp add: t)
  then show "zonedPartsAt t tz = zonedPartsAt c tz"
    unfolding zonedPartsAt_def L using partsOfLocal_minute by simp
  have "60000 dvd d" by (simp add: d_def minus_mod_eq_mult_div)
  then have "60000 dvd t" using dz(1) dg(1) by (simp add: t L_def)
  then show "t mod 60000 = 0" by simp
qed

end
