(* ===== verification/TimeWindows.thy ===== *)
theory TimeWindows
  imports Calendar "HOL-Library.Product_Lexorder" "HOL-Library.Multiset"
begin

text \<open>
  Weekly local-time windows: the reading of \<open>HH:mm\<close> strings and the membership test of the
  evaluator (\<open>withinWindow\<close> of \<open>cg3-policy-evaluator.ts\<close>) and of the policy diff
  (\<open>withinWindow\<close> of \<open>cg4-policy-diff.ts\<close>), and the validation every stored window passes
  (\<open>normalizeLocalTimeWindows\<close> of \<open>cg3-persistence.ts\<close>).
\<close>

record LocalTimeWindow =
  lw_daysOfWeek :: "int list"
  lw_startLocal :: string
  lw_endLocal :: string

section \<open>Reading times of day\<close>

text \<open>\<open>value.split(c)\<close> for a one-character separator.\<close>

fun js_split :: "char \<Rightarrow> string \<Rightarrow> string list" where
  "js_split c [] = [[]]"
| "js_split c (x # xs) =
     (if x = c then [] # js_split c xs
      else case js_split c xs of [] \<Rightarrow> [[x]] | p # ps \<Rightarrow> (x # p) # ps)"

definition is_digit :: "char \<Rightarrow> bool" where
  "is_digit ch \<longleftrightarrow> CHR ''0'' \<le> ch \<and> ch \<le> CHR ''9''"

definition digit_value :: "char \<Rightarrow> int" where
  "digit_value ch = int (of_char ch) - 48"

text \<open>
  \<open>Number(s)\<close> on the strings that occur in times and dates: decimal digits, with \<open>Number('') = 0\<close>;
  \<^const>\<open>None\<close> is \<open>NaN\<close>. The other numeral forms of JavaScript are outside the format.
\<close>

definition js_Number :: "string \<Rightarrow> int option" where
  "js_Number s = (if list_all is_digit s then Some (fold (\<lambda>c n. 10 * n + digit_value c) s 0) else None)"

text \<open>\<open>const [h, m] = s.split(':').map(Number); h * 60 + m\<close>: a missing part is \<open>undefined\<close>, so \<open>NaN\<close>.\<close>

definition clockMinutes :: "string \<Rightarrow> int option" where
  "clockMinutes s =
     (case js_split CHR '':'' s of
        h # m # _ \<Rightarrow> (case (js_Number h, js_Number m) of
            (Some hh, Some mm) \<Rightarrow> Some (hh * 60 + mm)
          | _ \<Rightarrow> None)
      | _ \<Rightarrow> None)"

text \<open>The policy diff reads the same strings with the defaults \<open>[h = 0, m = 0]\<close>.\<close>

definition clockMinutesDefault :: "string \<Rightarrow> int option" where
  "clockMinutesDefault s =
     (case js_split CHR '':'' s of
        h # m # _ \<Rightarrow> (case (js_Number h, js_Number m) of
            (Some hh, Some mm) \<Rightarrow> Some (hh * 60 + mm)
          | _ \<Rightarrow> None)
      | [h] \<Rightarrow> (case js_Number h of Some hh \<Rightarrow> Some (hh * 60) | None \<Rightarrow> None)
      | [] \<Rightarrow> Some 0)"

section \<open>Membership\<close>

text \<open>The comparison part of \<open>withinWindow\<close>; every comparison with \<open>NaN\<close> is false.\<close>

definition clockWithin :: "int option \<Rightarrow> int option \<Rightarrow> int \<Rightarrow> bool" where
  "clockWithin start fin minuteOfDay \<longleftrightarrow>
     (if (case (start, fin) of (Some s, Some e) \<Rightarrow> e > s | _ \<Rightarrow> False)
      then (case (start, fin) of (Some s, Some e) \<Rightarrow> minuteOfDay \<ge> s \<and> minuteOfDay < e | _ \<Rightarrow> False)
      else (case start of Some s \<Rightarrow> minuteOfDay \<ge> s | None \<Rightarrow> False) \<or>
           (case fin of Some e \<Rightarrow> minuteOfDay < e | None \<Rightarrow> False))"

definition withinWindow :: "LocalTimeWindow \<Rightarrow> int \<Rightarrow> int \<Rightarrow> bool" where
  "withinWindow w weekday minuteOfDay \<longleftrightarrow>
     weekday \<in> set (lw_daysOfWeek w) \<and>
     clockWithin (clockMinutes (lw_startLocal w)) (clockMinutes (lw_endLocal w)) minuteOfDay"

definition anyWindowMatches :: "LocalTimeWindow list \<Rightarrow> int \<Rightarrow> int \<Rightarrow> bool" where
  "anyWindowMatches windows weekday minuteOfDay = list_ex (\<lambda>w. withinWindow w weekday minuteOfDay) windows"

definition diffWithinWindow :: "LocalTimeWindow \<Rightarrow> int \<Rightarrow> int \<Rightarrow> bool" where
  "diffWithinWindow w weekday minuteOfDay \<longleftrightarrow>
     weekday \<in> set (lw_daysOfWeek w) \<and>
     clockWithin (clockMinutesDefault (lw_startLocal w)) (clockMinutesDefault (lw_endLocal w)) minuteOfDay"

section \<open>Validation\<close>

datatype window_error = DaysOfWeekError nat | LocalMinuteError | WindowsOverlapError

text \<open>The pattern \<open>^(?:[01]\d|2[0-3]):[0-5]\d$\<close>.\<close>

definition matchesHHmm :: "string \<Rightarrow> bool" where
  "matchesHHmm s =
     (case s of
        [a, b, c, d, e] \<Rightarrow>
          ((a = CHR ''0'' \<or> a = CHR ''1'') \<and> is_digit b \<or>
           a = CHR ''2'' \<and> CHR ''0'' \<le> b \<and> b \<le> CHR ''3'') \<and>
          c = CHR '':'' \<and> (CHR ''0'' \<le> d \<and> d \<le> CHR ''5'') \<and> is_digit e
      | _ \<Rightarrow> False)"

definition localMinute :: "string \<Rightarrow> window_error + int" where
  "localMinute s =
     (if \<not> matchesHHmm s then Inl LocalMinuteError
      else case clockMinutes s of Some m \<Rightarrow> Inr m | None \<Rightarrow> Inl LocalMinuteError)"

definition normalizeWindow :: "nat \<Rightarrow> LocalTimeWindow \<Rightarrow> window_error + LocalTimeWindow" where
  "normalizeWindow index w =
     (let daysOfWeek = sort (js_uniq (lw_daysOfWeek w)) in
      if daysOfWeek = [] \<or> list_ex (\<lambda>day. day < 1 \<or> day > 7) daysOfWeek
      then Inl (DaysOfWeekError index)
      else rbind (localMinute (lw_startLocal w)) (\<lambda>_.
           rbind (localMinute (lw_endLocal w)) (\<lambda>_.
           Inr \<lparr>lw_daysOfWeek = daysOfWeek, lw_startLocal = lw_startLocal w, lw_endLocal = lw_endLocal w\<rparr>)))"

definition weekMinutes :: int where
  "weekMinutes = 7 * 24 * 60"

definition dayIntervals :: "int \<Rightarrow> int \<Rightarrow> int \<Rightarrow> (int \<times> int) list" where
  "dayIntervals startMinute endMinute day =
     (let start = (day - 1) * 24 * 60 + startMinute;
          unwrappedEnd = (day - 1) * 24 * 60 + endMinute + (if endMinute \<le> startMinute then 24 * 60 else 0)
      in if unwrappedEnd \<le> weekMinutes then [(start, unwrappedEnd)]
         else [(start, weekMinutes), (0, unwrappedEnd - weekMinutes)])"

definition windowIntervals :: "LocalTimeWindow \<Rightarrow> window_error + (int \<times> int) list" where
  "windowIntervals w =
     rbind (localMinute (lw_startLocal w)) (\<lambda>startMinute.
     rbind (localMinute (lw_endLocal w)) (\<lambda>endMinute.
     Inr (concat (map (dayIntervals startMinute endMinute) (lw_daysOfWeek w)))))"

fun adjacentOverlap :: "(int \<times> int) list \<Rightarrow> bool" where
  "adjacentOverlap ((s1, e1) # (s2, e2) # rest) = (s2 < e1 \<or> adjacentOverlap ((s2, e2) # rest))"
| "adjacentOverlap _ = False"

fun show_nat :: "nat \<Rightarrow> string" where
  "show_nat n = (if n < 10 then [char_of (48 + n)] else show_nat (n div 10) @ [char_of (48 + n mod 10)])"

definition show_int :: "int \<Rightarrow> string" where
  "show_int i = (if i < 0 then CHR ''-'' # show_nat (nat (- i)) else show_nat (nat i))"

fun js_join :: "string \<Rightarrow> string list \<Rightarrow> string" where
  "js_join sep [] = []"
| "js_join sep [x] = x"
| "js_join sep (x # y # ys) = x @ sep @ js_join sep (y # ys)"

definition daysKey :: "LocalTimeWindow \<Rightarrow> string" where
  "daysKey w = js_join '','' (map show_int (lw_daysOfWeek w))"

text \<open>
  The final sort compares with \<open>localeCompare\<close>; the keys hold only digits, commas and colons, on
  which the collation order is the code unit order.
\<close>

definition normalizeLocalTimeWindows :: "LocalTimeWindow list \<Rightarrow> window_error + LocalTimeWindow list" where
  "normalizeLocalTimeWindows windows =
     rbind (rmap (\<lambda>(index, w). normalizeWindow index w) (enumerate 0 windows)) (\<lambda>normalized.
     rbind (rmap windowIntervals normalized) (\<lambda>intervalLists.
     let intervals = sort (concat intervalLists) in
     if adjacentOverlap intervals then Inl WindowsOverlapError
     else Inr (sort_key (\<lambda>w. (daysKey w, lw_startLocal w, lw_endLocal w)) normalized)))"

declare show_nat.simps [simp del]

section \<open>Validated times\<close>

lemma digit_facts:
  assumes "is_digit c"
  shows "0 \<le> digit_value c" "digit_value c \<le> 9" "c \<noteq> CHR '':''"
  using assms by (auto simp: is_digit_def digit_value_def less_eq_char_def)

lemma digit_upto:
  assumes "CHR ''0'' \<le> c"
  shows "c \<le> CHR ''3'' \<Longrightarrow> is_digit c \<and> digit_value c \<le> 3"
    and "c \<le> CHR ''5'' \<Longrightarrow> is_digit c \<and> digit_value c \<le> 5"
  using assms by (auto simp: is_digit_def digit_value_def less_eq_char_def)

lemma digit_value_012:
  "digit_value CHR ''0'' = 0" "digit_value CHR ''1'' = 1" "digit_value CHR ''2'' = 2"
  "is_digit CHR ''0''" "is_digit CHR ''1''" "is_digit CHR ''2''"
  by (simp_all add: digit_value_def is_digit_def less_eq_char_def)

lemma clockMinutes_digits:
  assumes "is_digit a" "is_digit b" "is_digit d" "is_digit e"
  shows "clockMinutes [a, b, CHR '':'', d, e] =
      Some ((10 * digit_value a + digit_value b) * 60 + (10 * digit_value d + digit_value e))"
    and "clockMinutesDefault [a, b, CHR '':'', d, e] = clockMinutes [a, b, CHR '':'', d, e]"
  using assms digit_facts(3)
  by (auto simp: clockMinutes_def clockMinutesDefault_def js_Number_def)

lemma HHmm_shape:
  assumes "matchesHHmm s"
  obtains a b d e where "s = [a, b, CHR '':'', d, e]" "is_digit a" "is_digit b" "is_digit d" "is_digit e"
    "10 * digit_value a + digit_value b \<le> 23" "digit_value d \<le> 5"
proof -
  from assms obtain a b c d e where s: "s = [a, b, c, d, e]"
    by (auto simp: matchesHHmm_def split: list.splits)
  with assms have m: "c = CHR '':''" "CHR ''0'' \<le> d" "d \<le> CHR ''5''" "is_digit e"
    and ab: "(a = CHR ''0'' \<or> a = CHR ''1'') \<and> is_digit b \<or>
       a = CHR ''2'' \<and> CHR ''0'' \<le> b \<and> b \<le> CHR ''3''"
    by (auto simp: matchesHHmm_def)
  from ab have "is_digit a \<and> is_digit b \<and> 10 * digit_value a + digit_value b \<le> 23"
    using digit_upto(1) [of b] digit_facts(2) [of b] by (auto simp: digit_value_012)
  with s m digit_upto(2) [of d] show ?thesis by (intro that [of a b d e]) auto
qed

lemma HHmm_minutes:
  assumes "matchesHHmm s"
  obtains m where "clockMinutes s = Some m" "0 \<le> m" "m < 1440" "clockMinutesDefault s = Some m"
    "localMinute s = Inr m"
proof -
  from assms obtain a b d e where h: "s = [a, b, CHR '':'', d, e]" "is_digit a" "is_digit b" "is_digit d"
    "is_digit e" "10 * digit_value a + digit_value b \<le> 23" "digit_value d \<le> 5"
    by (rule HHmm_shape)
  define m where "m = (10 * digit_value a + digit_value b) * 60 + (10 * digit_value d + digit_value e)"
  have c: "clockMinutes s = Some m" "clockMinutesDefault s = Some m"
    using clockMinutes_digits [OF h(2-5)] by (simp_all add: h(1) m_def)
  have "0 \<le> m" "m < 1440"
    using digit_facts(1,2) [OF h(2)] digit_facts(1,2) [OF h(3)] digit_facts(1,2) [OF h(4)]
      digit_facts(1,2) [OF h(5)] h(6,7)
    by (simp_all add: m_def)
  with c assms show ?thesis by (intro that) (simp_all add: localMinute_def)
qed

lemma localMinute_Inr:
  assumes "localMinute s = Inr m"
  shows "matchesHHmm s" "clockMinutes s = Some m" "0 \<le> m" "m < 1440"
proof -
  from assms show "matchesHHmm s" by (auto simp: localMinute_def split: if_splits)
  then obtain m' where "clockMinutes s = Some m'" "0 \<le> m'" "m' < 1440" "localMinute s = Inr m'"
    by (rule HHmm_minutes) blast
  with assms show "clockMinutes s = Some m" "0 \<le> m" "m < 1440" by auto
qed

definition validWindow :: "LocalTimeWindow \<Rightarrow> bool" where
  "validWindow w \<longleftrightarrow> lw_daysOfWeek w \<noteq> [] \<and> sorted (lw_daysOfWeek w) \<and> distinct (lw_daysOfWeek w) \<and>
     set (lw_daysOfWeek w) \<subseteq> {1..7} \<and> matchesHHmm (lw_startLocal w) \<and> matchesHHmm (lw_endLocal w)"

lemma normalizeWindow_valid:
  assumes "normalizeWindow k w = Inr w'"
  shows "validWindow w'" "set (lw_daysOfWeek w') = set (lw_daysOfWeek w)"
    "lw_startLocal w' = lw_startLocal w" "lw_endLocal w' = lw_endLocal w"
  using assms localMinute_Inr(1)
  by (auto simp: normalizeWindow_def Let_def validWindow_def result_simps list_ex_iff not_less
      split: if_splits)

lemma normalizeWindow_id: "validWindow w \<Longrightarrow> normalizeWindow k w = Inr w"
  by (auto simp: normalizeWindow_def Let_def validWindow_def list_ex_iff js_uniq_distinct sorted_sort_id
      elim!: HHmm_minutes)

text \<open>On validated windows the two readings of the sources agree.\<close>

lemma diffWithinWindow_eq:
  assumes "validWindow w"
  shows "diffWithinWindow w = withinWindow w"
proof -
  from assms have "matchesHHmm (lw_startLocal w)" "matchesHHmm (lw_endLocal w)"
    by (simp_all add: validWindow_def)
  then show ?thesis
    by (auto simp: diffWithinWindow_def withinWindow_def fun_eq_iff elim!: HHmm_minutes)
qed

section \<open>Accepted windows are disjoint in the week\<close>

definition intervalsOf :: "LocalTimeWindow \<Rightarrow> (int \<times> int) list" where
  "intervalsOf w = (case windowIntervals w of Inr is \<Rightarrow> is | Inl _ \<Rightarrow> [])"

definition inInterval :: "int \<Rightarrow> int \<times> int \<Rightarrow> bool" where
  "inInterval t iv \<longleftrightarrow> fst iv \<le> t \<and> t < snd iv"

lemma dayIntervals_proper:
  assumes "1 \<le> day" "day \<le> 7" "0 \<le> s" "s < 1440" "0 \<le> e" "iv \<in> set (dayIntervals s e day)"
  shows "fst iv < snd iv"
  using assms by (auto simp: dayIntervals_def weekMinutes_def Let_def split: if_splits)

lemma valid_windowIntervals:
  assumes "validWindow w"
  shows "windowIntervals w = Inr (intervalsOf w)" and "\<forall>iv \<in> set (intervalsOf w). fst iv < snd iv"
proof -
  from assms obtain s e where "localMinute (lw_startLocal w) = Inr s" "0 \<le> s" "s < 1440"
    "localMinute (lw_endLocal w) = Inr e" "0 \<le> e"
    by (auto simp: validWindow_def elim!: HHmm_minutes)
  then have i: "windowIntervals w = Inr (concat (map (dayIntervals s e) (lw_daysOfWeek w)))"
    by (simp add: windowIntervals_def)
  then show "windowIntervals w = Inr (intervalsOf w)" by (simp add: intervalsOf_def)
  have "set (lw_daysOfWeek w) \<subseteq> {1..7}" using assms by (simp add: validWindow_def)
  with \<open>0 \<le> s\<close> \<open>s < 1440\<close> \<open>0 \<le> e\<close> show "\<forall>iv \<in> set (intervalsOf w). fst iv < snd iv"
    by (auto simp: intervalsOf_def i dest!: dayIntervals_proper [rotated 5])
qed

lemma not_adjacentOverlap_sorted_wrt:
  assumes "\<not> adjacentOverlap xs" and "\<forall>iv \<in> set xs. fst iv < snd iv"
  shows "sorted_wrt (\<lambda>a b. snd a \<le> fst b) xs"
  using assms
proof (induction xs rule: adjacentOverlap.induct)
  case (1 s1 e1 s2 e2 rest)
  then have ih: "sorted_wrt (\<lambda>a b. snd a \<le> fst b) ((s2, e2) # rest)" and a: "e1 \<le> s2" "s2 < e2" by auto
  then show ?case by force
qed auto

lemma disjoint_intervals_count:
  assumes "sorted_wrt (\<lambda>a b. snd a \<le> fst b) xs"
  shows "length (filter (inInterval t) xs) \<le> 1"
  using assms
proof (induction xs)
  case (Cons iv xs)
  show ?case
  proof (cases "inInterval t iv")
    case True
    with Cons.prems have "filter (inInterval t) xs = []"
      by (auto simp: filter_empty_conv inInterval_def)
    then show ?thesis by simp
  qed (use Cons in simp)
qed simp

lemma normalize_outcome:
  assumes "normalizeLocalTimeWindows ws = Inr ns"
  obtains zs where "list_all2 (\<lambda>(k, w) z. normalizeWindow k w = Inr z) (enumerate 0 ws) zs"
    "mset zs = mset ns" "\<forall>z \<in> set zs. validWindow z"
    "\<not> adjacentOverlap (sort (concat (map intervalsOf zs)))"
    "ns = sort_key (\<lambda>w. (daysKey w, lw_startLocal w, lw_endLocal w)) zs"
proof -
  from assms obtain zs iss where
      zs: "list_all2 (\<lambda>(k, w) z. normalizeWindow k w = Inr z) (enumerate 0 ws) zs"
    and iss: "list_all2 (\<lambda>z is. windowIntervals z = Inr is) zs iss"
    and ok: "\<not> adjacentOverlap (sort (concat iss))"
    and ns: "ns = sort_key (\<lambda>w. (daysKey w, lw_startLocal w, lw_endLocal w)) zs"
    by (auto simp: normalizeLocalTimeWindows_def result_simps rmap_Inr_iff Let_def case_prod_unfold
        split: if_splits)
  have valid: "\<forall>z \<in> set zs. validWindow z"
  proof
    fix z assume "z \<in> set zs"
    then obtain k where "k < length zs" "z = zs ! k" by (auto simp: in_set_conv_nth)
    with list_all2_nthD2 [OF zs] have "\<exists>j w. normalizeWindow j w = Inr z"
      by (auto simp: case_prod_unfold)
    then show "validWindow z" by (blast dest: normalizeWindow_valid(1))
  qed
  then have "iss = map intervalsOf zs"
    using iss valid_windowIntervals(1)
    by (auto simp: list_all2_conv_all_nth list_eq_iff_nth_eq)
  with zs ok ns valid that show thesis by simp
qed

text \<open>
  When a list of windows is accepted, every stored window has valid days and times, and no
  minute of the week lies in two of the weekly intervals the windows stand for.
\<close>

lemma accepted_windows_disjoint:
  assumes "normalizeLocalTimeWindows ws = Inr ns"
  shows "(\<forall>w \<in> set ns. validWindow w) \<and>
     length (filter (inInterval t) (concat (map intervalsOf ns))) \<le> 1"
proof -
  from assms obtain zs where zs: "mset zs = mset ns" "\<forall>z \<in> set zs. validWindow z"
    "\<not> adjacentOverlap (sort (concat (map intervalsOf zs)))"
    by (rule normalize_outcome)
  have set_eq: "set ns = set zs" using zs(1) by (metis set_mset_mset)
  have "mset (concat (map intervalsOf ns)) = mset (concat (map intervalsOf zs))"
  proof -
    have "sum_list (map (mset \<circ> intervalsOf) xs) = sum_mset (image_mset (mset \<circ> intervalsOf) (mset xs))" for xs
      by (metis mset_map sum_mset_sum_list)
    then show ?thesis by (simp add: mset_concat zs(1))
  qed
  then have "length (filter (inInterval t) (concat (map intervalsOf ns)))
      = length (filter (inInterval t) (sort (concat (map intervalsOf zs))))"
    by (metis mset_filter mset_sort size_mset)
  moreover have "sorted_wrt (\<lambda>a b. snd a \<le> fst b) (sort (concat (map intervalsOf zs)))"
    using zs(2,3) valid_windowIntervals(2) by (intro not_adjacentOverlap_sorted_wrt) auto
  ultimately show ?thesis using zs(2) set_eq disjoint_intervals_count by fastforce
qed

definition nightWindow :: LocalTimeWindow where
  "nightWindow = \<lparr>lw_daysOfWeek = [5], lw_startLocal = ''22:00'', lw_endLocal = ''06:00''\<rparr>"

lemma nightWindow_clock:
  "localMinute ''22:00'' = Inr 1320" "localMinute ''06:00'' = Inr 360"
  "clockMinutes ''22:00'' = Some 1320" "clockMinutes ''06:00'' = Some 360"
  by code_simp+

lemma nightWindow_accepted: "normalizeLocalTimeWindows [nightWindow] = Inr [nightWindow]"
  by code_simp

lemma accepted_windows_disjoint_witness:
  "length (filter (inInterval 7300) (concat (map intervalsOf [nightWindow]))) \<le> 1"
  using accepted_windows_disjoint [OF nightWindow_accepted] by blast

lemma overnight_minute:
  fixes k :: int
  assumes "0 \<le> s" "s < 1440" "0 \<le> e" "e \<le> s" "0 \<le> minute" "minute < 1440"
  shows "s \<le> k * 1440 + minute \<and> k * 1440 + minute < 1440 + e \<longleftrightarrow>
     k = 0 \<and> s \<le> minute \<or> k = 1 \<and> minute < e"
proof
  assume h: "s \<le> k * 1440 + minute \<and> k * 1440 + minute < 1440 + e"
  with assms have "-1 < k" "k < 2" by simp_all
  then have "k = 0 \<or> k = 1" by linarith
  with h show "k = 0 \<and> s \<le> minute \<or> k = 1 \<and> minute < e" by auto
qed (use assms in auto)

lemma overnight_interval:
  assumes "1 \<le> d" "d \<le> 7" "0 \<le> s" "s < 1440" "0 \<le> e" "e \<le> s"
    and "1 \<le> weekday" "weekday \<le> 7" "0 \<le> minute" "minute < (1440::int)"
  shows "list_ex (inInterval ((weekday - 1) * 1440 + minute)) (dayIntervals s e d) \<longleftrightarrow>
     d = weekday \<and> s \<le> minute \<or> d = (weekday + 5) mod 7 + 1 \<and> minute < e"
proof -
  have before: "(weekday + 5) mod 7 + 1 = (if weekday = 1 then 7 else weekday - 1)"
    using assms(7,8) by presburger
  note shifted = overnight_minute [OF assms(3-6,9,10), of "weekday - d"]
  show ?thesis
  proof (cases "d = 7")
    case True
    with assms have "list_ex (inInterval ((weekday - 1) * 1440 + minute)) (dayIntervals s e d) \<longleftrightarrow>
        weekday = 7 \<and> s \<le> minute \<or> weekday = 1 \<and> minute < e"
      by (auto simp: dayIntervals_def weekMinutes_def inInterval_def Let_def)
    with True before assms(8) show ?thesis by auto
  next
    case False
    with assms have "list_ex (inInterval ((weekday - 1) * 1440 + minute)) (dayIntervals s e d) \<longleftrightarrow>
        s \<le> (weekday - d) * 1440 + minute \<and> (weekday - d) * 1440 + minute < 1440 + e"
      by (auto simp: dayIntervals_def weekMinutes_def inInterval_def Let_def algebra_simps)
    with False assms(1,2) shifted before show ?thesis by auto
  qed
qed

text \<open>
  C36. A window that ends at or before its start is read in two ways. The evaluator's second half is
  the early morning of the listed days themselves; the overlap check of the validation lets each
  listed day run into the morning of the day after. So the two agree from the end time on, and
  before it only on days that are listed together with the day before them or not at all: on all
  other mornings a minute is inside for one reader and outside for the other.
\<close>

theorem night_window_readings_differ:
  assumes "validWindow w" and "clockMinutes (lw_startLocal w) = Some s"
    and "clockMinutes (lw_endLocal w) = Some e" and "e \<le> s"
    and "1 \<le> weekday" "weekday \<le> 7" "0 \<le> minute" "minute < 1440"
  shows "(withinWindow w weekday minute \<longleftrightarrow>
       weekday \<in> set (lw_daysOfWeek w) \<and> (s \<le> minute \<or> minute < e)) \<and>
     (list_ex (inInterval ((weekday - 1) * 1440 + minute)) (intervalsOf w) \<longleftrightarrow>
       weekday \<in> set (lw_daysOfWeek w) \<and> s \<le> minute \<or>
       (weekday + 5) mod 7 + 1 \<in> set (lw_daysOfWeek w) \<and> minute < e) \<and>
     ((withinWindow w weekday minute \<longleftrightarrow>
         list_ex (inInterval ((weekday - 1) * 1440 + minute)) (intervalsOf w)) \<longleftrightarrow>
       e \<le> minute \<or>
       (weekday \<in> set (lw_daysOfWeek w) \<longleftrightarrow> (weekday + 5) mod 7 + 1 \<in> set (lw_daysOfWeek w)))"
proof -
  have m: "matchesHHmm (lw_startLocal w)" "matchesHHmm (lw_endLocal w)" and days: "set (lw_daysOfWeek w) \<subseteq> {1..7}"
    using assms(1) by (simp_all add: validWindow_def)
  from m(1) assms(2) have s: "localMinute (lw_startLocal w) = Inr s" "0 \<le> s" "s < 1440"
    by (auto elim!: HHmm_minutes)
  from m(2) assms(3) have e: "localMinute (lw_endLocal w) = Inr e" "0 \<le> e"
    by (auto elim!: HHmm_minutes)
  have day: "list_ex (inInterval ((weekday - 1) * 1440 + minute)) (dayIntervals s e d) \<longleftrightarrow>
      d = weekday \<and> s \<le> minute \<or> d = (weekday + 5) mod 7 + 1 \<and> minute < e"
    if "d \<in> set (lw_daysOfWeek w)" for d
    using that days s(2,3) e(2) assms(4-8) by (intro overnight_interval) auto
  have "list_ex (inInterval ((weekday - 1) * 1440 + minute)) (intervalsOf w) \<longleftrightarrow>
      (\<exists>d \<in> set (lw_daysOfWeek w). list_ex (inInterval ((weekday - 1) * 1440 + minute)) (dayIntervals s e d))"
    by (simp add: intervalsOf_def windowIntervals_def s(1) e(1) list_ex_iff)
  also have "\<dots> \<longleftrightarrow> weekday \<in> set (lw_daysOfWeek w) \<and> s \<le> minute \<or>
      (weekday + 5) mod 7 + 1 \<in> set (lw_daysOfWeek w) \<and> minute < e"
    using day by blast
  finally have week: "list_ex (inInterval ((weekday - 1) * 1440 + minute)) (intervalsOf w) \<longleftrightarrow>
      weekday \<in> set (lw_daysOfWeek w) \<and> s \<le> minute \<or>
      (weekday + 5) mod 7 + 1 \<in> set (lw_daysOfWeek w) \<and> minute < e" .
  have within: "withinWindow w weekday minute \<longleftrightarrow>
      weekday \<in> set (lw_daysOfWeek w) \<and> (s \<le> minute \<or> minute < e)"
    using assms(2-4) by (simp add: withinWindow_def clockWithin_def)
  show ?thesis unfolding week within using assms(4) by auto
qed

lemma night_window_readings_differ_witness:
  "\<not> withinWindow nightWindow 6 60 \<and> list_ex (inInterval (5 * 1440 + 60)) (intervalsOf nightWindow) \<and>
   withinWindow nightWindow 5 60 \<and> \<not> list_ex (inInterval (4 * 1440 + 60)) (intervalsOf nightWindow)"
proof -
  have v: "validWindow nightWindow" by code_simp
  have c: "clockMinutes (lw_startLocal nightWindow) = Some 1320" "clockMinutes (lw_endLocal nightWindow) = Some 360"
    by (simp_all add: nightWindow_def nightWindow_clock)
  from night_window_readings_differ [OF v c, of 6 60] night_window_readings_differ [OF v c, of 5 60]
  show ?thesis by (simp add: nightWindow_def)
qed

text \<open>
  For a window inside one day the two readings agree: a minute of a listed day is in the
  window exactly when its minute of the week is in one of the window's weekly intervals.
\<close>

lemma same_day_window_readings_agree:
  assumes "validWindow w" and "clockMinutes (lw_startLocal w) = Some s"
    and "clockMinutes (lw_endLocal w) = Some e" and "s < e"
    and "1 \<le> weekday" "weekday \<le> 7" "0 \<le> minute" "minute < 1440"
  shows "withinWindow w weekday minute \<longleftrightarrow>
     list_ex (inInterval ((weekday - 1) * 1440 + minute)) (intervalsOf w)"
proof -
  have m: "matchesHHmm (lw_startLocal w)" "matchesHHmm (lw_endLocal w)" and days: "set (lw_daysOfWeek w) \<subseteq> {1..7}"
    using assms(1) by (simp_all add: validWindow_def)
  from m(1) assms(2) have s: "localMinute (lw_startLocal w) = Inr s" "0 \<le> s"
    by (auto elim!: HHmm_minutes)
  from m(2) assms(3) have e: "localMinute (lw_endLocal w) = Inr e" "e < 1440"
    by (auto elim!: HHmm_minutes)
  have iv: "dayIntervals s e d = [((d - 1) * 1440 + s, (d - 1) * 1440 + e)]" if "d \<in> set (lw_daysOfWeek w)" for d
    using that days e(2) assms(4) by (auto simp: dayIntervals_def weekMinutes_def Let_def)
  have "list_ex (inInterval ((weekday - 1) * 1440 + minute)) (intervalsOf w) \<longleftrightarrow>
      (\<exists>d \<in> set (lw_daysOfWeek w). (d - 1) * 1440 + s \<le> (weekday - 1) * 1440 + minute \<and>
         (weekday - 1) * 1440 + minute < (d - 1) * 1440 + e)"
    by (auto simp: intervalsOf_def windowIntervals_def s(1) e(1) list_ex_iff iv inInterval_def)
  also have "\<dots> \<longleftrightarrow> weekday \<in> set (lw_daysOfWeek w) \<and> s \<le> minute \<and> minute < e"
  proof -
    have same: "d = weekday" if "(d - 1) * 1440 + s \<le> (weekday - 1) * 1440 + minute"
        "(weekday - 1) * 1440 + minute < (d - 1) * 1440 + e" for d
    proof -
      have "1440 * d < 1440 * (weekday + 1)" using that(1) s(2) assms(8) by (simp add: algebra_simps)
      moreover have "1440 * weekday < 1440 * (d + 1)" using that(2) e(2) assms(7) by (simp add: algebra_simps)
      ultimately show ?thesis by simp
    qed
    show ?thesis
    proof
      assume "\<exists>d \<in> set (lw_daysOfWeek w). (d - 1) * 1440 + s \<le> (weekday - 1) * 1440 + minute \<and>
         (weekday - 1) * 1440 + minute < (d - 1) * 1440 + e"
      then obtain d where d: "d \<in> set (lw_daysOfWeek w)" "(d - 1) * 1440 + s \<le> (weekday - 1) * 1440 + minute"
        "(weekday - 1) * 1440 + minute < (d - 1) * 1440 + e" by blast
      from same [OF d(2,3)] d show "weekday \<in> set (lw_daysOfWeek w) \<and> s \<le> minute \<and> minute < e" by simp
    qed (auto intro!: bexI [of _ weekday])
  qed
  finally show ?thesis using assms(2-4) by (simp add: withinWindow_def clockWithin_def)
qed

end
