(* ===== verification/PolicyEvaluator.thy ===== *)
theory PolicyEvaluator
  imports TimeWindows ExceptionEvaluation
begin

text \<open>
  The deterministic CG3 gate evaluator (\<open>apps/contact-governance/src/cg3-policy-evaluator.ts\<close>):
  preference resolution, the temporal gate with its bounded look-ahead, customer callbacks and
  approved exceptions, and the orchestration \<open>evaluateCg3Policy\<close> with the trace it leaves. The
  time zone database is the parameter \<open>tzdb\<close>.
\<close>

section \<open>Facts\<close>

datatype Cg3PreferenceDecision = PrefALLOW | PrefBLOCK | PrefDEFER

datatype Cg3CallbackMode = NO_OVERRIDE | SCOPED_OVERRIDE | TIME_POLICY_OVERRIDE

record Cg3PreferenceCandidate =
  pc_version :: int
  pc_identityId :: "string option"
  pc_channel :: "ContactChannel option"
  pc_purpose :: "string option"
  pc_contactKind :: "string option"
  pc_decision :: "Cg3PreferenceDecision option"
  pc_timezone :: "string option"
  pc_preferredWindows :: "LocalTimeWindow list"

datatype holiday_effect = CLOSED | WINDOWS

record Cg3HolidayEntry =
  he_localDate :: string
  he_effect :: holiday_effect
  he_windows :: "LocalTimeWindow list"

record Cg3PolicyFacts =
  pf_version :: int
  pf_timezoneFallback :: "string option"
  pf_quietHours :: "LocalTimeWindow list"
  pf_callbackMode :: Cg3CallbackMode
  pf_overridableRules :: "string list"
  pf_holidays :: "Cg3HolidayEntry list"

record Cg3CallbackFacts =
  cb_requestId :: string
  cb_identityId :: "string option"
  cb_channel :: ContactChannel
  cb_purpose :: string
  cb_expiresAt :: time_ms
  cb_approvedExceptionId :: "string option"

record Cg3EvaluationInput =
  ev_now :: time_ms
  ev_identityId :: "string option"
  ev_channel :: ContactChannel
  ev_purpose :: string
  ev_contactKind :: "string option"
  ev_senderIdentityId :: "string option"
  ev_customerExplicitTimezone :: "string option"
  ev_customer360Timezone :: "string option"
  ev_tenantDefaultTimezone :: "string option"
  ev_preferences :: "Cg3PreferenceCandidate list"
  ev_policy :: "Cg3PolicyFacts option"
  ev_activeCallback :: "Cg3CallbackFacts option"
  ev_source :: "string option"
  ev_sourceId :: "string option"
  ev_activeExceptions :: "Cg4ExceptionFacts list option"

datatype ContactDecision = ALLOW | BLOCK | DEFER | REVIEW

datatype ContactPolicyGate =
    GATE_PREFERENCE
  | GATE_TEMPORAL_POLICY
  | GATE_APPROVED_EXCEPTION
  | GATE_CALLBACK_EXCEPTION
  | GATE_ATTEMPT_TOUCH_CAP
  | GATE_SENDER_IDENTITY

datatype gate_outcome = PASS | Decided ContactDecision

record ContactPolicyTraceEntry =
  te_gate :: ContactPolicyGate
  te_outcome :: gate_outcome
  te_reasonCode :: "string option"

record matched_scope =
  ms_identityId :: "string option"
  ms_channel :: "ContactChannel option"
  ms_purpose :: "string option"
  ms_contactKind :: "string option"

record Cg3GateOutcome =
  go_trace :: "ContactPolicyTraceEntry list"
  go_decision :: "ContactDecision option"
  go_reasonCode :: "string option"
  go_preferenceVersion :: "int option"
  go_nextEligibleAt :: "time_ms option"
  go_timezoneSource :: "string option"
  go_matchedScope :: "matched_scope option"
  go_matchedWindowRef :: "string option"
  go_exceptionMode :: "Cg3CallbackMode option"
  go_exceptionRef :: "string option"
  go_consumedCallbackRequestId :: "string option"
  go_appliedExceptions :: "Cg4AppliedExceptionPin list"

section \<open>Preference gate\<close>

definition preferenceMatches :: "Cg3PreferenceCandidate \<Rightarrow> Cg3EvaluationInput \<Rightarrow> bool" where
  "preferenceMatches candidate i \<longleftrightarrow>
     \<not> (pc_identityId candidate \<noteq> None \<and> pc_identityId candidate \<noteq> ev_identityId i) \<and>
     \<not> (pc_channel candidate \<noteq> None \<and> pc_channel candidate \<noteq> Some (ev_channel i)) \<and>
     \<not> (pc_purpose candidate \<noteq> None \<and> pc_purpose candidate \<noteq> Some (ev_purpose i)) \<and>
     \<not> (pc_contactKind candidate \<noteq> None \<and> pc_contactKind candidate \<noteq> ev_contactKind i)"

definition specificityOf :: "Cg3PreferenceCandidate \<Rightarrow> nat" where
  "specificityOf candidate =
     (if pc_identityId candidate \<noteq> None then 1 else 0) +
     (if pc_channel candidate \<noteq> None then 1 else 0) +
     (if pc_purpose candidate \<noteq> None then 1 else 0) +
     (if pc_contactKind candidate \<noteq> None then 1 else 0)"

definition DECISION_RESTRICTIVENESS :: "Cg3PreferenceDecision \<Rightarrow> nat" where
  "DECISION_RESTRICTIVENESS d = (case d of PrefBLOCK \<Rightarrow> 0 | PrefDEFER \<Rightarrow> 1 | PrefALLOW \<Rightarrow> 2)"

definition candidateRestrictiveness :: "Cg3PreferenceCandidate \<Rightarrow> nat" where
  "candidateRestrictiveness candidate =
     DECISION_RESTRICTIVENESS (case pc_decision candidate of None \<Rightarrow> PrefALLOW | Some d \<Rightarrow> d)"

definition resolveEffectivePreference ::
  "Cg3PreferenceCandidate list \<Rightarrow> Cg3EvaluationInput \<Rightarrow> Cg3PreferenceCandidate option" where
  "resolveEffectivePreference candidates i =
     (let matches = filter (\<lambda>candidate. preferenceMatches candidate i) candidates in
      if matches = [] then None
      else
        let maxSpecificity = Max (set (map specificityOf matches));
            winners = filter (\<lambda>c. specificityOf c = maxSpecificity) matches in
        if length winners = 1 then Some (hd winners)
        else Some (hd (sort_key candidateRestrictiveness winners)))"

section \<open>Temporal gate\<close>

definition padStart2 :: "string \<Rightarrow> string" where
  "padStart2 s = (if length s < 2 then replicate (2 - length s) CHR ''0'' @ s else s)"

definition localDateKey :: "ZonedParts \<Rightarrow> string" where
  "localDateKey p =
     show_int (zp_year p) @ ''-'' @ padStart2 (show_int (zp_month p)) @ ''-'' @
     padStart2 (show_int (zp_day p))"

record TemporalEvaluation =
  tv_eligible :: bool
  tv_reasonCode :: string
  tv_matchedWindowRef :: string

definition eligibleNow :: TemporalEvaluation where
  "eligibleNow = \<lparr>tv_eligible = True, tv_reasonCode = [], tv_matchedWindowRef = []\<rparr>"

definition holidayBlocks :: "Cg3HolidayEntry \<Rightarrow> ZonedParts \<Rightarrow> bool" where
  "holidayBlocks holiday p \<longleftrightarrow>
     he_effect holiday = CLOSED \<or>
     \<not> anyWindowMatches (he_windows holiday) (zp_weekday p) (zp_hour p * 60 + zp_minute p)"

definition evaluateInstant ::
  "ZonedParts \<Rightarrow> LocalTimeWindow list \<Rightarrow> LocalTimeWindow list \<Rightarrow> Cg3HolidayEntry list \<Rightarrow> TemporalEvaluation" where
  "evaluateInstant p preferredWindows quietHours holidays =
     (let dateKey = localDateKey p;
          minuteOfDay = zp_hour p * 60 + zp_minute p in
      if (case find (\<lambda>entry. he_localDate entry = dateKey) holidays of
            Some holiday \<Rightarrow> holidayBlocks holiday p | None \<Rightarrow> False)
      then \<lparr>tv_eligible = False, tv_reasonCode = ''TENANT_HOLIDAY'', tv_matchedWindowRef = ''holiday:'' @ dateKey\<rparr>
      else if anyWindowMatches quietHours (zp_weekday p) minuteOfDay
      then \<lparr>tv_eligible = False, tv_reasonCode = ''QUIET_HOURS'', tv_matchedWindowRef = ''policy:quietHours''\<rparr>
      else if length preferredWindows > 0 \<and> \<not> anyWindowMatches preferredWindows (zp_weekday p) minuteOfDay
      then \<lparr>tv_eligible = False, tv_reasonCode = ''PREFERENCE_WINDOW_CLOSED'',
            tv_matchedWindowRef = ''preference:preferredWindows''\<rparr>
      else eligibleNow)"

definition NEXT_ELIGIBLE_MAX_LOOKAHEAD_DAYS :: nat where
  "NEXT_ELIGIBLE_MAX_LOOKAHEAD_DAYS = 30"

definition NEXT_ELIGIBLE_STEP_MINUTES :: nat where
  "NEXT_ELIGIBLE_STEP_MINUTES = 5"

text \<open>
  The loop over the offsets \<open>0, 5, \<dots>, horizon\<close>; the first argument counts the offsets left, so the
  scan ends after \<open>horizon / 5 + 1\<close> steps.
\<close>

fun scanEligible ::
  "nat \<Rightarrow> nat \<Rightarrow> time_ms \<Rightarrow> zone \<Rightarrow> LocalTimeWindow list \<Rightarrow> LocalTimeWindow list \<Rightarrow> Cg3HolidayEntry list \<Rightarrow>
     time_ms option" where
  "scanEligible 0 offsetMinutes now tz pw qh hs = None"
| "scanEligible (Suc n) offsetMinutes now tz pw qh hs =
     (let candidate = now + int offsetMinutes * 60000;
          p = zonedPartsAt candidate tz in
      if tv_eligible (evaluateInstant p pw qh hs)
      then Some (zonedToUtc (zp_year p) (zp_month p) (zp_day p) (zp_hour p) (zp_minute p) tz)
      else scanEligible n (offsetMinutes + NEXT_ELIGIBLE_STEP_MINUTES) now tz pw qh hs)"

definition findNextEligibleAt ::
  "time_ms \<Rightarrow> zone \<Rightarrow> LocalTimeWindow list \<Rightarrow> LocalTimeWindow list \<Rightarrow> Cg3HolidayEntry list \<Rightarrow> time_ms option" where
  "findNextEligibleAt now tz preferredWindows quietHours holidays =
     (let horizon = NEXT_ELIGIBLE_MAX_LOOKAHEAD_DAYS * 24 * 60 in
      scanEligible (horizon div NEXT_ELIGIBLE_STEP_MINUTES + 1) 0 now tz preferredWindows quietHours holidays)"

section \<open>Callbacks and approved exceptions\<close>

definition approvedExceptionFor ::
  "Cg3EvaluationInput \<Rightarrow> string \<Rightarrow> string option \<Rightarrow> Cg4AppliedExceptionPin option" where
  "approvedExceptionFor i reasonCode seriesId =
     (let candidates = (case ev_activeExceptions i of None \<Rightarrow> [] | Some xs \<Rightarrow> xs) in
      case (candidates, ev_source i, ev_sourceId i) of
        (_ # _, Some source, Some sourceId) \<Rightarrow>
          (let narrowed = (case seriesId of
                 Some sid \<Rightarrow> if sid = [] then candidates
                             else filter (\<lambda>entry. ef_seriesId entry = sid) candidates
               | None \<Rightarrow> candidates) in
           case resolveCg4ExceptionCoverage narrowed
                  \<lparr>mc_identityId = ev_identityId i, mc_channel = ev_channel i, mc_purpose = ev_purpose i,
                   mc_source = source, mc_sourceId = sourceId, mc_now = ev_now i\<rparr> reasonCode of
             Covered _ pin \<Rightarrow> Some pin
           | NotCovered _ \<Rightarrow> None)
      | _ \<Rightarrow> None)"

definition callbackIsExactScopeMatch :: "Cg3CallbackFacts \<Rightarrow> Cg3EvaluationInput \<Rightarrow> bool" where
  "callbackIsExactScopeMatch callback i \<longleftrightarrow>
     cb_identityId callback = ev_identityId i \<and>
     cb_channel callback = ev_channel i \<and>
     cb_purpose callback = ev_purpose i"

definition callbackModeOf :: "Cg3EvaluationInput \<Rightarrow> Cg3CallbackMode" where
  "callbackModeOf i = (case ev_policy i of None \<Rightarrow> SCOPED_OVERRIDE | Some p \<Rightarrow> pf_callbackMode p)"

definition ruleOverridable :: "Cg3EvaluationInput \<Rightarrow> string \<Rightarrow> bool" where
  "ruleOverridable i reasonCode =
     (case ev_policy i of None \<Rightarrow> False | Some p \<Rightarrow> reasonCode \<in> set (pf_overridableRules p))"

definition callbackWillOverride :: "Cg3EvaluationInput \<Rightarrow> string \<Rightarrow> bool" where
  "callbackWillOverride i reasonCode =
     (case ev_activeCallback i of
        None \<Rightarrow> False
      | Some pendingCallback \<Rightarrow>
          callbackModeOf i \<noteq> NO_OVERRIDE \<and>
          callbackIsExactScopeMatch pendingCallback i \<and>
          cb_expiresAt pendingCallback > ev_now i \<and>
          ruleOverridable i reasonCode \<and>
          (callbackModeOf i \<noteq> TIME_POLICY_OVERRIDE \<or>
           approvedExceptionFor i reasonCode (cb_approvedExceptionId pendingCallback) \<noteq> None))"

definition referencedException :: "Cg3EvaluationInput \<Rightarrow> string \<Rightarrow> Cg3CallbackFacts \<Rightarrow> Cg4AppliedExceptionPin option" where
  "referencedException i reasonCode callback =
     (case cb_approvedExceptionId callback of
        Some sid \<Rightarrow> if sid = [] then None else approvedExceptionFor i reasonCode (Some sid)
      | None \<Rightarrow> None)"

section \<open>Orchestration\<close>

definition traceEntry :: "ContactPolicyGate \<Rightarrow> gate_outcome \<Rightarrow> string option \<Rightarrow> ContactPolicyTraceEntry" where
  "traceEntry g out reason = \<lparr>te_gate = g, te_outcome = out, te_reasonCode = reason\<rparr>"

definition emptyOutcome :: Cg3GateOutcome where
  "emptyOutcome =
     \<lparr>go_trace = [], go_decision = None, go_reasonCode = None, go_preferenceVersion = None,
      go_nextEligibleAt = None, go_timezoneSource = None, go_matchedScope = None,
      go_matchedWindowRef = None, go_exceptionMode = None, go_exceptionRef = None,
      go_consumedCallbackRequestId = None, go_appliedExceptions = []\<rparr>"

type_synonym tz_database = "string \<Rightarrow> zone option"

text \<open>The first authority in the chain whose name is not empty and known to the zone database.\<close>

fun firstValidZone :: "tz_database \<Rightarrow> (string option \<times> string) list \<Rightarrow> (zone \<times> string) option" where
  "firstValidZone tzdb [] = None"
| "firstValidZone tzdb ((value, source) # rest) =
     (case value of
        Some name \<Rightarrow>
          (if name = [] then firstValidZone tzdb rest
           else case tzdb name of Some tz \<Rightarrow> Some (tz, source) | None \<Rightarrow> firstValidZone tzdb rest)
      | None \<Rightarrow> firstValidZone tzdb rest)"

definition timezoneChain ::
  "Cg3EvaluationInput \<Rightarrow> Cg3PreferenceCandidate option \<Rightarrow> (string option \<times> string) list" where
  "timezoneChain i winner =
     [(Option.bind winner pc_timezone, ''PREFERENCE''),
      (ev_customerExplicitTimezone i, ''CUSTOMER_EXPLICIT''),
      (ev_customer360Timezone i, ''CUSTOMER_360''),
      (Option.bind (ev_policy i) pf_timezoneFallback, ''POLICY_FALLBACK''),
      (ev_tenantDefaultTimezone i, ''TENANT_DEFAULT'')]"

record temporal_facts =
  tf_preferredWindows :: "LocalTimeWindow list"
  tf_quietHours :: "LocalTimeWindow list"
  tf_holidays :: "Cg3HolidayEntry list"

definition temporalFacts :: "Cg3EvaluationInput \<Rightarrow> Cg3PreferenceCandidate option \<Rightarrow> temporal_facts" where
  "temporalFacts i winner =
     \<lparr>tf_preferredWindows = (case winner of None \<Rightarrow> [] | Some w \<Rightarrow> pc_preferredWindows w),
      tf_quietHours = (case ev_policy i of None \<Rightarrow> [] | Some p \<Rightarrow> pf_quietHours p),
      tf_holidays = (case ev_policy i of None \<Rightarrow> [] | Some p \<Rightarrow> pf_holidays p)\<rparr>"

definition hasTemporalConstraint :: "temporal_facts \<Rightarrow> bool" where
  "hasTemporalConstraint f \<longleftrightarrow>
     length (tf_preferredWindows f) > 0 \<or> length (tf_quietHours f) > 0 \<or> length (tf_holidays f) > 0"

record temporal_block =
  tb_reasonCode :: string
  tb_matchedWindowRef :: string
  tb_nextEligibleAt :: "time_ms option"

definition temporalBlock ::
  "Cg3EvaluationInput \<Rightarrow> temporal_facts \<Rightarrow> (zone \<times> string) option \<Rightarrow> temporal_block option" where
  "temporalBlock i f resolved =
     (case resolved of
        None \<Rightarrow> None
      | Some (tz, _) \<Rightarrow>
          if \<not> hasTemporalConstraint f then None
          else let evaluation = evaluateInstant (zonedPartsAt (ev_now i) tz) (tf_preferredWindows f)
                     (tf_quietHours f) (tf_holidays f) in
            if tv_eligible evaluation then None
            else Some \<lparr>tb_reasonCode = tv_reasonCode evaluation,
                       tb_matchedWindowRef = tv_matchedWindowRef evaluation,
                       tb_nextEligibleAt = findNextEligibleAt (ev_now i) tz (tf_preferredWindows f)
                         (tf_quietHours f) (tf_holidays f)\<rparr>)"

text \<open>A temporal decision: every \<open>return\<close> of the temporal part carries these fields.\<close>

definition temporalDecision ::
  "ContactPolicyTraceEntry list \<Rightarrow> ContactDecision \<Rightarrow> string \<Rightarrow> int option \<Rightarrow> string option \<Rightarrow> temporal_block \<Rightarrow>
     Cg3GateOutcome" where
  "temporalDecision trace decision reasonCode preferenceVersion tzSource blk =
     emptyOutcome\<lparr>go_trace := trace, go_decision := Some decision, go_reasonCode := Some reasonCode,
       go_preferenceVersion := preferenceVersion, go_nextEligibleAt := tb_nextEligibleAt blk,
       go_timezoneSource := tzSource, go_matchedWindowRef := Some (tb_matchedWindowRef blk)\<rparr>"

text \<open>What lifted a provisional block: the trace so far, the pins, and whether it was the callback.\<close>

record lifted =
  li_trace :: "ContactPolicyTraceEntry list"
  li_appliedExceptions :: "Cg4AppliedExceptionPin list"
  li_callbackOverrode :: bool

text \<open>The callback part of the temporal gate, entered when the rule is overridable.\<close>

definition callbackException ::
  "Cg3EvaluationInput \<Rightarrow> int option \<Rightarrow> string option \<Rightarrow> temporal_block \<Rightarrow> ContactPolicyTraceEntry list \<Rightarrow>
     Cg3GateOutcome + lifted" where
  "callbackException i preferenceVersion tzSource blk trace =
     (let mode = callbackModeOf i;
          reason = tb_reasonCode blk;
          refuse = (\<lambda>decision code.
            Inl (temporalDecision (trace @ [traceEntry GATE_CALLBACK_EXCEPTION (Decided decision) (Some code)])
              decision code preferenceVersion tzSource blk)) in
      case ev_activeCallback i of
        None \<Rightarrow> refuse DEFER reason
      | Some callback \<Rightarrow>
          if mode = NO_OVERRIDE then refuse DEFER ''CALLBACK_OVERRIDE_NOT_ALLOWED''
          else if \<not> callbackIsExactScopeMatch callback i then refuse DEFER ''CALLBACK_OVERRIDE_NOT_ALLOWED''
          else if cb_expiresAt callback \<le> ev_now i then refuse DEFER ''CALLBACK_OVERRIDE_EXPIRED''
          else let referenced = referencedException i reason callback in
            if mode = TIME_POLICY_OVERRIDE \<and> referenced = None
            then refuse REVIEW ''EXCEPTION_APPROVAL_REQUIRED''
            else Inr \<lparr>li_trace = trace @ [traceEntry GATE_CALLBACK_EXCEPTION PASS (Some ''CUSTOMER_REQUESTED_CALLBACK'')],
                      li_appliedExceptions = (case referenced of Some p \<Rightarrow> [p] | None \<Rightarrow> []),
                      li_callbackOverrode = True\<rparr>)"

definition liftTemporalBlock ::
  "Cg3EvaluationInput \<Rightarrow> int option \<Rightarrow> string option \<Rightarrow> temporal_block \<Rightarrow> ContactPolicyTraceEntry list \<Rightarrow>
     Cg3GateOutcome + lifted" where
  "liftTemporalBlock i preferenceVersion tzSource blk trace =
     (let reason = tb_reasonCode blk;
          deferred = trace @ [traceEntry GATE_TEMPORAL_POLICY (Decided DEFER) (Some reason)];
          appliedException = (if callbackWillOverride i reason then None
                              else approvedExceptionFor i reason None) in
      case appliedException of
        Some pin \<Rightarrow>
          Inr \<lparr>li_trace = deferred @
                 [traceEntry GATE_APPROVED_EXCEPTION PASS (Some ''APPROVED_EXCEPTION_APPLIED'')],
               li_appliedExceptions = [pin], li_callbackOverrode = False\<rparr>
      | None \<Rightarrow>
          if \<not> ruleOverridable i reason
          then Inl (temporalDecision deferred DEFER reason preferenceVersion tzSource blk)
          else callbackException i preferenceVersion tzSource blk deferred)"

text \<open>The two last gates and the outcome of a request that passed every gate.\<close>

definition finishGates ::
  "Cg3EvaluationInput \<Rightarrow> int option \<Rightarrow> string option \<Rightarrow> temporal_facts \<Rightarrow> temporal_block option \<Rightarrow> lifted \<Rightarrow>
     Cg3GateOutcome" where
  "finishGates i preferenceVersion tzSource f blk l =
     (let trace = li_trace l @ [traceEntry GATE_ATTEMPT_TOUCH_CAP PASS None] in
      if (case ev_senderIdentityId i of Some sender \<Rightarrow> js_trim sender = [] | None \<Rightarrow> False)
      then emptyOutcome\<lparr>go_trace := trace @
               [traceEntry GATE_SENDER_IDENTITY (Decided BLOCK) (Some ''SENDER_IDENTITY_INVALID'')],
             go_decision := Some BLOCK, go_reasonCode := Some ''SENDER_IDENTITY_INVALID'',
             go_preferenceVersion := preferenceVersion, go_timezoneSource := tzSource\<rparr>
      else emptyOutcome\<lparr>go_trace := trace @ [traceEntry GATE_SENDER_IDENTITY PASS None],
             go_preferenceVersion := preferenceVersion,
             go_timezoneSource := (if hasTemporalConstraint f then tzSource else None),
             go_matchedWindowRef := map_option tb_matchedWindowRef blk,
             go_exceptionMode := (if blk = None then None else map_option pf_callbackMode (ev_policy i)),
             go_exceptionRef := (if blk = None \<or> ev_policy i = None then None
                                 else map_option cb_requestId (ev_activeCallback i)),
             go_consumedCallbackRequestId :=
               (if li_callbackOverrode l then map_option cb_requestId (ev_activeCallback i) else None),
             go_appliedExceptions := li_appliedExceptions l\<rparr>)"

definition preferenceRefusal :: "Cg3PreferenceCandidate option \<Rightarrow> (Cg3PreferenceCandidate \<times> ContactDecision) option" where
  "preferenceRefusal winner =
     (case winner of
        None \<Rightarrow> None
      | Some w \<Rightarrow> (case pc_decision w of
          Some PrefBLOCK \<Rightarrow> Some (w, BLOCK)
        | Some PrefDEFER \<Rightarrow> Some (w, DEFER)
        | _ \<Rightarrow> None))"

definition evaluateCg3Policy :: "tz_database \<Rightarrow> Cg3EvaluationInput \<Rightarrow> Cg3GateOutcome" where
  "evaluateCg3Policy tzdb i =
     (let winner = resolveEffectivePreference (ev_preferences i) i;
          version = map_option pc_version winner in
      case preferenceRefusal winner of
        Some (w, decision) \<Rightarrow>
          emptyOutcome\<lparr>go_trace := [traceEntry GATE_PREFERENCE (Decided decision) (Some ''PREFERENCE_BLOCKED'')],
            go_decision := Some decision, go_reasonCode := Some ''PREFERENCE_BLOCKED'',
            go_preferenceVersion := Some (pc_version w),
            go_matchedScope := Some \<lparr>ms_identityId = pc_identityId w, ms_channel = pc_channel w,
              ms_purpose = pc_purpose w, ms_contactKind = pc_contactKind w\<rparr>\<rparr>
      | None \<Rightarrow>
          (let trace = [traceEntry GATE_PREFERENCE PASS None];
               resolved = firstValidZone tzdb (timezoneChain i winner);
               tzSource = map_option snd resolved;
               f = temporalFacts i winner in
           if hasTemporalConstraint f \<and> resolved = None
           then emptyOutcome\<lparr>go_trace := trace @
                    [traceEntry GATE_TEMPORAL_POLICY (Decided DEFER) (Some ''TIMEZONE_UNKNOWN'')],
                  go_decision := Some DEFER, go_reasonCode := Some ''TIMEZONE_UNKNOWN'',
                  go_preferenceVersion := version\<rparr>
           else case temporalBlock i f resolved of
             None \<Rightarrow> finishGates i version tzSource f None
                       \<lparr>li_trace = trace @ [traceEntry GATE_TEMPORAL_POLICY PASS None],
                        li_appliedExceptions = [], li_callbackOverrode = False\<rparr>
           | Some blk \<Rightarrow>
               (case liftTemporalBlock i version tzSource blk trace of
                  Inl outcome \<Rightarrow> outcome
                | Inr l \<Rightarrow> finishGates i version tzSource f (Some blk) l)))"


section \<open>Preference resolution\<close>

lemma resolve_None_iff:
  "resolveEffectivePreference cs i = None \<longleftrightarrow> (\<forall>c \<in> set cs. \<not> preferenceMatches c i)"
  by (auto simp: resolveEffectivePreference_def Let_def filter_empty_conv)

lemma resolve_winner:
  assumes "resolveEffectivePreference cs i = Some w"
  defines "ms \<equiv> filter (\<lambda>c. preferenceMatches c i) cs"
  shows "w \<in> set ms" and "specificityOf w = Max (set (map specificityOf ms))"
    and "\<And>c. c \<in> set ms \<Longrightarrow> specificityOf c = specificityOf w \<Longrightarrow>
           candidateRestrictiveness w \<le> candidateRestrictiveness c"
proof -
  define m where "m = Max (set (map specificityOf ms))"
  define ws where "ws = filter (\<lambda>c. specificityOf c = m) ms"
  have ne: "ms \<noteq> []" using assms(1) by (auto simp: resolveEffectivePreference_def ms_def Let_def)
  then have "m \<in> set (map specificityOf ms)" unfolding m_def by (intro Max_in) auto
  then have ws: "ws \<noteq> []" by (auto simp: ws_def filter_empty_conv)
  have w: "w = (if length ws = 1 then hd ws else hd (sort_key candidateRestrictiveness ws))"
    using assms(1) ne
    by (auto simp: resolveEffectivePreference_def Let_def ms_def [symmetric] m_def ws_def split: if_splits)
  have single: "length ws = 1 \<Longrightarrow> c \<in> set ws \<Longrightarrow> c = hd ws" for c
    by (cases ws) auto
  have in_ws: "w \<in> set ws" using w ws hd_sort_key(1) [OF ws] by auto
  then show "w \<in> set ms" and sw: "specificityOf w = Max (set (map specificityOf ms))"
    by (simp_all add: ws_def m_def)
  fix c assume "c \<in> set ms" "specificityOf c = specificityOf w"
  then have "c \<in> set ws" using sw by (simp add: ws_def m_def)
  then show "candidateRestrictiveness w \<le> candidateRestrictiveness c"
    using w single hd_sort_key(2) [OF ws] by (metis order_refl)
qed

text \<open>
  The effective preference is a stored candidate that matches the request; no matching
  candidate is more specific, and among the equally specific ones it is the most restrictive
  (BLOCK before DEFER before ALLOW), in whatever order the candidates were loaded. There is none
  exactly when no candidate matches.
\<close>

lemma effective_preference_most_specific:
  "(resolveEffectivePreference cs i = None \<longleftrightarrow> (\<forall>c \<in> set cs. \<not> preferenceMatches c i)) \<and>
   (\<forall>w. resolveEffectivePreference cs i = Some w \<longrightarrow>
      w \<in> set cs \<and> preferenceMatches w i \<and>
      (\<forall>c \<in> set cs. preferenceMatches c i \<longrightarrow>
         specificityOf c \<le> specificityOf w \<and>
         (specificityOf c = specificityOf w \<longrightarrow> candidateRestrictiveness w \<le> candidateRestrictiveness c)))"
  using resolve_None_iff resolve_winner [of cs i] by auto

definition example_preference :: Cg3PreferenceCandidate where
  "example_preference =
     \<lparr>pc_version = 3, pc_identityId = None, pc_channel = Some LINE, pc_purpose = None,
      pc_contactKind = None, pc_decision = None, pc_timezone = None, pc_preferredWindows = []\<rparr>"


definition example_input :: Cg3EvaluationInput where
  "example_input =
     \<lparr>ev_now = 1000, ev_identityId = Some ''id1'', ev_channel = LINE, ev_purpose = ''billing'',
      ev_contactKind = None, ev_senderIdentityId = None, ev_customerExplicitTimezone = None,
      ev_customer360Timezone = None, ev_tenantDefaultTimezone = Some ''Asia/Bangkok'',
      ev_preferences = [example_preference, example_preference\<lparr>pc_decision := Some PrefDEFER\<rparr>],
      ev_policy = None, ev_activeCallback = None, ev_source = Some ''JOURNEY'',
      ev_sourceId = Some ''j1'', ev_activeExceptions = None\<rparr>"

lemma effective_preference_most_specific_witness:
  "resolveEffectivePreference (ev_preferences example_input) example_input
     = Some (example_preference\<lparr>pc_decision := Some PrefDEFER\<rparr>)"
proof -
  have m: "preferenceMatches (example_preference\<lparr>pc_decision := d\<rparr>) example_input"
    "specificityOf (example_preference\<lparr>pc_decision := d\<rparr>) = 1"
    "preferenceMatches example_preference example_input" "specificityOf example_preference = 1" for d
    by (simp_all add: preferenceMatches_def specificityOf_def example_preference_def example_input_def)
  have r: "candidateRestrictiveness example_preference = 2"
    "candidateRestrictiveness (example_preference\<lparr>pc_decision := Some PrefDEFER\<rparr>) = 1"
    by (simp_all add: candidateRestrictiveness_def DECISION_RESTRICTIVENESS_def example_preference_def)
  have cs: "ev_preferences example_input =
      [example_preference, example_preference\<lparr>pc_decision := Some PrefDEFER\<rparr>]"
    by (simp add: example_input_def)
  note most_specific = effective_preference_most_specific [of "ev_preferences example_input" example_input]
  obtain w where w: "resolveEffectivePreference (ev_preferences example_input) example_input = Some w"
    using most_specific m(3) unfolding cs by fastforce
  then have "w \<in> set (ev_preferences example_input)"
    "candidateRestrictiveness w \<le> candidateRestrictiveness (example_preference\<lparr>pc_decision := Some PrefDEFER\<rparr>)"
    using most_specific m by (auto simp: cs)
  then show ?thesis using w r by (auto simp: cs)
qed

section \<open>The outcome of the gates\<close>

lemma finishGates_fields:
  "go_trace (finishGates i v tz f blk l) = li_trace l @ [traceEntry GATE_ATTEMPT_TOUCH_CAP PASS None,
     (case go_decision (finishGates i v tz f blk l) of
        None \<Rightarrow> traceEntry GATE_SENDER_IDENTITY PASS None
      | Some d \<Rightarrow> traceEntry GATE_SENDER_IDENTITY (Decided BLOCK) (Some ''SENDER_IDENTITY_INVALID''))]"
  "go_decision (finishGates i v tz f blk l) = None \<or>
     go_decision (finishGates i v tz f blk l) = Some BLOCK \<and>
     go_reasonCode (finishGates i v tz f blk l) = Some ''SENDER_IDENTITY_INVALID''"
  "go_decision (finishGates i v tz f blk l) = None \<Longrightarrow> go_reasonCode (finishGates i v tz f blk l) = None"
  "go_nextEligibleAt (finishGates i v tz f blk l) = None"
  "go_decision (finishGates i v tz f blk l) = None \<Longrightarrow>
     go_appliedExceptions (finishGates i v tz f blk l) = li_appliedExceptions l"
  "go_consumedCallbackRequestId (finishGates i v tz f blk l) =
     (if go_decision (finishGates i v tz f blk l) = None \<and> li_callbackOverrode l
      then map_option cb_requestId (ev_activeCallback i) else None)"
  by (simp_all add: finishGates_def Let_def emptyOutcome_def split: if_splits)

lemma temporalDecision_fields [simp]:
  "go_trace (temporalDecision tr d rc v tz blk) = tr"
  "go_decision (temporalDecision tr d rc v tz blk) = Some d"
  "go_reasonCode (temporalDecision tr d rc v tz blk) = Some rc"
  "go_nextEligibleAt (temporalDecision tr d rc v tz blk) = tb_nextEligibleAt blk"
  "go_consumedCallbackRequestId (temporalDecision tr d rc v tz blk) = None"
  "go_appliedExceptions (temporalDecision tr d rc v tz blk) = []"
  by (simp_all add: temporalDecision_def emptyOutcome_def)

text \<open>The evidence that lifts a provisional temporal block.\<close>

definition callbackEvidence :: "Cg3EvaluationInput \<Rightarrow> string \<Rightarrow> Cg3CallbackFacts \<Rightarrow> Cg4AppliedExceptionPin list \<Rightarrow> bool" where
  "callbackEvidence i reason cb pins \<longleftrightarrow>
     ev_activeCallback i = Some cb \<and> callbackIsExactScopeMatch cb i \<and> ev_now i < cb_expiresAt cb \<and>
     callbackModeOf i \<noteq> NO_OVERRIDE \<and> ruleOverridable i reason \<and>
     (callbackModeOf i = TIME_POLICY_OVERRIDE \<longrightarrow>
        (\<exists>sid pin. cb_approvedExceptionId cb = Some sid \<and> approvedExceptionFor i reason (Some sid) = Some pin \<and>
           pins = [pin]))"

lemma lift_cases:
  assumes "liftTemporalBlock i v tz blk tr = r"
  defines "def1 \<equiv> tr @ [traceEntry GATE_TEMPORAL_POLICY (Decided DEFER) (Some (tb_reasonCode blk))]"
  obtains (final) "r = Inl (temporalDecision def1 DEFER (tb_reasonCode blk) v tz blk)"
  | (refused) d code where "d \<in> {DEFER, REVIEW}"
      "r = Inl (temporalDecision (def1 @ [traceEntry GATE_CALLBACK_EXCEPTION (Decided d) (Some code)]) d code v tz blk)"
  | (exception) pin where "approvedExceptionFor i (tb_reasonCode blk) None = Some pin"
      "r = Inr \<lparr>li_trace = def1 @ [traceEntry GATE_APPROVED_EXCEPTION PASS (Some ''APPROVED_EXCEPTION_APPLIED'')],
                li_appliedExceptions = [pin], li_callbackOverrode = False\<rparr>"
  | (callback) cb pins where "callbackEvidence i (tb_reasonCode blk) cb pins"
      "r = Inr \<lparr>li_trace = def1 @ [traceEntry GATE_CALLBACK_EXCEPTION PASS (Some ''CUSTOMER_REQUESTED_CALLBACK'')],
                li_appliedExceptions = pins, li_callbackOverrode = True\<rparr>"
proof -
  define reason where "reason = tb_reasonCode blk"
  define ex where "ex = (if callbackWillOverride i reason then None else approvedExceptionFor i reason None)"
  have r: "r = (case ex of
        Some pin \<Rightarrow> Inr \<lparr>li_trace = def1 @ [traceEntry GATE_APPROVED_EXCEPTION PASS (Some ''APPROVED_EXCEPTION_APPLIED'')],
               li_appliedExceptions = [pin], li_callbackOverrode = False\<rparr>
      | None \<Rightarrow> if \<not> ruleOverridable i reason then Inl (temporalDecision def1 DEFER reason v tz blk)
          else callbackException i v tz blk def1)"
    unfolding assms(1) [symmetric] liftTemporalBlock_def Let_def def1_def ex_def reason_def ..
  show thesis
  proof (cases ex)
    case (Some pin)
    then have "approvedExceptionFor i reason None = Some pin" by (simp add: ex_def split: if_splits)
    with Some r show thesis by (intro exception) (simp_all add: reason_def)
  next
    case None
    show thesis
    proof (cases "ruleOverridable i reason")
      case False
      with r None show thesis by (intro final) (simp add: reason_def)
    next
      case True
      then have r': "r = callbackException i v tz blk def1" using r None by simp
      show thesis
      proof (cases "ev_activeCallback i")
        case None
        then show thesis using r' by (intro refused [of DEFER]) (auto simp: callbackException_def Let_def)
      next
        case (Some cb)
        define ref where "ref = referencedException i reason cb"
        consider "callbackModeOf i = NO_OVERRIDE \<or> \<not> callbackIsExactScopeMatch cb i"
          | "callbackModeOf i \<noteq> NO_OVERRIDE" "callbackIsExactScopeMatch cb i" "cb_expiresAt cb \<le> ev_now i"
          | "callbackIsExactScopeMatch cb i" "ev_now i < cb_expiresAt cb"
            "callbackModeOf i = TIME_POLICY_OVERRIDE" "ref = None"
          | "callbackModeOf i \<noteq> NO_OVERRIDE" "callbackIsExactScopeMatch cb i" "ev_now i < cb_expiresAt cb"
            "callbackModeOf i = TIME_POLICY_OVERRIDE \<longrightarrow> ref \<noteq> None"
          by fastforce
        then show thesis
        proof cases
          case 4
          then have "callbackEvidence i reason cb (case ref of Some p \<Rightarrow> [p] | None \<Rightarrow> [])"
            using Some True
            by (auto simp: callbackEvidence_def ref_def referencedException_def split: option.splits if_splits)
          then show thesis using r' 4 Some
            by (intro callback) (auto simp: callbackException_def Let_def reason_def ref_def)
        next
          case 1
          with r' Some show thesis
            by (intro refused [of DEFER]) (auto simp: callbackException_def Let_def split: if_splits)
        next
          case 2
          with r' Some show thesis by (intro refused [of DEFER]) (auto simp: callbackException_def Let_def)
        next
          case 3
          with r' Some show thesis
            by (intro refused [of REVIEW]) (auto simp: callbackException_def Let_def ref_def reason_def)
        qed
      qed
    qed
  qed
qed


text \<open>Every way the evaluator returns.\<close>

definition gateBlock :: "tz_database \<Rightarrow> Cg3EvaluationInput \<Rightarrow> temporal_block option" where
  "gateBlock tzdb i =
     (let winner = resolveEffectivePreference (ev_preferences i) i in
      temporalBlock i (temporalFacts i winner) (firstValidZone tzdb (timezoneChain i winner)))"

definition passTemporal :: "ContactPolicyTraceEntry list" where
  "passTemporal = [traceEntry GATE_PREFERENCE PASS None, traceEntry GATE_TEMPORAL_POLICY PASS None]"

definition deferTemporal :: "string \<Rightarrow> ContactPolicyTraceEntry list" where
  "deferTemporal reason =
     [traceEntry GATE_PREFERENCE PASS None, traceEntry GATE_TEMPORAL_POLICY (Decided DEFER) (Some reason)]"

lemma evaluate_cases:
  fixes tzdb i
  defines "r \<equiv> evaluateCg3Policy tzdb i"
  obtains (preference) d where "d \<in> {BLOCK, DEFER}"
      "go_trace r = [traceEntry GATE_PREFERENCE (Decided d) (Some ''PREFERENCE_BLOCKED'')]"
      "go_decision r = Some d" "go_reasonCode r = Some ''PREFERENCE_BLOCKED''"
      "go_consumedCallbackRequestId r = None" "go_nextEligibleAt r = None" "go_appliedExceptions r = []"
  | (timezone) "gateBlock tzdb i = None" "go_trace r = deferTemporal ''TIMEZONE_UNKNOWN''"
      "go_decision r = Some DEFER" "go_reasonCode r = Some ''TIMEZONE_UNKNOWN''"
      "go_consumedCallbackRequestId r = None" "go_nextEligibleAt r = None" "go_appliedExceptions r = []"
  | (unblocked) v tz f where "gateBlock tzdb i = None"
      "r = finishGates i v tz f None \<lparr>li_trace = passTemporal, li_appliedExceptions = [], li_callbackOverrode = False\<rparr>"
  | (final) blk v tz where "gateBlock tzdb i = Some blk"
      "r = temporalDecision (deferTemporal (tb_reasonCode blk)) DEFER (tb_reasonCode blk) v tz blk"
  | (refused) blk v tz d code where "gateBlock tzdb i = Some blk" "d \<in> {DEFER, REVIEW}"
      "r = temporalDecision (deferTemporal (tb_reasonCode blk) @
             [traceEntry GATE_CALLBACK_EXCEPTION (Decided d) (Some code)]) d code v tz blk"
  | (exception) blk v tz f pin where "gateBlock tzdb i = Some blk"
      "approvedExceptionFor i (tb_reasonCode blk) None = Some pin"
      "r = finishGates i v tz f (Some blk) \<lparr>li_trace = deferTemporal (tb_reasonCode blk) @
             [traceEntry GATE_APPROVED_EXCEPTION PASS (Some ''APPROVED_EXCEPTION_APPLIED'')],
             li_appliedExceptions = [pin], li_callbackOverrode = False\<rparr>"
  | (callback) blk v tz f cb pins where "gateBlock tzdb i = Some blk"
      "callbackEvidence i (tb_reasonCode blk) cb pins"
      "r = finishGates i v tz f (Some blk) \<lparr>li_trace = deferTemporal (tb_reasonCode blk) @
             [traceEntry GATE_CALLBACK_EXCEPTION PASS (Some ''CUSTOMER_REQUESTED_CALLBACK'')],
             li_appliedExceptions = pins, li_callbackOverrode = True\<rparr>"
proof -
  define winner where "winner = resolveEffectivePreference (ev_preferences i) i"
  define f where "f = temporalFacts i winner"
  define z where "z = firstValidZone tzdb (timezoneChain i winner)"
  have g: "gateBlock tzdb i = temporalBlock i f z"
    by (simp add: gateBlock_def Let_def f_def z_def winner_def)
  note unfold = r_def evaluateCg3Policy_def Let_def winner_def [symmetric] f_def [symmetric] z_def [symmetric]
  show thesis
  proof (cases "preferenceRefusal winner")
    case (Some a)
    obtain w d where a: "a = (w, d)" by force
    have "d \<in> {BLOCK, DEFER}"
      using Some a by (auto simp: preferenceRefusal_def split: option.splits Cg3PreferenceDecision.splits)
    then show thesis using Some a by (intro preference [of d]) (simp_all add: unfold emptyOutcome_def)
  next
    case None
    show thesis
    proof (cases "hasTemporalConstraint f \<and> z = None")
      case True
      then have "gateBlock tzdb i = None" by (simp add: g temporalBlock_def)
      then show thesis using None True
        by (intro timezone) (simp_all add: unfold emptyOutcome_def deferTemporal_def)
    next
      case False
      show thesis
      proof (cases "temporalBlock i f z")
        case blk: None
        show thesis
          by (rule unblocked [unfolded g, OF blk])
            (simp add: unfold None False blk passTemporal_def)
      next
        case blk: (Some blk)
        have r: "r = (case liftTemporalBlock i (map_option pc_version winner) (map_option snd z) blk
              [traceEntry GATE_PREFERENCE PASS None] of
                Inl out \<Rightarrow> out
              | Inr l \<Rightarrow> finishGates i (map_option pc_version winner) (map_option snd z) f (Some blk) l)"
          using None False blk by (auto simp: unfold)
        show thesis
          by (cases rule: lift_cases [OF refl, of i "map_option pc_version winner" "map_option snd z" blk
                "[traceEntry GATE_PREFERENCE PASS None]"])
            (use r g blk in \<open>simp_all add: deferTemporal_def\<close>, (rule final refused exception callback; simp add: deferTemporal_def)+)
      qed
    qed
  qed
qed

section \<open>What the outcome shows\<close>

text \<open>
  C5. A request that is inside a temporal block passes the gates only on evidence: either the
  customer's callback (exact scope, not expired, in a mode that overrides, for a rule the policy
  declares overridable, and in \<open>TIME_POLICY_OVERRIDE\<close> mode backed by the approved exception it
  references), which is then reported for one-use consumption, or an approved exception that covers
  the rule, which is pinned in the outcome and leaves the callback unconsumed.
\<close>

theorem temporal_block_lifted_only_by_evidence:
  assumes "gateBlock tzdb i = Some blk" and "go_decision (evaluateCg3Policy tzdb i) = None"
  shows "(\<exists>cb. callbackEvidence i (tb_reasonCode blk) cb (go_appliedExceptions (evaluateCg3Policy tzdb i)) \<and>
            go_consumedCallbackRequestId (evaluateCg3Policy tzdb i) = Some (cb_requestId cb)) \<or>
         (\<exists>pin. approvedExceptionFor i (tb_reasonCode blk) None = Some pin \<and>
            go_appliedExceptions (evaluateCg3Policy tzdb i) = [pin] \<and>
            go_consumedCallbackRequestId (evaluateCg3Policy tzdb i) = None)"
  using evaluate_cases [of tzdb i]
proof cases
  case (exception blk' v tz f pin)
  with assms show ?thesis by (auto simp: finishGates_fields)
next
  case (callback blk' v tz f cb pins)
  with assms show ?thesis by (auto simp: finishGates_fields callbackEvidence_def)
qed (use assms in auto)

text \<open>
  A callback is reported as consumed only by a request that passed every gate and whose
  temporal block that callback lifted; a refused request, an unblocked one, or one lifted by an
  exception never uses it up.
\<close>

lemma callback_consumed_only_when_exercised:
  assumes "go_consumedCallbackRequestId (evaluateCg3Policy tzdb i) = Some req"
  shows "go_decision (evaluateCg3Policy tzdb i) = None \<and>
    (\<exists>blk cb. gateBlock tzdb i = Some blk \<and> cb_requestId cb = req \<and>
       callbackEvidence i (tb_reasonCode blk) cb (go_appliedExceptions (evaluateCg3Policy tzdb i)))"
  using evaluate_cases [of tzdb i]
proof cases
  case (callback blk v tz f cb pins)
  then have "ev_activeCallback i = Some cb" by (simp add: callbackEvidence_def)
  with callback assms show ?thesis by (auto simp: finishGates_fields split: if_splits)
qed (use assms in \<open>auto simp: finishGates_fields\<close>)

text \<open>The position of a gate in the evaluation order.\<close>

definition gateRank :: "ContactPolicyGate \<Rightarrow> nat" where
  "gateRank g = (case g of GATE_PREFERENCE \<Rightarrow> 0 | GATE_TEMPORAL_POLICY \<Rightarrow> 1 | GATE_APPROVED_EXCEPTION \<Rightarrow> 2
     | GATE_CALLBACK_EXCEPTION \<Rightarrow> 2 | GATE_ATTEMPT_TOUCH_CAP \<Rightarrow> 3 | GATE_SENDER_IDENTITY \<Rightarrow> 4)"

text \<open>
  The trace explains the decision: gates appear in evaluation order and at most once, the last
  entry carries exactly the decision and the reason code of the outcome, every earlier entry is a
  PASS apart from the provisional DEFER of the temporal gate, and the evaluator itself never
  returns ALLOW.
\<close>

lemma trace_explains_decision:
  "(let r = evaluateCg3Policy tzdb i in
    go_trace r \<noteq> [] \<and>
    sorted_wrt (\<lambda>a b. gateRank (te_gate a) < gateRank (te_gate b)) (go_trace r) \<and>
    te_outcome (last (go_trace r)) = (case go_decision r of None \<Rightarrow> PASS | Some d \<Rightarrow> Decided d) \<and>
    te_reasonCode (last (go_trace r)) = go_reasonCode r \<and>
    list_all (\<lambda>e. te_outcome e = PASS \<or> te_gate e = GATE_TEMPORAL_POLICY \<and> te_outcome e = Decided DEFER)
      (butlast (go_trace r)) \<and>
    go_decision r \<noteq> Some ALLOW)"
proof -
  note traces = passTemporal_def deferTemporal_def traceEntry_def gateRank_def
  have fin: ?thesis if r: "evaluateCg3Policy tzdb i = finishGates i v tz f blk l"
    and l: "sorted_wrt (\<lambda>a b. gateRank (te_gate a) < gateRank (te_gate b)) (li_trace l)"
      "\<forall>e \<in> set (li_trace l). gateRank (te_gate e) < 3"
      "list_all (\<lambda>e. te_outcome e = PASS \<or> te_gate e = GATE_TEMPORAL_POLICY \<and> te_outcome e = Decided DEFER) (li_trace l)"
    for v tz f blk l
    using finishGates_fields(2) [of i v tz f blk l] l unfolding r Let_def finishGates_fields(1)
    by (auto simp: finishGates_fields(3) sorted_wrt_append butlast_append traceEntry_def gateRank_def)
  show ?thesis
    using evaluate_cases [of tzdb i]
  proof cases
    case (unblocked v tz f)
    then show ?thesis by (intro fin) (auto simp: traces)
  next
    case (exception blk v tz f pin)
    show ?thesis by (rule fin [OF exception(3)]) (auto simp: traces)
  next
    case (callback blk v tz f cb pins)
    show ?thesis by (rule fin [OF callback(3)]) (auto simp: traces)
  qed (auto simp: Let_def traces)
qed

section \<open>The next eligible instant\<close>

definition eligibleAt :: "zone \<Rightarrow> temporal_facts \<Rightarrow> time_ms \<Rightarrow> bool" where
  "eligibleAt tz f t \<longleftrightarrow>
     tv_eligible (evaluateInstant (zonedPartsAt t tz) (tf_preferredWindows f) (tf_quietHours f) (tf_holidays f))"

lemma scan_Some:
  assumes "scanEligible n off now tz (tf_preferredWindows f) (tf_quietHours f) (tf_holidays f) = Some t"
  obtains k where "k < n" "eligibleAt tz f (now + (int off + 5 * int k) * 60000)"
    "\<And>j. j < k \<Longrightarrow> \<not> eligibleAt tz f (now + (int off + 5 * int j) * 60000)"
    "t = (let p = zonedPartsAt (now + (int off + 5 * int k) * 60000) tz in
          zonedToUtc (zp_year p) (zp_month p) (zp_day p) (zp_hour p) (zp_minute p) tz)"
  using assms
proof (induction n arbitrary: off thesis)
  case (Suc n)
  show ?case
  proof (cases "eligibleAt tz f (now + int off * 60000)")
    case True
    with Suc.prems(2) show ?thesis
      by (intro Suc.prems(1) [of 0]) (simp_all add: Let_def eligibleAt_def)
  next
    case False
    with Suc.prems(2)
    have "scanEligible n (off + 5) now tz (tf_preferredWindows f) (tf_quietHours f) (tf_holidays f) = Some t"
      by (simp add: Let_def eligibleAt_def NEXT_ELIGIBLE_STEP_MINUTES_def)
    from Suc.IH [OF _ this] obtain k where k: "k < n"
      "eligibleAt tz f (now + (int (off + 5) + 5 * int k) * 60000)"
      "\<And>j. j < k \<Longrightarrow> \<not> eligibleAt tz f (now + (int (off + 5) + 5 * int j) * 60000)"
      "t = (let p = zonedPartsAt (now + (int (off + 5) + 5 * int k) * 60000) tz in
          zonedToUtc (zp_year p) (zp_month p) (zp_day p) (zp_hour p) (zp_minute p) tz)" by blast
    have eq: "int (off + 5) + 5 * int m = int off + 5 * int (Suc m)" for m by simp
    note k = k [unfolded eq]
    show ?thesis
    proof (rule Suc.prems(1) [of "Suc k", OF _ k(2) _ k(4)])
      fix j assume "j < Suc k"
      then show "\<not> eligibleAt tz f (now + (int off + 5 * int j) * 60000)"
        using k(3) False by (cases j) simp_all
    qed (use k(1) in simp)
  qed
qed simp

lemma findNextEligibleAt_scan:
  "findNextEligibleAt now tz pw qh hs = scanEligible 8641 0 now tz pw qh hs"
proof -
  have "NEXT_ELIGIBLE_MAX_LOOKAHEAD_DAYS * 24 * 60 div NEXT_ELIGIBLE_STEP_MINUTES + 1 = 8641"
    by (simp add: NEXT_ELIGIBLE_MAX_LOOKAHEAD_DAYS_def NEXT_ELIGIBLE_STEP_MINUTES_def)
  then show ?thesis unfolding findNextEligibleAt_def Let_def by (simp only:)
qed

lemma gateBlock_next:
  assumes "gateBlock tzdb i = Some blk"
  defines "winner \<equiv> resolveEffectivePreference (ev_preferences i) i"
  obtains tz src where "firstValidZone tzdb (timezoneChain i winner) = Some (tz, src)"
    "\<not> eligibleAt tz (temporalFacts i winner) (ev_now i)"
    "tb_nextEligibleAt blk = scanEligible 8641 0 (ev_now i) tz (tf_preferredWindows (temporalFacts i winner))
       (tf_quietHours (temporalFacts i winner)) (tf_holidays (temporalFacts i winner))"
  using assms(1)
  by (auto simp: gateBlock_def temporalBlock_def winner_def Let_def eligibleAt_def findNextEligibleAt_scan
      simp del: scanEligible.simps split: option.splits if_splits)

lemma outcome_next:
  assumes "go_nextEligibleAt (evaluateCg3Policy tzdb i) = Some t"
  obtains blk where "gateBlock tzdb i = Some blk" "tb_nextEligibleAt blk = Some t"
  using evaluate_cases [of tzdb i] by cases (use assms that in \<open>auto simp: finishGates_fields\<close>)

text \<open>
  The candidate behind an offered instant: the first eligible point of the five-minute grid, converted
  from its wall clock back to an instant.
\<close>

lemma next_eligible_candidate:
  fixes tzdb i
  defines "winner \<equiv> resolveEffectivePreference (ev_preferences i) i"
  defines "f \<equiv> temporalFacts i winner"
  assumes "go_nextEligibleAt (evaluateCg3Policy tzdb i) = Some t"
    and "firstValidZone tzdb (timezoneChain i winner) = Some (tz, src)"
    and "shiftsOnce tz (ev_now i - 3 * 86400000) (ev_now i + 33 * 86400000) T a b"
    and "4 * 86400000 \<le> ev_now i"
  obtains k c where "c = ev_now i + int k * 300000" "0 < k" "k \<le> 8640" "eligibleAt tz f c"
    "\<forall>j<k. \<not> eligibleAt tz f (ev_now i + int j * 300000)"
    "t = convertedInstant T a b c"
    "zonedPartsAt t tz = zonedPartsAt c tz" "t mod 60000 = 0"
proof -
  from assms(3) obtain blk where blk: "gateBlock tzdb i = Some blk" "tb_nextEligibleAt blk = Some t"
    by (rule outcome_next)
  from gateBlock_next [OF blk(1)] obtain tz' src' where z:
    "firstValidZone tzdb (timezoneChain i winner) = Some (tz', src')" "\<not> eligibleAt tz' f (ev_now i)"
    "tb_nextEligibleAt blk = scanEligible 8641 0 (ev_now i) tz' (tf_preferredWindows f) (tf_quietHours f) (tf_holidays f)"
    unfolding winner_def f_def by blast
  have tz': "tz' = tz" using z(1) assms(4) by simp
  have scan: "scanEligible 8641 0 (ev_now i) tz (tf_preferredWindows f) (tf_quietHours f) (tf_holidays f) = Some t"
    using z(3) [symmetric] tz' blk(2) by (simp only:)
  obtain k where k: "k < 8641" "eligibleAt tz f (ev_now i + (int 0 + 5 * int k) * 60000)"
    "\<And>j. j < k \<Longrightarrow> \<not> eligibleAt tz f (ev_now i + (int 0 + 5 * int j) * 60000)"
    "t = (let p = zonedPartsAt (ev_now i + (int 0 + 5 * int k) * 60000) tz in
          zonedToUtc (zp_year p) (zp_month p) (zp_day p) (zp_hour p) (zp_minute p) tz)"
    by (rule scan_Some [OF scan]) blast
  have grid: "ev_now i + (int 0 + 5 * int j) * 60000 = ev_now i + int j * 300000" for j by simp
  note k = k [unfolded grid]
  define c where "c = ev_now i + int k * 300000"
  have "k \<noteq> 0" using z(2) k(2) by (cases k) (auto simp: tz')
  moreover have c: "ev_now i - 3 * 86400000 \<le> c - 259200000" "c + 259200000 \<le> ev_now i + 33 * 86400000"
    "259260000 \<le> c"
    using k(1) assms(6) by (simp_all add: c_def)
  note shift = zonedToUtc_shift [OF assms(5) c, folded k(4) [unfolded Let_def, folded c_def]]
  show thesis by (rule that [OF c_def _ _ _ _ shift]) (use k \<open>k \<noteq> 0\<close> in \<open>simp_all add: c_def\<close>)
qed

text \<open>
  C25. The instant a refusal offers as \<open>nextEligibleAt\<close> can be used: it is the start of a minute and it
  is eligible under the same preferred windows, quiet hours and holidays. It shows the wall clock of
  the first eligible point of the five-minute grid from now and, unless that point reads a time that
  occurs twice because the clock is set back, it is that point's minute, so it lies in the future and within
  the thirty days of look-ahead; at a repeated reading it may be the other of the two instants. The zone
  may have a fixed offset or change it once, in either direction, in the five weeks around the request.
\<close>

theorem next_eligible_is_eligible:
  fixes tzdb i
  defines "winner \<equiv> resolveEffectivePreference (ev_preferences i) i"
  assumes "go_nextEligibleAt (evaluateCg3Policy tzdb i) = Some t"
    and "firstValidZone tzdb (timezoneChain i winner) = Some (tz, src)"
    and "shiftsOnce tz (ev_now i - 3 * 86400000) (ev_now i + 33 * 86400000) T a b"
    and "4 * 86400000 \<le> ev_now i"
  shows "t mod 60000 = 0 \<and> eligibleAt tz (temporalFacts i winner) t \<and>
    (\<exists>k c. c = ev_now i + int k * 300000 \<and> 0 < k \<and> c \<le> ev_now i + 30 * 86400000 \<and>
       eligibleAt tz (temporalFacts i winner) c \<and>
       (\<forall>j<k. \<not> eligibleAt tz (temporalFacts i winner) (ev_now i + int j * 300000)) \<and>
       zonedPartsAt t tz = zonedPartsAt c tz \<and>
       (if b < a \<and> T - (a - b) \<le> c \<and> c < T + (a - b)
        then t \<in> {c - c mod 60000 - (a - b), c - c mod 60000, c - c mod 60000 + (a - b)}
        else t = c - c mod 60000 \<and> ev_now i < t \<and> t \<le> ev_now i + 30 * 86400000))"
proof -
  let ?f = "temporalFacts i winner"
  obtain k c where c: "c = ev_now i + int k * 300000" "0 < k" "k \<le> 8640" "eligibleAt tz ?f c"
    "\<forall>j<k. \<not> eligibleAt tz ?f (ev_now i + int j * 300000)" "t = convertedInstant T a b c"
    "zonedPartsAt t tz = zonedPartsAt c tz" "t mod 60000 = 0"
    by (rule next_eligible_candidate [OF assms(2-5) [unfolded winner_def], folded winner_def]) (rule that; assumption)
  have late: "ev_now i + 300000 \<le> c" "c \<le> ev_now i + 30 * 86400000" using c(1-3) by simp_all
  have dvd: "60000 dvd T" "60000 dvd a" "60000 dvd b" using assms(4) by (auto simp: shiftsOnce_def)
  have "eligibleAt tz ?f t" using c(4,7) by (simp add: eligibleAt_def)
  moreover have "if b < a \<and> T - (a - b) \<le> c \<and> c < T + (a - b)
      then t \<in> {c - c mod 60000 - (a - b), c - c mod 60000, c - c mod 60000 + (a - b)}
      else t = c - c mod 60000 \<and> ev_now i < t \<and> t \<le> ev_now i + 30 * 86400000"
  proof (cases "b < a \<and> T - (a - b) \<le> c \<and> c < T + (a - b)")
    case True
    then show ?thesis using convertedInstant_repeated [of b a T c] c(6) by simp
  next
    case False
    have "t = c - c mod 60000" using convertedInstant_exact [OF dvd False] c(6) by simp
    moreover have "ev_now i < c - c mod 60000" "c - c mod 60000 \<le> ev_now i + 30 * 86400000"
      using late pos_mod_sign [of 60000 c] pos_mod_bound [of 60000 c] by linarith+
    ultimately show ?thesis using False by simp
  qed
  ultimately show ?thesis using c late
    by (intro conjI exI [of _ k] exI [of _ c]) simp_all
qed

text \<open>
  C39. In a zone at or west of UTC a request made in the second pass of the time the clock repeats is
  offered an instant of the first pass: when some point of the five-minute grid before the end
  of that pass is eligible, the offered \<open>nextEligibleAt\<close> lies before the change of the clock, so in the past.
\<close>

theorem repeated_hour_offer_is_past:
  fixes tzdb i
  defines "winner \<equiv> resolveEffectivePreference (ev_preferences i) i"
  assumes "go_nextEligibleAt (evaluateCg3Policy tzdb i) = Some t"
    and "firstValidZone tzdb (timezoneChain i winner) = Some (tz, src)"
    and "shiftsOnce tz (ev_now i - 3 * 86400000) (ev_now i + 33 * 86400000) T a b"
    and "4 * 86400000 \<le> ev_now i" and "b < a" and "a \<le> 0" and "T \<le> ev_now i"
    and "eligibleAt tz (temporalFacts i winner) (ev_now i + int j * 300000)"
    and "ev_now i + int j * 300000 < T + (a - b)"
  shows "t < T \<and> t < ev_now i"
proof -
  let ?f = "temporalFacts i winner"
  obtain k c where c: "c = ev_now i + int k * 300000" "0 < k" "k \<le> 8640" "eligibleAt tz ?f c"
    "\<forall>j<k. \<not> eligibleAt tz ?f (ev_now i + int j * 300000)" "t = convertedInstant T a b c"
    "zonedPartsAt t tz = zonedPartsAt c tz" "t mod 60000 = 0"
    by (rule next_eligible_candidate [OF assms(2-5) [unfolded winner_def], folded winner_def]) (rule that; assumption)
  have "\<not> j < k" using c(5) assms(9) by auto
  then have "c < T + (a - b)" "T \<le> c" using c(1) assms(8,10) by simp_all
  with convertedInstant_second_pass [OF assms(6,7)] c(6) have "t < T" by simp
  with assms(8) show ?thesis by simp
qed

section \<open>A request in the quiet hours of Bangkok\<close>

definition bangkok :: tz_database where
  "bangkok name = (if name = ''Asia/Bangkok'' then Some (\<lambda>_. 25200000) else None)"

definition quietPolicy :: "Cg3CallbackMode \<Rightarrow> Cg3PolicyFacts" where
  "quietPolicy mode =
     \<lparr>pf_version = 1, pf_timezoneFallback = None,
      pf_quietHours = [\<lparr>lw_daysOfWeek = [4], lw_startLocal = ''06:00'', lw_endLocal = ''07:05''\<rparr>],
      pf_callbackMode = mode, pf_overridableRules = [''QUIET_HOURS''], pf_holidays = []\<rparr>"

definition exampleCallback :: Cg3CallbackFacts where
  "exampleCallback =
     \<lparr>cb_requestId = ''cb1'', cb_identityId = Some ''id1'', cb_channel = LINE, cb_purpose = ''billing'',
      cb_expiresAt = 5000, cb_approvedExceptionId = None\<rparr>"

definition quietRequest :: "Cg3CallbackMode \<Rightarrow> Cg3CallbackFacts option \<Rightarrow> Cg3EvaluationInput" where
  "quietRequest mode cb = example_input\<lparr>ev_preferences := [], ev_policy := Some (quietPolicy mode),
     ev_activeCallback := cb, ev_activeExceptions := Some [example_exception]\<rparr>"

lemma quietRequest_zone:
  "firstValidZone bangkok (timezoneChain (quietRequest mode cb) None) = Some ((\<lambda>_. 25200000), ''TENANT_DEFAULT'')"
  by (simp add: timezoneChain_def quietRequest_def example_input_def bangkok_def quietPolicy_def)

lemma quietRequest_winner:
  "resolveEffectivePreference (ev_preferences (quietRequest mode cb)) (quietRequest mode cb) = None"
  by (simp add: resolve_None_iff quietRequest_def)

lemma quietRequest_parts: "zonedPartsAt 1000 (\<lambda>_. 25200000) =
    \<lparr>zp_year = 1970, zp_month = 1, zp_day = 1, zp_weekday = 4, zp_hour = 7, zp_minute = 0\<rparr>"
  by code_simp

lemma quietRequest_blocked:
  "\<exists>blk. gateBlock bangkok (quietRequest mode cb) = Some blk \<and> tb_reasonCode blk = ''QUIET_HOURS''"
proof -
  have w: "anyWindowMatches [\<lparr>lw_daysOfWeek = [4], lw_startLocal = ''06:00'', lw_endLocal = ''07:05''\<rparr>] 4 420"
    by code_simp
  show ?thesis
    unfolding gateBlock_def Let_def quietRequest_winner quietRequest_zone
    using w by (simp add: temporalBlock_def hasTemporalConstraint_def temporalFacts_def quietRequest_def
      quietPolicy_def example_input_def quietRequest_parts evaluateInstant_def Let_def)
qed


lemma evaluate_blocked:
  fixes i
  defines "winner \<equiv> resolveEffectivePreference (ev_preferences i) i"
  assumes "gateBlock tzdb i = Some blk" and "preferenceRefusal winner = None"
  obtains v tz f where "evaluateCg3Policy tzdb i =
    (case liftTemporalBlock i v tz blk [traceEntry GATE_PREFERENCE PASS None] of
       Inl out \<Rightarrow> out | Inr l \<Rightarrow> finishGates i v tz f (Some blk) l)"
proof -
  have b: "temporalBlock i (temporalFacts i winner) (firstValidZone tzdb (timezoneChain i winner)) = Some blk"
    using assms(2) by (simp add: gateBlock_def winner_def Let_def)
  then have "firstValidZone tzdb (timezoneChain i winner) \<noteq> None"
    by (auto simp: temporalBlock_def split: option.splits)
  then show thesis using assms(3) b
    by (intro that [of "map_option pc_version winner" "map_option snd (firstValidZone tzdb (timezoneChain i winner))"
          "temporalFacts i winner"]) (auto simp: evaluateCg3Policy_def Let_def winner_def [symmetric])
qed

lemma preferenceMatches_callback [simp]:
  "preferenceMatches c (i\<lparr>ev_activeCallback := x\<rparr>) = preferenceMatches c i"
  by (simp add: preferenceMatches_def)

lemma resolve_callback [simp]:
  "resolveEffectivePreference cs (i\<lparr>ev_activeCallback := x\<rparr>) = resolveEffectivePreference cs i"
  by (simp add: resolveEffectivePreference_def)

lemma gateBlock_callback [simp]: "gateBlock tzdb (i\<lparr>ev_activeCallback := x\<rparr>) = gateBlock tzdb i"
proof -
  have "temporalFacts (i\<lparr>ev_activeCallback := x\<rparr>) w = temporalFacts i w"
    "timezoneChain (i\<lparr>ev_activeCallback := x\<rparr>) w = timezoneChain i w" for w
    by (simp_all add: temporalFacts_def timezoneChain_def)
  then show ?thesis by (auto simp: gateBlock_def temporalBlock_def Let_def split: option.split)
qed

lemma approvedExceptionFor_callback [simp]:
  "approvedExceptionFor (i\<lparr>ev_activeCallback := x\<rparr>) rc sid = approvedExceptionFor i rc sid"
  by (auto simp: approvedExceptionFor_def Let_def split: list.split option.split)


lemma quietRequest_fields:
  "preferenceRefusal (resolveEffectivePreference (ev_preferences (quietRequest mode cb)) (quietRequest mode cb)) = None"
  "ev_senderIdentityId (quietRequest mode cb) = None" "ruleOverridable (quietRequest mode cb) ''QUIET_HOURS''"
  "callbackModeOf (quietRequest mode cb) = mode" "ev_activeCallback (quietRequest mode cb) = cb"
  "callbackIsExactScopeMatch exampleCallback (quietRequest mode cb)" "ev_now (quietRequest mode cb) = 1000"
  by (simp_all add: quietRequest_winner preferenceRefusal_def) (simp_all add: quietRequest_def
    example_input_def ruleOverridable_def callbackModeOf_def quietPolicy_def exampleCallback_def callbackIsExactScopeMatch_def)



lemma quietRequest_callback_passes:
  "go_decision (evaluateCg3Policy bangkok (quietRequest SCOPED_OVERRIDE (Some exampleCallback))) = None"
  "go_consumedCallbackRequestId (evaluateCg3Policy bangkok (quietRequest SCOPED_OVERRIDE (Some exampleCallback))) = Some ''cb1''"
proof -
  define i where "i = quietRequest SCOPED_OVERRIDE (Some exampleCallback)"
  obtain blk where b: "gateBlock bangkok i = Some blk" "tb_reasonCode blk = ''QUIET_HOURS''"
    unfolding i_def using quietRequest_blocked by blast
  obtain v tz f where r: "evaluateCg3Policy bangkok i =
      (case liftTemporalBlock i v tz blk [traceEntry GATE_PREFERENCE PASS None] of
         Inl out \<Rightarrow> out | Inr l \<Rightarrow> finishGates i v tz f (Some blk) l)"
    using evaluate_blocked [OF b(1)] quietRequest_fields(1) unfolding i_def by blast
  have e: "cb_expiresAt exampleCallback = 5000" "cb_approvedExceptionId exampleCallback = None"
    "cb_requestId exampleCallback = ''cb1''" by (simp_all add: exampleCallback_def)
  note fields = quietRequest_fields [of SCOPED_OVERRIDE "Some exampleCallback", folded i_def]
  have "callbackWillOverride i ''QUIET_HOURS''"
    by (simp add: callbackWillOverride_def fields e)
  then have "go_decision (evaluateCg3Policy bangkok i) = None \<and>
      go_consumedCallbackRequestId (evaluateCg3Policy bangkok i) = Some ''cb1''"
    by (simp add: r liftTemporalBlock_def callbackException_def Let_def b(2) referencedException_def
        finishGates_def emptyOutcome_def fields e)
  then show "go_decision (evaluateCg3Policy bangkok (quietRequest SCOPED_OVERRIDE (Some exampleCallback))) = None"
    "go_consumedCallbackRequestId (evaluateCg3Policy bangkok (quietRequest SCOPED_OVERRIDE (Some exampleCallback))) = Some ''cb1''"
    by (simp_all add: i_def)
qed

theorem temporal_block_lifted_only_by_evidence_witness:
  "\<exists>cb. callbackEvidence (quietRequest SCOPED_OVERRIDE (Some exampleCallback)) ''QUIET_HOURS'' cb
     (go_appliedExceptions (evaluateCg3Policy bangkok (quietRequest SCOPED_OVERRIDE (Some exampleCallback))))"
proof -
  obtain blk where b: "gateBlock bangkok (quietRequest SCOPED_OVERRIDE (Some exampleCallback)) = Some blk"
    "tb_reasonCode blk = ''QUIET_HOURS''" using quietRequest_blocked by blast
  from temporal_block_lifted_only_by_evidence [OF b(1) quietRequest_callback_passes(1)]
    quietRequest_callback_passes(2) b(2) show ?thesis by auto
qed

lemma callback_consumed_only_when_exercised_witness:
  "\<exists>cb. cb_requestId cb = ''cb1'' \<and> callbackIsExactScopeMatch cb (quietRequest SCOPED_OVERRIDE (Some exampleCallback))"
  using callback_consumed_only_when_exercised [OF quietRequest_callback_passes(2)]
  unfolding callbackEvidence_def by blast

section \<open>A request in the repeated hour of New York\<close>

text \<open>The zone around 2025-11-02, when the clock goes back from UTC-4 to UTC-5 at 06:00 UTC.\<close>

definition newYorkZone :: zone where
  "newYorkZone s = (if s < 1762063200000 then - 14400000 else - 18000000)"

definition newYork :: tz_database where
  "newYork name = (if name = ''America/New_York'' then Some newYorkZone else None)"

text \<open>Five past one, in the second pass, with quiet hours until ten past one.\<close>

definition nightRequest :: Cg3EvaluationInput where
  "nightRequest = example_input\<lparr>ev_now := 1762063500000, ev_preferences := [],
     ev_tenantDefaultTimezone := Some ''America/New_York'',
     ev_policy := Some ((quietPolicy NO_OVERRIDE)\<lparr>pf_quietHours :=
       [\<lparr>lw_daysOfWeek = [7], lw_startLocal = ''00:00'', lw_endLocal = ''01:10''\<rparr>]\<rparr>)\<rparr>"

lemma nightRequest_winner: "resolveEffectivePreference (ev_preferences nightRequest) nightRequest = None"
  by (simp add: resolve_None_iff nightRequest_def)

lemma nightRequest_zone:
  "firstValidZone newYork (timezoneChain nightRequest None) = Some (newYorkZone, ''TENANT_DEFAULT'')"
  by (simp add: timezoneChain_def nightRequest_def example_input_def newYork_def quietPolicy_def)

lemma nightRequest_facts:
  "temporalFacts nightRequest None = \<lparr>tf_preferredWindows = [], tf_quietHours =
     [\<lparr>lw_daysOfWeek = [7], lw_startLocal = ''00:00'', lw_endLocal = ''01:10''\<rparr>], tf_holidays = []\<rparr>"
  "ev_now nightRequest = 1762063500000"
  by (simp_all add: temporalFacts_def nightRequest_def example_input_def quietPolicy_def)

lemma newYork_shift: "shiftsOnce newYorkZone lo hi 1762063200000 (- 14400000) (- 18000000)"
  by (simp add: shiftsOnce_def newYorkZone_def)

lemma nightRequest_parts:
  "zonedPartsAt 1762063500000 newYorkZone =
     \<lparr>zp_year = 2025, zp_month = 11, zp_day = 2, zp_weekday = 7, zp_hour = 1, zp_minute = 5\<rparr>"
  "zonedPartsAt 1762063800000 newYorkZone =
     \<lparr>zp_year = 2025, zp_month = 11, zp_day = 2, zp_weekday = 7, zp_hour = 1, zp_minute = 10\<rparr>"
  "zonedToUtc 2025 11 2 1 10 newYorkZone = 1762060200000"
  by code_simp+

lemma nightRequest_quiet:
  "anyWindowMatches [\<lparr>lw_daysOfWeek = [7], lw_startLocal = ''00:00'', lw_endLocal = ''01:10''\<rparr>] 7 65"
  "\<not> anyWindowMatches [\<lparr>lw_daysOfWeek = [7], lw_startLocal = ''00:00'', lw_endLocal = ''01:10''\<rparr>] 7 70"
  by code_simp+

lemma nightRequest_eligible: "eligibleAt newYorkZone (temporalFacts nightRequest None) 1762063800000"
  by (simp add: eligibleAt_def nightRequest_facts nightRequest_parts evaluateInstant_def Let_def
      nightRequest_quiet eligibleNow_def)

lemma nightRequest_next: "go_nextEligibleAt (evaluateCg3Policy newYork nightRequest) = Some 1762060200000"
proof -
  have sc: "scanEligible (Suc (Suc m)) 0 1762063500000 newYorkZone []
      [\<lparr>lw_daysOfWeek = [7], lw_startLocal = ''00:00'', lw_endLocal = ''01:10''\<rparr>] [] = Some 1762060200000" for m
    by (simp add: nightRequest_parts evaluateInstant_def Let_def nightRequest_quiet eligibleNow_def
        NEXT_ELIGIBLE_STEP_MINUTES_def)
  obtain blk where b: "gateBlock newYork nightRequest = Some blk" "tb_nextEligibleAt blk = Some 1762060200000"
    unfolding gateBlock_def Let_def nightRequest_winner nightRequest_zone nightRequest_facts temporalBlock_def
      findNextEligibleAt_scan
    using sc [of 8639]
    by (simp add: hasTemporalConstraint_def nightRequest_parts evaluateInstant_def Let_def nightRequest_quiet)
  have "preferenceRefusal (resolveEffectivePreference (ev_preferences nightRequest) nightRequest) = None"
    by (simp add: nightRequest_winner preferenceRefusal_def)
  from evaluate_blocked [OF b(1) this] obtain v tz ff where r: "evaluateCg3Policy newYork nightRequest =
      (case liftTemporalBlock nightRequest v tz blk [traceEntry GATE_PREFERENCE PASS None] of
         Inl out \<Rightarrow> out | Inr l \<Rightarrow> finishGates nightRequest v tz ff (Some blk) l)" by blast
  have "approvedExceptionFor nightRequest rc sid = None" "ev_activeCallback nightRequest = None" for rc sid
    by (simp_all add: approvedExceptionFor_def nightRequest_def example_input_def)
  then show ?thesis by (simp add: r b liftTemporalBlock_def callbackException_def Let_def)
qed

theorem next_eligible_is_eligible_witness:
  "(1762060200000 :: int) mod 60000 = 0 \<and>
   eligibleAt newYorkZone (temporalFacts nightRequest None) 1762060200000"
  using next_eligible_is_eligible [OF nightRequest_next, unfolded nightRequest_winner, OF nightRequest_zone newYork_shift]
  by (simp add: nightRequest_facts(2))

theorem repeated_hour_offer_is_past_witness:
  "go_nextEligibleAt (evaluateCg3Policy newYork nightRequest) = Some 1762060200000 \<and>
   (1762060200000 :: int) < ev_now nightRequest"
proof -
  have "eligibleAt newYorkZone (temporalFacts nightRequest None) (ev_now nightRequest + int 1 * 300000)"
    using nightRequest_eligible by (simp add: nightRequest_facts(2))
  from repeated_hour_offer_is_past [OF nightRequest_next, unfolded nightRequest_winner,
      OF nightRequest_zone newYork_shift _ _ _ _ this]
  show ?thesis using nightRequest_next by (simp add: nightRequest_facts(2))
qed

end
