(* ===== verification/PolicyScope.thy ===== *)
theory PolicyScope
  imports TimeWindows
begin

text \<open>
  The scope keys of contact policies (\<open>apps/contact-governance/src/cg4-policy-compiler.ts\<close>, part
  "Scope key"): building and parsing the canonical key, matching a request, and the test for
  ambiguous scopes.
\<close>

datatype cg4_policy_error_code =
    VALIDATION_FAILED
  | SCOPE_INVALID
  | POLICY_RULE_NOT_REGISTERED
  | POLICY_NON_OVERRIDABLE_RULE
  | POLICY_VERSION_UNSUPPORTED

text \<open>
  \<open>Cg4PolicyValidationError\<close> with its code and the field it names, and the \<open>TypeError\<close> or
  \<open>RangeError\<close> with which the window normalizer refuses its input, and the \<open>Cg4ContractError\<close> of
  the canonical text.
\<close>

datatype cg4_policy_error =
    Cg4PolicyValidationError cg4_policy_error_code string
  | WindowsRejected
  | CanonicalValueInvalid

section \<open>Scope keys\<close>

definition CG4_POLICY_SCOPE_DIMENSIONS :: "string list" where
  "CG4_POLICY_SCOPE_DIMENSIONS = [''channel'', ''contactKind'', ''purpose'', ''sourceType'']"

text \<open>A partial record of dimensions as its own properties in insertion order.\<close>

type_synonym Cg4PolicyScopeDimensions = "(string \<times> string) list"

definition UNBOUND :: string where
  "UNBOUND = ''*''"

definition scopeValue :: "string \<Rightarrow> string option \<Rightarrow> cg4_policy_error + string" where
  "scopeValue dimension value =
     (case value of
        None \<Rightarrow> Inr UNBOUND
      | Some v \<Rightarrow>
          let normalized = js_trim v in
          if normalized = [] \<or> normalized = UNBOUND \<or> list_ex (\<lambda>c. c = CHR ''|'' \<or> c = CHR ''='') normalized
          then Inl (Cg4PolicyValidationError SCOPE_INVALID dimension)
          else Inr normalized)"

definition buildCg4PolicyScopeKey :: "Cg4PolicyScopeDimensions \<Rightarrow> cg4_policy_error + string" where
  "buildCg4PolicyScopeKey dimensions =
     rbind (rmap (\<lambda>dimension. rbind (scopeValue dimension (map_of dimensions dimension))
              (\<lambda>v. Inr (dimension @ ''='' @ v))) CG4_POLICY_SCOPE_DIMENSIONS)
       (\<lambda>parts. Inr (js_join ''|'' parts))"

definition parseScopePart :: "string \<times> string \<Rightarrow> cg4_policy_error + (string \<times> string) list" where
  "parseScopePart = (\<lambda>(expected, part).
     let before = takeWhile (\<lambda>c. c \<noteq> CHR ''='') part;
         rest = dropWhile (\<lambda>c. c \<noteq> CHR ''='') part in
     if rest = [] \<or> before \<noteq> expected then Inl (Cg4PolicyValidationError SCOPE_INVALID ''scopeKey'')
     else let value = tl rest in
       if value = [] then Inl (Cg4PolicyValidationError SCOPE_INVALID ''scopeKey'')
       else Inr (if value \<noteq> UNBOUND then [(expected, value)] else []))"

definition parseCg4PolicyScopeKey :: "string \<Rightarrow> cg4_policy_error + Cg4PolicyScopeDimensions" where
  "parseCg4PolicyScopeKey scopeKey =
     (let parts = js_split CHR ''|'' scopeKey in
      if length parts \<noteq> length CG4_POLICY_SCOPE_DIMENSIONS
      then Inl (Cg4PolicyValidationError SCOPE_INVALID ''scopeKey'')
      else rbind (rmap parseScopePart (zip CG4_POLICY_SCOPE_DIMENSIONS parts)) (\<lambda>dims. Inr (concat dims)))"

definition cg4EventScopeDimensions :: "string \<Rightarrow> Cg4PolicyScopeDimensions" where
  "cg4EventScopeDimensions scopeKey =
     (case parseCg4PolicyScopeKey scopeKey of Inr dims \<Rightarrow> dims | Inl _ \<Rightarrow> [])"

definition cg4PolicyScopeSpecificity :: "string \<Rightarrow> cg4_policy_error + nat" where
  "cg4PolicyScopeSpecificity scopeKey = rbind (parseCg4PolicyScopeKey scopeKey) (\<lambda>dims. Inr (length dims))"

definition cg4PolicyScopesAmbiguous :: "string \<Rightarrow> string \<Rightarrow> cg4_policy_error + bool" where
  "cg4PolicyScopesAmbiguous left right =
     (if left = right then Inr False
      else rbind (cg4PolicyScopeSpecificity left) (\<lambda>l.
           rbind (cg4PolicyScopeSpecificity right) (\<lambda>r.
           if l \<noteq> r then Inr False
           else rbind (parseCg4PolicyScopeKey left) (\<lambda>a.
                rbind (parseCg4PolicyScopeKey right) (\<lambda>b.
                Inr (list_all (\<lambda>dimension.
                  map_of a dimension = None \<or> map_of b dimension = None \<or>
                  map_of a dimension = map_of b dimension) CG4_POLICY_SCOPE_DIMENSIONS))))))"

record Cg4PolicyScope =
  ps_scopeKey :: string
  ps_channel :: "string option"
  ps_purpose :: "string option"
  ps_contactKind :: "string option"
  ps_sourceType :: "string option"

definition truthyDimension :: "string \<Rightarrow> string option \<Rightarrow> (string \<times> string) list" where
  "truthyDimension d v = (case v of Some s \<Rightarrow> if s = [] then [] else [(d, s)] | None \<Rightarrow> [])"

definition cg4PolicyScopeKeyFor :: "Cg4PolicyScope \<Rightarrow> cg4_policy_error + string" where
  "cg4PolicyScopeKeyFor scope =
     buildCg4PolicyScopeKey
       (truthyDimension ''channel'' (ps_channel scope) @ truthyDimension ''contactKind'' (ps_contactKind scope) @
        truthyDimension ''purpose'' (ps_purpose scope) @ truthyDimension ''sourceType'' (ps_sourceType scope))"

definition cg4PolicyScopeMatches :: "string \<Rightarrow> Cg4PolicyScopeDimensions \<Rightarrow> cg4_policy_error + bool" where
  "cg4PolicyScopeMatches scopeKey request =
     rbind (parseCg4PolicyScopeKey scopeKey) (\<lambda>dimensions.
     Inr (list_all (\<lambda>dimension.
       map_of dimensions dimension = None \<or> map_of dimensions dimension = map_of request dimension)
       CG4_POLICY_SCOPE_DIMENSIONS))"

section \<open>Building and parsing\<close>

lemma js_split_ne: "js_split c s \<noteq> []"
  by (induction s) (auto split: list.splits)

lemma js_split_part: "c \<notin> set p \<Longrightarrow> js_split c p = [p]"
  by (induction p) auto

lemma js_split_append: "c \<notin> set p \<Longrightarrow> js_split c (p @ c # s) = p # js_split c s"
  by (induction p) auto

lemma js_split_join:
  assumes "ps \<noteq> []" and "\<forall>p \<in> set ps. c \<notin> set p"
  shows "js_split c (js_join [c] ps) = ps"
  using assms
proof (induction ps rule: induct_list012)
  case (3 x y zs)
  then show ?case by (simp add: js_split_append)
qed (auto simp: js_split_part)

lemma js_join_split: "js_join [c] (js_split c s) = s"
proof (induction s)
  case (Cons x s)
  obtain p ps where "js_split c s = p # ps" using js_split_ne by (cases "js_split c s") auto
  with Cons show ?case by (cases ps) auto
qed simp

text \<open>The canonical form of a part, for a bound and an unbound dimension.\<close>

definition scopePart :: "Cg4PolicyScopeDimensions \<Rightarrow> string \<Rightarrow> string" where
  "scopePart dims d = d @ ''='' @ (case map_of dims d of None \<Rightarrow> UNBOUND | Some v \<Rightarrow> v)"

lemma dimension_chars: "d \<in> set CG4_POLICY_SCOPE_DIMENSIONS \<Longrightarrow> CHR ''='' \<notin> set d \<and> CHR ''|'' \<notin> set d"
  by (auto simp: CG4_POLICY_SCOPE_DIMENSIONS_def)

lemma parseScopePart_build:
  assumes "CHR ''='' \<notin> set d" and "v \<noteq> []"
  shows "parseScopePart (d, d @ ''='' @ v) = Inr (if v \<noteq> UNBOUND then [(d, v)] else [])"
proof -
  have "takeWhile (\<lambda>c. c \<noteq> CHR ''='') (d @ CHR ''='' # v) = d" "dropWhile (\<lambda>c. c \<noteq> CHR ''='') (d @ CHR ''='' # v) = CHR ''='' # v"
    using assms(1) by (induction d) auto
  with assms(2) show ?thesis by (simp add: parseScopePart_def Let_def)
qed

lemma parseScopePart_Inr:
  assumes "parseScopePart (d, p) = Inr xs"
  shows "p = d @ ''='' @ (case map_of xs d of None \<Rightarrow> UNBOUND | Some v \<Rightarrow> v)" "fst ` set xs \<subseteq> {d}"
    "length xs \<le> 1" "\<forall>(k, v) \<in> set xs. v \<noteq> [] \<and> v \<noteq> UNBOUND"
proof -
  define b where "b = takeWhile (\<lambda>c. c \<noteq> CHR ''='') p"
  define r where "r = dropWhile (\<lambda>c. c \<noteq> CHR ''='') p"
  have p: "p = b @ r" by (simp add: b_def r_def)
  have x: "r \<noteq> []" "b = d" "tl r \<noteq> []" "xs = (if tl r \<noteq> UNBOUND then [(d, tl r)] else [])"
    using assms by (auto simp: parseScopePart_def Let_def b_def [symmetric] r_def [symmetric] split: if_splits)
  have "hd r = CHR ''=''" 
    using x(1) hd_dropWhile [of "\<lambda>c. c \<noteq> CHR ''=''" p] unfolding r_def by blast
  then have "r = CHR ''='' # tl r" using x(1) by (metis list.collapse)
  then have "p = d @ CHR ''='' # tl r" using p x(2) by metis
  with x show "p = d @ ''='' @ (case map_of xs d of None \<Rightarrow> UNBOUND | Some v \<Rightarrow> v)" by auto
  from x show "fst ` set xs \<subseteq> {d}" "length xs \<le> 1" "\<forall>(k, v) \<in> set xs. v \<noteq> [] \<and> v \<noteq> UNBOUND" by auto
qed

text \<open>What a successful parse says about the key: each dimension once, in the fixed order.\<close>

lemma parse_Inr:
  assumes "parseCg4PolicyScopeKey k = Inr dims"
  shows "k = js_join ''|'' (map (scopePart dims) CG4_POLICY_SCOPE_DIMENSIONS)"
    and "fst ` set dims \<subseteq> set CG4_POLICY_SCOPE_DIMENSIONS" and "distinct (map fst dims)"
proof -
  obtain p1 p2 p3 p4 where s: "js_split CHR ''|'' k = [p1, p2, p3, p4]"
    using assms by (auto simp: parseCg4PolicyScopeKey_def Let_def CG4_POLICY_SCOPE_DIMENSIONS_def
        length_Suc_conv split: if_splits)
  then obtain d1 d2 d3 d4 where d: "parseScopePart (''channel'', p1) = Inr d1" "parseScopePart (''contactKind'', p2) = Inr d2"
    "parseScopePart (''purpose'', p3) = Inr d3" "parseScopePart (''sourceType'', p4) = Inr d4"
    and dims: "dims = d1 @ d2 @ d3 @ d4"
    using assms by (auto simp: parseCg4PolicyScopeKey_def Let_def CG4_POLICY_SCOPE_DIMENSIONS_def result_simps)
  note x = parseScopePart_Inr [OF d(1)] parseScopePart_Inr [OF d(2)] parseScopePart_Inr [OF d(3)] parseScopePart_Inr [OF d(4)]
  have none: "fst ` set xs \<subseteq> {a} \<Longrightarrow> b \<noteq> a \<Longrightarrow> map_of xs b = None" for xs :: "(string \<times> string) list" and a b
    by (auto simp: map_of_eq_None_iff)
  have look: "map_of dims ''channel'' = map_of d1 ''channel''" "map_of dims ''contactKind'' = map_of d2 ''contactKind''"
    "map_of dims ''purpose'' = map_of d3 ''purpose''" "map_of dims ''sourceType'' = map_of d4 ''sourceType''"
    using x(2,6,10,14) by (auto simp: dims map_add_def none split: option.splits)
  have "k = js_join ''|'' [p1, p2, p3, p4]" using js_join_split [of "CHR ''|''" k] by (simp add: s)
  also have "[p1, p2, p3, p4] = map (scopePart dims) CG4_POLICY_SCOPE_DIMENSIONS"
    using x(1,5,9,13) by (simp add: CG4_POLICY_SCOPE_DIMENSIONS_def scopePart_def look)
  finally show "k = js_join ''|'' (map (scopePart dims) CG4_POLICY_SCOPE_DIMENSIONS)" .
  show "fst ` set dims \<subseteq> set CG4_POLICY_SCOPE_DIMENSIONS"
    using x(2,6,10,14) by (auto simp: dims CG4_POLICY_SCOPE_DIMENSIONS_def)
  have "distinct (map fst xs)" if "length xs \<le> 1" for xs :: "(string \<times> string) list"
    using that by (cases xs) auto
  then have "distinct (map fst d1)" "distinct (map fst d2)" "distinct (map fst d3)" "distinct (map fst d4)"
    using x(3,7,11,15) by auto
  moreover have dj: "fst ` set xs \<inter> fst ` set ys = {}"
    if "fst ` set xs \<subseteq> {a}" "fst ` set ys \<subseteq> {b}" "a \<noteq> b" for xs ys :: "(string \<times> string) list" and a b
    using that by auto
  moreover note dj [OF x(2) x(6)] dj [OF x(2) x(10)] dj [OF x(2) x(14)] dj [OF x(6) x(10)] dj [OF x(6) x(14)]
    dj [OF x(10) x(14)]
  ultimately show "distinct (map fst dims)" by (simp add: dims image_Un Int_Un_distrib)
qed

lemma parse_inj:
  assumes "parseCg4PolicyScopeKey k = Inr dims" and "parseCg4PolicyScopeKey k' = Inr dims'"
    and "\<forall>d. map_of dims d = map_of dims' d"
  shows "k = k'"
  using parse_Inr(1) [OF assms(1)] parse_Inr(1) [OF assms(2)] assms(3)
  by (simp add: scopePart_def CG4_POLICY_SCOPE_DIMENSIONS_def)

text \<open>
  C27. Building a scope key and parsing it back gives exactly the bound dimensions with their
  trimmed values, in the fixed order; so different scopes never share a key.
\<close>

theorem scope_key_roundtrip:
  assumes "buildCg4PolicyScopeKey dims = Inr k"
  shows "parseCg4PolicyScopeKey k = Inr (concat (map (\<lambda>d.
     case map_of dims d of None \<Rightarrow> [] | Some v \<Rightarrow> [(d, js_trim v)]) CG4_POLICY_SCOPE_DIMENSIONS))"
proof -
  define val where "val d = (case map_of dims d of None \<Rightarrow> UNBOUND | Some v \<Rightarrow> js_trim v)" for d
  have u: "UNBOUND \<noteq> []" "CHR ''|'' \<notin> set UNBOUND" "CHR ''='' \<notin> set UNBOUND" by (simp_all add: UNBOUND_def)
  have v: "scopeValue d (map_of dims d) = Inr x \<Longrightarrow> x = val d \<and> x \<noteq> [] \<and> CHR ''|'' \<notin> set x \<and>
      (map_of dims d \<noteq> None \<longrightarrow> x \<noteq> UNBOUND)" for d x
    using u by (auto simp: scopeValue_def val_def Let_def list_ex_iff split: option.splits if_splits)
  from assms have k: "k = js_join ''|'' (map (\<lambda>d. d @ ''='' @ val d) CG4_POLICY_SCOPE_DIMENSIONS)"
    and ok: "\<forall>d \<in> set CG4_POLICY_SCOPE_DIMENSIONS. val d \<noteq> [] \<and> CHR ''|'' \<notin> set (val d) \<and>
      (map_of dims d \<noteq> None \<longrightarrow> val d \<noteq> UNBOUND)"
    using v by (auto simp: buildCg4PolicyScopeKey_def CG4_POLICY_SCOPE_DIMENSIONS_def result_simps)
  have parts: "js_split CHR ''|'' k = map (\<lambda>d. d @ ''='' @ val d) CG4_POLICY_SCOPE_DIMENSIONS"
    unfolding k using ok dimension_chars by (intro js_split_join) (auto simp: CG4_POLICY_SCOPE_DIMENSIONS_def)
  have pp: "parseScopePart (d, d @ ''='' @ val d) =
      Inr (case map_of dims d of None \<Rightarrow> [] | Some v \<Rightarrow> [(d, js_trim v)])"
    if "d \<in> set CG4_POLICY_SCOPE_DIMENSIONS" for d
    using parseScopePart_build [of d "val d"] ok dimension_chars [OF that] that
    by (auto simp: val_def split: option.splits)
  have "rmap parseScopePart (zip CG4_POLICY_SCOPE_DIMENSIONS (map (\<lambda>d. d @ ''='' @ val d) CG4_POLICY_SCOPE_DIMENSIONS))
      = Inr (map (\<lambda>d. case map_of dims d of None \<Rightarrow> [] | Some v \<Rightarrow> [(d, js_trim v)]) CG4_POLICY_SCOPE_DIMENSIONS)"
    unfolding rmap_Inr_iff by (auto simp: list_all2_conv_all_nth pp [simplified])
  then show ?thesis by (simp add: parseCg4PolicyScopeKey_def Let_def parts)
qed

theorem scope_key_roundtrip_witness:
  "parseCg4PolicyScopeKey ''channel=LINE|contactKind=*|purpose=billing|sourceType=*''
     = Inr [(''channel'', ''LINE''), (''purpose'', ''billing'')]"
proof -
  have "buildCg4PolicyScopeKey [(''purpose'', '' billing''), (''channel'', ''LINE'')]
      = Inr ''channel=LINE|contactKind=*|purpose=billing|sourceType=*''" by code_simp
  from scope_key_roundtrip [OF this] show ?thesis
    by (simp add: CG4_POLICY_SCOPE_DIMENSIONS_def js_trim_def js_space_def)
qed

lemma every_dimension:
  assumes "fst ` set a \<subseteq> set CG4_POLICY_SCOPE_DIMENSIONS"
  shows "list_all (\<lambda>d. map_of a d = None \<or> P d) CG4_POLICY_SCOPE_DIMENSIONS \<longleftrightarrow> (\<forall>d. map_of a d = None \<or> P d)"
  using assms by (force simp: list_all_iff map_of_eq_None_iff)

text \<open>
  The ambiguity test decides what it is meant to: two scopes are ambiguous exactly when they
  are different, bind equally many dimensions, and some request matches both; they then bind
  different sets of dimensions.
\<close>

lemma scopes_ambiguous_iff:
  assumes "parseCg4PolicyScopeKey l = Inr a" and "parseCg4PolicyScopeKey r = Inr b"
  shows "cg4PolicyScopesAmbiguous l r = Inr (l \<noteq> r \<and> length a = length b \<and>
       (\<exists>req. cg4PolicyScopeMatches l req = Inr True \<and> cg4PolicyScopeMatches r req = Inr True)) \<and>
    (cg4PolicyScopesAmbiguous l r = Inr True \<longrightarrow> fst ` set a \<noteq> fst ` set b)"
proof -
  note pa = parse_Inr [OF assms(1)] and pb = parse_Inr [OF assms(2)]
  have m: "cg4PolicyScopeMatches l req = Inr True \<longleftrightarrow> (\<forall>d. map_of a d = None \<or> map_of a d = map_of req d)"
    "cg4PolicyScopeMatches r req = Inr True \<longleftrightarrow> (\<forall>d. map_of b d = None \<or> map_of b d = map_of req d)" for req
    by (simp_all add: cg4PolicyScopeMatches_def assms every_dimension [OF pa(2)] every_dimension [OF pb(2)])
  have agree: "list_all (\<lambda>d. map_of a d = None \<or> map_of b d = None \<or> map_of a d = map_of b d) CG4_POLICY_SCOPE_DIMENSIONS
      \<longleftrightarrow> (\<forall>d. map_of a d = None \<or> map_of b d = None \<or> map_of a d = map_of b d)"
    by (rule every_dimension [OF pa(2)])
  have both: "(\<forall>d. map_of a d = None \<or> map_of b d = None \<or> map_of a d = map_of b d) \<longleftrightarrow>
      (\<exists>req. cg4PolicyScopeMatches l req = Inr True \<and> cg4PolicyScopeMatches r req = Inr True)" (is "?L = ?R")
  proof
    assume ?L
    then have "(\<forall>d. map_of a d = None \<or> map_of a d = map_of (a @ b) d) \<and> (\<forall>d. map_of b d = None \<or> map_of b d = map_of (a @ b) d)"
      by (auto simp: map_add_def split: option.splits) (metis option.distinct(1) option.inject)
    then show ?R unfolding m by blast
  next
    assume ?R then show ?L unfolding m by metis
  qed
  have amb: "cg4PolicyScopesAmbiguous l r = Inr (l \<noteq> r \<and> length a = length b \<and>
       (\<exists>req. cg4PolicyScopeMatches l req = Inr True \<and> cg4PolicyScopeMatches r req = Inr True))"
    unfolding both [symmetric]
    by (simp add: cg4PolicyScopesAmbiguous_def cg4PolicyScopeSpecificity_def assms agree)
  have "fst ` set a \<noteq> fst ` set b" if "cg4PolicyScopesAmbiguous l r = Inr True"
  proof
    assume "fst ` set a = fst ` set b"
    then have "map_of a d = None \<longleftrightarrow> map_of b d = None" for d by (simp add: map_of_eq_None_iff)
    moreover have "\<forall>d. map_of a d = None \<or> map_of b d = None \<or> map_of a d = map_of b d"
      using that amb both by simp
    ultimately have "\<forall>d. map_of a d = map_of b d" by metis
    with parse_inj [OF assms] that amb show False by simp
  qed
  with amb show ?thesis by blast
qed

lemma scopes_ambiguous_iff_witness:
  "\<exists>req. cg4PolicyScopeMatches ''channel=LINE|contactKind=*|purpose=*|sourceType=*'' req = Inr True \<and>
         cg4PolicyScopeMatches ''channel=*|contactKind=*|purpose=billing|sourceType=*'' req = Inr True"
proof -
  have p: "parseCg4PolicyScopeKey ''channel=LINE|contactKind=*|purpose=*|sourceType=*'' = Inr [(''channel'', ''LINE'')]"
    "parseCg4PolicyScopeKey ''channel=*|contactKind=*|purpose=billing|sourceType=*'' = Inr [(''purpose'', ''billing'')]"
    "cg4PolicyScopesAmbiguous ''channel=LINE|contactKind=*|purpose=*|sourceType=*''
       ''channel=*|contactKind=*|purpose=billing|sourceType=*'' = Inr True" by code_simp+
  from scopes_ambiguous_iff [OF p(1,2)] p(3) show ?thesis by simp
qed

end
