(* ===== verification/CanonicalJson.thy ===== *)
theory CanonicalJson
  imports Prelude "HOL-Library.Multiset"
begin

text \<open>
  The canonical JSON text behind every CG4 digest
  (\<open>packages/cxa-contracts/src/contact-governance-cg4.ts\<close>, \<open>canonicalValue\<close>). A value of type
  \<^typ>\<open>json\<close> is plain data, so the branches for \<open>undefined\<close>, functions and non-plain objects do not
  arise; how JavaScript prints a finite number is the parameter \<open>show\<close>, and SHA-256 the parameter
  \<open>sha256\<close>.
\<close>

section \<open>Text of a value\<close>

definition hexDigit :: "nat \<Rightarrow> char" where
  "hexDigit n = (if n < 10 then char_of (48 + n) else char_of (87 + n))"

definition escapeChar :: "char \<Rightarrow> string" where
  "escapeChar c =
     (let n = (of_char c :: nat) in
      if n = 34 then [char_of (92 :: nat), c]
      else if n = 92 then [c, c]
      else if n = 8 then [char_of (92 :: nat), CHR ''b'']
      else if n = 12 then [char_of (92 :: nat), CHR ''f'']
      else if n = 10 then [char_of (92 :: nat), CHR ''n'']
      else if n = 13 then [char_of (92 :: nat), CHR ''r'']
      else if n = 9 then [char_of (92 :: nat), CHR ''t'']
      else if n < 32 then char_of (92 :: nat) # ''u00'' @ [hexDigit (n div 16), hexDigit (n mod 16)]
      else [c])"

text \<open>\<open>JSON.stringify\<close> of a string.\<close>

definition jsonQuote :: "string \<Rightarrow> string" where
  "jsonQuote s = [char_of (34 :: nat)] @ concat (map escapeChar s) @ [char_of (34 :: nat)]"

fun commaSep :: "string list \<Rightarrow> string" where
  "commaSep [] = []"
| "commaSep [x] = x"
| "commaSep (x # y # ys) = x @ '','' @ commaSep (y # ys)"

datatype canonical_error = CANONICAL_VALUE_INVALID

lemma rmap_cong [fundef_cong]:
  "xs = ys \<Longrightarrow> (\<And>y. y \<in> set ys \<Longrightarrow> f y = g y) \<Longrightarrow> rmap f xs = rmap g ys"
proof -
  have "(\<And>y. y \<in> set ys \<Longrightarrow> f y = g y) \<Longrightarrow> rmap f ys = rmap g ys" by (induction ys) auto
  then show "xs = ys \<Longrightarrow> (\<And>y. y \<in> set ys \<Longrightarrow> f y = g y) \<Longrightarrow> rmap f xs = rmap g ys" by simp
qed

function canonicalValue :: "(rat \<Rightarrow> string) \<Rightarrow> json \<Rightarrow> canonical_error + string" where
  "canonicalValue show JNull = Inr ''null''"
| "canonicalValue show (JStr s) = Inr (jsonQuote s)"
| "canonicalValue show (JBool b) = Inr (if b then ''true'' else ''false'')"
| "canonicalValue show (JNum n) = (case n of Fin r \<Rightarrow> Inr (show r) | _ \<Rightarrow> Inl CANONICAL_VALUE_INVALID)"
| "canonicalValue show (JArr xs) =
     rbind (rmap (canonicalValue show) xs) (\<lambda>parts. Inr (''['' @ commaSep parts @ '']''))"
| "canonicalValue show (JObj ps) =
     rbind (rmap (\<lambda>p. rbind (canonicalValue show (snd p)) (\<lambda>text. Inr (jsonQuote (fst p) @ '':'' @ text)))
              (sort_key fst ps))
       (\<lambda>parts. Inr (''{'' @ commaSep parts @ ''}''))"
  by pat_completeness auto

lemma json_size_entry: "p \<in> set ps \<Longrightarrow> size (snd p) < size (JObj ps)"
proof (induction ps)
  case (Cons q ps)
  then show ?case by (cases q) auto
qed simp

lemma json_size_item: "x \<in> set xs \<Longrightarrow> size x < size (JArr xs)"
  by (induction xs) auto

termination canonicalValue
  by (relation "measure (\<lambda>(show, j). size j)") (auto dest: json_size_item json_size_entry)

definition canonicalCg4Json :: "(rat \<Rightarrow> string) \<Rightarrow> json \<Rightarrow> canonical_error + string" where
  "canonicalCg4Json show value = canonicalValue show value"

definition canonicalCg4Digest :: "(string \<Rightarrow> string) \<Rightarrow> (rat \<Rightarrow> string) \<Rightarrow> json \<Rightarrow> canonical_error + string" where
  "canonicalCg4Digest sha256 show value = rbind (canonicalCg4Json show value) (\<lambda>text. Inr (sha256 text))"

section \<open>Finite values have a text\<close>

inductive json_finite :: "json \<Rightarrow> bool" where
  "json_finite JNull"
| "json_finite (JBool b)"
| "json_finite (JStr s)"
| "json_finite (JNum (Fin r))"
| "(\<And>x. x \<in> set xs \<Longrightarrow> json_finite x) \<Longrightarrow> json_finite (JArr xs)"
| "(\<And>p. p \<in> set ps \<Longrightarrow> json_finite (snd p)) \<Longrightarrow> json_finite (JObj ps)"

lemma rmap_total: "(\<And>x. x \<in> set xs \<Longrightarrow> \<exists>y. f x = Inr y) \<Longrightarrow> \<exists>ys. rmap f xs = Inr ys"
proof (induction xs)
  case (Cons x xs)
  then obtain y ys where "f x = Inr y" "rmap f xs = Inr ys" by fastforce
  then show ?case by simp
qed simp

lemma canonicalValue_total: "json_finite j \<Longrightarrow> \<exists>t. canonicalValue show j = Inr t"
proof (induction rule: json_finite.induct)
  case (5 xs)
  then have "\<exists>ys. rmap (canonicalValue show) xs = Inr ys" by (intro rmap_total) blast
  then show ?case by auto
next
  case (6 ps)
  have "\<exists>ys. rmap (\<lambda>p. rbind (canonicalValue show (snd p)) (\<lambda>text. Inr (jsonQuote (fst p) @ '':'' @ text)))
      (sort_key fst ps) = Inr ys"
  proof (rule rmap_total)
    fix p assume "p \<in> set (sort_key fst ps)"
    with 6 obtain t where "canonicalValue show (snd p) = Inr t" by fastforce
    then show "\<exists>y. rbind (canonicalValue show (snd p)) (\<lambda>text. Inr (jsonQuote (fst p) @ '':'' @ text)) = Inr y" by simp
  qed
  then show ?case by auto
qed simp_all

section \<open>Key order does not matter\<close>

text \<open>Equal up to the order of object members, at every depth.\<close>

inductive json_same :: "json \<Rightarrow> json \<Rightarrow> bool" where
  atom: "json_same j j"
| arr: "list_all2 json_same xs ys \<Longrightarrow> json_same (JArr xs) (JArr ys)"
| obj: "distinct (map fst ps) \<Longrightarrow> distinct (map fst qs) \<Longrightarrow> fst ` set ps = fst ` set qs \<Longrightarrow>
    \<forall>p \<in> set ps. \<forall>q \<in> set qs. fst p = fst q \<longrightarrow> json_same (snd p) (snd q) \<Longrightarrow>
    json_same (JObj ps) (JObj qs)"

lemma rmap_list_all2_eq:
  "list_all2 (\<lambda>x y. f x = g y) xs ys \<Longrightarrow> rmap f xs = rmap g ys"
  by (induction rule: list_all2_induct) auto

lemma map_fst_sort_key: "map fst (sort_key fst ps) = sort (map fst ps)"
  for ps :: "('k :: linorder \<times> 'v) list"
  by (rule properties_for_sort [symmetric]) simp_all

text \<open>
  The canonical text, and so every digest computed from it, is the same for two values that
  differ only in the order of object members at any depth.
\<close>

lemma canonical_text_ignores_key_order:
  assumes "json_same a b"
  shows "canonicalCg4Json show a = canonicalCg4Json show b \<and>
    canonicalCg4Digest sha256 show a = canonicalCg4Digest sha256 show b"
proof -
  from assms have "canonicalValue show a = canonicalValue show b"
  proof (induction rule: json_same.induct)
    case (arr xs ys)
    then have "list_all2 (\<lambda>x y. canonicalValue show x = canonicalValue show y) xs ys"
      by (auto elim: list_all2_mono)
    then show ?case by (simp add: rmap_list_all2_eq)
  next
    case (obj ps qs)
    define ps' qs' where "ps' = sort_key fst ps" and "qs' = sort_key fst qs"
    have keys: "map fst ps' = map fst qs'"
      unfolding ps'_def qs'_def map_fst_sort_key
      by (rule sorted_distinct_set_unique) (use obj(1-3) in simp_all)
    have "list_all2 (\<lambda>p q. fst p = fst q \<and> canonicalValue show (snd p) = canonicalValue show (snd q)) ps' qs'"
      unfolding list_all2_conv_all_nth
    proof (intro conjI allI impI)
      show len: "length ps' = length qs'" using keys by (metis length_map)
      fix i assume i: "i < length ps'"
      with len keys show k: "fst (ps' ! i) = fst (qs' ! i)" by (metis nth_map)
      have "ps' ! i \<in> set ps" "qs' ! i \<in> set qs" using i len nth_mem [of i ps'] nth_mem [of i qs'] by (simp_all add: ps'_def qs'_def)
      with obj(4) k show "canonicalValue show (snd (ps' ! i)) = canonicalValue show (snd (qs' ! i))" by blast
    qed
    then have "list_all2 (\<lambda>p q. rbind (canonicalValue show (snd p)) (\<lambda>text. Inr (jsonQuote (fst p) @ '':'' @ text))
        = rbind (canonicalValue show (snd q)) (\<lambda>text. Inr (jsonQuote (fst q) @ '':'' @ text) :: canonical_error + string)) ps' qs'"
      by (rule list_all2_mono) auto
    from rmap_list_all2_eq [OF this] show ?case by (simp add: ps'_def qs'_def)
  qed simp
  then show ?thesis by (simp add: canonicalCg4Json_def canonicalCg4Digest_def)
qed

lemma canonical_text_ignores_key_order_witness:
  "canonicalCg4Json (\<lambda>_. ''0'') (JObj [(''b'', JNull), (''a'', JBool True)])
     = canonicalCg4Json (\<lambda>_. ''0'') (JObj [(''a'', JBool True), (''b'', JNull)])"
proof -
  have "json_same (JObj [(''b'', JNull), (''a'', JBool True)]) (JObj [(''a'', JBool True), (''b'', JNull)])"
    by (rule json_same.obj) (auto intro: json_same.atom)
  from canonical_text_ignores_key_order [OF this] show ?thesis by blast
qed

end
