(* ===== verification/PolicyCompiler.thy ===== *)
theory PolicyCompiler
  imports PolicyScope CanonicalJson PolicyEvaluator
begin

text \<open>
  The policy compiler (\<open>apps/contact-governance/src/cg4-policy-compiler.ts\<close>, part "Content"): from
  an authored JSON value to the canonical content, the registry check, and the facts the evaluator
  consumes. The set of known time zones is the parameter \<open>knownZone\<close>.
\<close>

section \<open>Content\<close>

definition CALLBACK_MODES :: "(string \<times> Cg3CallbackMode) list" where
  "CALLBACK_MODES =
     [(''NO_OVERRIDE'', NO_OVERRIDE), (''SCOPED_OVERRIDE'', SCOPED_OVERRIDE),
      (''TIME_POLICY_OVERRIDE'', TIME_POLICY_OVERRIDE)]"

record Cg4PolicyContentV1 =
  cc_timezoneFallback :: "string option"
  cc_quietHours :: "LocalTimeWindow list"
  cc_callbackMode :: Cg3CallbackMode
  cc_overridableRules :: "string list"
  cc_allowedOperationalRuleCodes :: "string list"
  cc_holidays :: "Cg3HolidayEntry list"

definition validationFailed :: "string \<Rightarrow> cg4_policy_error + 'a" where
  "validationFailed field = Inl (Cg4PolicyValidationError VALIDATION_FAILED field)"

definition asRecord :: "json \<Rightarrow> string \<Rightarrow> cg4_policy_error + json" where
  "asRecord value field = (if is_json_object value then Inr value else validationFailed field)"

text \<open>\<open>value ?? []\<close> for a property that may be missing or \<open>null\<close>.\<close>

definition orEmptyArray :: "json option \<Rightarrow> json" where
  "orEmptyArray v = (case v of None \<Rightarrow> JArr [] | Some JNull \<Rightarrow> JArr [] | Some x \<Rightarrow> x)"

definition ruleCode :: "string \<Rightarrow> json \<Rightarrow> cg4_policy_error + string" where
  "ruleCode field entry =
     (case entry of
        JStr s \<Rightarrow> if js_trim s = [] then validationFailed field else Inr (js_trim s)
      | _ \<Rightarrow> validationFailed field)"

definition ruleCodeList :: "json \<Rightarrow> string \<Rightarrow> cg4_policy_error + string list" where
  "ruleCodeList value field =
     (case value of
        JArr entries \<Rightarrow> rbind (rmap (ruleCode field) entries) (\<lambda>codes. Inr (sort (js_uniq codes)))
      | _ \<Rightarrow> validationFailed field)"

definition timezoneOf :: "(string \<Rightarrow> bool) \<Rightarrow> json option \<Rightarrow> cg4_policy_error + string option" where
  "timezoneOf knownZone value =
     (case value of
        None \<Rightarrow> Inr None
      | Some JNull \<Rightarrow> Inr None
      | Some (JStr s) \<Rightarrow>
          (let normalized = js_trim s in
           if normalized = [] then validationFailed ''timezoneFallback''
           else if knownZone normalized then Inr (Some normalized)
           else validationFailed ''timezoneFallback'')
      | _ \<Rightarrow> validationFailed ''timezoneFallback'')"

definition windowKey :: "LocalTimeWindow \<Rightarrow> string" where
  "windowKey w = daysKey w @ ''|'' @ lw_startLocal w @ ''|'' @ lw_endLocal w"

definition sortWindows :: "LocalTimeWindow list \<Rightarrow> LocalTimeWindow list" where
  "sortWindows windows = sort_key windowKey windows"

text \<open>
  \<open>normalizeLocalTimeWindows(value as LocalTimeWindow[])\<close> on an unchecked value: everything that is
  not an array of windows with integer days and string times makes it throw, as does a list its
  own checks refuse.
\<close>

definition jsonInt :: "json \<Rightarrow> int option" where
  "jsonInt j = (case j of JNum (Fin r) \<Rightarrow> if of_int \<lfloor>r\<rfloor> = r then Some \<lfloor>r\<rfloor> else None | _ \<Rightarrow> None)"

definition jsonWindow :: "json \<Rightarrow> LocalTimeWindow option" where
  "jsonWindow j =
     (case (json_prop j ''daysOfWeek'', json_prop j ''startLocal'', json_prop j ''endLocal'') of
        (Some (JArr ds), Some (JStr s), Some (JStr e)) \<Rightarrow>
          map_option (\<lambda>days. \<lparr>lw_daysOfWeek = days, lw_startLocal = s, lw_endLocal = e\<rparr>) (those (map jsonInt ds))
      | _ \<Rightarrow> None)"

definition normalizeJsonWindows :: "json \<Rightarrow> cg4_policy_error + LocalTimeWindow list" where
  "normalizeJsonWindows value =
     (case value of
        JArr ws \<Rightarrow>
          (case those (map jsonWindow ws) of
             None \<Rightarrow> Inl WindowsRejected
           | Some windows \<Rightarrow>
               (case normalizeLocalTimeWindows windows of
                  Inl _ \<Rightarrow> Inl WindowsRejected
                | Inr normalized \<Rightarrow> Inr normalized))
      | _ \<Rightarrow> Inl WindowsRejected)"

text \<open>The pattern \<open>^\d{4}-\d{2}-\d{2}$\<close>.\<close>

definition matchesYmd :: "string \<Rightarrow> bool" where
  "matchesYmd s \<longleftrightarrow> length s = 10 \<and> s ! 4 = CHR ''-'' \<and> s ! 7 = CHR ''-'' \<and>
     list_all (\<lambda>i. is_digit (s ! i)) [0, 1, 2, 3, 5, 6, 8, 9]"

definition holidayDate :: "json option \<Rightarrow> cg4_policy_error + string" where
  "holidayDate v =
     (case v of
        Some (JStr d) \<Rightarrow> if matchesYmd d then Inr d else validationFailed ''localDate''
      | _ \<Rightarrow> validationFailed ''localDate'')"

definition holidayEffect :: "json option \<Rightarrow> cg4_policy_error + holiday_effect" where
  "holidayEffect v =
     (case v of
        Some (JStr e) \<Rightarrow> if e = ''CLOSED'' then Inr CLOSED
                         else if e = ''WINDOWS'' then Inr WINDOWS else validationFailed ''effect''
      | _ \<Rightarrow> validationFailed ''effect'')"

definition holidayEntry :: "json \<Rightarrow> cg4_policy_error + Cg3HolidayEntry" where
  "holidayEntry raw =
     rbind (asRecord raw ''holidays'') (\<lambda>entry.
     rbind (holidayDate (json_prop entry ''localDate'')) (\<lambda>localDate.
     rbind (holidayEffect (json_prop entry ''effect'')) (\<lambda>effect.
     rbind (if effect = CLOSED then Inr []
            else rbind (normalizeJsonWindows (orEmptyArray (json_prop entry ''windows''))) (\<lambda>ws. Inr (sortWindows ws)))
       (\<lambda>windows.
     if effect = WINDOWS \<and> length windows = 0 then validationFailed ''holidays''
     else Inr \<lparr>he_localDate = localDate, he_effect = effect, he_windows = windows\<rparr>))))"

definition holidays :: "json \<Rightarrow> cg4_policy_error + Cg3HolidayEntry list" where
  "holidays value =
     (case value of
        JArr raws \<Rightarrow>
          rbind (rmap holidayEntry raws) (\<lambda>entries.
          if length (js_uniq (map he_localDate entries)) \<noteq> length entries then validationFailed ''holidays''
          else Inr (sort_key he_localDate entries))
      | _ \<Rightarrow> validationFailed ''holidays'')"

definition allowedContentKeys :: "string list" where
  "allowedContentKeys =
     [''timezoneFallback'', ''quietHours'', ''callbackMode'', ''overridableRules'',
      ''allowedOperationalRuleCodes'', ''holidays'']"

fun object_keys :: "json \<Rightarrow> string list" where
  "object_keys (JObj ps) = map fst ps"
| "object_keys _ = []"

definition callbackModeOfJson :: "json option \<Rightarrow> Cg3CallbackMode option" where
  "callbackModeOfJson v = (case v of Some (JStr s) \<Rightarrow> map_of CALLBACK_MODES s | _ \<Rightarrow> None)"

definition normalizeCg4PolicyContent ::
  "(string \<Rightarrow> bool) \<Rightarrow> json \<Rightarrow> cg4_policy_error + Cg4PolicyContentV1" where
  "normalizeCg4PolicyContent knownZone raw =
     rbind (asRecord raw ''content'') (\<lambda>content.
     let unknown = filter (\<lambda>k. k \<notin> set allowedContentKeys) (object_keys content) in
     if length unknown > 0 then validationFailed ''content''
     else case callbackModeOfJson (json_prop content ''callbackMode'') of
       None \<Rightarrow> validationFailed ''callbackMode''
     | Some mode \<Rightarrow>
         rbind (timezoneOf knownZone (json_prop content ''timezoneFallback'')) (\<lambda>tz.
         rbind (normalizeJsonWindows (orEmptyArray (json_prop content ''quietHours''))) (\<lambda>qh.
         rbind (ruleCodeList (orEmptyArray (json_prop content ''overridableRules'')) ''overridableRules'') (\<lambda>orules.
         rbind (ruleCodeList (orEmptyArray (json_prop content ''allowedOperationalRuleCodes''))
                  ''allowedOperationalRuleCodes'') (\<lambda>acodes.
         rbind (holidays (orEmptyArray (json_prop content ''holidays''))) (\<lambda>hs.
         Inr \<lparr>cc_timezoneFallback = tz, cc_quietHours = sortWindows qh, cc_callbackMode = mode,
              cc_overridableRules = orules, cc_allowedOperationalRuleCodes = acodes, cc_holidays = hs\<rparr>))))))"

section \<open>Registry check\<close>

definition assertRuleCode :: "string \<Rightarrow> Cg4OverrideMechanism \<Rightarrow> string \<Rightarrow> cg4_policy_error + unit" where
  "assertRuleCode field mechanism code =
     (let resolution = resolveCg4RuleMetadata code in
      if \<not> rr_known resolution then Inl (Cg4PolicyValidationError POLICY_RULE_NOT_REGISTERED field)
      else if \<not> lookup_overridable (rr_metadata resolution)
      then Inl (Cg4PolicyValidationError POLICY_NON_OVERRIDABLE_RULE field)
      else case rr_metadata resolution of
        RuleEntry m \<Rightarrow>
          if mechanism \<notin> set (rm_allowedOverrideMechanisms m)
          then Inl (Cg4PolicyValidationError POLICY_NON_OVERRIDABLE_RULE field) else Inr ()
      | InheritedMember _ \<Rightarrow> Inl (Cg4PolicyValidationError POLICY_NON_OVERRIDABLE_RULE field))"

definition assertCg4PolicyRegistryConsistent :: "Cg4PolicyContentV1 \<Rightarrow> cg4_policy_error + unit" where
  "assertCg4PolicyRegistryConsistent content =
     rbind (rmap (assertRuleCode ''overridableRules'' CUSTOMER_CALLBACK) (cc_overridableRules content)) (\<lambda>_.
     rbind (rmap (assertRuleCode ''allowedOperationalRuleCodes'' APPROVED_EXCEPTION)
              (cc_allowedOperationalRuleCodes content)) (\<lambda>_. Inr ()))"

section \<open>Compilation\<close>

definition num :: "int \<Rightarrow> json" where
  "num n = JNum (Fin (of_int n))"

definition windowJson :: "LocalTimeWindow \<Rightarrow> json" where
  "windowJson w = JObj [(''daysOfWeek'', JArr (map num (lw_daysOfWeek w))),
     (''startLocal'', JStr (lw_startLocal w)), (''endLocal'', JStr (lw_endLocal w))]"

definition holidayJson :: "Cg3HolidayEntry \<Rightarrow> json" where
  "holidayJson h = JObj [(''localDate'', JStr (he_localDate h)),
     (''effect'', JStr (case he_effect h of CLOSED \<Rightarrow> ''CLOSED'' | WINDOWS \<Rightarrow> ''WINDOWS'')),
     (''windows'', JArr (map windowJson (he_windows h)))]"

definition callbackModeName :: "Cg3CallbackMode \<Rightarrow> string" where
  "callbackModeName mode = (case mode of NO_OVERRIDE \<Rightarrow> ''NO_OVERRIDE'' | SCOPED_OVERRIDE \<Rightarrow> ''SCOPED_OVERRIDE''
     | TIME_POLICY_OVERRIDE \<Rightarrow> ''TIME_POLICY_OVERRIDE'')"

text \<open>The content as the plain object that is digested and stored.\<close>

definition contentJson :: "Cg4PolicyContentV1 \<Rightarrow> json" where
  "contentJson c = JObj
     [(''timezoneFallback'', case cc_timezoneFallback c of None \<Rightarrow> JNull | Some z \<Rightarrow> JStr z),
      (''quietHours'', JArr (map windowJson (cc_quietHours c))),
      (''callbackMode'', JStr (callbackModeName (cc_callbackMode c))),
      (''overridableRules'', JArr (map JStr (cc_overridableRules c))),
      (''allowedOperationalRuleCodes'', JArr (map JStr (cc_allowedOperationalRuleCodes c))),
      (''holidays'', JArr (map holidayJson (cc_holidays c)))]"

record CompileCg4PolicyInput =
  ci_content :: json
  ci_version :: js_number
  ci_schemaVersion :: "js_number option"
  ci_registryVersion :: "string option"
  ci_evaluatorVersion :: "string option"

record Cg4CompiledPolicy =
  cp_schemaVersion :: int
  cp_registryVersion :: string
  cp_evaluatorVersion :: string
  cp_content :: Cg4PolicyContentV1
  cp_contentDigest :: string
  cp_facts :: Cg3PolicyFacts

definition positiveVersion :: "js_number \<Rightarrow> int option" where
  "positiveVersion v = (case v of Fin r \<Rightarrow> if of_int \<lfloor>r\<rfloor> = r \<and> r > 0 then Some \<lfloor>r\<rfloor> else None | _ \<Rightarrow> None)"

definition factsOf :: "int \<Rightarrow> Cg4PolicyContentV1 \<Rightarrow> Cg3PolicyFacts" where
  "factsOf version content =
     \<lparr>pf_version = version, pf_timezoneFallback = cc_timezoneFallback content,
      pf_quietHours = cc_quietHours content, pf_callbackMode = cc_callbackMode content,
      pf_overridableRules = cc_overridableRules content, pf_holidays = cc_holidays content\<rparr>"

definition artifactJson :: "Cg4PolicyContentV1 \<Rightarrow> json" where
  "artifactJson content = JObj
     [(''schemaVersion'', num CG4_POLICY_SCHEMA_VERSION), (''registryVersion'', JStr CG4_RULE_REGISTRY_VERSION),
      (''evaluatorVersion'', JStr CG4_EVALUATOR_VERSION), (''content'', contentJson content)]"

definition digestOf :: "(string \<Rightarrow> string) \<Rightarrow> (rat \<Rightarrow> string) \<Rightarrow> json \<Rightarrow> cg4_policy_error + string" where
  "digestOf sha256 show value =
     (case canonicalCg4Digest sha256 show value of Inl _ \<Rightarrow> Inl CanonicalValueInvalid | Inr d \<Rightarrow> Inr d)"

definition compileCg4Policy ::
  "(string \<Rightarrow> bool) \<Rightarrow> (string \<Rightarrow> string) \<Rightarrow> (rat \<Rightarrow> string) \<Rightarrow> CompileCg4PolicyInput \<Rightarrow> cg4_policy_error + Cg4CompiledPolicy" where
  "compileCg4Policy knownZone sha256 show i =
     (case positiveVersion (ci_version i) of
        None \<Rightarrow> validationFailed ''version''
      | Some version \<Rightarrow>
          if ci_schemaVersion i \<noteq> None \<and> ci_schemaVersion i \<noteq> Some (Fin (of_int CG4_POLICY_SCHEMA_VERSION))
          then Inl (Cg4PolicyValidationError POLICY_VERSION_UNSUPPORTED ''schemaVersion'')
          else if ci_registryVersion i \<noteq> None \<and> ci_registryVersion i \<noteq> Some CG4_RULE_REGISTRY_VERSION
          then Inl (Cg4PolicyValidationError POLICY_VERSION_UNSUPPORTED ''registryVersion'')
          else if ci_evaluatorVersion i \<noteq> None \<and> ci_evaluatorVersion i \<noteq> Some CG4_EVALUATOR_VERSION
          then Inl (Cg4PolicyValidationError POLICY_VERSION_UNSUPPORTED ''evaluatorVersion'')
          else
            rbind (normalizeCg4PolicyContent knownZone (ci_content i)) (\<lambda>content.
            rbind (assertCg4PolicyRegistryConsistent content) (\<lambda>_.
            rbind (digestOf sha256 show (artifactJson content)) (\<lambda>contentDigest.
            Inr \<lparr>cp_schemaVersion = CG4_POLICY_SCHEMA_VERSION, cp_registryVersion = CG4_RULE_REGISTRY_VERSION,
                 cp_evaluatorVersion = CG4_EVALUATOR_VERSION, cp_content = content,
                 cp_contentDigest = contentDigest, cp_facts = factsOf version content\<rparr>))))"


section \<open>Rule codes\<close>

lemma ruleCode_Inr: "ruleCode field e = Inr c \<longleftrightarrow> (\<exists>s. e = JStr s \<and> c = js_trim s \<and> c \<noteq> [])"
  by (auto simp: ruleCode_def validationFailed_def split: json.splits)

lemma ruleCodeList_Inr:
  assumes "ruleCodeList (JArr es) field = Inr cs"
  shows "sorted cs" "distinct cs" "set cs = {c. \<exists>e \<in> set es. ruleCode field e = Inr c}"
proof -
  from assms obtain codes where codes: "list_all2 (\<lambda>e c. ruleCode field e = Inr c) es codes"
    and cs: "cs = sort (js_uniq codes)"
    by (auto simp: ruleCodeList_def result_simps rmap_Inr_iff)
  have "set codes = {c. \<exists>e \<in> set es. ruleCode field e = Inr c}"
    using codes by (induction rule: list_all2_induct) auto
  then show "sorted cs" "distinct cs" "set cs = {c. \<exists>e \<in> set es. ruleCode field e = Inr c}" by (simp_all add: cs)
qed

lemma ruleCodeList_Inl:
  "ruleCodeList (JArr es) field = Inl x \<longleftrightarrow>
     (\<exists>e \<in> set es. \<forall>c. ruleCode field e \<noteq> Inr c) \<and> x = Cg4PolicyValidationError VALIDATION_FAILED field"
proof -
  have err: "ruleCode field e = Inl y \<longleftrightarrow> (\<forall>c. ruleCode field e \<noteq> Inr c) \<and> y = Cg4PolicyValidationError VALIDATION_FAILED field" for e y
    by (auto simp: ruleCode_def validationFailed_def split: json.splits)
  have "rmap (ruleCode field) es = Inl y \<longleftrightarrow> (\<exists>e \<in> set es. \<forall>c. ruleCode field e \<noteq> Inr c) \<and>
      y = Cg4PolicyValidationError VALIDATION_FAILED field" for y
    by (induction es) (auto simp: result_simps err)
  then show ?thesis by (auto simp: ruleCodeList_def result_simps)
qed

lemma ruleCodeList_set:
  assumes "set es = set es'"
  shows "ruleCodeList (JArr es) field = ruleCodeList (JArr es') field"
proof (cases "ruleCodeList (JArr es) field")
  case (Inl x)
  then have "ruleCodeList (JArr es') field = Inl x" unfolding ruleCodeList_Inl assms .
  with Inl show ?thesis by simp
next
  case (Inr cs)
  then obtain cs' where cs': "ruleCodeList (JArr es') field = Inr cs'"
    using ruleCodeList_Inl assms by (metis old.sum.exhaust sum.distinct(1))
  have "cs = cs'"
    using ruleCodeList_Inr [OF Inr] ruleCodeList_Inr [OF cs'] assms
    by (metis sorted_distinct_set_unique)
  with Inr cs' show ?thesis by simp
qed

lemma ruleCodeList_canonical:
  assumes "ruleCodeList (JArr es) field = Inr cs"
  shows "ruleCodeList (JArr (map JStr cs)) field = Inr cs"
proof -
  have t: "js_trim c = c \<and> c \<noteq> []" if "c \<in> set cs" for c
    using that ruleCodeList_Inr(3) [OF assms] by (auto simp: ruleCode_Inr js_trim_idem)
  then have "rmap (ruleCode field) (map JStr cs) = Inr cs"
    unfolding rmap_Inr_iff by (auto simp: list_all2_conv_all_nth ruleCode_Inr)
  then show ?thesis using ruleCodeList_Inr(1,2) [OF assms]
    by (simp add: ruleCodeList_def js_uniq_distinct sorted_sort_id)
qed

section \<open>Windows in canonical order\<close>

lemma sort_key_mset_eq:
  assumes "mset xs = mset ys" and "inj_on f (set xs)"
  shows "sort_key f xs = sort_key f ys"
proof (rule properties_for_sort_key)
  show "mset (sort_key f ys) = mset xs" using assms(1) by simp
  show "sorted (map f (sort_key f ys))" by simp
  fix k assume k: "k \<in> set (sort_key f ys)"
  have s: "set xs = set ys" using assms(1) by (metis set_mset_mset)
  have eq: "filter (\<lambda>x. f k = f x) zs = filter (\<lambda>x. x = k) zs" if "set zs = set ys" for zs
    using that k s assms(2) by (intro filter_cong) (auto dest: inj_onD)
  have "filter (\<lambda>x. x = k) zs = replicate (count (mset zs) k) k" for zs
    by (induction zs) auto
  then show "filter (\<lambda>x. f k = f x) (sort_key f ys) = filter (\<lambda>x. f k = f x) xs"
    using eq [of "sort_key f ys"] eq [of xs] s assms(1) by simp
qed

lemma show_small:
  assumes "d \<in> {1..7}"
  shows "show_int d = [char_of (48 + nat d)]"
proof -
  have "nat d < 10" using assms by auto
  with assms show ?thesis by (auto simp: show_int_def show_nat.simps)
qed

lemma show_small_code: "d \<in> {1..7} \<Longrightarrow> of_char (hd (show_int d)) = 48 + nat d"
  by (auto simp: show_small of_char_of)

lemma days_text:
  assumes "set ds \<subseteq> {1..7}"
  shows "\<forall>p \<in> set (map show_int ds). CHR '','' \<notin> set p" "CHR ''|'' \<notin> set (js_join '','' (map show_int ds))"
proof -
  have d: "c \<noteq> CHR '','' \<and> c \<noteq> CHR ''|''" if "d \<in> {1..7}" "c \<in> set (show_int d)" for c d
  proof -
    have "of_char c = 48 + nat d" using that show_small [OF that(1)] show_small_code [OF that(1)] by auto
    then show ?thesis using that(1) by auto
  qed
  then show "\<forall>p \<in> set (map show_int ds). CHR '','' \<notin> set p" using assms by force
  show "CHR ''|'' \<notin> set (js_join '','' (map show_int ds))"
    using assms
  proof (induction ds rule: induct_list012)
    case (3 x y zs)
    then show ?case using d [of x] by auto
  qed (use d in auto)
qed

lemma HHmm_no_bar: "matchesHHmm s \<Longrightarrow> CHR ''|'' \<notin> set s"
  by (auto simp: matchesHHmm_def is_digit_def less_eq_char_def split: list.splits)

lemma windowKey_inj:
  assumes "validWindow v" and "validWindow w" and "windowKey v = windowKey w"
  shows "v = w"
proof -
  have split: "js_split CHR ''|'' (windowKey u) = [daysKey u, lw_startLocal u, lw_endLocal u]" if "validWindow u" for u
    using that days_text(2) [of "lw_daysOfWeek u"] HHmm_no_bar
    by (auto simp: windowKey_def daysKey_def validWindow_def js_split_append js_split_part)
  with assms have k: "daysKey v = daysKey w" and t: "lw_startLocal v = lw_startLocal w" "lw_endLocal v = lw_endLocal w"
    by (metis list.inject)+
  have ds: "js_split CHR '','' (daysKey u) = map show_int (lw_daysOfWeek u)" if "validWindow u" for u
    unfolding daysKey_def using that days_text(1) [of "lw_daysOfWeek u"]
    by (intro js_split_join) (auto simp: validWindow_def)
  have m: "map show_int (lw_daysOfWeek v) = map show_int (lw_daysOfWeek w)" using ds assms(1,2) k by metis
  have "inj_on show_int {1..7}"
  proof (rule inj_onI)
    fix d e :: int assume "d \<in> {1..7}" "e \<in> {1..7}" "show_int d = show_int e"
    then show "d = e" using show_small_code [of d] show_small_code [of e] by auto
  qed
  then have "inj_on show_int (set (lw_daysOfWeek v) \<union> set (lw_daysOfWeek w))"
    using assms(1,2) by (auto simp: validWindow_def intro: inj_on_subset)
  with m have "lw_daysOfWeek v = lw_daysOfWeek w" by (simp add: inj_on_map_eq_map)
  with t show ?thesis by (cases v, cases w) simp
qed

lemma those_map_Some: "(\<And>x. x \<in> set xs \<Longrightarrow> f (g x) = Some x) \<Longrightarrow> those (map (f \<circ> g) xs) = Some xs"
  by (induction xs) auto

lemma jsonWindow_windowJson [simp]: "jsonWindow (windowJson w) = Some w"
proof -
  have "those (map (jsonInt \<circ> num) (lw_daysOfWeek w)) = Some (lw_daysOfWeek w)"
    by (rule those_map_Some) (simp add: jsonInt_def num_def)
  then show ?thesis by (simp add: jsonWindow_def windowJson_def comp_def)
qed

text \<open>Normalizing a permutation of an accepted list gives a permutation of it, again accepted.\<close>

lemma normalize_permuted:
  assumes "normalizeLocalTimeWindows ws = Inr ns" and "mset ms = mset ns"
  obtains ks where "normalizeLocalTimeWindows ms = Inr ks" "mset ks = mset ns"
proof -
  from assms(1) obtain zs where zs: "mset zs = mset ns" "\<forall>z \<in> set zs. validWindow z"
    "\<not> adjacentOverlap (sort (concat (map intervalsOf zs)))"
    by (rule normalize_outcome)
  have set_eq: "set ms = set zs" using zs(1) assms(2) by (metis set_mset_mset)
  then have v: "\<forall>z \<in> set ms. validWindow z" using zs(2) by simp
  have 1: "rmap (\<lambda>(index, w). normalizeWindow index w) (enumerate 0 ms) = Inr ms"
    unfolding rmap_Inr_iff using v
    by (auto simp: list_all2_conv_all_nth nth_enumerate_eq normalizeWindow_id)
  have 2: "rmap windowIntervals ms = Inr (map intervalsOf ms)"
    using v by (intro rmap_pure) (simp add: valid_windowIntervals(1))
  have "mset (map intervalsOf ms) = mset (map intervalsOf zs)" using zs(1) assms(2) by simp
  then have "mset (concat (map intervalsOf ms)) = mset (concat (map intervalsOf zs))"
    by (metis mset_concat mset_map sum_mset_sum_list)
  then have 3: "sort (concat (map intervalsOf ms)) = sort (concat (map intervalsOf zs))"
    by (intro properties_for_sort) simp_all
  have "normalizeLocalTimeWindows ms = Inr (sort_key (\<lambda>w. (daysKey w, lw_startLocal w, lw_endLocal w)) ms)"
    using zs(3) by (simp add: normalizeLocalTimeWindows_def 1 2 3)
  then show thesis by (rule that) (simp add: assms(2))
qed

lemma canonical_windows:
  assumes "normalizeJsonWindows j = Inr ns"
  obtains ks where "normalizeJsonWindows (JArr (map windowJson (sortWindows ns))) = Inr ks" "sortWindows ks = sortWindows ns"
proof -
  from assms obtain ws where ws: "normalizeLocalTimeWindows ws = Inr ns"
    by (auto simp: normalizeJsonWindows_def split: json.splits option.splits sum.splits)
  then obtain zs where zs: "mset zs = mset ns" "\<forall>z \<in> set zs. validWindow z" by (rule normalize_outcome)
  have "set zs = set ns" using zs(1) by (metis set_mset_mset)
  then have inj: "inj_on windowKey (set ns)" using zs(2) windowKey_inj by (auto intro: inj_onI)
  from normalize_permuted [OF ws, of "sortWindows ns"] obtain ks where
    ks: "normalizeLocalTimeWindows (sortWindows ns) = Inr ks" "mset ks = mset ns" by (auto simp: sortWindows_def)
  have "those (map (jsonWindow \<circ> windowJson) (sortWindows ns)) = Some (sortWindows ns)" by (rule those_map_Some) simp
  then have "normalizeJsonWindows (JArr (map windowJson (sortWindows ns))) = Inr ks"
    by (simp add: normalizeJsonWindows_def ks(1))
  moreover have "sortWindows ks = sortWindows ns"
    unfolding sortWindows_def using sort_key_mset_eq [OF ks(2) [symmetric] inj] by simp
  ultimately show thesis by (rule that)
qed


section \<open>Compilation is canonical\<close>

lemma holidayDate_Inr: "holidayDate v = Inr d \<Longrightarrow> matchesYmd d"
  by (auto simp: holidayDate_def validationFailed_def split: option.splits json.splits if_splits)

lemma holidayEntry_Inr:
  assumes "holidayEntry raw = Inr h"
  obtains "matchesYmd (he_localDate h)" "he_effect h = CLOSED" "he_windows h = []"
  | j ns where "matchesYmd (he_localDate h)" "he_effect h = WINDOWS" "normalizeJsonWindows j = Inr ns"
      "he_windows h = sortWindows ns" "he_windows h \<noteq> []"
proof -
  from assms obtain entry d e ws where d: "holidayDate (json_prop entry ''localDate'') = Inr d"
    and ws: "(if e = CLOSED then Inr []
            else rbind (normalizeJsonWindows (orEmptyArray (json_prop entry ''windows''))) (\<lambda>ws. Inr (sortWindows ws)))
        = Inr ws" "\<not> (e = WINDOWS \<and> length ws = 0)"
    and h: "h = \<lparr>he_localDate = d, he_effect = e, he_windows = ws\<rparr>"
    unfolding holidayEntry_def rbind_eq_Inr_iff by (auto simp: validationFailed_def split: if_splits)
  show thesis
  proof (cases e)
    case CLOSED
    with d ws h holidayDate_Inr show thesis by (intro that(1)) auto
  next
    case WINDOWS
    with ws(1) obtain ns where "normalizeJsonWindows (orEmptyArray (json_prop entry ''windows'')) = Inr ns"
      "ws = sortWindows ns" by (auto simp: result_simps)
    with WINDOWS d ws(2) h holidayDate_Inr show thesis by (intro that(2)) auto
  qed
qed

lemma holidayEntry_canonical:
  assumes "holidayEntry raw = Inr h"
  shows "holidayEntry (holidayJson h) = Inr h"
  using assms
proof (cases rule: holidayEntry_Inr)
  case 1
  then show ?thesis by (simp add: holidayEntry_def holidayJson_def asRecord_def holidayDate_def holidayEffect_def)
next
  case (2 j ns)
  from canonical_windows [OF 2(3)] obtain ks where
    "normalizeJsonWindows (JArr (map windowJson (sortWindows ns))) = Inr ks" "sortWindows ks = sortWindows ns" by blast
  with 2 show ?thesis
    by (simp add: holidayEntry_def holidayJson_def asRecord_def orEmptyArray_def holidayDate_def holidayEffect_def)
qed

lemma holidays_canonical:
  assumes "holidays j = Inr hs"
  shows "holidays (JArr (map holidayJson hs)) = Inr hs" "distinct (map he_localDate hs)"
    "\<forall>h \<in> set hs. \<exists>raw. holidayEntry raw = Inr h"
proof -
  from assms obtain raws es where es: "list_all2 (\<lambda>r e. holidayEntry r = Inr e) raws es"
    and u: "length (js_uniq (map he_localDate es)) = length es" and hs: "hs = sort_key he_localDate es"
    by (auto simp: holidays_def result_simps rmap_Inr_iff validationFailed_def split: json.splits if_splits)
  have d: "distinct (map he_localDate es)"
    using u distinct_card [OF distinct_js_uniq [of "map he_localDate es"]] by (intro card_distinct) simp
  have m: "mset (map he_localDate hs) = mset (map he_localDate es)" by (simp add: hs)
  then show dh: "distinct (map he_localDate hs)" using d by (metis mset_eq_imp_distinct_iff)
  show ex: "\<forall>h \<in> set hs. \<exists>raw. holidayEntry raw = Inr h"
    using es unfolding hs set_sort by (induction rule: list_all2_induct) auto
  then have "rmap holidayEntry (map holidayJson hs) = Inr hs"
    unfolding rmap_Inr_iff by (auto simp: list_all2_conv_all_nth dest!: nth_mem holidayEntry_canonical)
  moreover have "sort_key he_localDate hs = hs" by (simp add: hs sort_key_id_if_sorted)
  ultimately show "holidays (JArr (map holidayJson hs)) = Inr hs"
    using dh by (simp add: holidays_def js_uniq_distinct)
qed

lemma ruleCodeList_array: "ruleCodeList j f = Inr cs \<Longrightarrow> \<exists>es. ruleCodeList (JArr es) f = Inr cs"
  by (cases j) (auto simp: ruleCodeList_def validationFailed_def)

lemma timezoneOf_canonical:
  assumes "timezoneOf kz v = Inr tz"
  shows "timezoneOf kz (Some (case tz of None \<Rightarrow> JNull | Some z \<Rightarrow> JStr z)) = Inr tz"
  using assms
  by (auto simp: timezoneOf_def validationFailed_def Let_def js_trim_idem split: option.splits json.splits if_splits)

lemma normalize_content_parts:
  assumes "normalizeCg4PolicyContent kz raw = Inr c"
  obtains v qh ns os as hs where "timezoneOf kz v = Inr (cc_timezoneFallback c)"
    "normalizeJsonWindows qh = Inr ns" "cc_quietHours c = sortWindows ns"
    "ruleCodeList (JArr os) ''overridableRules'' = Inr (cc_overridableRules c)"
    "ruleCodeList (JArr as) ''allowedOperationalRuleCodes'' = Inr (cc_allowedOperationalRuleCodes c)"
    "holidays hs = Inr (cc_holidays c)"
proof -
  from assms obtain content mode where
    "rbind (timezoneOf kz (json_prop content ''timezoneFallback'')) (\<lambda>tz.
     rbind (normalizeJsonWindows (orEmptyArray (json_prop content ''quietHours''))) (\<lambda>qh.
     rbind (ruleCodeList (orEmptyArray (json_prop content ''overridableRules'')) ''overridableRules'') (\<lambda>orules.
     rbind (ruleCodeList (orEmptyArray (json_prop content ''allowedOperationalRuleCodes''))
              ''allowedOperationalRuleCodes'') (\<lambda>acodes.
     rbind (holidays (orEmptyArray (json_prop content ''holidays''))) (\<lambda>hs.
     Inr \<lparr>cc_timezoneFallback = tz, cc_quietHours = sortWindows qh, cc_callbackMode = mode,
          cc_overridableRules = orules, cc_allowedOperationalRuleCodes = acodes, cc_holidays = hs\<rparr>))))) = Inr c"
    unfolding normalizeCg4PolicyContent_def Let_def validationFailed_def
    by (cases "asRecord raw ''content''") (simp_all only: rbind_Inl rbind_Inr, simp, auto split: if_splits option.splits)
  then obtain tz qh orules acodes hs where p: "timezoneOf kz (json_prop content ''timezoneFallback'') = Inr tz"
    "normalizeJsonWindows (orEmptyArray (json_prop content ''quietHours'')) = Inr qh"
    "ruleCodeList (orEmptyArray (json_prop content ''overridableRules'')) ''overridableRules'' = Inr orules"
    "ruleCodeList (orEmptyArray (json_prop content ''allowedOperationalRuleCodes''))
       ''allowedOperationalRuleCodes'' = Inr acodes"
    "holidays (orEmptyArray (json_prop content ''holidays'')) = Inr hs"
    "c = \<lparr>cc_timezoneFallback = tz, cc_quietHours = sortWindows qh, cc_callbackMode = mode,
          cc_overridableRules = orules, cc_allowedOperationalRuleCodes = acodes, cc_holidays = hs\<rparr>"
    unfolding rbind_eq_Inr_iff by blast
  from ruleCodeList_array [OF p(3)] ruleCodeList_array [OF p(4)] obtain os as where
    "ruleCodeList (JArr os) ''overridableRules'' = Inr orules"
    "ruleCodeList (JArr as) ''allowedOperationalRuleCodes'' = Inr acodes" by blast
  with p show thesis by (intro that) simp_all
qed

text \<open>
  Compiled content is canonical: authoring the stored content again gives exactly the same
  content, so a stored policy recompiles to itself and keeps its digest.
\<close>

lemma normalize_content_idempotent:
  assumes "normalizeCg4PolicyContent kz raw = Inr c"
  shows "normalizeCg4PolicyContent kz (contentJson c) = Inr c"
proof -
  from assms obtain v qh ns os as hs where c: "timezoneOf kz v = Inr (cc_timezoneFallback c)"
    "normalizeJsonWindows qh = Inr ns" "cc_quietHours c = sortWindows ns"
    "ruleCodeList (JArr os) ''overridableRules'' = Inr (cc_overridableRules c)"
    "ruleCodeList (JArr as) ''allowedOperationalRuleCodes'' = Inr (cc_allowedOperationalRuleCodes c)"
    "holidays hs = Inr (cc_holidays c)"
    by (rule normalize_content_parts)
  from canonical_windows [OF c(2)] obtain ks where
    w: "normalizeJsonWindows (JArr (map windowJson (cc_quietHours c))) = Inr ks" "sortWindows ks = cc_quietHours c"
    by (metis c(3))
  have m: "callbackModeOfJson (Some (JStr (callbackModeName (cc_callbackMode c)))) = Some (cc_callbackMode c)"
    by (cases "cc_callbackMode c") (simp_all add: callbackModeOfJson_def callbackModeName_def CALLBACK_MODES_def)
  show ?thesis
    unfolding normalizeCg4PolicyContent_def contentJson_def Let_def
    by (simp add: asRecord_def allowedContentKeys_def orEmptyArray_def m w timezoneOf_canonical [OF c(1)]
        ruleCodeList_canonical [OF c(4)] ruleCodeList_canonical [OF c(5)] holidays_canonical(1) [OF c(6)])
qed


lemma compile_parts:
  assumes "compileCg4Policy kz sha256 show i = Inr p"
  obtains v where "0 < v" "normalizeCg4PolicyContent kz (ci_content i) = Inr (cp_content p)"
    "assertCg4PolicyRegistryConsistent (cp_content p) = Inr ()" "cp_facts p = factsOf v (cp_content p)"
    "digestOf sha256 show (artifactJson (cp_content p)) = Inr (cp_contentDigest p)"
proof -
  from assms obtain v where v: "positiveVersion (ci_version i) = Some v"
    by (auto simp: compileCg4Policy_def validationFailed_def split: option.splits)
  then have "0 < v" by (auto simp: positiveVersion_def split: js_number.splits if_splits)
  from assms v have "rbind (normalizeCg4PolicyContent kz (ci_content i)) (\<lambda>content.
      rbind (assertCg4PolicyRegistryConsistent content) (\<lambda>_.
      rbind (digestOf sha256 show (artifactJson content)) (\<lambda>contentDigest.
      Inr \<lparr>cp_schemaVersion = CG4_POLICY_SCHEMA_VERSION, cp_registryVersion = CG4_RULE_REGISTRY_VERSION,
           cp_evaluatorVersion = CG4_EVALUATOR_VERSION, cp_content = content,
           cp_contentDigest = contentDigest, cp_facts = factsOf v content\<rparr>))) = Inr p"
    by (simp add: compileCg4Policy_def split: if_splits)
  then show thesis unfolding rbind_eq_Inr_iff using \<open>0 < v\<close> by (auto intro: that)
qed

lemma assertRuleCode_Inr:
  assumes "assertRuleCode field mech code = Inr u"
  shows "code \<in> set (mechanism_rule_codes mech)"
proof -
  from assms obtain m where m: "map_of CG4_RULE_REGISTRY code = Some m" "rm_overridable m"
    "mech \<in> set (rm_allowedOverrideMechanisms m)"
    by (auto simp: assertRuleCode_def resolveCg4RuleMetadata_def unknownRule_def Let_def split: option.splits if_splits)
  then show ?thesis using registry_mechanism_codes by blast
qed

text \<open>
  A policy that compiles opens only what the platform registry allows: every rule it lets a
  callback override is a callback rule, every rule it lets an exception lift is an exception rule,
  and the facts handed to the evaluator are those of the digested content.
\<close>

lemma compiled_policy_opens_only_registered_rules:
  assumes "compileCg4Policy kz sha256 show i = Inr p"
  shows "set (pf_overridableRules (cp_facts p)) \<subseteq> set callback_rule_codes \<and>
    set (cc_allowedOperationalRuleCodes (cp_content p)) \<subseteq> set exception_rule_codes \<and>
    cp_facts p = factsOf (pf_version (cp_facts p)) (cp_content p) \<and> 0 < pf_version (cp_facts p) \<and>
    digestOf sha256 show (artifactJson (cp_content p)) = Inr (cp_contentDigest p)"
proof -
  from assms obtain v where v: "0 < v" "assertCg4PolicyRegistryConsistent (cp_content p) = Inr ()"
    "cp_facts p = factsOf v (cp_content p)" "digestOf sha256 show (artifactJson (cp_content p)) = Inr (cp_contentDigest p)"
    by (rule compile_parts)
  from v(2) obtain us us' where
    a: "list_all2 (\<lambda>c u. assertRuleCode ''overridableRules'' CUSTOMER_CALLBACK c = Inr u) (cc_overridableRules (cp_content p)) us"
    and b: "list_all2 (\<lambda>c u. assertRuleCode ''allowedOperationalRuleCodes'' APPROVED_EXCEPTION c = Inr u)
      (cc_allowedOperationalRuleCodes (cp_content p)) us'"
    by (auto simp: assertCg4PolicyRegistryConsistent_def result_simps rmap_Inr_iff)
  have all: "list_all2 (\<lambda>c u. assertRuleCode f m c = Inr u) cs us \<Longrightarrow> set cs \<subseteq> set (mechanism_rule_codes m)" for f m cs us
    by (induction rule: list_all2_induct) (auto dest: assertRuleCode_Inr)
  from all [OF a] all [OF b] v show ?thesis by (simp add: mechanism_rule_codes_def factsOf_def)
qed

definition example_content :: json where
  "example_content = JObj
     [(''overridableRules'', JArr [JStr ''TENANT_HOLIDAY'', JStr '' QUIET_HOURS '', JStr ''QUIET_HOURS'']),
      (''callbackMode'', JStr ''SCOPED_OVERRIDE''),
      (''quietHours'', JArr [JObj [(''daysOfWeek'', JArr [JNum (Fin 5)]), (''startLocal'', JStr ''22:00''),
         (''endLocal'', JStr ''06:00'')]])]"

definition example_compile_input :: CompileCg4PolicyInput where
  "example_compile_input = \<lparr>ci_content = example_content, ci_version = Fin 1, ci_schemaVersion = None,
     ci_registryVersion = None, ci_evaluatorVersion = Some CG4_EVALUATOR_VERSION\<rparr>"

definition compiled_example :: Cg4PolicyContentV1 where
  "compiled_example = \<lparr>cc_timezoneFallback = None, cc_quietHours = [nightWindow], cc_callbackMode = SCOPED_OVERRIDE,
     cc_overridableRules = [''QUIET_HOURS'', ''TENANT_HOLIDAY''], cc_allowedOperationalRuleCodes = [], cc_holidays = []\<rparr>"

lemma example_normalizes: "normalizeCg4PolicyContent (\<lambda>_. True) example_content = Inr compiled_example"
  by code_simp

lemma example_consistent: "assertCg4PolicyRegistryConsistent compiled_example = Inr ()"
  by code_simp

lemma normalize_content_idempotent_witness:
  "normalizeCg4PolicyContent (\<lambda>_. True) (contentJson compiled_example) = Inr compiled_example"
  by (rule normalize_content_idempotent [OF example_normalizes])


lemma json_finite_parts:
  "json_finite (num n)" "json_finite (windowJson w)" "json_finite (holidayJson h)"
  by (auto simp: num_def windowJson_def holidayJson_def intro!: json_finite.intros)

lemma json_finite_content: "json_finite (contentJson c)"
  by (auto simp: contentJson_def json_finite_parts intro!: json_finite.intros split: option.split)

lemma digestOf_total:
  assumes "json_finite j"
  obtains d where "digestOf sha256 show j = Inr d"
  using canonicalValue_total [OF assms, of "show"] that
  by (auto simp: digestOf_def canonicalCg4Digest_def canonicalCg4Json_def)

lemma json_finite_artifact: "json_finite (artifactJson c)"
  by (auto simp: artifactJson_def json_finite_parts json_finite_content intro!: json_finite.intros)

lemma example_compiles:
  "\<exists>p. compileCg4Policy (\<lambda>_. True) (\<lambda>s. s) (\<lambda>_. ''1'') example_compile_input = Inr p \<and> cp_content p = compiled_example"
proof -
  obtain d where "digestOf (\<lambda>s. s) (\<lambda>_. ''1'') (artifactJson compiled_example) = Inr d"
    by (rule digestOf_total [OF json_finite_artifact])
  then show ?thesis
    by (simp add: compileCg4Policy_def example_compile_input_def positiveVersion_def example_normalizes example_consistent)
qed

lemma compiled_policy_opens_only_registered_rules_witness:
  "set (cc_overridableRules compiled_example) \<subseteq> set callback_rule_codes"
proof -
  obtain p where p: "compileCg4Policy (\<lambda>_. True) (\<lambda>s. s) (\<lambda>_. ''1'') example_compile_input = Inr p"
    "cp_content p = compiled_example" using example_compiles by blast
  from compiled_policy_opens_only_registered_rules [OF p(1)] p(2) show ?thesis by (metis Cg3PolicyFacts.select_convs(5) factsOf_def)
qed

lemma filter_unknown_keys:
  assumes "fst ` set ps = fst ` set qs"
  shows "length (filter (\<lambda>k. k \<notin> A) (map fst ps)) > 0 \<longleftrightarrow> length (filter (\<lambda>k. k \<notin> A) (map fst qs)) > 0"
proof -
  have "length (filter P xs) > 0 \<longleftrightarrow> (\<exists>x \<in> set xs. P x)" for P and xs :: "'a list"
    by (auto simp: filter_empty_conv)
  moreover have "set (map fst ps) = set (map fst qs)" using assms by simp
  ultimately show ?thesis by metis
qed

text \<open>
  Authoring order never reaches the artifact: two contents with the same members in any order,
  and rule lists that hold the same entries in any order and multiplicity, compile to the same
  result, digest and error included.
\<close>

lemma compile_ignores_authoring_order:
  assumes "fst ` set ps = fst ` set qs"
    and "\<forall>k. k \<notin> {''overridableRules'', ''allowedOperationalRuleCodes''} \<longrightarrow> map_of ps k = map_of qs k"
    and "\<forall>k \<in> {''overridableRules'', ''allowedOperationalRuleCodes''}.
      map_of ps k = map_of qs k \<or>
      (\<exists>es es'. map_of ps k = Some (JArr es) \<and> map_of qs k = Some (JArr es') \<and> set es = set es')"
  shows "compileCg4Policy kz sha256 show (i\<lparr>ci_content := JObj ps\<rparr>)
     = compileCg4Policy kz sha256 show (i\<lparr>ci_content := JObj qs\<rparr>)"
proof -
  have same: "json_prop (JObj ps) k = json_prop (JObj qs) k"
    if "k \<notin> {''overridableRules'', ''allowedOperationalRuleCodes''}" for k
    using assms(2) that by simp
  have rules: "ruleCodeList (orEmptyArray (json_prop (JObj ps) k)) f = ruleCodeList (orEmptyArray (json_prop (JObj qs) k)) f"
    if "k \<in> {''overridableRules'', ''allowedOperationalRuleCodes''}" for k f
    using assms(3) [rule_format, OF that]
  proof (elim disjE exE conjE)
    fix es es' assume "map_of ps k = Some (JArr es)" "map_of qs k = Some (JArr es')" "set es = set es'"
    then show ?thesis using ruleCodeList_set [of es es'] by (simp add: orEmptyArray_def)
  qed simp
  have rs: "ruleCodeList (orEmptyArray (json_prop (JObj ps) ''overridableRules'')) f
        = ruleCodeList (orEmptyArray (json_prop (JObj qs) ''overridableRules'')) f"
    "ruleCodeList (orEmptyArray (json_prop (JObj ps) ''allowedOperationalRuleCodes'')) f
        = ruleCodeList (orEmptyArray (json_prop (JObj qs) ''allowedOperationalRuleCodes'')) f" for f
    by (rule rules, simp)+
  have props: "json_prop (JObj ps) ''callbackMode'' = json_prop (JObj qs) ''callbackMode''"
    "json_prop (JObj ps) ''timezoneFallback'' = json_prop (JObj qs) ''timezoneFallback''"
    "json_prop (JObj ps) ''quietHours'' = json_prop (JObj qs) ''quietHours''"
    "json_prop (JObj ps) ''holidays'' = json_prop (JObj qs) ''holidays''"
    by (rule same, simp)+
  have "normalizeCg4PolicyContent kz (JObj ps) = normalizeCg4PolicyContent kz (JObj qs)"
    unfolding normalizeCg4PolicyContent_def asRecord_def is_json_object.simps if_True rbind_Inr Let_def
      object_keys.simps filter_unknown_keys [OF assms(1)] props rs ..
  then show ?thesis
    by (cases "positiveVersion (ci_version i)") (simp_all add: compileCg4Policy_def)
qed

lemma compile_ignores_authoring_order_witness:
  "compileCg4Policy (\<lambda>_. True) (\<lambda>s. s) (\<lambda>_. ''1'') (example_compile_input\<lparr>ci_content := JObj
       [(''callbackMode'', JStr ''NO_OVERRIDE''), (''overridableRules'', JArr [JStr ''A'', JStr ''B''])]\<rparr>)
   = compileCg4Policy (\<lambda>_. True) (\<lambda>s. s) (\<lambda>_. ''1'') (example_compile_input\<lparr>ci_content := JObj
       [(''overridableRules'', JArr [JStr ''B'', JStr ''A'', JStr ''B'']), (''callbackMode'', JStr ''NO_OVERRIDE'')]\<rparr>)"
  by (rule compile_ignores_authoring_order) auto

text \<open>
  Unknown members are refused at the top level only: a member a window does not define is dropped
  without an error, at the level where an author would write it.
\<close>

theorem nested_members_dropped:
  assumes "k \<notin> {''daysOfWeek'', ''startLocal'', ''endLocal''}"
  shows "normalizeCg4PolicyContent kz (JObj [(''callbackMode'', m), (''quietHours'', JArr (JObj ((k, v) # w) # ws))])
     = normalizeCg4PolicyContent kz (JObj [(''callbackMode'', m), (''quietHours'', JArr (JObj w # ws))])"
proof -
  have "jsonWindow (JObj ((k, v) # w)) = jsonWindow (JObj w)" using assms by (auto simp: jsonWindow_def)
  then have "normalizeJsonWindows (JArr (JObj ((k, v) # w) # ws)) = normalizeJsonWindows (JArr (JObj w # ws))"
    by (simp add: normalizeJsonWindows_def)
  then show ?thesis
    by (cases "callbackModeOfJson (Some m)")
       (simp_all add: normalizeCg4PolicyContent_def orEmptyArray_def asRecord_def allowedContentKeys_def)
qed

end
