(* ===== verification/PolicyDiff.thy ===== *)
theory PolicyDiff
  imports PolicyCompiler Authorization
begin

text \<open>
  The semantic diff between two policy contents (\<open>apps/contact-governance/src/cg4-policy-diff.ts\<close>),
  whose class decides how many checkers a policy change needs.
\<close>

section \<open>Model\<close>

datatype Cg4PolicyDiffDirection = DirEQUAL | DirTIGHTENING | DirRELAXATION

datatype Cg4PolicyDiffDimension =
    DimQuietHours
  | DimHolidays
  | DimCallbackMode
  | DimOverridableRules
  | DimAllowedOperationalRuleCodes
  | DimTimezoneFallback

record Cg4PolicyDiffChange =
  ch_dimension :: Cg4PolicyDiffDimension
  ch_direction :: Cg4PolicyDiffDirection

record Cg4PolicyDiff =
  df_diffClass :: Cg4PolicyDiffClass
  df_diffDigest :: string
  df_changes :: "Cg4PolicyDiffChange list"

definition CG4_EMPTY_POLICY_CONTENT :: Cg4PolicyContentV1 where
  "CG4_EMPTY_POLICY_CONTENT =
     \<lparr>cc_timezoneFallback = None, cc_quietHours = [], cc_callbackMode = NO_OVERRIDE,
      cc_overridableRules = [], cc_allowedOperationalRuleCodes = [], cc_holidays = []\<rparr>"

definition MINUTES_PER_DAY :: int where
  "MINUTES_PER_DAY = 1440"

definition covers :: "LocalTimeWindow list \<Rightarrow> int \<Rightarrow> int \<Rightarrow> bool" where
  "covers windows weekday minute = list_ex (\<lambda>w. diffWithinWindow w weekday minute) windows"

text \<open>
  The blocked minutes as pairs; the code joins the two parts with a colon into one string, which
  separates them uniquely since weekdays and dates contain none.
\<close>

definition quietMinutes :: "Cg4PolicyContentV1 \<Rightarrow> (int \<times> int) list" where
  "quietMinutes content =
     concat (map (\<lambda>weekday. map (Pair weekday)
       (filter (covers (cc_quietHours content) weekday) [0..MINUTES_PER_DAY - 1])) [1..7])"

text \<open>
  \<open>new Date(Date.UTC(year, month - 1, day)).getUTCDay()\<close>, with months outside the year carried over,
  years below 100 read as 19xx, and \<^const>\<open>None\<close> for an invalid date.
\<close>

definition utcDays :: "int \<Rightarrow> int \<Rightarrow> int \<Rightarrow> int" where
  "utcDays year month day =
     (let y = (if 0 \<le> year \<and> year \<le> 99 then 1900 + year else year) in
      days_from_civil (y + (month - 1) div 12) ((month - 1) mod 12 + 1) 1 + day - 1)"

definition isoWeekday :: "string \<Rightarrow> int option" where
  "isoWeekday localDate =
     (let parts = map js_Number (js_split CHR ''-'' localDate);
          year = (case parts of p # _ \<Rightarrow> p | _ \<Rightarrow> Some 0);
          month = (case parts of _ # p # _ \<Rightarrow> p | _ \<Rightarrow> Some 1);
          day = (case parts of _ # _ # p # _ \<Rightarrow> p | _ \<Rightarrow> Some 1) in
      case (year, month, day) of
        (Some y, Some m, Some d) \<Rightarrow> Some (((utcDays y m d + 4) mod 7 + 6) mod 7 + 1)
      | _ \<Rightarrow> None)"

definition openMinute :: "Cg3HolidayEntry \<Rightarrow> int option \<Rightarrow> int \<Rightarrow> bool" where
  "openMinute entry weekday minute \<longleftrightarrow>
     he_effect entry = WINDOWS \<and> (case weekday of Some w \<Rightarrow> covers (he_windows entry) w minute | None \<Rightarrow> False)"

definition holidayMinutes :: "Cg4PolicyContentV1 \<Rightarrow> (string \<times> int) list" where
  "holidayMinutes content =
     concat (map (\<lambda>entry.
       let weekday = isoWeekday (he_localDate entry) in
       map (Pair (he_localDate entry))
         (filter (\<lambda>minute. \<not> openMinute entry weekday minute) [0..MINUTES_PER_DAY - 1])) (cc_holidays content))"

definition isSubset :: "'a list \<Rightarrow> 'a list \<Rightarrow> bool" where
  "isSubset left right = list_all (\<lambda>entry. entry \<in> set right) left"

definition blockedDirection :: "'a list \<Rightarrow> 'a list \<Rightarrow> Cg4PolicyDiffDirection" where
  "blockedDirection base candidate =
     (let baseInCandidate = isSubset base candidate; candidateInBase = isSubset candidate base in
      if baseInCandidate \<and> candidateInBase then DirEQUAL
      else if baseInCandidate then DirTIGHTENING
      else if candidateInBase then DirRELAXATION
      else DirRELAXATION)"

definition allowlistDirection :: "string list \<Rightarrow> string list \<Rightarrow> Cg4PolicyDiffDirection" where
  "allowlistDirection base candidate = blockedDirection (js_uniq candidate) (js_uniq base)"

definition contentHasTemporalConstraint :: "Cg4PolicyContentV1 \<Rightarrow> bool" where
  "contentHasTemporalConstraint content \<longleftrightarrow> length (cc_quietHours content) > 0 \<or> length (cc_holidays content) > 0"

definition CALLBACK_MODE_RANK :: "Cg3CallbackMode \<Rightarrow> int" where
  "CALLBACK_MODE_RANK mode = (case mode of NO_OVERRIDE \<Rightarrow> 0 | SCOPED_OVERRIDE \<Rightarrow> 1 | TIME_POLICY_OVERRIDE \<Rightarrow> 2)"

definition policyDiffChanges :: "Cg4PolicyContentV1 \<Rightarrow> Cg4PolicyContentV1 \<Rightarrow> Cg4PolicyDiffChange list" where
  "policyDiffChanges from candidate =
     (let callbackRankDelta = CALLBACK_MODE_RANK (cc_callbackMode candidate) - CALLBACK_MODE_RANK (cc_callbackMode from) in
      [\<lparr>ch_dimension = DimQuietHours, ch_direction = blockedDirection (quietMinutes from) (quietMinutes candidate)\<rparr>,
       \<lparr>ch_dimension = DimHolidays, ch_direction = blockedDirection (holidayMinutes from) (holidayMinutes candidate)\<rparr>,
       \<lparr>ch_dimension = DimCallbackMode,
        ch_direction = (if callbackRankDelta = 0 then DirEQUAL
                        else if callbackRankDelta > 0 then DirRELAXATION else DirTIGHTENING)\<rparr>,
       \<lparr>ch_dimension = DimOverridableRules,
        ch_direction = allowlistDirection (cc_overridableRules from) (cc_overridableRules candidate)\<rparr>,
       \<lparr>ch_dimension = DimAllowedOperationalRuleCodes,
        ch_direction = allowlistDirection (cc_allowedOperationalRuleCodes from) (cc_allowedOperationalRuleCodes candidate)\<rparr>,
       \<lparr>ch_dimension = DimTimezoneFallback,
        ch_direction = (if cc_timezoneFallback from = cc_timezoneFallback candidate \<or>
                           \<not> contentHasTemporalConstraint from \<or> \<not> contentHasTemporalConstraint candidate
                        then DirEQUAL else DirRELAXATION)\<rparr>])"

definition diffClassOf :: "Cg4PolicyDiffChange list \<Rightarrow> Cg4PolicyDiffClass" where
  "diffClassOf changes =
     (if list_ex (\<lambda>c. ch_direction c = DirRELAXATION) changes then RELAXATION
      else if list_all (\<lambda>c. ch_direction c = DirEQUAL) changes then NEUTRAL
      else TIGHTENING)"

definition directionName :: "Cg4PolicyDiffDirection \<Rightarrow> string" where
  "directionName d = (case d of DirEQUAL \<Rightarrow> ''EQUAL'' | DirTIGHTENING \<Rightarrow> ''TIGHTENING'' | DirRELAXATION \<Rightarrow> ''RELAXATION'')"

definition dimensionName :: "Cg4PolicyDiffDimension \<Rightarrow> string" where
  "dimensionName d = (case d of DimQuietHours \<Rightarrow> ''quietHours'' | DimHolidays \<Rightarrow> ''holidays''
     | DimCallbackMode \<Rightarrow> ''callbackMode'' | DimOverridableRules \<Rightarrow> ''overridableRules''
     | DimAllowedOperationalRuleCodes \<Rightarrow> ''allowedOperationalRuleCodes'' | DimTimezoneFallback \<Rightarrow> ''timezoneFallback'')"

definition diffClassName :: "Cg4PolicyDiffClass \<Rightarrow> string" where
  "diffClassName c = (case c of TIGHTENING \<Rightarrow> ''TIGHTENING'' | NEUTRAL \<Rightarrow> ''NEUTRAL'' | RELAXATION \<Rightarrow> ''RELAXATION'')"

definition diffJson ::
  "Cg4PolicyContentV1 option \<Rightarrow> Cg4PolicyContentV1 \<Rightarrow> Cg4PolicyDiffClass \<Rightarrow> Cg4PolicyDiffChange list \<Rightarrow> json" where
  "diffJson base candidate diffClass changes = JObj
     [(''base'', case base of None \<Rightarrow> JNull | Some b \<Rightarrow> contentJson b), (''candidate'', contentJson candidate),
      (''diffClass'', JStr (diffClassName diffClass)),
      (''changes'', JArr (map (\<lambda>c. JObj [(''dimension'', JStr (dimensionName (ch_dimension c))),
         (''direction'', JStr (directionName (ch_direction c)))]) changes))]"

definition classifyCg4PolicyDiff ::
  "(string \<Rightarrow> string) \<Rightarrow> (rat \<Rightarrow> string) \<Rightarrow> Cg4PolicyContentV1 option \<Rightarrow> Cg4PolicyContentV1 \<Rightarrow>
     cg4_policy_error + Cg4PolicyDiff" where
  "classifyCg4PolicyDiff sha256 show base candidate =
     (let from = (case base of None \<Rightarrow> CG4_EMPTY_POLICY_CONTENT | Some b \<Rightarrow> b);
          changes = policyDiffChanges from candidate;
          diffClass = diffClassOf changes in
      rbind (digestOf sha256 show (diffJson base candidate diffClass changes)) (\<lambda>digest.
      Inr \<lparr>df_diffClass = diffClass, df_diffDigest = digest, df_changes = changes\<rparr>))"

section \<open>Dates and their weekday\<close>

lemma digit_of_small: "n < 10 \<Longrightarrow> is_digit (char_of (48 + n)) \<and> digit_value (char_of (48 + n)) = int n" for n :: nat
  by (simp add: is_digit_def digit_value_def less_eq_char_def of_char_of)

lemma show_nat_digits: "list_all is_digit (show_nat n) \<and> fold (\<lambda>c k. 10 * k + digit_value c) (show_nat n) 0 = int n"
proof (induction n rule: less_induct)
  case (less n)
  show ?case
  proof (cases "n < 10")
    case True
    then show ?thesis using digit_of_small [OF True] by (simp add: show_nat.simps)
  next
    case False
    then have "n div 10 < n" by simp
    have "10 * int (n div 10) + int (n mod 10) = int n"
      by (metis mult_div_mod_eq of_nat_add of_nat_mult of_nat_numeral)
    with less [OF \<open>n div 10 < n\<close>] digit_of_small [of "n mod 10"] False show ?thesis
      by (subst (1 2) show_nat.simps) simp
  qed
qed

lemma js_Number_show:
  assumes "0 \<le> i"
  shows "js_Number (show_int i) = Some i" "js_Number (padStart2 (show_int i)) = Some i"
    "CHR ''-'' \<notin> set (show_int i)" "CHR ''-'' \<notin> set (padStart2 (show_int i))"
proof -
  have z: "is_digit CHR ''0''" "digit_value CHR ''0'' = 0" by (simp_all add: digit_value_012)
  have s: "show_int i = show_nat (nat i)" using assms by (simp add: show_int_def)
  note d = show_nat_digits [of "nat i"]
  have rep: "list_all is_digit (replicate k CHR ''0'')" "fold (\<lambda>c k. 10 * k + digit_value c) (replicate k CHR ''0'') 0 = 0" for k
    using z by (induction k) auto
  have nd: "list_all is_digit xs \<Longrightarrow> CHR ''-'' \<notin> set xs" for xs
    by (auto simp: list_all_iff is_digit_def less_eq_char_def)
  show "js_Number (show_int i) = Some i" using d assms by (simp add: js_Number_def s)
  show "js_Number (padStart2 (show_int i)) = Some i"
    using d assms rep by (simp add: js_Number_def s padStart2_def)
  show "CHR ''-'' \<notin> set (show_int i)" "CHR ''-'' \<notin> set (padStart2 (show_int i))"
    using d rep by (auto simp: s padStart2_def intro!: nd)
qed

lemma isoWeekday_localDateKey:
  assumes "0 \<le> x"
  shows "isoWeekday (localDateKey (partsOfLocal x)) = Some (zp_weekday (partsOfLocal x))"
proof -
  define n where "n = x div 86400000"
  obtain y m d where c: "civil_from_days n = (y, m, d)" by (metis prod_cases3)
  have n0: "0 \<le> n" using assms by (simp add: n_def pos_imp_zdiv_nonneg_iff)
  have y: "100 \<le> y" by (rule civil_year_large [OF c n0])
  note r = civil_roundtrip [OF c]
  have f: "zp_year (partsOfLocal x) = y" "zp_month (partsOfLocal x) = m" "zp_day (partsOfLocal x) = d"
    "zp_weekday (partsOfLocal x) = (n + 3) mod 7 + 1"
    by (simp_all add: partsOfLocal_def Let_def n_def [symmetric] c)
  have "js_split CHR ''-'' (localDateKey (partsOfLocal x)) = [show_int y, padStart2 (show_int m), padStart2 (show_int d)]"
    unfolding localDateKey_def f using y r(2,4) js_Number_show(3) [of y] js_Number_show(4) [of m] js_Number_show(4) [of d]
    by (simp add: js_split_append js_split_part)
  then have parts: "map js_Number (js_split CHR ''-'' (localDateKey (partsOfLocal x))) = [Some y, Some m, Some d]"
    using y r(2,4) by (simp add: js_Number_show)
  have "(m - 1) div 12 = 0" "(m - 1) mod 12 = m - 1" using r(2,3) by (simp_all add: div_pos_pos_trivial mod_pos_pos_trivial)
  then have "utcDays y m d = days_from_civil y m 1 + d - 1" using y by (simp add: utcDays_def Let_def)
  also have "\<dots> = days_from_civil y m d" by (simp add: days_from_civil_def Let_def)
  finally have u: "utcDays y m d = n" using r(1) by simp
  have "((n + 4) mod 7 + 6) mod 7 = (n + 3 + 7) mod 7" by (simp add: mod_add_left_eq)
  also have "\<dots> = (n + 3) mod 7" by (rule mod_add_self2)
  finally show ?thesis unfolding isoWeekday_def Let_def parts by (simp add: u f)
qed


section \<open>What a direction says\<close>

lemma blockedDirection_iff:
  "blockedDirection a b \<noteq> DirRELAXATION \<longleftrightarrow> set a \<subseteq> set b"
  "blockedDirection a b = DirEQUAL \<longleftrightarrow> set a = set b"
  by (auto simp: blockedDirection_def isSubset_def Let_def list_all_iff)

lemma quietMinutes_iff:
  assumes "1 \<le> w" "w \<le> 7" "0 \<le> m" "m < 1440"
  shows "(w, m) \<in> set (quietMinutes c) \<longleftrightarrow> covers (cc_quietHours c) w m"
  using assms by (auto simp: quietMinutes_def MINUTES_PER_DAY_def image_iff)

lemma holidayMinutes_iff:
  assumes "0 \<le> m" "m < 1440"
  shows "(d, m) \<in> set (holidayMinutes c) \<longleftrightarrow>
    (\<exists>e \<in> set (cc_holidays c). he_localDate e = d \<and> \<not> openMinute e (isoWeekday d) m)"
  using assms by (auto simp: holidayMinutes_def MINUTES_PER_DAY_def Let_def image_iff)

lemma covers_valid: "\<forall>w \<in> set ws. validWindow w \<Longrightarrow> covers ws = anyWindowMatches ws"
  by (auto simp: covers_def anyWindowMatches_def fun_eq_iff diffWithinWindow_eq list_ex_iff)

lemma normalized_windows_valid:
  assumes "normalizeJsonWindows j = Inr ns"
  shows "\<forall>w \<in> set (sortWindows ns). validWindow w"
proof -
  from assms obtain ws where "normalizeLocalTimeWindows ws = Inr ns"
    by (auto simp: normalizeJsonWindows_def split: json.splits option.splits sum.splits)
  then obtain zs where "mset zs = mset ns" "\<forall>z \<in> set zs. validWindow z" by (rule normalize_outcome)
  then show ?thesis by (metis set_mset_mset set_sort sortWindows_def)
qed

lemma normalized_content:
  assumes "normalizeCg4PolicyContent kz raw = Inr c"
  shows "\<forall>w \<in> set (cc_quietHours c). validWindow w" "distinct (map he_localDate (cc_holidays c))"
    "\<forall>h \<in> set (cc_holidays c). \<forall>w \<in> set (he_windows h). validWindow w"
proof -
  from assms obtain v qh ns os as hs where c: "normalizeJsonWindows qh = Inr ns" "cc_quietHours c = sortWindows ns"
    "holidays hs = Inr (cc_holidays c)" by (rule normalize_content_parts)
  show "\<forall>w \<in> set (cc_quietHours c). validWindow w" using normalized_windows_valid [OF c(1)] c(2) by simp
  show "distinct (map he_localDate (cc_holidays c))" by (rule holidays_canonical(2) [OF c(3)])
  have "\<forall>w \<in> set (he_windows h). validWindow w" if "holidayEntry r = Inr h" for r h
    using that by (cases rule: holidayEntry_Inr) (use normalized_windows_valid in auto)
  then show "\<forall>h \<in> set (cc_holidays c). \<forall>w \<in> set (he_windows h). validWindow w"
    using holidays_canonical(3) [OF c(3)] by blast
qed

lemma find_by_date:
  assumes "distinct (map he_localDate hs)" and "e \<in> set hs" and "he_localDate e = d"
  shows "find (\<lambda>h. he_localDate h = d) hs = Some e"
  using assms by (induction hs) (auto simp: image_iff)

lemma partsOfLocal_ranges:
  shows "1 \<le> zp_weekday (partsOfLocal x)" "zp_weekday (partsOfLocal x) \<le> 7"
    "0 \<le> zp_hour (partsOfLocal x) * 60 + zp_minute (partsOfLocal x)"
    "zp_hour (partsOfLocal x) * 60 + zp_minute (partsOfLocal x) < 1440"
proof -
  define r where "r = x mod 86400000"
  obtain y m d where c: "civil_from_days (x div 86400000) = (y, m, d)" by (metis prod_cases3)
  have f: "zp_weekday (partsOfLocal x) = (x div 86400000 + 3) mod 7 + 1" "zp_hour (partsOfLocal x) = r div 3600000"
    "zp_minute (partsOfLocal x) = r mod 3600000 div 60000"
    by (simp_all add: partsOfLocal_def Let_def c r_def)
  have r: "0 \<le> r" "r < 86400000" by (simp_all add: r_def)
  have "0 \<le> r div 3600000" "r div 3600000 < 24" using r by linarith+
  moreover have "0 \<le> r mod 3600000" "r mod 3600000 < 3600000" by simp_all
  moreover from this have "0 \<le> r mod 3600000 div 60000" "r mod 3600000 div 60000 < 60" by linarith+
  moreover have "0 \<le> (x div 86400000 + 3) mod 7" "(x div 86400000 + 3) mod 7 < 7" by simp_all
  ultimately show "1 \<le> zp_weekday (partsOfLocal x)" "zp_weekday (partsOfLocal x) \<le> 7"
    "0 \<le> zp_hour (partsOfLocal x) * 60 + zp_minute (partsOfLocal x)"
    "zp_hour (partsOfLocal x) * 60 + zp_minute (partsOfLocal x) < 1440"
    unfolding f by linarith+
qed

text \<open>The instant is inside a block of the policy, as the evaluator sees it.\<close>

definition policyBlocks :: "Cg4PolicyContentV1 \<Rightarrow> ZonedParts \<Rightarrow> bool" where
  "policyBlocks c p \<longleftrightarrow> \<not> tv_eligible (evaluateInstant p [] (cc_quietHours c) (cc_holidays c))"

lemma policyBlocks_iff:
  fixes x c
  defines "p \<equiv> partsOfLocal x"
  defines "minute \<equiv> zp_hour p * 60 + zp_minute p"
  assumes "normalizeCg4PolicyContent kz raw = Inr c" and "0 \<le> x"
  shows "policyBlocks c p \<longleftrightarrow>
    (zp_weekday p, minute) \<in> set (quietMinutes c) \<or> (localDateKey p, minute) \<in> set (holidayMinutes c)"
proof -
  note n = normalized_content [OF assms(3)]
  have r: "1 \<le> zp_weekday p" "zp_weekday p \<le> 7" "0 \<le> minute" "minute < 1440"
    using partsOfLocal_ranges [of x] by (simp_all add: p_def minute_def)
  have w: "isoWeekday (localDateKey p) = Some (zp_weekday p)"
    unfolding p_def by (rule isoWeekday_localDateKey [OF assms(4)])
  have o: "\<not> openMinute e (isoWeekday (localDateKey p)) minute \<longleftrightarrow> holidayBlocks e p"
    if "e \<in> set (cc_holidays c)" for e
    using n(3) that by (cases "he_effect e") (auto simp: openMinute_def holidayBlocks_def w covers_valid minute_def)
  have "(case find (\<lambda>entry. he_localDate entry = localDateKey p) (cc_holidays c) of
      Some holiday \<Rightarrow> holidayBlocks holiday p | None \<Rightarrow> False) \<longleftrightarrow> (localDateKey p, minute) \<in> set (holidayMinutes c)"
    unfolding holidayMinutes_iff [OF r(3,4)]
    using o find_by_date [OF n(2)]
    by (auto split: option.splits dest: find_Some_in find_None_all)
  then show ?thesis
    unfolding quietMinutes_iff [OF r] covers_valid [OF n(1)]
    by (simp add: policyBlocks_def evaluateInstant_def Let_def eligibleNow_def minute_def)
qed


lemma diff_class_not_relaxation:
  assumes "classifyCg4PolicyDiff sha256 show base cand = Inr df" and "df_diffClass df \<noteq> RELAXATION"
  defines "from \<equiv> (case base of None \<Rightarrow> CG4_EMPTY_POLICY_CONTENT | Some b \<Rightarrow> b)"
  shows "set (quietMinutes from) \<subseteq> set (quietMinutes cand)" "set (holidayMinutes from) \<subseteq> set (holidayMinutes cand)"
    "CALLBACK_MODE_RANK (cc_callbackMode cand) \<le> CALLBACK_MODE_RANK (cc_callbackMode from)"
    "set (cc_overridableRules cand) \<subseteq> set (cc_overridableRules from)"
    "set (cc_allowedOperationalRuleCodes cand) \<subseteq> set (cc_allowedOperationalRuleCodes from)"
    "cc_timezoneFallback from = cc_timezoneFallback cand \<or> \<not> contentHasTemporalConstraint from \<or>
       \<not> contentHasTemporalConstraint cand"
proof -
  have "\<not> list_ex (\<lambda>c. ch_direction c = DirRELAXATION) (policyDiffChanges from cand)"
    using assms(1,2) unfolding classifyCg4PolicyDiff_def Let_def from_def [symmetric]
    by (auto simp: result_simps diffClassOf_def)
  then have x: "blockedDirection (quietMinutes from) (quietMinutes cand) \<noteq> DirRELAXATION"
    "blockedDirection (holidayMinutes from) (holidayMinutes cand) \<noteq> DirRELAXATION"
    "\<not> CALLBACK_MODE_RANK (cc_callbackMode cand) - CALLBACK_MODE_RANK (cc_callbackMode from) > 0"
    "allowlistDirection (cc_overridableRules from) (cc_overridableRules cand) \<noteq> DirRELAXATION"
    "allowlistDirection (cc_allowedOperationalRuleCodes from) (cc_allowedOperationalRuleCodes cand) \<noteq> DirRELAXATION"
    "cc_timezoneFallback from = cc_timezoneFallback cand \<or> \<not> contentHasTemporalConstraint from \<or>
       \<not> contentHasTemporalConstraint cand"
    unfolding policyDiffChanges_def Let_def by (simp_all split: if_splits)
  from x(1,2) show "set (quietMinutes from) \<subseteq> set (quietMinutes cand)" "set (holidayMinutes from) \<subseteq> set (holidayMinutes cand)"
    by (simp_all only: blockedDirection_iff)
  from x(4,5) show "set (cc_overridableRules cand) \<subseteq> set (cc_overridableRules from)"
    "set (cc_allowedOperationalRuleCodes cand) \<subseteq> set (cc_allowedOperationalRuleCodes from)"
    unfolding allowlistDirection_def blockedDirection_iff by simp_all
  from x(3) show "CALLBACK_MODE_RANK (cc_callbackMode cand) \<le> CALLBACK_MODE_RANK (cc_callbackMode from)" by simp
  from x(6) show "cc_timezoneFallback from = cc_timezoneFallback cand \<or> \<not> contentHasTemporalConstraint from \<or>
       \<not> contentHasTemporalConstraint cand" .
qed

text \<open>
  C19. The diff class fails closed with respect to the runtime evaluator: when a change from one
  compiled content to another is not classified as a relaxation, every instant of every time zone
  at which the old policy blocks a contact is blocked by the new one, no rule becomes overridable
  or exceptable, and the callback mode does not grow.
\<close>

theorem non_relaxation_keeps_blocks:
  assumes "normalizeCg4PolicyContent kz raw = Inr base" and "normalizeCg4PolicyContent kz raw' = Inr cand"
    and "classifyCg4PolicyDiff sha256 show (Some base) cand = Inr df" and "df_diffClass df \<noteq> RELAXATION"
    and "0 \<le> t + tz t" and "policyBlocks base (zonedPartsAt t tz)"
  shows "policyBlocks cand (zonedPartsAt t tz) \<and>
    set (cc_overridableRules cand) \<subseteq> set (cc_overridableRules base) \<and>
    set (cc_allowedOperationalRuleCodes cand) \<subseteq> set (cc_allowedOperationalRuleCodes base) \<and>
    CALLBACK_MODE_RANK (cc_callbackMode cand) \<le> CALLBACK_MODE_RANK (cc_callbackMode base)"
  using assms(6) diff_class_not_relaxation [OF assms(3,4)]
  unfolding zonedPartsAt_def policyBlocks_iff [OF assms(1,5)] policyBlocks_iff [OF assms(2,5)] by auto

text \<open>
  A change is neutral only when nothing changes for a contact: the two contents block exactly
  the same instants, open the same rules and use the same callback mode.
\<close>

lemma neutral_diff_changes_nothing:
  assumes "normalizeCg4PolicyContent kz raw = Inr base" and "normalizeCg4PolicyContent kz raw' = Inr cand"
    and "classifyCg4PolicyDiff sha256 show (Some base) cand = Inr df" and "df_diffClass df = NEUTRAL"
    and "0 \<le> t + tz t"
  shows "(policyBlocks base (zonedPartsAt t tz) \<longleftrightarrow> policyBlocks cand (zonedPartsAt t tz)) \<and>
    cc_overridableRules base = cc_overridableRules cand \<and>
    cc_allowedOperationalRuleCodes base = cc_allowedOperationalRuleCodes cand \<and>
    cc_callbackMode base = cc_callbackMode cand"
proof -
  have "list_all (\<lambda>c. ch_direction c = DirEQUAL) (policyDiffChanges base cand)"
    using assms(3,4) unfolding classifyCg4PolicyDiff_def Let_def
    by (auto simp: result_simps diffClassOf_def split: if_splits)
  then have x: "blockedDirection (quietMinutes base) (quietMinutes cand) = DirEQUAL"
    "blockedDirection (holidayMinutes base) (holidayMinutes cand) = DirEQUAL"
    "CALLBACK_MODE_RANK (cc_callbackMode cand) = CALLBACK_MODE_RANK (cc_callbackMode base)"
    "allowlistDirection (cc_overridableRules base) (cc_overridableRules cand) = DirEQUAL"
    "allowlistDirection (cc_allowedOperationalRuleCodes base) (cc_allowedOperationalRuleCodes cand) = DirEQUAL"
    unfolding policyDiffChanges_def Let_def by (simp_all split: if_splits)
  have "cc_callbackMode base = cc_callbackMode cand"
    using x(3) by (cases "cc_callbackMode base"; cases "cc_callbackMode cand") (simp_all add: CALLBACK_MODE_RANK_def)
  moreover have "cc_overridableRules base = cc_overridableRules cand \<and>
      cc_allowedOperationalRuleCodes base = cc_allowedOperationalRuleCodes cand"
  proof -
    from assms(1) obtain os as where b: "ruleCodeList (JArr os) ''overridableRules'' = Inr (cc_overridableRules base)"
      "ruleCodeList (JArr as) ''allowedOperationalRuleCodes'' = Inr (cc_allowedOperationalRuleCodes base)"
      by (rule normalize_content_parts)
    from assms(2) obtain os' as' where c: "ruleCodeList (JArr os') ''overridableRules'' = Inr (cc_overridableRules cand)"
      "ruleCodeList (JArr as') ''allowedOperationalRuleCodes'' = Inr (cc_allowedOperationalRuleCodes cand)"
      by (rule normalize_content_parts)
    show ?thesis
      using x(4,5) ruleCodeList_Inr(1,2) [OF b(1)] ruleCodeList_Inr(1,2) [OF b(2)] ruleCodeList_Inr(1,2) [OF c(1)]
        ruleCodeList_Inr(1,2) [OF c(2)]
      by (simp add: allowlistDirection_def blockedDirection_iff sorted_distinct_set_unique)
  qed
  moreover have "policyBlocks base (zonedPartsAt t tz) \<longleftrightarrow> policyBlocks cand (zonedPartsAt t tz)"
    using x(1,2) unfolding zonedPartsAt_def policyBlocks_iff [OF assms(1,5)] policyBlocks_iff [OF assms(2,5)]
      blockedDirection_iff by simp
  ultimately show ?thesis by blast
qed


text \<open>
  The night window of the example, and the same hours authored as two windows of the day: a change
  of the content that the diff recognises as neutral.
\<close>

definition split_content :: json where
  "split_content = JObj
     [(''overridableRules'', JArr [JStr ''QUIET_HOURS'', JStr ''TENANT_HOLIDAY'']),
      (''callbackMode'', JStr ''SCOPED_OVERRIDE''),
      (''quietHours'', JArr
        [JObj [(''daysOfWeek'', JArr [JNum (Fin 5)]), (''startLocal'', JStr ''22:00''), (''endLocal'', JStr ''00:00'')],
         JObj [(''daysOfWeek'', JArr [JNum (Fin 5)]), (''startLocal'', JStr ''00:00''), (''endLocal'', JStr ''06:00'')]])]"

definition split_example :: Cg4PolicyContentV1 where
  "split_example = compiled_example\<lparr>cc_quietHours :=
     [\<lparr>lw_daysOfWeek = [5], lw_startLocal = ''00:00'', lw_endLocal = ''06:00''\<rparr>,
      \<lparr>lw_daysOfWeek = [5], lw_startLocal = ''22:00'', lw_endLocal = ''00:00''\<rparr>]\<rparr>"

lemma split_normalizes: "normalizeCg4PolicyContent (\<lambda>_. True) split_content = Inr split_example"
  by code_simp

lemma split_quiet: "quietMinutes compiled_example = quietMinutes split_example"
proof -
  have t: "clockMinutesDefault ''22:00'' = Some 1320" "clockMinutesDefault ''06:00'' = Some 360"
    "clockMinutesDefault ''00:00'' = Some 0" by code_simp+
  have "covers (cc_quietHours compiled_example) w m = covers (cc_quietHours split_example) w m"
    if "m \<in> {0..1439}" for w m
    using that by (auto simp: covers_def diffWithinWindow_def clockWithin_def compiled_example_def split_example_def
        nightWindow_def t)
  then have f: "filter (covers (cc_quietHours compiled_example) w) [0..MINUTES_PER_DAY - 1]
      = filter (covers (cc_quietHours split_example) w) [0..MINUTES_PER_DAY - 1]" for w
    by (intro filter_cong) (auto simp: MINUTES_PER_DAY_def)
  show ?thesis unfolding quietMinutes_def f ..
qed

lemma split_neutral:
  "\<exists>df. classifyCg4PolicyDiff sha256 show (Some compiled_example) split_example = Inr df \<and> df_diffClass df = NEUTRAL"
proof -
  have "cc_holidays compiled_example = []" "cc_holidays split_example = []"
    "cc_overridableRules split_example = cc_overridableRules compiled_example"
    "cc_allowedOperationalRuleCodes split_example = cc_allowedOperationalRuleCodes compiled_example"
    "cc_callbackMode split_example = cc_callbackMode compiled_example"
    "cc_timezoneFallback split_example = cc_timezoneFallback compiled_example"
    by (simp_all add: split_example_def compiled_example_def)
  then have n: "diffClassOf (policyDiffChanges compiled_example split_example) = NEUTRAL"
    by (simp add: policyDiffChanges_def diffClassOf_def allowlistDirection_def blockedDirection_iff split_quiet holidayMinutes_def)
  have "json_finite (diffJson (Some compiled_example) split_example NEUTRAL (policyDiffChanges compiled_example split_example))"
    by (auto simp: diffJson_def json_finite_content intro!: json_finite.intros)
  then obtain d where
    "digestOf sha256 show (diffJson (Some compiled_example) split_example NEUTRAL (policyDiffChanges compiled_example split_example)) = Inr d"
    by (rule digestOf_total)
  then show ?thesis by (simp add: classifyCg4PolicyDiff_def Let_def n)
qed

lemma example_blocks: "policyBlocks compiled_example (zonedPartsAt 165600000 (\<lambda>_. 0))"
  by code_simp

theorem non_relaxation_keeps_blocks_witness:
  "policyBlocks split_example (zonedPartsAt 165600000 (\<lambda>_. 0))"
proof -
  obtain df where df: "classifyCg4PolicyDiff (\<lambda>s. s) (\<lambda>_. ''1'') (Some compiled_example) split_example = Inr df"
    "df_diffClass df = NEUTRAL" using split_neutral by blast
  have "df_diffClass df \<noteq> RELAXATION" using df(2) by simp
  from non_relaxation_keeps_blocks [OF example_normalizes split_normalizes df(1) this _ example_blocks]
  show ?thesis by simp
qed

lemma neutral_diff_changes_nothing_witness:
  "policyBlocks compiled_example (zonedPartsAt 0 (\<lambda>_. 0)) \<longleftrightarrow> policyBlocks split_example (zonedPartsAt 0 (\<lambda>_. 0))"
proof -
  obtain df where df: "classifyCg4PolicyDiff (\<lambda>s. s) (\<lambda>_. ''1'') (Some compiled_example) split_example = Inr df"
    "df_diffClass df = NEUTRAL" using split_neutral by blast
  from neutral_diff_changes_nothing [OF example_normalizes split_normalizes df, of 0 "\<lambda>_. 0"] show ?thesis by simp
qed

end
