(* ===== verification/VoiceRouter.thy ===== *)
theory VoiceRouter
  imports Prelude "HOL-Library.Product_Lexorder"
begin

text \<open>
  The inbound voice router (\<open>apps/router/src/inbound-voice-router.ts\<close>): interactions, agent state
  log, the handlers of telephony events, offers and wrap-up, and the periodic \<open>processDue\<close>.

  A database transaction is a function on the tables that either yields the new tables or an error
  that leaves them unchanged; transactions run one after the other, so the row locks and the
  retry after a concurrent insert have nothing to do. Published messages are returned as a list.
  The values a handler reads from outside come from the environment: \<open>env_now key n\<close> is the
  \<open>n\<close>-th reading of \<open>dependencies.now()\<close> while \<open>key\<close> is processed (every reading may differ),
  \<open>env_eventId\<close> likewise, \<open>env_newId\<close> the identifier of a created row and \<open>env_stamp\<close> the database
  clock behind \<open>@default(now())\<close>. Row identifiers are database UUIDs, so a test such as
  \<open>!existing.agentId\<close> asks whether the column is null.
\<close>

section \<open>Tables\<close>

datatype InteractionStateType = QUEUED | ASSIGNED | ACTIVE | WRAPUP | COMPLETED | ABANDONED

datatype AgentStateType = OFFLINE | AVAILABLE | RESERVED | BUSY | ACW | BREAK

datatype IvrInputStage = IVR_VOICE | IVR_DTMF

datatype OfferTimeoutAction = IMMEDIATE_REQUEUE | COOLDOWN_REQUEUE | ABANDON

datatype MaxWaitAction = WAIT | CALLBACK | VOICEMAIL

datatype RoutingStrategy = LONGEST_AVAILABLE_IDLE | LONGEST_SINCE_LAST_INTERACTION | ROUND_ROBIN

datatype EntryMode = DIRECT_QUEUE | IVR

record interaction =
  in_id :: string
  in_tenantId :: string
  in_channel :: string
  in_direction :: string
  in_state :: InteractionStateType
  in_queueId :: "string option"
  in_agentId :: "string option"
  in_externalId :: "string option"
  in_wrapUpCode :: "string option"
  in_voiceWrapupPolicy :: string
  in_metadata :: "json option"
  in_queuedAt :: time_ms
  in_assignedAt :: "time_ms option"
  in_answeredAt :: "time_ms option"
  in_endedAt :: "time_ms option"
  in_offerExpiresAt :: "time_ms option"
  in_requeueAt :: "time_ms option"
  in_ivrDestinationId :: "string option"
  in_ivrStage :: "IvrInputStage option"
  in_ivrAttempts :: int
  in_ivrInputExpiresAt :: "time_ms option"

text \<open>The tenant's defaults are joined into the queue row, as \<open>queuePolicySelection\<close> selects them.\<close>

record QueuePolicySource =
  qp_offerTimeoutSec :: "int option"
  qp_offerTimeoutAction :: "OfferTimeoutAction option"
  qp_offerCooldownSec :: "int option"
  qp_maxWaitSec :: "int option"
  qp_maxWaitAction :: "MaxWaitAction option"
  qp_routingStrategy :: RoutingStrategy
  qp_defaultOfferTimeoutSec :: int
  qp_defaultOfferTimeoutAction :: OfferTimeoutAction
  qp_defaultOfferCooldownSec :: int
  qp_defaultMaxWaitSec :: "int option"
  qp_defaultMaxWaitAction :: MaxWaitAction

record queue_row =
  qu_id :: string
  qu_tenantId :: string
  qu_voiceConfigVersion :: "int option"
  qu_teamId :: "string option"
  qu_isActive :: bool
  qu_policy :: QueuePolicySource

record voice_destination =
  vd_id :: string
  vd_tenantId :: string
  vd_destination :: string
  vd_entryMode :: EntryMode
  vd_queueId :: string
  vd_ivrConfig :: "json option"
  vd_isActive :: bool

record user_row =
  us_id :: string
  us_tenantId :: string
  us_role :: string
  us_isActive :: bool
  us_extension :: "string option"
  us_teamId :: "string option"
  us_displayName :: string

record agent_state_log =
  al_id :: int
  al_tenantId :: string
  al_userId :: string
  al_state :: AgentStateType
  al_reason :: string
  al_startedAt :: time_ms
  al_endedAt :: "time_ms option"
  al_actorUserId :: "string option"

record interaction_event =
  ie_tenantId :: string
  ie_interactionId :: string
  ie_type :: string
  ie_payload :: json

record queue_skill =
  qs_tenantId :: string
  qs_queueId :: string
  qs_skillId :: string
  qs_minLevel :: int

record agent_skill =
  as_tenantId :: string
  as_userId :: string
  as_skillId :: string
  as_level :: int

text \<open>A managed command joined with its offer, of which the router only reads these columns.\<close>

record managed_command =
  mc_tenantId :: string
  mc_agentId :: string
  mc_status :: string
  mc_commandType :: string

record router_db =
  db_tenants :: "string list"
  db_interactions :: "interaction list"
  db_events :: "interaction_event list"
  db_logs :: "agent_state_log list"
  db_queues :: "queue_row list"
  db_destinations :: "voice_destination list"
  db_users :: "user_row list"
  db_queueSkills :: "queue_skill list"
  db_agentSkills :: "agent_skill list"
  db_managedCommands :: "managed_command list"

section \<open>Messages and environment\<close>

datatype vendor = FREESWITCH | ASTERISK

datatype input_mode = INPUT_VOICE | INPUT_DTMF | INPUT_TIMEOUT

record TelephonyCallEvent =
  tc_callUuid :: string
  tc_vendor :: vendor
  tc_telephonyNodeId :: string
  tc_caller :: string
  tc_destination :: string
  tc_inputMode :: "input_mode option"
  tc_inputValue :: "string option"

record call_event =
  ev_eventId :: string
  ev_type :: string
  ev_tenantId :: string
  ev_occurredAt :: time_ms
  ev_correlationId :: string
  ev_orderingKey :: string
  ev_payload :: TelephonyCallEvent

datatype topic = INTERACTION_EVENTS | AGENT_EVENTS | TELEPHONY_COMMANDS

record PublishedEvent =
  pe_eventId :: string
  pe_type :: string
  pe_tenantId :: string
  pe_occurredAt :: time_ms
  pe_correlationId :: string
  pe_causationId :: "string option"
  pe_orderingKey :: string
  pe_payload :: json

type_synonym message = "topic \<times> PublishedEvent"

record router_env =
  env_now :: "string \<Rightarrow> nat \<Rightarrow> time_ms"
  env_eventId :: "string \<Rightarrow> nat \<Rightarrow> string"
  env_newId :: string
  env_stamp :: time_ms

record InboundVoiceRoutingResult =
  rs_interactionId :: string
  rs_status :: InteractionStateType
  rs_agentId :: "string option"

record CompleteWrapUpCommand =
  cw_tenantId :: string
  cw_interactionId :: string
  cw_agentId :: string
  cw_code :: string

record DeclineOfferCommand =
  dc_tenantId :: string
  dc_interactionId :: string
  dc_agentId :: string

record AvailableAgent =
  aa_id :: string
  aa_extension :: string

record DueOfferOutcome =
  oc_interactionId :: string
  oc_tenantId :: string
  oc_queueId :: "string option"
  oc_agentId :: "string option"
  oc_agentExtension :: "string option"
  oc_callUuid :: string
  oc_vendor :: vendor
  oc_telephonyNodeId :: string
  oc_timedOut :: bool
  oc_requeued :: bool
  oc_abandoned :: bool
  oc_reason :: "string option"

record IvrConfiguration =
  ic_prompt :: string
  ic_inputTimeoutSec :: int
  ic_voiceRoutes :: json
  ic_dtmfRoutes :: json

record IvrCollectRequest =
  co_inputMode :: IvrInputStage
  co_prompt :: string
  co_timeoutSec :: int

datatype router_error =
    VOICE_CONFIG_V1_REQUIRED
  | UnhandledEventType string
  | OrderingKeyMismatch
  | NoActiveDestination
  | IvrConfigurationMissing
  | IvrConfigurationInvalid
  | RecordNotFound
  | InvalidQueueReference
  | HangupRequiresActive
  | MissingTelephonyMetadata
  | WrapUpCodeRequired
  | WRAPUP_V1_REQUIRED
  | WrapUpRequiresAssignedAgent

section \<open>Rows\<close>

definition updateInteractions :: "(interaction \<Rightarrow> bool) \<Rightarrow> (interaction \<Rightarrow> interaction) \<Rightarrow> router_db \<Rightarrow> router_db" where
  "updateInteractions P f db = db\<lparr>db_interactions := map (\<lambda>i. if P i then f i else i) (db_interactions db)\<rparr>"

definition countInteractions :: "(interaction \<Rightarrow> bool) \<Rightarrow> router_db \<Rightarrow> nat" where
  "countInteractions P db = length (filter P (db_interactions db))"

text \<open>A new row of the agent state log; the router itself never fills the acting user.\<close>

definition addLogBy ::
  "string option \<Rightarrow> router_env \<Rightarrow> string \<Rightarrow> string \<Rightarrow> AgentStateType \<Rightarrow> string \<Rightarrow> time_ms option \<Rightarrow> router_db \<Rightarrow> router_db" where
  "addLogBy actor env tenantId userId state reason endedAt db =
     db\<lparr>db_logs := db_logs db @
       [\<lparr>al_id = int (length (db_logs db)), al_tenantId = tenantId, al_userId = userId, al_state = state,
         al_reason = reason, al_startedAt = env_stamp env, al_endedAt = endedAt, al_actorUserId = actor\<rparr>]\<rparr>"

abbreviation addLog ::
  "router_env \<Rightarrow> string \<Rightarrow> string \<Rightarrow> AgentStateType \<Rightarrow> string \<Rightarrow> time_ms option \<Rightarrow> router_db \<Rightarrow> router_db" where
  "addLog \<equiv> addLogBy None"

definition addEvent :: "string \<Rightarrow> string \<Rightarrow> string \<Rightarrow> json \<Rightarrow> router_db \<Rightarrow> router_db" where
  "addEvent tenantId interactionId type payload db =
     db\<lparr>db_events := db_events db @
       [\<lparr>ie_tenantId = tenantId, ie_interactionId = interactionId, ie_type = type, ie_payload = payload\<rparr>]\<rparr>"

definition queueById :: "router_db \<Rightarrow> string \<Rightarrow> queue_row option" where
  "queueById db qid = find (\<lambda>q. qu_id q = qid) (db_queues db)"

definition interactionQueue :: "router_db \<Rightarrow> interaction \<Rightarrow> queue_row option" where
  "interactionQueue db i = Option.bind (in_queueId i) (queueById db)"

definition destinationQueue :: "router_db \<Rightarrow> voice_destination \<Rightarrow> queue_row option" where
  "destinationQueue db d = find (\<lambda>q. qu_tenantId q = vd_tenantId d \<and> qu_id q = vd_queueId d) (db_queues db)"

definition isManaged :: "queue_row option \<Rightarrow> bool" where
  "isManaged q = (case q of Some r \<Rightarrow> qu_voiceConfigVersion r = Some 1 | None \<Rightarrow> False)"

definition isUnversioned :: "queue_row option \<Rightarrow> bool" where
  "isUnversioned q = (case q of Some r \<Rightarrow> qu_voiceConfigVersion r = None | None \<Rightarrow> False)"

section \<open>Choosing an agent\<close>

definition latestLog :: "router_db \<Rightarrow> string \<Rightarrow> string \<Rightarrow> agent_state_log option" where
  "latestLog db tenantId userId =
     (let states = filter (\<lambda>l. al_tenantId l = tenantId \<and> al_userId l = userId) (db_logs db) in
      if states = [] then None
      else Some (last (sort_key (\<lambda>l. (al_startedAt l, al_id l)) states)))"

fun maxTime :: "time_ms option list \<Rightarrow> time_ms option" where
  "maxTime [] = None"
| "maxTime (None # ts) = maxTime ts"
| "maxTime (Some t # ts) = Some (case maxTime ts of None \<Rightarrow> t | Some u \<Rightarrow> max t u)"

text \<open>\<open>ASC NULLS FIRST\<close>.\<close>

definition nullsFirst :: "time_ms option \<Rightarrow> nat \<times> time_ms" where
  "nullsFirst t = (case t of None \<Rightarrow> (0, 0) | Some x \<Rightarrow> (1, x))"

definition agentInteractions :: "router_db \<Rightarrow> string \<Rightarrow> string \<Rightarrow> interaction list" where
  "agentInteractions db tenantId userId =
     filter (\<lambda>i. in_tenantId i = tenantId \<and> in_agentId i = Some userId) (db_interactions db)"

definition orderingKey :: "router_db \<Rightarrow> string \<Rightarrow> RoutingStrategy \<Rightarrow> user_row \<Rightarrow> (nat \<times> time_ms) \<times> string" where
  "orderingKey db tenantId strategy u =
     (case strategy of
        LONGEST_SINCE_LAST_INTERACTION \<Rightarrow>
          (nullsFirst (maxTime (map in_endedAt (agentInteractions db tenantId (us_id u)))), us_id u)
      | ROUND_ROBIN \<Rightarrow>
          (nullsFirst (maxTime (map in_assignedAt (agentInteractions db tenantId (us_id u)))), us_id u)
      | LONGEST_AVAILABLE_IDLE \<Rightarrow>
          (nullsFirst (map_option al_startedAt (latestLog db tenantId (us_id u))), us_id u))"

definition hasSkills :: "router_db \<Rightarrow> string \<Rightarrow> string \<Rightarrow> string \<Rightarrow> bool" where
  "hasSkills db tenantId queueId userId =
     list_all (\<lambda>r. list_ex (\<lambda>s. as_skillId s = qs_skillId r \<and> as_userId s = userId \<and> as_tenantId s = tenantId)
                  (db_agentSkills db) \<and>
                list_all (\<lambda>s. as_level s \<ge> qs_minLevel r)
                  (filter (\<lambda>s. as_skillId s = qs_skillId r \<and> as_userId s = userId \<and> as_tenantId s = tenantId)
                     (db_agentSkills db)))
       (filter (\<lambda>r. qs_queueId r = queueId \<and> qs_tenantId r = tenantId) (db_queueSkills db))"

definition pendingCleanup :: "router_db \<Rightarrow> user_row \<Rightarrow> bool" where
  "pendingCleanup db u =
     list_ex (\<lambda>c. mc_tenantId c = us_tenantId u \<and> mc_agentId c = us_id u \<and> mc_status c = ''PENDING'' \<and>
                (mc_commandType c = ''offer.cancel'' \<or> mc_commandType c = ''call.hangup'')) (db_managedCommands db)"

definition agentEligible :: "router_db \<Rightarrow> string \<Rightarrow> string \<Rightarrow> user_row \<Rightarrow> bool" where
  "agentEligible db tenantId queueId u \<longleftrightarrow>
     us_tenantId u = tenantId \<and> us_role u = ''AGENT'' \<and> us_isActive u \<and> us_extension u \<noteq> None \<and>
     list_ex (\<lambda>q. qu_tenantId q = tenantId \<and> qu_id q = queueId \<and>
                (qu_voiceConfigVersion q \<noteq> Some 1 \<or> (qu_teamId q \<noteq> None \<and> qu_teamId q = us_teamId u)))
       (db_queues db) \<and>
     (case latestLog db tenantId (us_id u) of Some l \<Rightarrow> al_state l = AVAILABLE | None \<Rightarrow> False) \<and>
     \<not> pendingCleanup db u \<and>
     hasSkills db tenantId queueId (us_id u)"

definition findAvailableAgent :: "router_db \<Rightarrow> string \<Rightarrow> string \<Rightarrow> RoutingStrategy \<Rightarrow> AvailableAgent option" where
  "findAvailableAgent db tenantId queueId strategy =
     (case sort_key (orderingKey db tenantId strategy) (filter (agentEligible db tenantId queueId) (db_users db)) of
        [] \<Rightarrow> None
      | u # _ \<Rightarrow> Some \<lparr>aa_id = us_id u, aa_extension = (case us_extension u of Some x \<Rightarrow> x | None \<Rightarrow> [])\<rparr>)"


section \<open>Queue policy, IVR configuration and metadata\<close>

record queue_policy =
  po_offerTimeoutSec :: int
  po_offerTimeoutAction :: OfferTimeoutAction
  po_offerCooldownSec :: int
  po_maxWaitSec :: "int option"
  po_maxWaitAction :: MaxWaitAction
  po_routingStrategy :: RoutingStrategy

definition coalesce :: "'a option \<Rightarrow> 'a \<Rightarrow> 'a" where
  "coalesce v d = (case v of Some x \<Rightarrow> x | None \<Rightarrow> d)"

definition resolveQueuePolicy :: "QueuePolicySource \<Rightarrow> queue_policy" where
  "resolveQueuePolicy q =
     \<lparr>po_offerTimeoutSec = coalesce (qp_offerTimeoutSec q) (qp_defaultOfferTimeoutSec q),
      po_offerTimeoutAction = coalesce (qp_offerTimeoutAction q) (qp_defaultOfferTimeoutAction q),
      po_offerCooldownSec = coalesce (qp_offerCooldownSec q) (qp_defaultOfferCooldownSec q),
      po_maxWaitSec = (case qp_maxWaitSec q of Some x \<Rightarrow> Some x | None \<Rightarrow> qp_defaultMaxWaitSec q),
      po_maxWaitAction = coalesce (qp_maxWaitAction q) (qp_defaultMaxWaitAction q),
      po_routingStrategy = qp_routingStrategy q\<rparr>"

definition ivrConfiguration :: "json option \<Rightarrow> router_error + IvrConfiguration" where
  "ivrConfiguration v =
     (case v of
        Some (JObj ps) \<Rightarrow>
          (case (map_of ps ''prompt'', map_of ps ''inputTimeoutSec'', map_of ps ''voiceRoutes'', map_of ps ''dtmfRoutes'') of
             (Some (JStr prompt), Some (JNum (Fin r)), Some (JObj vr), Some (JObj dr)) \<Rightarrow>
               (if of_int \<lfloor>r\<rfloor> = r \<and> r \<ge> 1
                then Inr \<lparr>ic_prompt = prompt, ic_inputTimeoutSec = \<lfloor>r\<rfloor>, ic_voiceRoutes = JObj vr, ic_dtmfRoutes = JObj dr\<rparr>
                else Inl IvrConfigurationInvalid)
           | _ \<Rightarrow> Inl IvrConfigurationInvalid)
      | _ \<Rightarrow> Inl IvrConfigurationMissing)"

text \<open>\<open>toLocaleLowerCase\<close> on code units below 256, and runs of white space to one blank.\<close>

definition lowerChar :: "char \<Rightarrow> char" where
  "lowerChar c =
     (let n = (of_char c :: nat) in
      if (65 \<le> n \<and> n \<le> 90) \<or> (192 \<le> n \<and> n \<le> 222 \<and> n \<noteq> 215) then char_of (n + 32) else c)"

function collapseSpaces :: "string \<Rightarrow> string" where
  "collapseSpaces [] = []"
| "collapseSpaces (c # cs) =
     (if js_space c then CHR '' '' # collapseSpaces (dropWhile js_space cs) else c # collapseSpaces cs)"
  by pat_completeness auto
termination collapseSpaces
  by (relation "measure length") (auto simp: less_Suc_eq_le length_dropWhile_le)

definition normalizedVoiceInput :: "string \<Rightarrow> string" where
  "normalizedVoiceInput value = collapseSpaces (map lowerChar (js_trim value))"

definition plusSeconds :: "time_ms \<Rightarrow> int \<Rightarrow> time_ms" where
  "plusSeconds now seconds = now + seconds * 1000"

definition vendorName :: "vendor \<Rightarrow> string" where
  "vendorName v = (case v of FREESWITCH \<Rightarrow> ''freeswitch'' | ASTERISK \<Rightarrow> ''asterisk'')"

definition vendorOf :: "json option \<Rightarrow> vendor option" where
  "vendorOf v = (case v of
     Some (JStr s) \<Rightarrow> if s = ''freeswitch'' then Some FREESWITCH else if s = ''asterisk'' then Some ASTERISK else None
   | _ \<Rightarrow> None)"

definition stringOf :: "json option \<Rightarrow> string option" where
  "stringOf v = (case v of Some (JStr s) \<Rightarrow> Some s | _ \<Rightarrow> None)"

definition metadataProp :: "json option \<Rightarrow> string \<Rightarrow> json option" where
  "metadataProp m k = Option.bind m (\<lambda>j. json_prop j k)"

definition telephonyMetadata :: "json option \<Rightarrow> router_error + vendor \<times> string" where
  "telephonyMetadata m =
     (case (vendorOf (metadataProp m ''vendor''), stringOf (metadataProp m ''telephonyNodeId'')) of
        (Some v, Some node) \<Rightarrow> Inr (v, node)
      | _ \<Rightarrow> Inl MissingTelephonyMetadata)"

definition telephonyCallMetadata :: "json option \<Rightarrow> router_error + vendor \<times> string \<times> string \<times> string" where
  "telephonyCallMetadata m =
     (case (vendorOf (metadataProp m ''vendor''), stringOf (metadataProp m ''telephonyNodeId''),
            stringOf (metadataProp m ''caller''), stringOf (metadataProp m ''destination'')) of
        (Some v, Some node, Some caller, Some dest) \<Rightarrow> Inr (v, node, caller, dest)
      | _ \<Rightarrow> Inl MissingTelephonyMetadata)"

section \<open>Messages\<close>

definition stateName :: "InteractionStateType \<Rightarrow> string" where
  "stateName st = (case st of QUEUED \<Rightarrow> ''QUEUED'' | ASSIGNED \<Rightarrow> ''ASSIGNED'' | ACTIVE \<Rightarrow> ''ACTIVE''
     | WRAPUP \<Rightarrow> ''WRAPUP'' | COMPLETED \<Rightarrow> ''COMPLETED'' | ABANDONED \<Rightarrow> ''ABANDONED'')"

text \<open>\<open>...(v ? { k: v } : {})\<close>.\<close>

definition optField :: "string \<Rightarrow> string option \<Rightarrow> (string \<times> json) list" where
  "optField k v = (case v of Some s \<Rightarrow> if s = [] then [] else [(k, JStr s)] | None \<Rightarrow> [])"

definition voicePayload :: "string \<Rightarrow> InteractionStateType \<Rightarrow> (string \<times> json) list \<Rightarrow> json" where
  "voicePayload iid st extra =
     JObj ([(''interactionId'', JStr iid), (''channel'', JStr ''VOICE''), (''state'', JStr (stateName st))] @ extra)"

definition envelope :: "router_env \<Rightarrow> nat \<Rightarrow> call_event \<Rightarrow> string \<Rightarrow> string \<Rightarrow> json \<Rightarrow> PublishedEvent" where
  "envelope env n input ordKey type payload =
     \<lparr>pe_eventId = env_eventId env (ev_eventId input) n, pe_type = type, pe_tenantId = ev_tenantId input,
      pe_occurredAt = env_now env (ev_eventId input) (100 + n), pe_correlationId = ev_correlationId input,
      pe_causationId = Some (ev_eventId input), pe_orderingKey = ordKey, pe_payload = payload\<rparr>"

definition commandEnvelope :: "router_env \<Rightarrow> nat \<Rightarrow> string \<Rightarrow> string \<Rightarrow> string \<Rightarrow> json \<Rightarrow> PublishedEvent" where
  "commandEnvelope env n tenantId interactionId type payload =
     \<lparr>pe_eventId = env_eventId env interactionId n, pe_type = type, pe_tenantId = tenantId,
      pe_occurredAt = env_now env interactionId (100 + n), pe_correlationId = interactionId,
      pe_causationId = None, pe_orderingKey = interactionId, pe_payload = payload\<rparr>"

definition scheduledEnvelope :: "router_env \<Rightarrow> nat \<Rightarrow> DueOfferOutcome \<Rightarrow> string \<Rightarrow> string \<Rightarrow> json \<Rightarrow> PublishedEvent" where
  "scheduledEnvelope env n outcome ordKey type payload =
     \<lparr>pe_eventId = env_eventId env (oc_interactionId outcome) n, pe_type = type, pe_tenantId = oc_tenantId outcome,
      pe_occurredAt = env_now env (oc_interactionId outcome) (100 + n), pe_correlationId = oc_callUuid outcome,
      pe_causationId = None, pe_orderingKey = ordKey, pe_payload = payload\<rparr>"

definition bridgeCommand :: "string \<Rightarrow> vendor \<Rightarrow> string \<Rightarrow> string \<Rightarrow> json" where
  "bridgeCommand callUuid v node extension =
     JObj [(''callUuid'', JStr callUuid), (''vendor'', JStr (vendorName v)), (''telephonyNodeId'', JStr node),
           (''type'', JStr ''call.bridge''), (''agentExtension'', JStr extension)]"

definition publishLifecycle ::
  "router_env \<Rightarrow> call_event \<Rightarrow> string \<Rightarrow> string option \<Rightarrow> string option \<Rightarrow> message list" where
  "publishLifecycle env input iid agentId queueId =
     map (\<lambda>(n, type). (INTERACTION_EVENTS, envelope env n input iid type
            (voicePayload iid (if type = ''interaction.assigned'' then ASSIGNED else QUEUED)
               (optField ''queueId'' queueId @ optField ''agentId'' agentId))))
       (enumerate 0 (if agentId \<noteq> None then [''interaction.created'', ''interaction.queued'', ''interaction.assigned'']
                     else [''interaction.created'', ''interaction.queued'']))"

definition publishCollect :: "router_env \<Rightarrow> call_event \<Rightarrow> IvrCollectRequest \<Rightarrow> message list" where
  "publishCollect env event collect =
     [(TELEPHONY_COMMANDS, envelope env 10 event (tc_callUuid (ev_payload event)) ''call.collect''
        (JObj [(''callUuid'', JStr (tc_callUuid (ev_payload event))),
               (''vendor'', JStr (vendorName (tc_vendor (ev_payload event)))),
               (''telephonyNodeId'', JStr (tc_telephonyNodeId (ev_payload event))),
               (''type'', JStr ''call.collect''),
               (''inputMode'', JStr (case co_inputMode collect of IVR_VOICE \<Rightarrow> ''VOICE'' | IVR_DTMF \<Rightarrow> ''DTMF'')),
               (''prompt'', JStr (co_prompt collect)),
               (''timeoutSec'', JNum (Fin (of_int (co_timeoutSec collect))))]))]"

definition publishBridge :: "router_env \<Rightarrow> nat \<Rightarrow> call_event \<Rightarrow> string \<Rightarrow> message" where
  "publishBridge env n event extension =
     (TELEPHONY_COMMANDS, envelope env n event (tc_callUuid (ev_payload event)) ''call.bridge''
        (bridgeCommand (tc_callUuid (ev_payload event)) (tc_vendor (ev_payload event))
           (tc_telephonyNodeId (ev_payload event)) extension))"

definition publishIvrResolution :: "router_env \<Rightarrow> call_event \<Rightarrow> string \<Rightarrow> string \<Rightarrow> string \<Rightarrow> string \<Rightarrow> message list" where
  "publishIvrResolution env event iid agentId extension queueId =
     [(INTERACTION_EVENTS, envelope env 0 event iid ''interaction.assigned''
         (voicePayload iid ASSIGNED [(''agentId'', JStr agentId), (''queueId'', JStr queueId)])),
      publishBridge env 1 event extension]"

definition publishDueOfferOutcome :: "router_env \<Rightarrow> DueOfferOutcome \<Rightarrow> message list" where
  "publishDueOfferOutcome env oc =
     (let iid = oc_interactionId oc;
          state = (if oc_agentId oc \<noteq> None then ASSIGNED else QUEUED);
          timedOut = (if oc_timedOut oc
            then [(INTERACTION_EVENTS, scheduledEnvelope env 0 oc iid ''interaction.offer_timed_out''
                    (voicePayload iid (if oc_abandoned oc then ABANDONED else state) (optField ''queueId'' (oc_queueId oc))))]
            else []);
          queued = (if oc_requeued oc
            then [(INTERACTION_EVENTS, scheduledEnvelope env 2 oc iid ''interaction.queued''
                    (voicePayload iid state (optField ''queueId'' (oc_queueId oc) @ optField ''reason'' (oc_reason oc))))]
            else []) in
      if oc_abandoned oc
      then timedOut @ [(INTERACTION_EVENTS, scheduledEnvelope env 1 oc iid ''interaction.abandoned''
             (voicePayload iid ABANDONED (optField ''queueId'' (oc_queueId oc) @ optField ''reason'' (oc_reason oc))))]
      else timedOut @ queued @
        (case (oc_agentId oc, oc_agentExtension oc) of
           (Some agent, Some extension) \<Rightarrow>
             if extension = [] then [] else
             [(AGENT_EVENTS, scheduledEnvelope env 3 oc iid ''routing.offered''
                 (JObj ([(''interactionId'', JStr iid), (''userId'', JStr agent)] @ optField ''queueId'' (oc_queueId oc)))),
              (TELEPHONY_COMMANDS, scheduledEnvelope env 4 oc (oc_callUuid oc) ''call.bridge''
                 (bridgeCommand (oc_callUuid oc) (oc_vendor oc) (oc_telephonyNodeId oc) extension))]
         | _ \<Rightarrow> []))"


section \<open>Inbound calls\<close>

definition resultFromInteraction :: "interaction \<Rightarrow> InboundVoiceRoutingResult" where
  "resultFromInteraction i = \<lparr>rs_interactionId = in_id i, rs_status = in_state i, rs_agentId = in_agentId i\<rparr>"

definition findCall :: "router_db \<Rightarrow> call_event \<Rightarrow> interaction option" where
  "findCall db ev =
     find (\<lambda>i. in_tenantId i = ev_tenantId ev \<and> in_externalId i = Some (tc_callUuid (ev_payload ev))) (db_interactions db)"

text \<open>What a transaction hands to the publishing part of its handler.\<close>

datatype inbound_outcome =
    Deduplicated InboundVoiceRoutingResult
  | IvrCollecting InboundVoiceRoutingResult IvrCollectRequest
  | StillQueued InboundVoiceRoutingResult "string option"
  | Offered InboundVoiceRoutingResult string string string

definition newInteraction ::
  "router_env \<Rightarrow> call_event \<Rightarrow> voice_destination \<Rightarrow> IvrConfiguration option \<Rightarrow> interaction" where
  "newInteraction env ev d ivr =
     \<lparr>in_id = env_newId env, in_tenantId = ev_tenantId ev, in_channel = ''VOICE'', in_direction = ''INBOUND'',
      in_state = QUEUED, in_queueId = (if vd_entryMode d = DIRECT_QUEUE then Some (vd_queueId d) else None),
      in_agentId = None, in_externalId = Some (tc_callUuid (ev_payload ev)), in_wrapUpCode = None,
      in_voiceWrapupPolicy = ''LEGACY'',
      in_metadata = Some (JObj [(''vendor'', JStr (vendorName (tc_vendor (ev_payload ev)))),
        (''telephonyNodeId'', JStr (tc_telephonyNodeId (ev_payload ev))),
        (''caller'', JStr (tc_caller (ev_payload ev))), (''destination'', JStr (tc_destination (ev_payload ev)))]),
      in_queuedAt = env_stamp env, in_assignedAt = None, in_answeredAt = None, in_endedAt = None,
      in_offerExpiresAt = None, in_requeueAt = None,
      in_ivrDestinationId = (case ivr of Some _ \<Rightarrow> Some (vd_id d) | None \<Rightarrow> None),
      in_ivrStage = (case ivr of Some _ \<Rightarrow> Some IVR_VOICE | None \<Rightarrow> None), in_ivrAttempts = 0,
      in_ivrInputExpiresAt = (case ivr of
          Some c \<Rightarrow> Some (plusSeconds (env_now env (ev_eventId ev) 0) (ic_inputTimeoutSec c)) | None \<Rightarrow> None)\<rparr>"

definition activeDestination :: "router_db \<Rightarrow> call_event \<Rightarrow> voice_destination option" where
  "activeDestination db ev =
     find (\<lambda>d. vd_tenantId d = ev_tenantId ev \<and> vd_destination d = tc_destination (ev_payload ev) \<and> vd_isActive d \<and>
               (case destinationQueue db d of Some q \<Rightarrow> qu_isActive q | None \<Rightarrow> False)) (db_destinations db)"

text \<open>The interaction row after an agent was chosen for it.\<close>

definition assignRow :: "string \<Rightarrow> time_ms \<Rightarrow> time_ms \<Rightarrow> interaction \<Rightarrow> interaction" where
  "assignRow agentId assignedAt offerExpiresAt i =
     i\<lparr>in_state := ASSIGNED, in_agentId := Some agentId, in_assignedAt := Some assignedAt,
       in_offerExpiresAt := Some offerExpiresAt\<rparr>"

definition createdTransaction :: "router_env \<Rightarrow> call_event \<Rightarrow> router_db \<Rightarrow> router_error + router_db \<times> inbound_outcome" where
  "createdTransaction env ev db =
     (case findCall db ev of
        Some existing \<Rightarrow> Inr (db, Deduplicated (resultFromInteraction existing))
      | None \<Rightarrow>
     (case activeDestination db ev of
        None \<Rightarrow> Inl NoActiveDestination
      | Some d \<Rightarrow>
          rbind (case vd_entryMode d of
                   IVR \<Rightarrow> rbind (ivrConfiguration (vd_ivrConfig d)) (\<lambda>c. Inr (Some c))
                 | DIRECT_QUEUE \<Rightarrow> Inr None) (\<lambda>ivr.
          let T = ev_tenantId ev;
              row = newInteraction env ev d ivr;
              iid = in_id row;
              queued = \<lparr>rs_interactionId = iid, rs_status = QUEUED, rs_agentId = None\<rparr>;
              db1 = db\<lparr>db_interactions := db_interactions db @ [row]\<rparr>;
              db2 = addEvent T iid ''interaction.queued'' (JObj []) (addEvent T iid ''interaction.created'' (JObj []) db1)
          in case ivr of
               Some c \<Rightarrow> Inr (db2, IvrCollecting queued
                 \<lparr>co_inputMode = IVR_VOICE, co_prompt = ic_prompt c, co_timeoutSec = ic_inputTimeoutSec c\<rparr>)
             | None \<Rightarrow>
                 (case destinationQueue db d of
                    None \<Rightarrow> Inl NoActiveDestination
                  | Some q \<Rightarrow>
                      let policy = resolveQueuePolicy (qu_policy q) in
                      case findAvailableAgent db2 T (vd_queueId d) (po_routingStrategy policy) of
                        None \<Rightarrow> Inr (db2, StillQueued queued None)
                      | Some agent \<Rightarrow>
                          let db3 = addLog env T (aa_id agent) RESERVED iid None db2;
                              db4 = updateInteractions (\<lambda>i. in_id i = iid)
                                (assignRow (aa_id agent) (env_now env (ev_eventId ev) 1)
                                   (plusSeconds (env_now env (ev_eventId ev) 2) (po_offerTimeoutSec policy))) db3;
                              db5 = addEvent T iid ''interaction.assigned'' (JObj [(''agentId'', JStr (aa_id agent))]) db4
                          in Inr (db5, Offered \<lparr>rs_interactionId = iid, rs_status = ASSIGNED, rs_agentId = Some (aa_id agent)\<rparr>
                               (aa_id agent) (aa_extension agent) (vd_queueId d))))))"

definition publishCreated :: "router_env \<Rightarrow> call_event \<Rightarrow> inbound_outcome \<Rightarrow> message list" where
  "publishCreated env ev out =
     (case out of
        Deduplicated r \<Rightarrow> []
      | IvrCollecting r c \<Rightarrow> publishLifecycle env ev (rs_interactionId r) None None @ publishCollect env ev c
      | StillQueued r _ \<Rightarrow> publishLifecycle env ev (rs_interactionId r) None None
      | Offered r agent extension queueId \<Rightarrow>
          publishLifecycle env ev (rs_interactionId r) (Some agent) (Some queueId) @
          [(AGENT_EVENTS, envelope env 3 ev (rs_interactionId r) ''routing.offered''
              (JObj [(''interactionId'', JStr (rs_interactionId r)), (''userId'', JStr agent), (''queueId'', JStr queueId)])),
           publishBridge env 4 ev extension])"

fun outcomeResult :: "inbound_outcome \<Rightarrow> InboundVoiceRoutingResult" where
  "outcomeResult (Deduplicated r) = r"
| "outcomeResult (IvrCollecting r _) = r"
| "outcomeResult (StillQueued r _) = r"
| "outcomeResult (Offered r _ _ _) = r"

type_synonym handled = "router_error + router_db \<times> InboundVoiceRoutingResult \<times> message list"

definition handleCreated :: "router_env \<Rightarrow> call_event \<Rightarrow> router_db \<Rightarrow> handled" where
  "handleCreated env ev db =
     (if ev_orderingKey ev \<noteq> tc_callUuid (ev_payload ev) then Inl OrderingKeyMismatch
      else rbind (createdTransaction env ev db) (\<lambda>(db', out). Inr (db', outcomeResult out, publishCreated env ev out)))"

section \<open>Answer and hang-up\<close>

definition handleAnswered :: "router_env \<Rightarrow> call_event \<Rightarrow> router_db \<Rightarrow> handled" where
  "handleAnswered env ev db =
     (case findCall db ev of
        None \<Rightarrow> Inl RecordNotFound
      | Some existing \<Rightarrow>
          (case (in_state existing, in_agentId existing) of
             (ASSIGNED, Some agent) \<Rightarrow>
               let T = ev_tenantId ev;
                   answeredAt = env_now env (ev_eventId ev) 0;
                   claim = (\<lambda>i. in_id i = in_id existing \<and> in_tenantId i = T \<and> in_state i = ASSIGNED \<and>
                     (in_offerExpiresAt existing \<noteq> None \<longrightarrow>
                        (case in_offerExpiresAt i of Some t \<Rightarrow> t > answeredAt | None \<Rightarrow> False))) in
               if countInteractions claim db = 0 then Inr (db, resultFromInteraction existing, [])
               else
                 let db1 = updateInteractions claim (\<lambda>i. i\<lparr>in_state := ACTIVE, in_answeredAt := Some answeredAt,
                             in_offerExpiresAt := None\<rparr>) db;
                     db2 = addLog env T agent BUSY (in_id existing) None db1;
                     db3 = addEvent T (in_id existing) ''interaction.answered'' (JObj [(''agentId'', JStr agent)]) db2
                 in Inr (db3, \<lparr>rs_interactionId = in_id existing, rs_status = ACTIVE, rs_agentId = Some agent\<rparr>,
                      [(INTERACTION_EVENTS, envelope env 0 ev (in_id existing) ''interaction.answered''
                          (voicePayload (in_id existing) ACTIVE [(''agentId'', JStr agent)]))])
           | _ \<Rightarrow> Inr (db, resultFromInteraction existing, [])))"

definition abandonRow :: "time_ms \<Rightarrow> interaction \<Rightarrow> interaction" where
  "abandonRow now i = i\<lparr>in_state := ABANDONED, in_endedAt := Some now, in_offerExpiresAt := None, in_requeueAt := None\<rparr>"

definition handleHangup :: "router_env \<Rightarrow> call_event \<Rightarrow> router_db \<Rightarrow> handled" where
  "handleHangup env ev db =
     (case findCall db ev of
        None \<Rightarrow> Inl RecordNotFound
      | Some existing \<Rightarrow>
          let T = ev_tenantId ev; iid = in_id existing in
          if in_state existing \<in> {WRAPUP, COMPLETED, ABANDONED}
          then Inr (db, resultFromInteraction existing, [])
          else if in_state existing \<in> {QUEUED, ASSIGNED}
          then
            let claim = (\<lambda>i. in_id i = iid \<and> in_tenantId i = T \<and> in_state i = in_state existing) in
            if countInteractions claim db = 0 then Inr (db, resultFromInteraction existing, [])
            else
              let db1 = updateInteractions claim (abandonRow (env_now env (ev_eventId ev) 0)) db;
                  db2 = (case in_agentId existing of Some agent \<Rightarrow> addLog env T agent AVAILABLE iid None db1 | None \<Rightarrow> db1);
                  db3 = addEvent T iid ''interaction.abandoned''
                    (JObj ([(''reason'', JStr ''caller_hangup'')] @ optField ''agentId'' (in_agentId existing))) db2
              in Inr (db3, \<lparr>rs_interactionId = iid, rs_status = ABANDONED, rs_agentId = in_agentId existing\<rparr>,
                   [(INTERACTION_EVENTS, envelope env 0 ev iid ''interaction.abandoned''
                       (voicePayload iid ABANDONED (optField ''agentId'' (in_agentId existing))))])
          else
            (case in_agentId existing of
               None \<Rightarrow> Inl HangupRequiresActive
             | Some agent \<Rightarrow>
                 let claim = (\<lambda>i. in_id i = iid \<and> in_tenantId i = T \<and> in_state i = ACTIVE) in
                 if countInteractions claim db = 0 then Inr (db, resultFromInteraction existing, [])
                 else
                   let db1 = updateInteractions claim (\<lambda>i. i\<lparr>in_state := WRAPUP,
                               in_endedAt := Some (env_now env (ev_eventId ev) 0)\<rparr>) db;
                       db2 = addLog env T agent ACW iid None db1;
                       db3 = addEvent T iid ''interaction.ended'' (JObj [(''agentId'', JStr agent)]) db2
                   in Inr (db3, \<lparr>rs_interactionId = iid, rs_status = WRAPUP, rs_agentId = Some agent\<rparr>,
                        [(INTERACTION_EVENTS, envelope env 0 ev iid ''interaction.ended''
                            (voicePayload iid WRAPUP [(''agentId'', JStr agent)]))])))"


section \<open>IVR input\<close>

text \<open>
  \<open>routes[key]\<close> on an unchecked JSON object: nothing, a JSON value, or a member inherited from
  \<open>Object.prototype\<close>, which is truthy and no queue identifier.
\<close>

datatype route_value = NoRoute | RouteValue json | InheritedRoute

fun routeLookup :: "json \<Rightarrow> string \<Rightarrow> route_value" where
  "routeLookup routes key =
     (case json_prop routes key of
        Some j \<Rightarrow> RouteValue j
      | None \<Rightarrow> if key \<in> set object_prototype_members then InheritedRoute else NoRoute)"

fun truthy :: "json \<Rightarrow> bool" where
  "truthy JNull = False"
| "truthy (JBool b) = b"
| "truthy (JNum n) = (n \<noteq> Fin 0 \<and> n \<noteq> NaN)"
| "truthy (JStr s) = (s \<noteq> [])"
| "truthy (JArr _) = True"
| "truthy (JObj _) = True"

fun routeTruthy :: "route_value \<Rightarrow> bool" where
  "routeTruthy NoRoute = False"
| "routeTruthy (RouteValue j) = truthy j"
| "routeTruthy InheritedRoute = True"

definition ivrRoute :: "IvrConfiguration \<Rightarrow> IvrInputStage \<Rightarrow> input_mode option \<Rightarrow> string option \<Rightarrow> route_value" where
  "ivrRoute c stage mode value =
     (case value of
        None \<Rightarrow> NoRoute
      | Some v \<Rightarrow>
          if v = [] then NoRoute
          else if stage = IVR_VOICE \<and> mode = Some INPUT_VOICE
            then routeLookup (ic_voiceRoutes c) (normalizedVoiceInput v)
          else if stage = IVR_VOICE \<and> mode = Some INPUT_DTMF
            then routeLookup (ic_dtmfRoutes c) (js_trim v)
          else if stage = IVR_DTMF \<and> mode = Some INPUT_DTMF
            then routeLookup (ic_dtmfRoutes c) (js_trim v)
          else NoRoute)"

text \<open>\<open>route ?? (attempts >= 2 ? destination.queueId : undefined)\<close>.\<close>

definition ivrTarget :: "route_value \<Rightarrow> int \<Rightarrow> string \<Rightarrow> route_value" where
  "ivrTarget route attempts defaultQueue =
     (if route = NoRoute \<or> route = RouteValue JNull
      then (if attempts \<ge> 2 then RouteValue (JStr defaultQueue) else NoRoute)
      else route)"

definition inputModeName :: "input_mode option \<Rightarrow> string" where
  "inputModeName m = (case m of Some INPUT_VOICE \<Rightarrow> ''VOICE'' | Some INPUT_DTMF \<Rightarrow> ''DTMF''
     | Some INPUT_TIMEOUT \<Rightarrow> ''TIMEOUT'' | None \<Rightarrow> [])"

definition collectAgain ::
  "router_env \<Rightarrow> call_event \<Rightarrow> interaction \<Rightarrow> IvrConfiguration \<Rightarrow> IvrInputStage \<Rightarrow> int \<Rightarrow> router_db \<Rightarrow> router_db \<times> inbound_outcome" where
  "collectAgain env ev i c stage attempts db =
     (updateInteractions (\<lambda>r. in_id r = in_id i \<and> in_tenantId r = ev_tenantId ev \<and> in_state r = QUEUED)
        (\<lambda>r. r\<lparr>in_ivrStage := Some stage, in_ivrAttempts := attempts,
               in_ivrInputExpiresAt := Some (plusSeconds (env_now env (ev_eventId ev) 1) (ic_inputTimeoutSec c))\<rparr>) db,
      IvrCollecting \<lparr>rs_interactionId = in_id i, rs_status = QUEUED, rs_agentId = None\<rparr>
        \<lparr>co_inputMode = stage, co_prompt = ic_prompt c, co_timeoutSec = ic_inputTimeoutSec c\<rparr>)"

definition resolveIvr ::
  "router_env \<Rightarrow> call_event \<Rightarrow> interaction \<Rightarrow> queue_policy \<Rightarrow> route_value \<Rightarrow> int \<Rightarrow> string \<Rightarrow> router_db \<Rightarrow>
     router_error + router_db \<times> inbound_outcome" where
  "resolveIvr env ev i policy route attempts queueId db =
     (if queueById db queueId = None then Inl InvalidQueueReference
      else
        let T = ev_tenantId ev; iid = in_id i;
            available = findAvailableAgent db T queueId (po_routingStrategy policy);
            leaveIvr = (\<lambda>r. r\<lparr>in_queueId := Some queueId, in_ivrStage := None, in_ivrInputExpiresAt := None,
              in_ivrAttempts := attempts\<rparr>);
            how = (if routeTruthy route then (''inputMode'', JStr (inputModeName (tc_inputMode (ev_payload ev))))
                   else (''reason'', JStr ''ivr_max_attempts'')) in
        case available of
          None \<Rightarrow>
            let db1 = updateInteractions (\<lambda>r. in_id r = iid) leaveIvr db;
                db2 = addEvent T iid ''interaction.ivr_resolved'' (JObj [(''queueId'', JStr queueId), how]) db1;
                db3 = addEvent T iid ''interaction.queued'' (JObj [(''queueId'', JStr queueId)]) db2
            in Inr (db3, StillQueued \<lparr>rs_interactionId = iid, rs_status = in_state i, rs_agentId = None\<rparr> (Some queueId))
        | Some agent \<Rightarrow>
            let db1 = updateInteractions (\<lambda>r. in_id r = iid)
                  (\<lambda>r. assignRow (aa_id agent) (env_now env (ev_eventId ev) 1)
                     (plusSeconds (env_now env (ev_eventId ev) 2) (po_offerTimeoutSec policy)) (leaveIvr r)) db;
                db2 = addLog env T (aa_id agent) RESERVED iid None db1;
                db3 = addEvent T iid ''interaction.ivr_resolved'' (JObj [(''queueId'', JStr queueId), how]) db2;
                db4 = addEvent T iid ''interaction.assigned''
                  (JObj [(''queueId'', JStr queueId), (''agentId'', JStr (aa_id agent))]) db3
            in Inr (db4, Offered \<lparr>rs_interactionId = iid, rs_status = ASSIGNED, rs_agentId = Some (aa_id agent)\<rparr>
                 (aa_id agent) (aa_extension agent) queueId))"

text \<open>The decision on one input, once the destination and its configuration are read.\<close>

definition ivrDecision ::
  "router_env \<Rightarrow> call_event \<Rightarrow> interaction \<Rightarrow> IvrInputStage \<Rightarrow> voice_destination \<Rightarrow> queue_row \<Rightarrow> IvrConfiguration \<Rightarrow> router_db \<Rightarrow>
     router_error + router_db \<times> inbound_outcome" where
  "ivrDecision env ev i stage d q c db =
     (let route = ivrRoute c stage (tc_inputMode (ev_payload ev)) (tc_inputValue (ev_payload ev));
          attempts = (if routeTruthy route then in_ivrAttempts i else in_ivrAttempts i + 1);
          target = ivrTarget route attempts (vd_queueId d) in
      if \<not> routeTruthy route \<and> stage = IVR_VOICE \<and> attempts < 2
      then let (db1, out) = collectAgain env ev i c IVR_DTMF attempts db in
        Inr (addEvent (ev_tenantId ev) (in_id i) ''interaction.ivr_dtmf_fallback'' (JObj []) db1, out)
      else if \<not> routeTruthy target then Inr (collectAgain env ev i c IVR_VOICE attempts db)
      else (case target of
        RouteValue (JStr queueId) \<Rightarrow>
          resolveIvr env ev i (resolveQueuePolicy (qu_policy q)) route attempts queueId db
      | _ \<Rightarrow> Inl InvalidQueueReference))"

definition ivrTransaction :: "router_env \<Rightarrow> call_event \<Rightarrow> router_db \<Rightarrow> router_error + router_db \<times> inbound_outcome" where
  "ivrTransaction env ev db =
     (case findCall db ev of
        None \<Rightarrow> Inl RecordNotFound
      | Some i \<Rightarrow>
     (case (in_state i, in_ivrDestinationId i, in_ivrStage i) of
        (QUEUED, Some did, Some stage) \<Rightarrow>
          if tc_inputMode (ev_payload ev) = Some INPUT_TIMEOUT \<and>
             (case in_ivrInputExpiresAt i of None \<Rightarrow> True | Some t \<Rightarrow> t > env_now env (ev_eventId ev) 0)
          then Inr (db, Deduplicated (resultFromInteraction i))
          else
            (case find (\<lambda>d. vd_id d = did \<and> vd_tenantId d = ev_tenantId ev \<and> vd_entryMode d = IVR) (db_destinations db) of
               None \<Rightarrow> Inl RecordNotFound
             | Some d \<Rightarrow>
                 rbind (ivrConfiguration (vd_ivrConfig d)) (\<lambda>c.
                 (case destinationQueue db d of
                    None \<Rightarrow> Inl RecordNotFound
                  | Some q \<Rightarrow>
                      ivrDecision env ev i stage d q c db)))
      | _ \<Rightarrow> Inr (db, Deduplicated (resultFromInteraction i))))"

definition publishIvr :: "router_env \<Rightarrow> call_event \<Rightarrow> inbound_outcome \<Rightarrow> message list" where
  "publishIvr env ev out =
     (case out of
        Deduplicated r \<Rightarrow> []
      | IvrCollecting r c \<Rightarrow> publishCollect env ev c
      | StillQueued r queueId \<Rightarrow>
          [(INTERACTION_EVENTS, envelope env 0 ev (rs_interactionId r) ''interaction.queued''
              (voicePayload (rs_interactionId r) QUEUED (optField ''queueId'' queueId)))]
      | Offered r agent extension queueId \<Rightarrow> publishIvrResolution env ev (rs_interactionId r) agent extension queueId)"

definition handleIvrInput :: "router_env \<Rightarrow> call_event \<Rightarrow> router_db \<Rightarrow> handled" where
  "handleIvrInput env ev db =
     (if ev_orderingKey ev \<noteq> tc_callUuid (ev_payload ev) then Inl OrderingKeyMismatch
      else rbind (ivrTransaction env ev db) (\<lambda>(db', out). Inr (db', outcomeResult out, publishIvr env ev out)))"

section \<open>Dispatch\<close>

definition managedCall :: "router_db \<Rightarrow> call_event \<Rightarrow> bool" where
  "managedCall db ev \<longleftrightarrow>
     list_ex (\<lambda>i. in_tenantId i = ev_tenantId ev \<and> in_externalId i = Some (tc_callUuid (ev_payload ev)) \<and>
        isManaged (interactionQueue db i)) (db_interactions db) \<or>
     ev_type ev = ''call.created'' \<and>
     list_ex (\<lambda>d. vd_tenantId d = ev_tenantId ev \<and> vd_destination d = tc_destination (ev_payload ev) \<and>
        isManaged (destinationQueue db d)) (db_destinations db)"

definition handle :: "router_env \<Rightarrow> call_event \<Rightarrow> router_db \<Rightarrow> handled" where
  "handle env ev db =
     (if managedCall db ev then Inl VOICE_CONFIG_V1_REQUIRED
      else if ev_type ev = ''call.answered'' then handleAnswered env ev db
      else if ev_type ev = ''call.hangup'' then handleHangup env ev db
      else if ev_type ev = ''call.input'' then handleIvrInput env ev db
      else if ev_type ev \<noteq> ''call.created'' then Inl (UnhandledEventType (ev_type ev))
      else handleCreated env ev db)"

section \<open>Agent commands\<close>

definition declineOffer :: "router_env \<Rightarrow> DeclineOfferCommand \<Rightarrow> router_db \<Rightarrow> handled" where
  "declineOffer env cmd db =
     (let T = dc_tenantId cmd; iid = dc_interactionId cmd in
      if list_ex (\<lambda>i. in_id i = iid \<and> in_tenantId i = T \<and> isManaged (interactionQueue db i)) (db_interactions db)
      then Inl VOICE_CONFIG_V1_REQUIRED
      else (case find (\<lambda>i. in_id i = iid \<and> in_tenantId i = T) (db_interactions db) of
        None \<Rightarrow> Inl RecordNotFound
      | Some existing \<Rightarrow>
          (case interactionQueue db existing of
             Some q \<Rightarrow>
               if in_state existing \<noteq> ASSIGNED \<or> in_agentId existing \<noteq> Some (dc_agentId cmd)
               then Inr (db, resultFromInteraction existing, [])
               else
                 let policy = resolveQueuePolicy (qu_policy q);
                     action = po_offerTimeoutAction policy;
                     abandoned = (action = ABANDON);
                     requeueAt = (if action = COOLDOWN_REQUEUE
                       then plusSeconds (env_now env iid 0) (po_offerCooldownSec policy) else env_now env iid 0);
                     claim = (\<lambda>i. in_id i = iid \<and> in_tenantId i = T \<and> in_agentId i = Some (dc_agentId cmd) \<and>
                       in_state i = ASSIGNED) in
                 if countInteractions claim db = 0 then Inr (db, resultFromInteraction existing, [])
                 else
                   let db1 = updateInteractions claim
                         (\<lambda>i. if abandoned
                               then i\<lparr>in_state := ABANDONED, in_endedAt := Some (env_now env iid 1), in_offerExpiresAt := None\<rparr>
                               else i\<lparr>in_state := QUEUED, in_agentId := None, in_offerExpiresAt := None,
                                      in_requeueAt := Some requeueAt\<rparr>) db;
                       db2 = (if action = COOLDOWN_REQUEUE
                              then addLog env T (dc_agentId cmd) BREAK (''cooldown:'' @ iid) (Some requeueAt) db1
                              else addLog env T (dc_agentId cmd) AVAILABLE iid None db1);
                       db3 = addEvent T iid ''interaction.offer_declined'' (JObj [(''agentId'', JStr (dc_agentId cmd))]) db2;
                       db4 = addEvent T iid (if abandoned then ''interaction.abandoned'' else ''interaction.queued'')
                         (JObj [(''reason'', JStr ''agent_declined'')]) db3;
                       state = (if abandoned then ABANDONED else QUEUED);
                       agent = (if abandoned then in_agentId existing else None)
                   in Inr (db4, \<lparr>rs_interactionId = iid, rs_status = state, rs_agentId = agent\<rparr>,
                        [(INTERACTION_EVENTS, commandEnvelope env 0 T iid ''interaction.offer_declined''
                            (voicePayload iid state [(''agentId'', JStr (dc_agentId cmd))])),
                         (INTERACTION_EVENTS, commandEnvelope env 1 T iid
                            (if abandoned then ''interaction.abandoned'' else ''interaction.queued'')
                            (voicePayload iid state (optField ''agentId'' agent)))])
           | None \<Rightarrow> Inr (db, resultFromInteraction existing, []))))"

definition completeWrapUp :: "router_env \<Rightarrow> CompleteWrapUpCommand \<Rightarrow> router_db \<Rightarrow> handled" where
  "completeWrapUp env cmd db =
     (let code = js_trim (cw_code cmd); T = cw_tenantId cmd; iid = cw_interactionId cmd in
      if code = [] then Inl WrapUpCodeRequired
      else (case find (\<lambda>i. in_id i = iid \<and> in_tenantId i = T) (db_interactions db) of
        None \<Rightarrow> Inl RecordNotFound
      | Some existing \<Rightarrow>
          if in_voiceWrapupPolicy existing = ''VOICE_NOTE_V1'' then Inl WRAPUP_V1_REQUIRED
          else if in_state existing = COMPLETED then Inr (db, resultFromInteraction existing, [])
          else if in_state existing \<noteq> WRAPUP \<or> in_agentId existing \<noteq> Some (cw_agentId cmd)
          then Inl WrapUpRequiresAssignedAgent
          else
            let claim = (\<lambda>i. in_id i = iid \<and> in_tenantId i = T \<and> in_agentId i = Some (cw_agentId cmd) \<and>
                  in_state i = WRAPUP) in
            if countInteractions claim db = 0 then Inr (db, resultFromInteraction existing, [])
            else
              let db1 = updateInteractions claim (\<lambda>i. i\<lparr>in_state := COMPLETED, in_wrapUpCode := Some code\<rparr>) db;
                  db2 = addLog env T (cw_agentId cmd) AVAILABLE iid None db1;
                  db3 = addEvent T iid ''interaction.wrapup_completed''
                    (JObj [(''agentId'', JStr (cw_agentId cmd)), (''wrapUpCode'', JStr code)]) db2
              in Inr (db3, \<lparr>rs_interactionId = iid, rs_status = COMPLETED, rs_agentId = in_agentId existing\<rparr>,
                   [(INTERACTION_EVENTS, commandEnvelope env 0 T iid ''interaction.wrapup_completed''
                       (voicePayload iid COMPLETED [(''agentId'', JStr (cw_agentId cmd)), (''wrapUpCode'', JStr code)]))])))"


section \<open>Due work\<close>

text \<open>A loop whose body may throw.\<close>

fun rfold :: "('a \<Rightarrow> 's \<Rightarrow> 'e + 's) \<Rightarrow> 'a list \<Rightarrow> 's \<Rightarrow> 'e + 's" where
  "rfold f [] s = Inr s"
| "rfold f (x # xs) s = rbind (f x s) (rfold f xs)"

type_synonym due_state = "router_db \<times> DueOfferOutcome list"

definition dueBy :: "time_ms \<Rightarrow> time_ms option \<Rightarrow> bool" where
  "dueBy now t = (case t of Some x \<Rightarrow> x \<le> now | None \<Rightarrow> False)"

definition callOf :: "interaction \<Rightarrow> string option" where
  "callOf i = (case in_externalId i of Some c \<Rightarrow> if c = [] then None else Some c | None \<Rightarrow> None)"

definition dueOutcome :: "string \<Rightarrow> interaction \<Rightarrow> string \<Rightarrow> vendor \<times> string \<Rightarrow> DueOfferOutcome" where
  "dueOutcome T i call m =
     \<lparr>oc_interactionId = in_id i, oc_tenantId = T, oc_queueId = in_queueId i, oc_agentId = None,
      oc_agentExtension = None, oc_callUuid = call, oc_vendor = fst m, oc_telephonyNodeId = snd m,
      oc_timedOut = False, oc_requeued = False, oc_abandoned = False, oc_reason = None\<rparr>"

definition timeoutEvents :: "router_env \<Rightarrow> string \<Rightarrow> interaction \<Rightarrow> router_error + call_event list" where
  "timeoutEvents env T i =
     (case callOf i of
        None \<Rightarrow> Inr []
      | Some call \<Rightarrow>
          rbind (telephonyCallMetadata (in_metadata i)) (\<lambda>(v, node, caller, dest).
          Inr [\<lparr>ev_eventId = env_eventId env (in_id i) 20, ev_type = ''call.input'', ev_tenantId = T,
                ev_occurredAt = env_now env (in_id i) 20, ev_correlationId = call, ev_orderingKey = call,
                ev_payload = \<lparr>tc_callUuid = call, tc_vendor = v, tc_telephonyNodeId = node, tc_caller = caller,
                  tc_destination = dest, tc_inputMode = Some INPUT_TIMEOUT, tc_inputValue = None\<rparr>\<rparr>]))"

definition dueIvrInputs :: "router_env \<Rightarrow> string \<Rightarrow> time_ms \<Rightarrow> router_db \<Rightarrow> router_error + call_event list" where
  "dueIvrInputs env T now db =
     rbind (rmap (timeoutEvents env T)
           (filter (\<lambda>i. in_tenantId i = T \<and> in_channel i = ''VOICE'' \<and> in_state i = QUEUED \<and> in_ivrStage i \<noteq> None \<and>
              dueBy now (in_ivrInputExpiresAt i) \<and> (in_queueId i = None \<or> isUnversioned (interactionQueue db i)))
             (db_interactions db)))
       (\<lambda>events. Inr (concat events))"

definition offerDue :: "string \<Rightarrow> time_ms \<Rightarrow> interaction \<Rightarrow> interaction \<Rightarrow> bool" where
  "offerDue T now due i \<longleftrightarrow> in_id i = in_id due \<and> in_tenantId i = T \<and> in_state i = ASSIGNED \<and> dueBy now (in_offerExpiresAt i)"

definition abandonOffer ::
  "router_env \<Rightarrow> string \<Rightarrow> time_ms \<Rightarrow> interaction \<Rightarrow> string \<Rightarrow> router_db \<Rightarrow> router_db" where
  "abandonOffer env T now due agent db =
     addEvent T (in_id due) ''interaction.abandoned'' (JObj [(''reason'', JStr ''offer_timeout'')])
      (addEvent T (in_id due) ''interaction.offer_timed_out'' (JObj [(''agentId'', JStr agent)])
       (addLog env T agent AVAILABLE (in_id due) None
        (updateInteractions (offerDue T now due)
          (\<lambda>i. i\<lparr>in_state := ABANDONED, in_endedAt := Some now, in_offerExpiresAt := None\<rparr>) db)))"

definition requeueOffer ::
  "router_env \<Rightarrow> string \<Rightarrow> time_ms \<Rightarrow> interaction \<Rightarrow> string \<Rightarrow> queue_policy \<Rightarrow> router_db \<Rightarrow> router_db" where
  "requeueOffer env T now due agent policy db =
     (let cooldown = (po_offerTimeoutAction policy = COOLDOWN_REQUEUE);
          iid = in_id due;
          db1 = updateInteractions (offerDue T now due)
            (\<lambda>i. i\<lparr>in_state := QUEUED, in_agentId := None, in_offerExpiresAt := None,
                   in_requeueAt := (if cooldown then Some (plusSeconds (env_now env iid 0) (po_offerCooldownSec policy)) else None)\<rparr>) db;
          db2 = (if cooldown
                 then addLog env T agent BREAK (''cooldown:'' @ iid)
                        (Some (plusSeconds (env_now env iid 1) (po_offerCooldownSec policy))) db1
                 else addLog env T agent AVAILABLE iid None db1)
      in addEvent T iid ''interaction.queued'' (JObj [(''reason'', JStr ''offer_timeout'')])
           (addEvent T iid ''interaction.offer_timed_out'' (JObj [(''agentId'', JStr agent)]) db2))"

definition offerAgain ::
  "router_env \<Rightarrow> string \<Rightarrow> (interaction \<Rightarrow> bool) \<Rightarrow> (interaction \<Rightarrow> interaction) \<Rightarrow> interaction \<Rightarrow> string \<Rightarrow> string \<Rightarrow>
     router_db \<Rightarrow> router_db" where
  "offerAgain env T claim assign due agent reason db =
     addEvent T (in_id due) ''interaction.assigned'' (JObj [(''agentId'', JStr agent), (''reason'', JStr reason)])
       (addLog env T agent RESERVED (in_id due) None (updateInteractions claim assign db))"

definition dueOfferStep :: "router_env \<Rightarrow> string \<Rightarrow> time_ms \<Rightarrow> interaction \<Rightarrow> due_state \<Rightarrow> router_error + due_state" where
  "dueOfferStep env T now due = (\<lambda>(db, outs).
     (case (in_agentId due, callOf due, interactionQueue db due, in_queueId due) of
        (Some agent, Some call, Some q, Some queueId) \<Rightarrow>
          rbind (telephonyMetadata (in_metadata due)) (\<lambda>m.
          let policy = resolveQueuePolicy (qu_policy q);
              timedOut = (dueOutcome T due call m)\<lparr>oc_timedOut := True\<rparr>;
              requeued = timedOut\<lparr>oc_requeued := True\<rparr> in
          if countInteractions (offerDue T now due) db = 0 then Inr (db, outs)
          else if po_offerTimeoutAction policy = ABANDON
          then Inr (abandonOffer env T now due agent db, outs @ [timedOut\<lparr>oc_abandoned := True\<rparr>])
          else
            let db1 = requeueOffer env T now due agent policy db in
            if po_offerTimeoutAction policy = COOLDOWN_REQUEUE then Inr (db1, outs @ [requeued])
            else (case findAvailableAgent db1 T queueId (po_routingStrategy policy) of
              None \<Rightarrow> Inr (db1, outs @ [requeued])
            | Some available \<Rightarrow>
                let claim = (\<lambda>i. in_id i = in_id due \<and> in_tenantId i = T \<and> in_state i = QUEUED \<and> in_agentId i = None) in
                if countInteractions claim db1 = 0 then Inr (db1, outs)
                else Inr (offerAgain env T claim
                       (assignRow (aa_id available) now (plusSeconds (env_now env (in_id due) 2) (po_offerTimeoutSec policy)))
                       due (aa_id available) ''offer_timeout_requeue'' db1,
                     outs @ [requeued\<lparr>oc_agentId := Some (aa_id available), oc_agentExtension := Some (aa_extension available)\<rparr>])))
      | _ \<Rightarrow> Inr (db, outs)))"

definition releaseExpiredCooldowns :: "router_env \<Rightarrow> string \<Rightarrow> time_ms \<Rightarrow> router_db \<Rightarrow> router_db" where
  "releaseExpiredCooldowns env T now db =
     (let agents = map al_userId (filter (\<lambda>l. al_tenantId l = T \<and> al_state l = BREAK \<and>
            take (length ''cooldown:'') (al_reason l) = ''cooldown:'' \<and> dueBy now (al_endedAt l) \<and>
            list_all (\<lambda>later. \<not> (al_tenantId later = T \<and> al_userId later = al_userId l \<and>
               (al_startedAt later, al_id later) > (al_startedAt l, al_id l))) (db_logs db)) (db_logs db)) in
      fold (\<lambda>agent. addLog env T agent AVAILABLE ''offer_cooldown_elapsed'' None) agents db)"

definition requeueDue :: "string \<Rightarrow> time_ms \<Rightarrow> interaction \<Rightarrow> interaction \<Rightarrow> bool" where
  "requeueDue T now due i \<longleftrightarrow> in_id i = in_id due \<and> in_tenantId i = T \<and> in_state i = QUEUED \<and> dueBy now (in_requeueAt i)"

definition dueRequeueStep :: "router_env \<Rightarrow> string \<Rightarrow> time_ms \<Rightarrow> interaction \<Rightarrow> due_state \<Rightarrow> router_error + due_state" where
  "dueRequeueStep env T now due = (\<lambda>(db, outs).
     (case (callOf due, interactionQueue db due, in_queueId due) of
        (Some call, Some q, Some queueId) \<Rightarrow>
          let policy = resolveQueuePolicy (qu_policy q) in
          (case findAvailableAgent db T queueId (po_routingStrategy policy) of
             None \<Rightarrow> Inr (db, outs)
           | Some available \<Rightarrow>
               if countInteractions (requeueDue T now due) db = 0 then Inr (db, outs)
               else rbind (telephonyMetadata (in_metadata due)) (\<lambda>m.
                 Inr (offerAgain env T (requeueDue T now due)
                        (\<lambda>i. (assignRow (aa_id available) now
                            (plusSeconds (env_now env (in_id due) 3) (po_offerTimeoutSec policy)) i)\<lparr>in_requeueAt := None\<rparr>)
                        due (aa_id available) ''offer_cooldown_elapsed'' db,
                      outs @ [(dueOutcome T due call m)\<lparr>oc_agentId := Some (aa_id available),
                        oc_agentExtension := Some (aa_extension available)\<rparr>])))
      | _ \<Rightarrow> Inr (db, outs)))"

definition maxWaitStep :: "string \<Rightarrow> time_ms \<Rightarrow> interaction \<Rightarrow> due_state \<Rightarrow> router_error + due_state" where
  "maxWaitStep T now waiting = (\<lambda>(db, outs).
     (case (callOf waiting, interactionQueue db waiting) of
        (Some call, Some q) \<Rightarrow>
          let policy = resolveQueuePolicy (qu_policy q);
              iid = in_id waiting;
              claim = (\<lambda>i. in_id i = iid \<and> in_tenantId i = T \<and> in_state i = QUEUED \<and> in_queuedAt i = in_queuedAt waiting) in
          if (case po_maxWaitSec policy of None \<Rightarrow> True | Some s \<Rightarrow> s = 0 \<or> plusSeconds (in_queuedAt waiting) s > now)
          then Inr (db, outs)
          else if countInteractions claim db = 0 then Inr (db, outs)
          else if po_maxWaitAction policy \<noteq> WAIT
          then
            let reason = (if po_maxWaitAction policy = CALLBACK then ''max_wait_callback'' else ''max_wait_voicemail'') in
            rbind (telephonyMetadata (in_metadata waiting)) (\<lambda>m.
            Inr (addEvent T iid ''interaction.abandoned'' (JObj [(''reason'', JStr reason)])
                   (updateInteractions claim (\<lambda>i. i\<lparr>in_state := ABANDONED, in_endedAt := Some now, in_requeueAt := None\<rparr>) db),
                 outs @ [(dueOutcome T waiting call m)\<lparr>oc_abandoned := True, oc_reason := Some reason\<rparr>]))
          else
            rbind (telephonyMetadata (in_metadata waiting)) (\<lambda>m.
            Inr (addEvent T iid ''interaction.queued'' (JObj [(''reason'', JStr ''max_wait_wait'')])
                   (updateInteractions claim (\<lambda>i. i\<lparr>in_queuedAt := now, in_requeueAt := Some now\<rparr>) db),
                 outs @ [(dueOutcome T waiting call m)\<lparr>oc_requeued := True, oc_reason := Some ''max_wait_wait''\<rparr>]))
      | _ \<Rightarrow> Inr (db, outs)))"

definition dueTransaction ::
  "router_env \<Rightarrow> string \<Rightarrow> time_ms \<Rightarrow> router_db \<Rightarrow> router_error + due_state \<times> call_event list" where
  "dueTransaction env T now db =
     (let voiceIn = (\<lambda>db i. in_tenantId i = T \<and> in_channel i = ''VOICE'' \<and> isUnversioned (interactionQueue db i)) in
      rbind (dueIvrInputs env T now db) (\<lambda>timeouts.
      rbind (rfold (dueOfferStep env T now)
               (filter (\<lambda>i. voiceIn db i \<and> in_state i = ASSIGNED \<and> dueBy now (in_offerExpiresAt i)) (db_interactions db))
               (db, [])) (\<lambda>(db1, outs1).
      let db2 = releaseExpiredCooldowns env T now db1 in
      rbind (rfold (dueRequeueStep env T now)
               (filter (\<lambda>i. voiceIn db2 i \<and> in_state i = QUEUED \<and> dueBy now (in_requeueAt i)) (db_interactions db2))
               (db2, outs1)) (\<lambda>(db3, outs3).
      rbind (rfold (maxWaitStep T now)
               (filter (\<lambda>i. voiceIn db3 i \<and> in_state i = QUEUED) (db_interactions db3)) (db3, outs3)) (\<lambda>final.
      Inr (final, timeouts))))))"

text \<open>
  Every tenant is one transaction: when it throws, the transactions of the tenants before it stay
  committed, and nothing is published.
\<close>

fun dueTenants ::
  "router_env \<Rightarrow> time_ms \<Rightarrow> string list \<Rightarrow> router_db \<Rightarrow> DueOfferOutcome list \<Rightarrow> call_event list \<Rightarrow>
     router_db \<times> (router_error + DueOfferOutcome list \<times> call_event list)" where
  "dueTenants env now [] db outs timeouts = (db, Inr (outs, timeouts))"
| "dueTenants env now (T # Ts) db outs timeouts =
     (case dueTransaction env T now db of
        Inl e \<Rightarrow> (db, Inl e)
      | Inr ((db', outs'), timeouts') \<Rightarrow> dueTenants env now Ts db' (outs @ outs') (timeouts @ timeouts'))"

fun handleAll :: "router_env \<Rightarrow> call_event list \<Rightarrow> router_db \<Rightarrow> message list \<Rightarrow> router_db \<times> message list \<times> router_error option" where
  "handleAll env [] db msgs = (db, msgs, None)"
| "handleAll env (ev # evs) db msgs =
     (case handle env ev db of
        Inl e \<Rightarrow> (db, msgs, Some e)
      | Inr (db', r, ms) \<Rightarrow> handleAll env evs db' (msgs @ ms))"

definition processDue :: "router_env \<Rightarrow> router_db \<Rightarrow> router_db \<times> message list \<times> router_error option" where
  "processDue env db =
     (case dueTenants env (env_now env ''processDue'' 0) (db_tenants db) db [] [] of
        (db', Inl e) \<Rightarrow> (db', [], Some e)
      | (db', Inr (outs, timeouts)) \<Rightarrow>
          handleAll env timeouts db' (concat (map (publishDueOfferOutcome env) outs)))"

end
