(* ===== verification/VoiceRouting.thy ===== *)
theory VoiceRouting
  imports VoiceRouter
begin

text \<open>
  What the voice router guarantees. Every transaction of the router is a sequence of moves of one
  interaction and one agent; the moves are the specification, the handlers are shown to refine
  them, and the guarantees are proved once for the moves: an agent holds at most one live
  interaction, a tenant's work never touches another tenant's rows, and finished interactions stay
  finished.
\<close>

section \<open>Latest agent state\<close>

definition logsOrdered :: "router_db \<Rightarrow> bool" where
  "logsOrdered db \<longleftrightarrow>
     sorted_wrt (\<lambda>a b. al_startedAt a \<le> al_startedAt b \<and> al_id a < al_id b) (db_logs db) \<and>
     (\<forall>l \<in> set (db_logs db). al_id l < int (length (db_logs db)))"

definition clockOk :: "router_env \<Rightarrow> router_db \<Rightarrow> bool" where
  "clockOk env db \<longleftrightarrow> (\<forall>l \<in> set (db_logs db). al_startedAt l \<le> env_stamp env)"

definition userLogs :: "router_db \<Rightarrow> string \<Rightarrow> string \<Rightarrow> agent_state_log list" where
  "userLogs db T u = filter (\<lambda>l. al_tenantId l = T \<and> al_userId l = u) (db_logs db)"

lemma sorted_wrt_filter': "sorted_wrt P xs \<Longrightarrow> sorted_wrt P (filter Q xs)"
  by (induction xs) auto

lemma latestLog_last:
  assumes "logsOrdered db"
  shows "latestLog db T u = (if userLogs db T u = [] then None else Some (last (userLogs db T u)))"
proof -
  have "sorted_wrt (\<lambda>a b. al_startedAt a \<le> al_startedAt b \<and> al_id a < al_id b) (userLogs db T u)"
    using assms unfolding logsOrdered_def userLogs_def by (blast intro: sorted_wrt_filter')
  then have "sorted_wrt (\<lambda>a b. (al_startedAt a, al_id a) \<le> (al_startedAt b, al_id b)) (userLogs db T u)"
    by (rule sorted_wrt_mono_rel [rotated]) (auto simp: less_eq_prod_def)
  then have "sorted (map (\<lambda>l. (al_startedAt l, al_id l)) (userLogs db T u))" by (simp add: sorted_wrt_map)
  then have "sort_key (\<lambda>l. (al_startedAt l, al_id l)) (userLogs db T u) = userLogs db T u"
    by (rule sort_key_id_if_sorted)
  then show ?thesis by (simp add: latestLog_def Let_def userLogs_def)
qed

definition newLog :: "string option \<Rightarrow> router_env \<Rightarrow> router_db \<Rightarrow> string \<Rightarrow> string \<Rightarrow> AgentStateType \<Rightarrow> string \<Rightarrow> time_ms option \<Rightarrow> agent_state_log" where
  "newLog ac env db T u st r e =
     \<lparr>al_id = int (length (db_logs db)), al_tenantId = T, al_userId = u, al_state = st, al_reason = r,
      al_startedAt = env_stamp env, al_endedAt = e, al_actorUserId = ac\<rparr>"

lemma addLog_logs [simp]: "db_logs (addLogBy ac env T u st r e db) = db_logs db @ [newLog ac env db T u st r e]"
  by (simp add: addLogBy_def newLog_def)

lemma logsOrdered_addLog: "logsOrdered db \<Longrightarrow> clockOk env db \<Longrightarrow> logsOrdered (addLogBy ac env T u st r e db)"
  by (auto simp: logsOrdered_def clockOk_def sorted_wrt_append newLog_def)

lemma clockOk_addLog: "clockOk env db \<Longrightarrow> clockOk env (addLogBy ac env T u st r e db)"
  by (auto simp: clockOk_def newLog_def)

lemma latestLog_addLog:
  assumes "logsOrdered db" and "clockOk env db"
  shows "latestLog (addLogBy ac env T u st r e db) T' u' =
    (if T' = T \<and> u' = u then Some (newLog ac env db T u st r e) else latestLog db T' u')"
  unfolding latestLog_last [OF assms(1)] latestLog_last [OF logsOrdered_addLog [OF assms]]
  by (auto simp: userLogs_def newLog_def)

lemma tables_simps [simp]:
  "db_interactions (addLogBy ac env T u st r e db) = db_interactions db"
  "db_interactions (addEvent T iid ty pl db) = db_interactions db"
  "db_logs (addEvent T iid ty pl db) = db_logs db"
  "db_logs (updateInteractions P f db) = db_logs db"
  "db_interactions (updateInteractions P f db) = map (\<lambda>i. if P i then f i else i) (db_interactions db)"
  "db_events (addLogBy ac env T u st r e db) = db_events db"
  "db_events (updateInteractions P f db) = db_events db"
  "db_queues (addLogBy ac env T u st r e db) = db_queues db"
  "db_queues (addEvent T iid ty pl db) = db_queues db"
  "db_queues (updateInteractions P f db) = db_queues db"
  "db_destinations (addLogBy ac env T u st r e db) = db_destinations db"
  "db_destinations (addEvent T iid ty pl db) = db_destinations db"
  "db_destinations (updateInteractions P f db) = db_destinations db"
  by (simp_all add: addLogBy_def addEvent_def updateInteractions_def)

lemma latestLog_same_logs: "db_logs db = db_logs db' \<Longrightarrow> latestLog db = latestLog db'"
  by (simp add: latestLog_def fun_eq_iff)

lemma latestLog_simps [simp]:
  "latestLog (addEvent T iid ty pl db) = latestLog db"
  "latestLog (updateInteractions P f db) = latestLog db"
  "latestLog (db\<lparr>db_interactions := xs\<rparr>) = latestLog db"
  by (rule latestLog_same_logs; simp)+

section \<open>Moves\<close>

text \<open>The agent state a live interaction claims of its agent.\<close>

definition holds :: "InteractionStateType \<Rightarrow> AgentStateType option" where
  "holds st = (case st of ASSIGNED \<Rightarrow> Some RESERVED | ACTIVE \<Rightarrow> Some BUSY | WRAPUP \<Rightarrow> Some ACW | _ \<Rightarrow> None)"

definition allowed :: "InteractionStateType \<Rightarrow> InteractionStateType \<Rightarrow> bool" where
  "allowed st st' \<longleftrightarrow> (st, st') \<in> {(QUEUED, ASSIGNED), (QUEUED, ABANDONED), (ASSIGNED, QUEUED), (ASSIGNED, ACTIVE),
     (ASSIGNED, ABANDONED), (ACTIVE, WRAPUP), (WRAPUP, COMPLETED)}"

definition sameCall :: "interaction \<Rightarrow> interaction \<Rightarrow> bool" where
  "sameCall i j \<longleftrightarrow> in_id j = in_id i \<and> in_tenantId j = in_tenantId i \<and> in_externalId j = in_externalId i \<and>
     in_channel j = in_channel i"

definition setRow :: "interaction \<Rightarrow> router_db \<Rightarrow> router_db" where
  "setRow j db = updateInteractions (\<lambda>i. in_id i = in_id j) (\<lambda>_. j) db"

inductive move :: "router_env \<Rightarrow> string \<Rightarrow> router_db \<Rightarrow> router_db \<Rightarrow> bool" for env T where
  event: "move env T db (addEvent T iid ty pl db)"
| create: "in_tenantId row = T \<Longrightarrow> in_channel row = ''VOICE'' \<Longrightarrow> in_state row = QUEUED \<Longrightarrow> in_agentId row = None \<Longrightarrow>
    in_id row \<notin> in_id ` set (db_interactions db) \<Longrightarrow> move env T db (db\<lparr>db_interactions := db_interactions db @ [row]\<rparr>)"
| waiting: "i \<in> set (db_interactions db) \<Longrightarrow> in_tenantId i = T \<Longrightarrow> in_state i = QUEUED \<Longrightarrow> sameCall i j \<Longrightarrow>
    in_agentId j = in_agentId i \<Longrightarrow> in_state j \<in> {QUEUED, ABANDONED} \<Longrightarrow> move env T db (setRow j db)"
| offer: "i \<in> set (db_interactions db) \<Longrightarrow> in_tenantId i = T \<Longrightarrow> in_state i = QUEUED \<Longrightarrow> sameCall i j \<Longrightarrow>
    latestLog db T a = Some l \<Longrightarrow> al_state l = AVAILABLE \<Longrightarrow> in_state j = ASSIGNED \<Longrightarrow> in_agentId j = Some a \<Longrightarrow>
    move env T db (addLog env T a RESERVED (in_id i) None (setRow j db))"
| agent: "i \<in> set (db_interactions db) \<Longrightarrow> in_tenantId i = T \<Longrightarrow> sameCall i j \<Longrightarrow> in_agentId i = Some a \<Longrightarrow>
    in_state i \<noteq> QUEUED \<Longrightarrow> allowed (in_state i) (in_state j) \<Longrightarrow>
    in_agentId j = (if in_state j = QUEUED then None else Some a) \<Longrightarrow>
    (case holds (in_state j) of Some st' \<Rightarrow> st = st' \<and> r = in_id i | None \<Rightarrow> st \<in> {AVAILABLE, BREAK}) \<Longrightarrow>
    move env T db (addLog env T a st r e (setRow j db))"
| presence: "\<forall>k \<in> set (db_interactions db). in_tenantId k = T \<longrightarrow> in_agentId k = Some a \<longrightarrow>
      holds (in_state k) = None \<or> in_state k = ASSIGNED \<and> st = OFFLINE \<Longrightarrow>
    st \<in> {OFFLINE, AVAILABLE, BREAK} \<Longrightarrow> move env T db (addLogBy ac env T a st r None db)"
| cooldown: "latestLog db T a = Some l \<Longrightarrow> al_state l = BREAK \<Longrightarrow> move env T db (addLog env T a AVAILABLE r None db)"

section \<open>The invariant\<close>

text \<open>
  The agent of a live interaction is logged in the state it claims. An agent who has left while a
  call was on offer is logged OFFLINE; the offer stays with the agent until it is answered or ends.
\<close>

definition agentHeld :: "router_db \<Rightarrow> interaction \<Rightarrow> bool" where
  "agentHeld db i \<longleftrightarrow>
     (case holds (in_state i) of
        None \<Rightarrow> True
      | Some st \<Rightarrow> \<exists>a l. in_agentId i = Some a \<and> latestLog db (in_tenantId i) a = Some l \<and>
          (al_state l = st \<or> in_state i = ASSIGNED \<and> al_state l = OFFLINE))"

definition oneLive :: "router_db \<Rightarrow> bool" where
  "oneLive db \<longleftrightarrow>
     (\<forall>i \<in> set (db_interactions db). \<forall>k \<in> set (db_interactions db). in_tenantId i = in_tenantId k \<longrightarrow> in_agentId i = in_agentId k \<longrightarrow>
        holds (in_state i) \<noteq> None \<longrightarrow> holds (in_state k) \<noteq> None \<longrightarrow> in_id i = in_id k)"

definition routerInv :: "router_db \<Rightarrow> bool" where
  "routerInv db \<longleftrightarrow>
     distinct (map in_id (db_interactions db)) \<and> logsOrdered db \<and> oneLive db \<and>
     (\<forall>i \<in> set (db_interactions db). in_channel i = ''VOICE'' \<and> agentHeld db i \<and> (in_state i = QUEUED \<longrightarrow> in_agentId i = None))"

lemma routerInvD:
  assumes "routerInv db"
  shows "distinct (map in_id (db_interactions db))" "logsOrdered db"
    "i \<in> set (db_interactions db) \<Longrightarrow> agentHeld db i"
    "i \<in> set (db_interactions db) \<Longrightarrow> in_state i = QUEUED \<Longrightarrow> in_agentId i = None"
    "i \<in> set (db_interactions db) \<Longrightarrow> in_channel i = ''VOICE''" "oneLive db"
  using assms by (auto simp: routerInv_def)

lemma row_unique:
  "distinct (map in_id xs) \<Longrightarrow> i \<in> set xs \<Longrightarrow> k \<in> set xs \<Longrightarrow> in_id i = in_id k \<Longrightarrow> i = k"
  by (metis distinct_map inj_onD)

lemma set_setRow:
  "set (db_interactions (setRow j db)) = {k \<in> set (db_interactions db). in_id k \<noteq> in_id j} \<union>
     (if in_id j \<in> in_id ` set (db_interactions db) then {j} else {})"
  unfolding setRow_def by (auto 0 3 simp: image_iff)

lemma map_id_setRow [simp]: "map in_id (db_interactions (setRow j db)) = map in_id (db_interactions db)"
  by (simp add: setRow_def comp_def)

lemma setRow_logs [simp]: "db_logs (setRow j db) = db_logs db" "latestLog (setRow j db) = latestLog db"
  by (simp_all add: setRow_def)

lemma logsOrdered_same [simp]:
  "logsOrdered (setRow j db) = logsOrdered db" "clockOk env (setRow j db) = clockOk env db"
  "logsOrdered (addEvent T iid ty pl db) = logsOrdered db" "clockOk env (addEvent T iid ty pl db) = clockOk env db"
  "logsOrdered (db\<lparr>db_interactions := xs\<rparr>) = logsOrdered db" "clockOk env (db\<lparr>db_interactions := xs\<rparr>) = clockOk env db"
  by (simp_all add: logsOrdered_def clockOk_def)

text \<open>The agent of a live interaction is neither available nor on a break.\<close>

lemma held_agent_state:
  assumes "routerInv db" and "k \<in> set (db_interactions db)" and "in_agentId k = Some a"
    and "latestLog db (in_tenantId k) a = Some l" and "holds (in_state k) \<noteq> None"
  shows "al_state l \<notin> {AVAILABLE, BREAK}"
  using routerInvD(3) [OF assms(1,2)] assms(3-5) by (auto simp: agentHeld_def holds_def split: InteractionStateType.splits)

lemma agentHeld_same_logs: "latestLog db = latestLog db' \<Longrightarrow> agentHeld db k = agentHeld db' k"
  unfolding agentHeld_def by (simp only:)

lemma agentHeld_simps [simp]:
  "agentHeld (addEvent T iid ty pl db) k = agentHeld db k"
  "agentHeld (setRow j db) k = agentHeld db k"
  "agentHeld (db\<lparr>db_interactions := xs\<rparr>) k = agentHeld db k"
  by (rule agentHeld_same_logs; simp)+

lemma agentHeld_idle: "holds (in_state k) = None \<Longrightarrow> agentHeld db k"
  by (simp add: agentHeld_def)

lemma agentHeld_addLog:
  assumes "logsOrdered db" "clockOk env db" "agentHeld db k"
    and other: "in_tenantId k \<noteq> T \<or> in_agentId k \<noteq> Some a \<or> holds (in_state k) = None"
  shows "agentHeld (addLogBy ac env T a st r e db) k"
proof (cases "holds (in_state k)")
  case (Some w)
  with assms(3) obtain b l where b: "in_agentId k = Some b" "latestLog db (in_tenantId k) b = Some l"
      "al_state l = w \<or> in_state k = ASSIGNED \<and> al_state l = OFFLINE"
    by (auto simp: agentHeld_def)
  with other Some have "latestLog (addLogBy ac env T a st r e db) (in_tenantId k) b = Some l"
    by (auto simp: latestLog_addLog [OF assms(1,2)])
  with b Some show ?thesis by (simp add: agentHeld_def)
qed (simp add: agentHeld_def)

lemma oneLive_simps [simp]:
  "oneLive (addEvent T iid ty pl db) = oneLive db" "oneLive (addLogBy ac env T a st r e db) = oneLive db"
  by (simp_all add: oneLive_def)

text \<open>Replacing a row keeps the agents apart when no other live interaction has the new row's agent.\<close>

lemma oneLive_setRow:
  assumes "oneLive db"
    and "\<And>k. k \<in> set (db_interactions db) \<Longrightarrow> in_id k \<noteq> in_id j \<Longrightarrow> in_tenantId k = in_tenantId j \<Longrightarrow> in_agentId k = in_agentId j \<Longrightarrow>
      holds (in_state j) \<noteq> None \<Longrightarrow> holds (in_state k) = None"
  shows "oneLive (setRow j db)"
  unfolding oneLive_def
proof (intro ballI impI)
  fix i k assume "i \<in> set (db_interactions (setRow j db))" "k \<in> set (db_interactions (setRow j db))"
  then have "i = j \<or> i \<in> set (db_interactions db) \<and> in_id i \<noteq> in_id j" "k = j \<or> k \<in> set (db_interactions db) \<and> in_id k \<noteq> in_id j"
    by (auto simp: set_setRow split: if_splits)
  moreover assume "in_tenantId i = in_tenantId k" "in_agentId i = in_agentId k" "holds (in_state i) \<noteq> None" "holds (in_state k) \<noteq> None"
  ultimately show "in_id i = in_id k"
    using assms(2) [of i] assms(2) [of k] assms(1) unfolding oneLive_def by metis
qed

lemma oneLive_append:
  assumes "oneLive db" and "holds (in_state row) = None"
  shows "oneLive (db\<lparr>db_interactions := db_interactions db @ [row]\<rparr>)"
  unfolding oneLive_def
proof (intro ballI impI)
  fix i k assume "i \<in> set (db_interactions (db\<lparr>db_interactions := db_interactions db @ [row]\<rparr>))"
    "k \<in> set (db_interactions (db\<lparr>db_interactions := db_interactions db @ [row]\<rparr>))"
  then have "i = row \<or> i \<in> set (db_interactions db)" "k = row \<or> k \<in> set (db_interactions db)" by auto
  moreover assume "in_tenantId i = in_tenantId k" "in_agentId i = in_agentId k" "holds (in_state i) \<noteq> None" "holds (in_state k) \<noteq> None"
  ultimately show "in_id i = in_id k" using assms unfolding oneLive_def by metis
qed

lemma clockOk_move: "move env T db db' \<Longrightarrow> clockOk env db \<Longrightarrow> clockOk env db'"
  by (induction rule: move.induct) (simp_all add: clockOk_addLog)

lemma move_invariant:
  assumes "move env T db db'" and inv: "routerInv db" and clock: "clockOk env db"
  shows "routerInv db'"
  using assms(1)
proof cases
  case (event iid ty pl)
  with inv show ?thesis by (simp add: routerInv_def)
next
  case (create row)
  moreover have "agentHeld db row" using create by (simp add: agentHeld_idle holds_def)
  moreover have "oneLive (db\<lparr>db_interactions := db_interactions db @ [row]\<rparr>)"
    using create(4) by (intro oneLive_append [OF routerInvD(6) [OF inv]]) (simp add: holds_def)
  ultimately show ?thesis using inv by (auto simp: routerInv_def)
next
  case (waiting i j)
  then have "agentHeld db j" "in_agentId j = None" "in_channel j = ''VOICE''"
    using routerInvD(4,5) [OF inv] by (auto intro: agentHeld_idle simp: holds_def sameCall_def)
  moreover have "oneLive (setRow j db)"
    using waiting by (intro oneLive_setRow [OF routerInvD(6) [OF inv]]) (auto simp: holds_def)
  ultimately show ?thesis using waiting inv by (auto simp: routerInv_def set_setRow split: if_splits)
next
  case (offer i j a l)
  define d where "d = setRow j db"
  have d: "logsOrdered d" "clockOk env d" "latestLog d = latestLog db" using inv clock by (simp_all add: d_def routerInv_def)
  have "agentHeld (addLog env T a RESERVED (in_id i) None d) j"
    using offer by (auto simp: agentHeld_def latestLog_addLog [OF d(1,2)] holds_def newLog_def sameCall_def)
  moreover have free: "in_tenantId k \<noteq> T \<or> in_agentId k \<noteq> Some a \<or> holds (in_state k) = None"
    if k: "k \<in> set (db_interactions db)" for k
    using held_agent_state [OF inv k] offer(6,7) by blast
  moreover have "agentHeld (addLog env T a RESERVED (in_id i) None d) k"
    if k: "k \<in> set (db_interactions db)" for k
    using routerInvD(3) [OF inv k] agentHeld_same_logs [OF d(3)] by (intro agentHeld_addLog [OF d(1,2) _ free [OF k]]) simp
  moreover have "oneLive d"
    unfolding d_def using offer free by (intro oneLive_setRow [OF routerInvD(6) [OF inv]]) (auto simp: sameCall_def)
  ultimately show ?thesis
    using offer inv d(1) logsOrdered_addLog [OF d(1,2)]
    by (auto simp: routerInv_def d_def set_setRow sameCall_def split: if_splits)
next
  case (agent i j a st r e)
  define d where "d = setRow j db"
  have d: "logsOrdered d" "clockOk env d" "latestLog d = latestLog db" using inv clock by (simp_all add: d_def routerInv_def)
  have "agentHeld (addLog env T a st r e d) j"
    using agent by (auto simp: agentHeld_def latestLog_addLog [OF d(1,2)] holds_def newLog_def sameCall_def split: option.splits InteractionStateType.splits)
  moreover have "holds (in_state i) \<noteq> None" using agent(7) by (auto simp: allowed_def holds_def agent(6))
  then have free: "in_tenantId k \<noteq> T \<or> in_agentId k \<noteq> Some a \<or> holds (in_state k) = None"
    if k: "k \<in> set (db_interactions db)" "in_id k \<noteq> in_id i" for k
    using routerInvD(6) [OF inv] k agent(2,3,5) unfolding oneLive_def by metis
  moreover have "agentHeld (addLog env T a st r e d) k"
    if k: "k \<in> set (db_interactions db)" "in_id k \<noteq> in_id i" for k
    using routerInvD(3) [OF inv k(1)] agentHeld_same_logs [OF d(3)] by (intro agentHeld_addLog [OF d(1,2) _ free [OF k]]) simp
  moreover have "oneLive d"
    unfolding d_def using agent free by (intro oneLive_setRow [OF routerInvD(6) [OF inv]]) (auto simp: sameCall_def holds_def split: if_splits)
  ultimately show ?thesis
    using agent inv d(1) logsOrdered_addLog [OF d(1,2)]
    by (auto simp: routerInv_def d_def set_setRow sameCall_def split: if_splits)
next
  case (presence a st ac r)
  have "agentHeld (addLogBy ac env T a st r None db) k" if k: "k \<in> set (db_interactions db)" for k
  proof (cases "in_tenantId k = T \<and> in_agentId k = Some a \<and> holds (in_state k) \<noteq> None")
    case True
    with presence(2) k show ?thesis
      by (auto simp: agentHeld_def latestLog_addLog [OF routerInvD(2) [OF inv] clock] newLog_def)
  next
    case False
    then show ?thesis by (intro agentHeld_addLog [OF routerInvD(2) [OF inv] clock routerInvD(3) [OF inv k]]) auto
  qed
  with presence inv clock show ?thesis by (auto simp: routerInv_def logsOrdered_addLog)
next
  case (cooldown a l r)
  have "agentHeld (addLog env T a AVAILABLE r None db) k" if k: "k \<in> set (db_interactions db)" for k
    by (rule agentHeld_addLog [OF routerInvD(2) [OF inv] clock routerInvD(3) [OF inv k]])
      (use held_agent_state [OF inv k] cooldown(2,3) in blast)
  with cooldown inv clock show ?thesis by (auto simp: routerInv_def logsOrdered_addLog)
qed

section \<open>Isolation and progress\<close>

definition otherTenants :: "string \<Rightarrow> router_db \<Rightarrow> interaction list \<times> agent_state_log list \<times> interaction_event list" where
  "otherTenants T db =
     (filter (\<lambda>i. in_tenantId i \<noteq> T) (db_interactions db), filter (\<lambda>l. al_tenantId l \<noteq> T) (db_logs db),
      filter (\<lambda>e. ie_tenantId e \<noteq> T) (db_events db))"

definition configuration ::
  "router_db \<Rightarrow> string list \<times> queue_row list \<times> voice_destination list \<times> user_row list \<times> queue_skill list \<times>
     agent_skill list \<times> managed_command list" where
  "configuration db = (db_tenants db, db_queues db, db_destinations db, db_users db, db_queueSkills db,
     db_agentSkills db, db_managedCommands db)"

definition finished :: "InteractionStateType \<Rightarrow> bool" where
  "finished st \<longleftrightarrow> st = COMPLETED \<or> st = ABANDONED"

definition progress :: "router_db \<Rightarrow> router_db \<Rightarrow> bool" where
  "progress db db' \<longleftrightarrow>
     (\<forall>i \<in> set (db_interactions db). \<exists>i' \<in> set (db_interactions db').
        sameCall i i' \<and> allowed\<^sup>*\<^sup>* (in_state i) (in_state i') \<and> (finished (in_state i) \<longrightarrow> i' = i))"

lemma sameCall_refl [simp]: "sameCall i i"
  by (simp add: sameCall_def)

lemma sameCall_trans: "sameCall i j \<Longrightarrow> sameCall j k \<Longrightarrow> sameCall i k"
  by (simp add: sameCall_def)

lemma progress_refl [simp]: "progress db db"
  unfolding progress_def by force

lemma progress_trans:
  assumes "progress a b" and "progress b c" shows "progress a c"
  unfolding progress_def
proof
  fix i assume "i \<in> set (db_interactions a)"
  with assms(1) obtain j where j: "j \<in> set (db_interactions b)" "sameCall i j" "allowed\<^sup>*\<^sup>* (in_state i) (in_state j)"
    "finished (in_state i) \<longrightarrow> j = i" unfolding progress_def by blast
  with assms(2) obtain k where "k \<in> set (db_interactions c)" "sameCall j k" "allowed\<^sup>*\<^sup>* (in_state j) (in_state k)"
    "finished (in_state j) \<longrightarrow> k = j" unfolding progress_def by blast
  with j show "\<exists>k \<in> set (db_interactions c). sameCall i k \<and> allowed\<^sup>*\<^sup>* (in_state i) (in_state k) \<and> (finished (in_state i) \<longrightarrow> k = i)"
    by (metis sameCall_trans rtranclp_trans)
qed

lemma progress_same_rows: "set (db_interactions db) \<subseteq> set (db_interactions db') \<Longrightarrow> progress db db'"
  unfolding progress_def by force

lemma progress_setRow:
  assumes "distinct (map in_id (db_interactions db))" "i \<in> set (db_interactions db)" "sameCall i j"
    and "allowed (in_state i) (in_state j) \<or> in_state i = in_state j" "\<not> finished (in_state i)"
  shows "progress db (setRow j db)"
  unfolding progress_def
proof
  fix k assume k: "k \<in> set (db_interactions db)"
  show "\<exists>k' \<in> set (db_interactions (setRow j db)). sameCall k k' \<and> allowed\<^sup>*\<^sup>* (in_state k) (in_state k') \<and> (finished (in_state k) \<longrightarrow> k' = k)"
  proof (cases "in_id k = in_id i")
    case True
    with row_unique [OF assms(1) k assms(2)] have "k = i" by simp
    with assms(2-5) show ?thesis by (intro bexI [of _ j]) (auto simp: set_setRow sameCall_def)
  next
    case False
    with k assms(3) show ?thesis by (intro bexI [of _ k]) (auto simp: set_setRow sameCall_def)
  qed
qed

lemma setRow_tables [simp]:
  "db_events (setRow j db) = db_events db" "configuration (setRow j db) = configuration db"
  "configuration (addLogBy ac env T u st r e db) = configuration db"
  "configuration (addEvent T iid ty pl db) = configuration db"
  "configuration (db\<lparr>db_interactions := xs\<rparr>) = configuration db"
  by (simp_all add: setRow_def updateInteractions_def addLogBy_def addEvent_def configuration_def)

lemma otherTenants_simps [simp]:
  "otherTenants T (addLogBy ac env T u st r e db) = otherTenants T db"
  "otherTenants T (addEvent T iid ty pl db) = otherTenants T db"
  "in_tenantId row = T \<Longrightarrow> otherTenants T (db\<lparr>db_interactions := db_interactions db @ [row]\<rparr>) = otherTenants T db"
  by (simp_all add: otherTenants_def newLog_def addEvent_def)

lemma filter_setRow:
  "distinct (map in_id xs) \<Longrightarrow> i \<in> set xs \<Longrightarrow> in_id i = in_id j \<Longrightarrow> \<not> P i \<Longrightarrow> \<not> P j \<Longrightarrow>
    filter P (map (\<lambda>k. if in_id k = in_id j then j else k) xs) = filter P xs"
proof (induction xs)
  case (Cons k xs)
  show ?case
  proof (cases "in_id k = in_id j")
    case True
    with Cons.prems have "k = i" "\<forall>x \<in> set xs. in_id x \<noteq> in_id j" by (auto simp: image_iff)
    then have "map (\<lambda>k. if in_id k = in_id j then j else k) xs = xs" by (simp add: map_idI)
    with Cons.prems True \<open>k = i\<close> show ?thesis by simp
  qed (use Cons in auto)
qed simp

lemma otherTenants_setRow:
  assumes "distinct (map in_id (db_interactions db))" "i \<in> set (db_interactions db)" "sameCall i j" "in_tenantId i = T"
  shows "otherTenants T (setRow j db) = otherTenants T db"
  using filter_setRow [OF assms(1,2), of j "\<lambda>k. in_tenantId k \<noteq> T"] assms(3,4)
  by (simp add: otherTenants_def setRow_def sameCall_def)

lemma move_isolated:
  assumes "move env T db db'" and "distinct (map in_id (db_interactions db))"
  shows "otherTenants T db' = otherTenants T db" "configuration db' = configuration db"
  using assms by (induction rule: move.induct) (simp_all add: otherTenants_setRow)

lemma move_progress:
  assumes "move env T db db'" and d: "distinct (map in_id (db_interactions db))"
  shows "progress db db'"
  using assms(1)
proof cases
  case (waiting i j)
  have "progress db (setRow j db)" by (rule progress_setRow [OF d waiting(2,5)]) (use waiting in \<open>auto simp: allowed_def finished_def\<close>)
  with waiting(1) show ?thesis by simp
next
  case (offer i j a l)
  have "progress db (setRow j db)" by (rule progress_setRow [OF d offer(2,5)]) (use offer in \<open>auto simp: allowed_def finished_def\<close>)
  with offer(1) show ?thesis by (simp add: progress_def)
next
  case (agent i j a st r e)
  have "progress db (setRow j db)" by (rule progress_setRow [OF d agent(2,4)]) (use agent in \<open>auto simp: allowed_def finished_def\<close>)
  with agent(1) show ?thesis by (simp add: progress_def)
qed (auto intro!: progress_same_rows)

text \<open>What a sequence of moves of one tenant guarantees.\<close>

definition guaranteed :: "router_env \<Rightarrow> string \<Rightarrow> router_db \<Rightarrow> router_db \<Rightarrow> bool" where
  "guaranteed env T db db' \<longleftrightarrow> routerInv db' \<and> clockOk env db' \<and> progress db db' \<and>
     otherTenants T db' = otherTenants T db \<and> configuration db' = configuration db"

lemma steps_guaranteed:
  assumes "steps (move env T) db db'" and "routerInv db" and "clockOk env db"
  shows "guaranteed env T db db'"
  using assms
proof (induction rule: steps.induct)
  case (steps_step s t u)
  note g = steps_step(3) [OF steps_step(4,5)]
  then have d: "distinct (map in_id (db_interactions t))" unfolding guaranteed_def routerInv_def by blast
  with g move_invariant [OF steps_step(2)] clockOk_move [OF steps_step(2)] move_isolated [OF steps_step(2) d]
    progress_trans [OF _ move_progress [OF steps_step(2) d]]
  show ?case by (simp add: guaranteed_def)
qed (simp add: guaranteed_def)

section \<open>Every handler is a sequence of moves\<close>

lemma steps_event: "steps (move env T) db db' \<Longrightarrow> steps (move env T) db (addEvent T iid ty pl db')"
  by (blast intro: steps_step event)

lemma steps_one: "step s t \<Longrightarrow> steps step s t"
  by (blast intro: steps_step)

text \<open>
  An update guarded by the columns it was read with touches the row that was read and no other.
\<close>

lemma claim_setRow:
  assumes "distinct (map in_id (db_interactions db))" "i \<in> set (db_interactions db)"
    and "countInteractions claim db \<noteq> 0" "\<And>k. claim k \<Longrightarrow> in_id k = in_id i" "in_id (f i) = in_id i"
  shows "claim i" "updateInteractions claim f db = setRow (f i) db"
proof -
  have only: "k = i" if "k \<in> set (db_interactions db)" "claim k" for k
    using row_unique [OF assms(1) that(1) assms(2) assms(4) [OF that(2)]] .
  from assms(3) obtain k where "k \<in> set (db_interactions db)" "claim k"
    by (metis countInteractions_def filter_False list.size(3))
  with only show c: "claim i" by metis
  have "(if claim k then f k else k) = (if in_id k = in_id (f i) then f i else k)" if "k \<in> set (db_interactions db)" for k
  proof (cases "in_id k = in_id i")
    case True
    with row_unique [OF assms(1) that assms(2)] c assms(5) show ?thesis by simp
  next
    case False
    with assms(4) [of k] assms(5) show ?thesis by auto
  qed
  then show "updateInteractions claim f db = setRow (f i) db"
    by (simp add: setRow_def updateInteractions_def cong: map_cong)
qed

lemma update_by_id_setRow:
  assumes "distinct (map in_id (db_interactions db))" "i \<in> set (db_interactions db)" "in_id (f i) = in_id i"
  shows "updateInteractions (\<lambda>k. in_id k = in_id i) f db = setRow (f i) db"
  by (rule claim_setRow(2) [OF assms(1,2)]) (use assms(2,3) in \<open>auto simp: countInteractions_def filter_empty_conv\<close>)

lemma findCall_Some: "findCall db ev = Some i \<Longrightarrow> i \<in> set (db_interactions db) \<and> in_tenantId i = ev_tenantId ev"
  by (auto simp: findCall_def dest: find_Some_in)

lemma available_agent_state:
  assumes "findAvailableAgent db T q s = Some a"
  shows "\<exists>l. latestLog db T (aa_id a) = Some l \<and> al_state l = AVAILABLE"
proof -
  obtain u us where u: "sort_key (orderingKey db T s) (filter (agentEligible db T q) (db_users db)) = u # us"
    and a: "aa_id a = us_id u"
    using assms by (auto simp: findAvailableAgent_def split: list.splits)
  from u have "u \<in> set (sort_key (orderingKey db T s) (filter (agentEligible db T q) (db_users db)))" by simp
  then have "agentEligible db T q u" by simp
  with a show ?thesis by (auto simp: agentEligible_def split: option.splits)
qed

text \<open>The three kinds of guarded updates the handlers make, as moves.\<close>

lemma agent_claim:
  assumes "routerInv db" "countInteractions claim db \<noteq> 0" "i \<in> set (db_interactions db)" "in_tenantId i = T" "in_agentId i = Some a"
    and "\<And>k. claim k \<Longrightarrow> in_id k = in_id i" "sameCall i (f i)"
    and "in_state i \<noteq> QUEUED" "allowed (in_state i) (in_state (f i))"
    and "in_agentId (f i) = (if in_state (f i) = QUEUED then None else Some a)"
    and "case holds (in_state (f i)) of Some st' \<Rightarrow> st = st' \<and> r = in_id i | None \<Rightarrow> st \<in> {AVAILABLE, BREAK}"
  shows "steps (move env T) db (addLog env T a st r e (updateInteractions claim f db))"
proof -
  have "updateInteractions claim f db = setRow (f i) db"
    by (rule claim_setRow(2) [OF routerInvD(1) [OF assms(1)] assms(3,2)]) (use assms(6,7) in \<open>auto simp: sameCall_def\<close>)
  then show ?thesis using agent [OF assms(3,4,7,5,8,9,10,11)] by (auto intro: steps_one)
qed

lemma waiting_claim:
  assumes "routerInv db" "countInteractions claim db \<noteq> 0" "i \<in> set (db_interactions db)" "in_tenantId i = T"
    and "\<And>k. claim k \<Longrightarrow> in_id k = in_id i" "sameCall i (f i)" "in_state i = QUEUED" 
    and "in_agentId (f i) = in_agentId i" "in_state (f i) \<in> {QUEUED, ABANDONED}"
  shows "steps (move env T) db (updateInteractions claim f db)"
proof -
  have "updateInteractions claim f db = setRow (f i) db"
    by (rule claim_setRow(2) [OF routerInvD(1) [OF assms(1)] assms(3,2)]) (use assms(5,6) in \<open>auto simp: sameCall_def\<close>)
  then show ?thesis using waiting [OF assms(3,4,7,6,8,9)] by (auto intro: steps_one)
qed

lemma offer_claim:
  assumes "routerInv db" "countInteractions claim db \<noteq> 0" "i \<in> set (db_interactions db)" "in_tenantId i = T"
    and "\<And>k. claim k \<Longrightarrow> in_id k = in_id i" "sameCall i (f i)" "in_state i = QUEUED"
    and "findAvailableAgent db T q s = Some x" "in_state (f i) = ASSIGNED" "in_agentId (f i) = Some (aa_id x)" "r = in_id i"
  shows "steps (move env T) db (addLog env T (aa_id x) RESERVED r None (updateInteractions claim f db))"
proof -
  have "updateInteractions claim f db = setRow (f i) db"
    by (rule claim_setRow(2) [OF routerInvD(1) [OF assms(1)] assms(3,2)]) (use assms(5,6) in \<open>auto simp: sameCall_def\<close>)
  moreover obtain l where "latestLog db T (aa_id x) = Some l" "al_state l = AVAILABLE"
    using available_agent_state [OF assms(8)] by blast
  ultimately show ?thesis using offer [OF assms(3,4,7,6) _ _ assms(9,10)] by (auto simp: assms(11) intro: steps_one)
qed

lemma answered_refines:
  assumes "handleAnswered env ev db = Inr (db', r, ms)" and inv: "routerInv db"
  shows "steps (move env (ev_tenantId ev)) db db'"
proof (cases "db' = db")
  case False
  from assms(1) obtain i where i: "findCall db ev = Some i" by (auto simp: handleAnswered_def split: option.splits)
  note i' = findCall_Some [OF i]
  from assms(1) i False obtain a where a: "in_state i = ASSIGNED" "in_agentId i = Some a"
    by (auto simp: handleAnswered_def split: option.splits InteractionStateType.splits)
  with assms(1) i i' inv False show ?thesis
    by (auto simp: handleAnswered_def Let_def sameCall_def allowed_def holds_def split: if_splits
        intro!: steps_event agent_claim [where i = i])
qed blast

lemma hangup_refines:
  assumes "handleHangup env ev db = Inr (db', r, ms)" and inv: "routerInv db"
  shows "steps (move env (ev_tenantId ev)) db db'"
proof (cases "db' = db")
  case False
  from assms(1) obtain i where i: "findCall db ev = Some i" by (auto simp: handleHangup_def split: option.splits)
  note i' = findCall_Some [OF i]
  consider (queued) "in_state i = QUEUED" | (held) a where "in_state i = ASSIGNED \<or> in_state i = ACTIVE" "in_agentId i = Some a"
    using assms(1) i False routerInvD(3) [OF inv conjunct1 [OF i']]
    by (cases "in_state i") (auto simp: handleHangup_def agentHeld_def holds_def Let_def)
  then show ?thesis
  proof cases
    case queued
    with routerInvD(4) [OF inv conjunct1 [OF i']] have "in_agentId i = None" by simp
    with queued assms(1) i i' inv False show ?thesis
      by (auto simp: handleHangup_def Let_def sameCall_def abandonRow_def split: if_splits
          intro!: steps_event waiting_claim [where i = i])
  next
    case held
    with assms(1) i i' inv False show ?thesis
      by (auto simp: handleHangup_def Let_def sameCall_def allowed_def holds_def abandonRow_def split: if_splits
          intro!: steps_event agent_claim [where i = i])
  qed
qed blast

lemma wrapup_refines:
  assumes "completeWrapUp env cmd db = Inr (db', r, ms)" and inv: "routerInv db"
  shows "steps (move env (cw_tenantId cmd)) db db'"
proof (cases "db' = db")
  case False
  from assms(1) False obtain i where i: "i \<in> set (db_interactions db)" "in_id i = cw_interactionId cmd" "in_tenantId i = cw_tenantId cmd"
    "in_state i = WRAPUP" "in_agentId i = Some (cw_agentId cmd)"
    by (auto simp: completeWrapUp_def Let_def split: if_splits option.splits dest: find_Some_in)
  with assms(1) inv False show ?thesis
    by (auto simp: completeWrapUp_def Let_def sameCall_def allowed_def holds_def split: if_splits option.splits
        intro!: steps_event agent_claim [where i = i])
qed blast

lemma decline_refines:
  assumes "declineOffer env cmd db = Inr (db', r, ms)" and inv: "routerInv db"
  shows "steps (move env (dc_tenantId cmd)) db db'"
proof (cases "db' = db")
  case False
  from assms(1) False obtain i where i: "i \<in> set (db_interactions db)" "in_id i = dc_interactionId cmd" "in_tenantId i = dc_tenantId cmd"
    "in_state i = ASSIGNED" "in_agentId i = Some (dc_agentId cmd)"
    by (auto simp: declineOffer_def Let_def split: if_splits option.splits dest: find_Some_in)
  with assms(1) inv False show ?thesis
    by (auto simp: declineOffer_def Let_def sameCall_def allowed_def holds_def split: if_splits option.splits
        intro!: steps_event agent_claim [where i = i])
qed blast

definition fresh :: "router_env \<Rightarrow> router_db \<Rightarrow> bool" where
  "fresh env db \<longleftrightarrow> env_newId env \<notin> in_id ` set (db_interactions db)"

lemma log_after_update: "updateInteractions P f (addLog env T u st r e db) = addLog env T u st r e (updateInteractions P f db)"
  by (simp add: updateInteractions_def addLogBy_def)

lemma count_by_id: "i \<in> set (db_interactions db) \<Longrightarrow> countInteractions (\<lambda>k. in_id k = in_id i) db \<noteq> 0"
  by (auto simp: countInteractions_def filter_empty_conv)

lemma assignRow_simps [simp]:
  "in_state (assignRow a t x i) = ASSIGNED" "in_agentId (assignRow a t x i) = Some a"
  "in_id (assignRow a t x i) = in_id i" "in_tenantId (assignRow a t x i) = in_tenantId i"
  "in_externalId (assignRow a t x i) = in_externalId i" "in_channel (assignRow a t x i) = in_channel i"
  by (simp_all add: assignRow_def)

lemma newInteraction_simps [simp]:
  "in_id (newInteraction env ev d c) = env_newId env" "in_tenantId (newInteraction env ev d c) = ev_tenantId ev"
  "in_state (newInteraction env ev d c) = QUEUED" "in_agentId (newInteraction env ev d c) = None"
  "in_externalId (newInteraction env ev d c) = Some (tc_callUuid (ev_payload ev))"
  "in_channel (newInteraction env ev d c) = ''VOICE''"
  by (simp_all add: newInteraction_def)

lemma created_refines:
  assumes "createdTransaction env ev db = Inr (db', out)" and inv: "routerInv db" "clockOk env db" "fresh env db"
  shows "steps (move env (ev_tenantId ev)) db db'"
proof (cases "findCall db ev")
  case (Some i)
  with assms(1) have "db' = db" by (simp add: createdTransaction_def)
  then show ?thesis by blast
next
  case None
  from assms(1) None obtain d where d: "activeDestination db ev = Some d"
    by (auto simp: createdTransaction_def split: option.splits)
  obtain ivr where ivr: "(case vd_entryMode d of IVR \<Rightarrow> rbind (ivrConfiguration (vd_ivrConfig d)) (\<lambda>c. Inr (Some c))
      | DIRECT_QUEUE \<Rightarrow> Inr None) = Inr ivr"
    using assms(1) None d by (auto simp: createdTransaction_def rbind_eq_Inr_iff)
  define row where "row = newInteraction env ev d ivr"
  define db2 where "db2 = addEvent (ev_tenantId ev) (in_id row) ''interaction.queued'' (JObj [])
    (addEvent (ev_tenantId ev) (in_id row) ''interaction.created'' (JObj []) (db\<lparr>db_interactions := db_interactions db @ [row]\<rparr>))"
  have s2: "steps (move env (ev_tenantId ev)) db db2" unfolding db2_def
    by (intro steps_event steps_one create) (use inv(3) in \<open>auto simp: row_def fresh_def\<close>)
  have inv2: "routerInv db2" using steps_guaranteed [OF s2 inv(1,2)] by (simp add: guaranteed_def)
  have row: "row \<in> set (db_interactions db2)" by (simp add: db2_def)
  show ?thesis
  proof (cases "db' = db2")
    case False
    with assms(1) None d ivr obtain x s t q where x: "findAvailableAgent db2 (ev_tenantId ev) (vd_queueId d) s = Some x"
      and db': "db' = addEvent (ev_tenantId ev) (in_id row) ''interaction.assigned'' (JObj [(''agentId'', JStr (aa_id x))])
        (addLog env (ev_tenantId ev) (aa_id x) RESERVED (in_id row) None
          (updateInteractions (\<lambda>i. in_id i = in_id row) (assignRow (aa_id x) t q) db2))"
      by (auto simp: createdTransaction_def Let_def row_def db2_def log_after_update split: option.splits)
    have "steps (move env (ev_tenantId ev)) db2 db'"
      unfolding db' by (intro steps_event offer_claim [OF inv2 count_by_id [OF row] row _ _ _ _ x]) (simp_all add: row_def sameCall_def)
    then show ?thesis using s2 by (rule steps_trans)
  qed (use s2 in simp)
qed

lemma resolve_refines:
  assumes "resolveIvr env ev i policy route attempts queueId db = Inr (db', out)" and inv: "routerInv db"
    and i: "i \<in> set (db_interactions db)" "in_tenantId i = ev_tenantId ev" "in_state i = QUEUED"
  shows "steps (move env (ev_tenantId ev)) db db'"
  using assms
  by (auto simp: resolveIvr_def Let_def sameCall_def split: if_splits option.splits
      intro!: steps_event waiting_claim [OF inv count_by_id [OF i(1)] i(1)] offer_claim [OF inv count_by_id [OF i(1)] i(1)])

lemma collect_refines:
  assumes "collectAgain env ev i c stage attempts db = (db', out)" and inv: "routerInv db"
    and i: "i \<in> set (db_interactions db)" "in_tenantId i = ev_tenantId ev" "in_state i = QUEUED"
  shows "steps (move env (ev_tenantId ev)) db db'"
proof -
  have "countInteractions (\<lambda>r. in_id r = in_id i \<and> in_tenantId r = ev_tenantId ev \<and> in_state r = QUEUED) db \<noteq> 0"
    using i by (auto simp: countInteractions_def filter_empty_conv)
  with assms show ?thesis by (auto simp: collectAgain_def sameCall_def intro!: waiting_claim [where i = i])
qed

lemma decision_refines:
  assumes "ivrDecision env ev i stage d q c db = Inr (db', out)" and inv: "routerInv db"
    and i: "i \<in> set (db_interactions db)" "in_tenantId i = ev_tenantId ev" "in_state i = QUEUED"
  shows "steps (move env (ev_tenantId ev)) db db'"
  using assms(1) collect_refines [OF _ inv i] resolve_refines [OF _ inv i]
  by (auto simp: ivrDecision_def Let_def split: if_splits prod.splits route_value.splits json.splits intro!: steps_event)

lemma ivr_refines:
  assumes "ivrTransaction env ev db = Inr (db', out)" and inv: "routerInv db"
  shows "steps (move env (ev_tenantId ev)) db db'"
proof (cases "db' = db")
  case False
  from assms(1) obtain i where i: "findCall db ev = Some i" by (auto simp: ivrTransaction_def split: option.splits)
  note i' = findCall_Some [OF i]
  have q: "in_state i = QUEUED"
    using assms(1) i False by (auto simp: ivrTransaction_def split: InteractionStateType.splits)
  with assms(1) i False obtain stage d q c where "ivrDecision env ev i stage d q c db = Inr (db', out)"
    by (auto simp: ivrTransaction_def rbind_eq_Inr_iff split: option.splits if_splits)
  then show ?thesis using decision_refines inv i' q by blast
qed blast

lemma handle_refines:
  assumes "handle env ev db = Inr (db', r, ms)" and inv: "routerInv db" "clockOk env db"
    and new: "ev_type ev = ''call.created'' \<longrightarrow> fresh env db"
  shows "steps (move env (ev_tenantId ev)) db db'"
  using assms answered_refines [OF _ inv(1)] hangup_refines [OF _ inv(1)]
    ivr_refines [OF _ inv(1)] created_refines [OF _ inv]
  by (auto simp: handle_def handleCreated_def handleIvrInput_def rbind_eq_Inr_iff split: if_splits)

section \<open>Due work is a sequence of moves\<close>

lemma rfold_steps:
  assumes "rfold f xs (db, outs) = Inr (db', outs')" "routerInv db" "clockOk env db" "distinct (map in_id xs)"
    and "\<forall>x \<in> set xs. P x db"
    and "\<And>x d o1 d' o'. f x (d, o1) = Inr (d', o') \<Longrightarrow> routerInv d \<Longrightarrow> clockOk env d \<Longrightarrow> P x d \<Longrightarrow>
      steps (move env T) d d' \<and> (\<forall>y. in_id y \<noteq> in_id x \<longrightarrow> P y d \<longrightarrow> P y d')"
  shows "steps (move env T) db db'"
  using assms(1-5)
proof (induction xs arbitrary: db outs)
  case (Cons x xs)
  then obtain d o1 where d: "f x (db, outs) = Inr (d, o1)" "rfold f xs (d, o1) = Inr (db', outs')"
    by (auto simp: rbind_eq_Inr_iff)
  with Cons.prems assms(6) have s: "steps (move env T) db d" and "\<forall>y. in_id y \<noteq> in_id x \<longrightarrow> P y db \<longrightarrow> P y d" by auto
  moreover have "routerInv d" "clockOk env d" using steps_guaranteed [OF s] Cons.prems by (auto simp: guaranteed_def)
  ultimately have "steps (move env T) d db'" using Cons d(2) by (intro Cons.IH) (auto simp: image_iff)
  then show ?case using s by (rule steps_trans)
qed auto

lemma claimed_row:
  "countInteractions claim db \<noteq> 0 \<Longrightarrow> \<exists>i \<in> set (db_interactions db). claim i"
  by (metis countInteractions_def filter_False list.size(3))

lemma requeue_step_refines:
  assumes "dueRequeueStep env T now due (db, outs) = Inr (db', outs')" and inv: "routerInv db"
  shows "steps (move env T) db db'"
proof (cases "db' = db")
  case False
  with assms(1) obtain x s q t where c: "countInteractions (requeueDue T now due) db \<noteq> 0" and x: "findAvailableAgent db T q s = Some x"
    and db': "db' = offerAgain env T (requeueDue T now due) (\<lambda>i. (assignRow (aa_id x) now t i)\<lparr>in_requeueAt := None\<rparr>)
      due (aa_id x) ''offer_cooldown_elapsed'' db"
    by (auto simp: dueRequeueStep_def Let_def rbind_eq_Inr_iff split: option.splits if_splits)
  from claimed_row [OF c] obtain i where i: "i \<in> set (db_interactions db)" "in_id i = in_id due" "in_tenantId i = T" "in_state i = QUEUED"
    by (auto simp: requeueDue_def)
  show ?thesis unfolding db' offerAgain_def
    by (intro steps_event offer_claim [OF inv c i(1,3) _ _ i(4) x]) (use i(2) in \<open>simp_all add: requeueDue_def sameCall_def\<close>)
qed blast

lemma max_wait_step_refines:
  assumes "maxWaitStep T now waiting (db, outs) = Inr (db', outs')" and inv: "routerInv db"
  shows "steps (move env T) db db'"
proof (cases "db' = db")
  case False
  define claim where "claim = (\<lambda>i :: interaction. in_id i = in_id waiting \<and> in_tenantId i = T \<and> in_state i = QUEUED \<and> in_queuedAt i = in_queuedAt waiting)"
  from False assms(1) have c: "countInteractions claim db \<noteq> 0"
    by (auto simp: maxWaitStep_def claim_def Let_def split: option.splits if_splits)
  from claimed_row [OF c] obtain i where i: "i \<in> set (db_interactions db)" "in_id i = in_id waiting" "in_tenantId i = T" "in_state i = QUEUED"
    by (auto simp: claim_def)
  have only: "claim k \<Longrightarrow> in_id k = in_id i" for k using i(2) by (simp add: claim_def)
  from False assms(1) i(4) show ?thesis
    by (auto simp: maxWaitStep_def claim_def [symmetric] Let_def rbind_eq_Inr_iff sameCall_def split: option.splits if_splits
        intro!: steps_event waiting_claim [OF inv c i(1,3) only])
qed blast

lemma update_keeps:
  "k \<in> set (db_interactions db) \<Longrightarrow> (\<And>i. claim i \<Longrightarrow> in_id i = iid) \<Longrightarrow> in_id k \<noteq> iid \<Longrightarrow>
    k \<in> set (db_interactions (updateInteractions claim f db))"
  by (force simp: updateInteractions_def image_iff)

lemma offer_step_refines:
  assumes "dueOfferStep env T now due (db, outs) = Inr (db', outs')" and inv: "routerInv db" "clockOk env db"
    and due: "due \<in> set (db_interactions db)" "in_tenantId due = T" "in_state due = ASSIGNED"
  shows "steps (move env T) db db' \<and> (\<forall>y \<in> set (db_interactions db). in_id y \<noteq> in_id due \<longrightarrow> y \<in> set (db_interactions db'))"
proof (cases "db' = db")
  case False
  with assms(1) obtain a q qid call m where due': "in_agentId due = Some a" "callOf due = Some call" "interactionQueue db due = Some q"
      "in_queueId due = Some qid" and c: "countInteractions (offerDue T now due) db \<noteq> 0"
      and m: "telephonyMetadata (in_metadata due) = Inr m"
    by (auto simp: dueOfferStep_def Let_def rbind_eq_Inr_iff split: option.splits if_splits)
  define policy where "policy = resolveQueuePolicy (qu_policy q)"
  define db1 where "db1 = requeueOffer env T now due a policy db"
  have only: "offerDue T now due k \<Longrightarrow> in_id k = in_id due" for k by (simp add: offerDue_def)
  show ?thesis
  proof (cases "po_offerTimeoutAction policy = ABANDON")
    case True
    with assms(1) due' c m have "db' = abandonOffer env T now due a db"
      by (auto simp: dueOfferStep_def policy_def Let_def)
    then show ?thesis using due(3) due'(1)
      by (auto simp: abandonOffer_def sameCall_def allowed_def holds_def only intro!: steps_event agent_claim [OF inv(1) c due(1,2) due'(1)])
  next
    case False
    have s1: "steps (move env T) db db1"
      using due(3) due'(1) by (auto simp: db1_def requeueOffer_def Let_def sameCall_def allowed_def holds_def only
          intro!: steps_event agent_claim [OF inv(1) c due(1,2) due'(1)])
    have k1: "\<forall>y \<in> set (db_interactions db). in_id y \<noteq> in_id due \<longrightarrow> y \<in> set (db_interactions db1)"
      by (auto simp: db1_def requeueOffer_def Let_def only)
    show ?thesis
    proof (cases "db' = db1")
      case reoffer: False
      define claim where "claim = (\<lambda>i :: interaction. in_id i = in_id due \<and> in_tenantId i = T \<and> in_state i = QUEUED \<and> in_agentId i = None)"
      from assms(1) due' c m False reoffer obtain x t where x: "findAvailableAgent db1 T qid (po_routingStrategy policy) = Some x"
        and c1: "countInteractions claim db1 \<noteq> 0"
        and db': "db' = offerAgain env T claim (assignRow (aa_id x) now t) due (aa_id x) ''offer_timeout_requeue'' db1"
        by (auto simp: dueOfferStep_def policy_def [symmetric] db1_def [symmetric] claim_def Let_def split: option.splits if_splits)
      from claimed_row [OF c1] obtain i where i: "i \<in> set (db_interactions db1)" "in_id i = in_id due" "in_tenantId i = T" "in_state i = QUEUED"
        by (auto simp: claim_def)
      have "steps (move env T) db1 db'" unfolding db' offerAgain_def
        by (intro steps_event offer_claim [OF _ c1 i(1,3) _ _ i(4) x])
          (use i(2) steps_guaranteed [OF s1 inv] in \<open>simp_all add: claim_def sameCall_def guaranteed_def\<close>)
      moreover have "\<forall>y \<in> set (db_interactions db). in_id y \<noteq> in_id due \<longrightarrow> y \<in> set (db_interactions db')"
      proof (intro ballI impI)
        fix y assume "y \<in> set (db_interactions db)" "in_id y \<noteq> in_id due"
        with k1 show "y \<in> set (db_interactions db')" unfolding db' offerAgain_def tables_simps(1,2)
          by (intro update_keeps [of _ _ _ "in_id due"]) (auto simp: claim_def)
      qed
      ultimately show ?thesis by (simp add: steps_trans [OF _ s1])
    qed (use s1 k1 in simp)
  qed
qed blast

lemma latest_of_unsurpassed:
  assumes "logsOrdered db" "l \<in> set (db_logs db)"
    and "\<forall>later \<in> set (db_logs db). \<not> (al_tenantId later = al_tenantId l \<and> al_userId later = al_userId l \<and>
      (al_startedAt later, al_id later) > (al_startedAt l, al_id l))"
  shows "latestLog db (al_tenantId l) (al_userId l) = Some l"
proof -
  define us where "us = userLogs db (al_tenantId l) (al_userId l)"
  have l: "l \<in> set us" using assms(2) by (simp add: us_def userLogs_def)
  then have ne: "us \<noteq> []" by auto
  have s: "sorted_wrt (\<lambda>a b. al_startedAt a \<le> al_startedAt b \<and> al_id a < al_id b) us"
    using assms(1) unfolding logsOrdered_def us_def userLogs_def by (blast intro: sorted_wrt_filter')
  have "last us = l"
  proof (rule ccontr)
    assume "last us \<noteq> l"
    then have "l \<in> set (butlast us)" using l ne by (metis append_butlast_last_id in_set_butlastD set_ConsD Un_iff set_append list.set(1) empty_iff)
    with s have "al_startedAt l \<le> al_startedAt (last us) \<and> al_id l < al_id (last us)"
      by (subst (asm) append_butlast_last_id [OF ne, symmetric]) (simp add: sorted_wrt_append)
    moreover have "last us \<in> set us" using ne by simp
    ultimately show False using assms(3) by (auto simp: us_def userLogs_def)
  qed
  with ne show ?thesis by (simp add: latestLog_last [OF assms(1)] us_def)
qed

lemma distinct_of_sorted_wrt: "sorted_wrt P xs \<Longrightarrow> (\<And>x. \<not> P x x) \<Longrightarrow> distinct xs"
  by (induction xs) auto

lemma distinct_logs: "logsOrdered db \<Longrightarrow> distinct (db_logs db)"
  unfolding logsOrdered_def by (rule distinct_of_sorted_wrt) auto

lemma cooldown_steps:
  assumes "distinct agents" "logsOrdered db" "clockOk env db"
    and "\<forall>a \<in> set agents. \<exists>l. latestLog db T a = Some l \<and> al_state l = BREAK"
  shows "steps (move env T) db (fold (\<lambda>a. addLog env T a AVAILABLE r None) agents db)"
  using assms
proof (induction agents arbitrary: db)
  case (Cons a agents)
  then obtain l where "latestLog db T a = Some l" "al_state l = BREAK" by auto
  then have "move env T db (addLog env T a AVAILABLE r None db)" by (rule cooldown)
  moreover have "steps (move env T) (addLog env T a AVAILABLE r None db)
      (fold (\<lambda>a. addLog env T a AVAILABLE r None) agents (addLog env T a AVAILABLE r None db))"
    using Cons.prems by (intro Cons.IH) (auto simp: logsOrdered_addLog clockOk_addLog latestLog_addLog)
  ultimately show ?case by (auto intro: steps_trans steps_one)
qed auto

lemma release_refines:
  assumes "routerInv db" "clockOk env db"
  shows "steps (move env T) db (releaseExpiredCooldowns env T now db)"
proof -
  define L where "L = filter (\<lambda>l. al_tenantId l = T \<and> al_state l = BREAK \<and>
      take (length ''cooldown:'') (al_reason l) = ''cooldown:'' \<and> dueBy now (al_endedAt l) \<and>
      list_all (\<lambda>later. \<not> (al_tenantId later = T \<and> al_userId later = al_userId l \<and>
         (al_startedAt later, al_id later) > (al_startedAt l, al_id l))) (db_logs db)) (db_logs db)"
  note ordered = routerInvD(2) [OF assms(1)]
  have L: "latestLog db T (al_userId l) = Some l \<and> al_state l = BREAK" if "l \<in> set L" for l
    using latest_of_unsurpassed [OF ordered, of l] that by (auto simp: L_def list_all_iff)
  have "inj_on al_userId (set L)"
    by (rule inj_onI) (metis L option.inject)
  then have "distinct (map al_userId L)"
    using distinct_logs [OF ordered] by (simp add: distinct_map L_def)
  moreover have "\<forall>a \<in> set (map al_userId L). \<exists>l. latestLog db T a = Some l \<and> al_state l = BREAK" using L by auto
  ultimately show ?thesis
    unfolding releaseExpiredCooldowns_def Let_def L_def [symmetric] using ordered assms(2) by (intro cooldown_steps)
qed

definition dueOffers :: "string \<Rightarrow> time_ms \<Rightarrow> router_db \<Rightarrow> interaction list" where
  "dueOffers T now db = filter (\<lambda>i. (in_tenantId i = T \<and> in_channel i = ''VOICE'' \<and> isUnversioned (interactionQueue db i)) \<and>
     in_state i = ASSIGNED \<and> dueBy now (in_offerExpiresAt i)) (db_interactions db)"

lemma dueOffers_rows:
  assumes "routerInv db"
  shows "distinct (map in_id (dueOffers T now db))"
    "\<forall>x \<in> set (dueOffers T now db). x \<in> set (db_interactions db) \<and> in_tenantId x = T \<and> in_state x = ASSIGNED"
  unfolding dueOffers_def using distinct_map_filter [OF routerInvD(1) [OF assms]] by auto

lemma offer_stage:
  assumes "rfold (dueOfferStep env T now) (dueOffers T now db) (db, o1) = Inr (db', o')" "routerInv db" "clockOk env db"
  shows "steps (move env T) db db'"
  by (rule rfold_steps [OF assms dueOffers_rows(1) [OF assms(2)],
        where P = "\<lambda>x d. x \<in> set (db_interactions d) \<and> in_tenantId x = T \<and> in_state x = ASSIGNED"])
    (use dueOffers_rows(2) [OF assms(2)] in \<open>auto dest!: offer_step_refines\<close>)

lemma requeue_stage:
  assumes "rfold (dueRequeueStep env T now) (filter Q (db_interactions d)) (d, o1) = Inr (d', o')" "routerInv d" "clockOk env d"
  shows "steps (move env T) d d'"
  by (rule rfold_steps [OF assms distinct_map_filter [OF routerInvD(1) [OF assms(2)]], where P = "\<lambda>_ _. True"])
    (auto dest: requeue_step_refines)

lemma max_wait_stage:
  assumes "rfold (maxWaitStep T now) (filter Q (db_interactions d)) (d, o1) = Inr (d', o')" "routerInv d" "clockOk env d"
  shows "steps (move env T) d d'"
  by (rule rfold_steps [OF assms distinct_map_filter [OF routerInvD(1) [OF assms(2)]], where P = "\<lambda>_ _. True"])
    (auto dest: max_wait_step_refines)

text \<open>The four stages of a tenant's due work, each a sequence of moves from a state with the invariant.\<close>

lemma due_stages:
  assumes "dueTransaction env T now db = Inr ((db', outs), timeouts)" "routerInv db" "clockOk env db"
  obtains db1 o1 db2 db3 o3 where
    "rfold (dueOfferStep env T now) (dueOffers T now db) (db, []) = Inr (db1, o1)" "steps (move env T) db db1"
    "db2 = releaseExpiredCooldowns env T now db1" "steps (move env T) db1 db2"
    "rfold (dueRequeueStep env T now) (filter (\<lambda>i. (in_tenantId i = T \<and> in_channel i = ''VOICE'' \<and> isUnversioned (interactionQueue db2 i)) \<and>
       in_state i = QUEUED \<and> dueBy now (in_requeueAt i)) (db_interactions db2)) (db2, o1) = Inr (db3, o3)" "steps (move env T) db2 db3"
    "rfold (maxWaitStep T now) (filter (\<lambda>i. (in_tenantId i = T \<and> in_channel i = ''VOICE'' \<and> isUnversioned (interactionQueue db3 i)) \<and>
       in_state i = QUEUED) (db_interactions db3)) (db3, o3) = Inr (db', outs)" "steps (move env T) db3 db'"
proof -
  have keep: "routerInv d' \<and> clockOk env d'" if "steps (move env T) d d'" "routerInv d" "clockOk env d" for d d'
    using steps_guaranteed [OF that] by (simp add: guaranteed_def)
  from assms(1) obtain db1 o1 db2 db3 o3 where
    1: "rfold (dueOfferStep env T now) (dueOffers T now db) (db, []) = Inr (db1, o1)"
    and 2: "db2 = releaseExpiredCooldowns env T now db1"
    and 3: "rfold (dueRequeueStep env T now) (filter (\<lambda>i. (in_tenantId i = T \<and> in_channel i = ''VOICE'' \<and> isUnversioned (interactionQueue db2 i)) \<and>
       in_state i = QUEUED \<and> dueBy now (in_requeueAt i)) (db_interactions db2)) (db2, o1) = Inr (db3, o3)"
    and 4: "rfold (maxWaitStep T now) (filter (\<lambda>i. (in_tenantId i = T \<and> in_channel i = ''VOICE'' \<and> isUnversioned (interactionQueue db3 i)) \<and>
       in_state i = QUEUED) (db_interactions db3)) (db3, o3) = Inr (db', outs)"
    by (auto simp: dueTransaction_def dueOffers_def Let_def rbind_eq_Inr_iff)
  note s1 = offer_stage [OF 1 assms(2,3)]
  have s2: "steps (move env T) db1 db2" using keep [OF s1 assms(2,3)] unfolding 2 by (blast intro: release_refines)
  have g2: "routerInv db2" "clockOk env db2" using keep [OF s2] keep [OF s1 assms(2,3)] by auto
  note s3 = requeue_stage [OF 3 g2]
  have s4: "steps (move env T) db3 db'" using max_wait_stage [OF 4] keep [OF s3 g2] by blast
  show ?thesis by (rule that [OF 1 s1 2 s2 3 s3 4 s4])
qed

lemma due_transaction_refines:
  assumes "dueTransaction env T now db = Inr ((db', outs), timeouts)" and "routerInv db" "clockOk env db"
  shows "steps (move env T) db db'"
  using assms by (rule due_stages) (blast intro: steps_trans)

text \<open>The tenants one after the other.\<close>

definition anyMove :: "router_env \<Rightarrow> router_db \<Rightarrow> router_db \<Rightarrow> bool" where
  "anyMove env db db' \<longleftrightarrow> (\<exists>T. move env T db db')"

lemma steps_any: "steps (move env T) db db' \<Longrightarrow> steps (anyMove env) db db'"
  by (induction rule: steps.induct) (auto intro: steps_step simp: anyMove_def)

lemma any_guaranteed:
  assumes "steps (anyMove env) db db'" and "routerInv db" and "clockOk env db"
  shows "routerInv db' \<and> clockOk env db' \<and> progress db db' \<and> configuration db' = configuration db"
  using assms
proof (induction rule: steps.induct)
  case (steps_step s t u)
  then obtain T where "move env T t u" by (auto simp: anyMove_def)
  then have "guaranteed env T t u" using steps_step by (intro steps_guaranteed steps_one) auto
  with steps_step show ?case using progress_trans by (auto simp: guaranteed_def)
qed simp

lemma due_tenants_refines:
  "dueTenants env now Ts db outs timeouts = (db', res) \<Longrightarrow> routerInv db \<Longrightarrow> clockOk env db \<Longrightarrow> steps (anyMove env) db db'"
proof (induction env now Ts db outs timeouts rule: dueTenants.induct)
  case (2 env now T Ts db outs timeouts)
  show ?case
  proof (cases "dueTransaction env T now db")
    case (Inr r)
    then obtain d o1 t1 where r: "dueTransaction env T now db = Inr ((d, o1), t1)" by (metis prod.exhaust_sel)
    then have s: "steps (anyMove env) db d" using 2 by (intro steps_any due_transaction_refines)
    have "steps (anyMove env) d db'" using 2 r any_guaranteed [OF s 2(3,4)] by (intro 2(1) [OF r refl refl]) auto
    then show ?thesis using s by (rule steps_trans)
  qed (use 2 in auto)
qed auto

lemma handle_all_refines:
  "handleAll env evs db msgs = (db', res) \<Longrightarrow> \<forall>ev \<in> set evs. ev_type ev = ''call.input'' \<Longrightarrow> routerInv db \<Longrightarrow> clockOk env db \<Longrightarrow>
    steps (anyMove env) db db'"
proof (induction env evs db msgs rule: handleAll.induct)
  case (2 env ev evs db msgs)
  show ?case
  proof (cases "handle env ev db")
    case (Inr r)
    then obtain d x ms where r: "handle env ev db = Inr (d, x, ms)" by (metis prod.exhaust_sel)
    then have s: "steps (anyMove env) db d"
      using 2 by (intro steps_any [of env "ev_tenantId ev"] handle_refines) auto
    have "steps (anyMove env) d db'" using 2 r any_guaranteed [OF s 2(4,5)] by (intro 2(1) [OF r refl refl]) auto
    then show ?thesis using s by (rule steps_trans)
  qed (use 2 in auto)
qed auto

lemma rmap_set: "rmap f xs = Inr ys \<Longrightarrow> y \<in> set ys \<Longrightarrow> \<exists>x \<in> set xs. f x = Inr y"
  by (induction xs arbitrary: ys) (auto simp: rbind_eq_Inr_iff)

lemma timeout_event_type: "timeoutEvents env T i = Inr evs \<Longrightarrow> ev \<in> set evs \<Longrightarrow> ev_type ev = ''call.input''"
  by (auto simp: timeoutEvents_def rbind_eq_Inr_iff split: option.splits)

lemma timeout_events:
  assumes "dueIvrInputs env T now db = Inr evs" "ev \<in> set evs"
  shows "ev_type ev = ''call.input''"
proof -
  from assms obtain xs evss where "rmap (timeoutEvents env T) xs = Inr evss" "ev \<in> set (concat evss)"
    by (auto simp: dueIvrInputs_def rbind_eq_Inr_iff)
  then show ?thesis using rmap_set timeout_event_type by (metis set_concat UN_E)
qed

lemma due_tenants_timeouts:
  "dueTenants env now Ts db outs timeouts = (db', Inr (outs', timeouts')) \<Longrightarrow> \<forall>ev \<in> set timeouts. ev_type ev = ''call.input'' \<Longrightarrow>
    \<forall>ev \<in> set timeouts'. ev_type ev = ''call.input''"
proof (induction env now Ts db outs timeouts rule: dueTenants.induct)
  case (2 env now T Ts db outs timeouts)
  show ?case
  proof (cases "dueTransaction env T now db")
    case (Inr res)
    then obtain d o1 t1 where r: "dueTransaction env T now db = Inr ((d, o1), t1)" by (metis prod.exhaust_sel)
    then have t: "dueIvrInputs env T now db = Inr t1"
      by (auto simp: dueTransaction_def Let_def rbind_eq_Inr_iff)
    from 2(2,3) r show ?thesis by (intro 2(1) [OF r refl refl]) (auto dest: timeout_events [OF t])
  qed (use 2 in simp)
qed auto

lemma process_due_refines:
  assumes "routerInv db" "clockOk env db"
  shows "steps (anyMove env) db (fst (processDue env db))"
proof -
  obtain d res where d: "dueTenants env (env_now env ''processDue'' 0) (db_tenants db) db [] [] = (d, res)" by fastforce
  note s = due_tenants_refines [OF d assms]
  show ?thesis
  proof (cases res)
    case (Inr r)
    then obtain o1 ts where r: "res = Inr (o1, ts)" by (cases r) auto
    obtain db' ms e where h: "handleAll env ts d (concat (map (publishDueOfferOutcome env) o1)) = (db', ms, e)" by (metis prod_cases3)
    have "steps (anyMove env) d db'"
      using handle_all_refines [OF h] due_tenants_timeouts [OF d [unfolded r]] any_guaranteed [OF s assms] by simp
    with s d r h show ?thesis by (auto simp: processDue_def intro: steps_trans)
  qed (use s d in \<open>simp add: processDue_def\<close>)
qed

section \<open>The router as a transition system\<close>

datatype router_command = Event call_event | Decline DeclineOfferCommand | WrapUp CompleteWrapUpCommand | Due

definition committed :: "router_db \<Rightarrow> handled \<Rightarrow> router_db" where
  "committed db res = (case res of Inl _ \<Rightarrow> db | Inr (db', _) \<Rightarrow> db')"

fun execute :: "router_env \<Rightarrow> router_command \<Rightarrow> router_db \<Rightarrow> router_db" where
  "execute env (Event ev) db = committed db (handle env ev db)"
| "execute env (Decline cmd) db = committed db (declineOffer env cmd db)"
| "execute env (WrapUp cmd) db = committed db (completeWrapUp env cmd db)"
| "execute env Due db = fst (processDue env db)"

lemma execute_refines:
  assumes "routerInv db" "clockOk env db" "fresh env db"
  shows "steps (anyMove env) db (execute env c db)"
proof (cases c)
  case (Event ev)
  with handle_refines [OF _ assms(1,2)] assms(3) show ?thesis
    by (auto simp: committed_def split: sum.split intro!: steps_any)
next
  case (Decline cmd)
  with decline_refines [OF _ assms(1)] show ?thesis by (auto simp: committed_def split: sum.split intro!: steps_any)
next
  case (WrapUp cmd)
  with wrapup_refines [OF _ assms(1)] show ?thesis by (auto simp: committed_def split: sum.split intro!: steps_any)
qed (simp add: process_due_refines assms)

text \<open>
  One committed step of the system: a command of the router, with a clock that does not run
  backwards and an identifier the database has not used, or a move of another service that works on
  the same tables, as the workspace endpoints and the work sessions of \<open>AgentPresence\<close> and
  \<open>WorkSession\<close> make them.
\<close>

inductive router_step :: "router_db \<Rightarrow> router_db \<Rightarrow> bool" where
  command: "clockOk env db \<Longrightarrow> fresh env db \<Longrightarrow> router_step db (execute env c db)"
| service: "clockOk env db \<Longrightarrow> move env T db db' \<Longrightarrow> router_step db db'"

definition idleStart :: "router_db \<Rightarrow> bool" where
  "idleStart db \<longleftrightarrow> db_interactions db = [] \<and> logsOrdered db"

interpretation router: invariant_system idleStart router_step routerInv
proof
  show "idleStart s \<Longrightarrow> routerInv s" for s by (simp add: idleStart_def routerInv_def oneLive_def)
  show "routerInv s \<Longrightarrow> router_step s t \<Longrightarrow> routerInv t" for s t
    by (erule router_step.cases) (use any_guaranteed [OF execute_refines] move_invariant in blast)+
qed

lemma router_step_progress: "routerInv s \<Longrightarrow> router_step s t \<Longrightarrow> progress s t"
  by (erule router_step.cases) (use any_guaranteed [OF execute_refines] move_progress routerInvD(1) in blast)+

lemma steps_progress: "steps router_step s t \<Longrightarrow> routerInv s \<Longrightarrow> progress s t \<and> routerInv t"
  by (induction rule: steps.induct) (auto intro: progress_trans router_step_progress router.step_invar)

end
