(* ===== verification/VoiceGuarantees.thy ===== *)
theory VoiceGuarantees
  imports VoiceRouting
begin

text \<open>
  The guarantees of the inbound voice router, stated for the handlers themselves: tenants kept apart, finished interactions final, redelivered events absorbed, the choice
  of the agent, the end of the IVR dialogue and the treatment of due offers. A small call centre
  with one queue, one agent and one number is the concrete instance of the witnesses.
\<close>

section \<open>A small call centre\<close>

definition ex_policy :: QueuePolicySource where
  "ex_policy = \<lparr>qp_offerTimeoutSec = None, qp_offerTimeoutAction = None, qp_offerCooldownSec = None, qp_maxWaitSec = None,
     qp_maxWaitAction = None, qp_routingStrategy = LONGEST_AVAILABLE_IDLE, qp_defaultOfferTimeoutSec = 20,
     qp_defaultOfferTimeoutAction = IMMEDIATE_REQUEUE, qp_defaultOfferCooldownSec = 60, qp_defaultMaxWaitSec = None,
     qp_defaultMaxWaitAction = WAIT\<rparr>"

definition ex_queue :: queue_row where
  "ex_queue = \<lparr>qu_id = ''q'', qu_tenantId = ''t'', qu_voiceConfigVersion = None, qu_teamId = None, qu_isActive = True, qu_policy = ex_policy\<rparr>"

definition ex_destination :: voice_destination where
  "ex_destination = \<lparr>vd_id = ''d'', vd_tenantId = ''t'', vd_destination = ''1000'', vd_entryMode = DIRECT_QUEUE, vd_queueId = ''q'',
     vd_ivrConfig = None, vd_isActive = True\<rparr>"

definition ex_agent :: user_row where
  "ex_agent = \<lparr>us_id = ''u'', us_tenantId = ''t'', us_role = ''AGENT'', us_isActive = True, us_extension = Some ''8001'', us_teamId = None, us_displayName = ''Agent''\<rparr>"

definition ex_log :: "AgentStateType \<Rightarrow> agent_state_log" where
  "ex_log st = \<lparr>al_id = 0, al_tenantId = ''t'', al_userId = ''u'', al_state = st, al_reason = ''login'', al_startedAt = 0,
     al_endedAt = None, al_actorUserId = None\<rparr>"

definition ex_db :: router_db where
  "ex_db = \<lparr>db_tenants = [''t''], db_interactions = [], db_events = [], db_logs = [ex_log AVAILABLE], db_queues = [ex_queue],
     db_destinations = [ex_destination], db_users = [ex_agent], db_queueSkills = [], db_agentSkills = [], db_managedCommands = []\<rparr>"

definition ex_env :: router_env where
  "ex_env = \<lparr>env_now = (\<lambda>_ _. 1000), env_eventId = (\<lambda>_ _. ''e''), env_newId = ''i'', env_stamp = 1000\<rparr>"

definition ex_call :: "string \<Rightarrow> call_event" where
  "ex_call ty = \<lparr>ev_eventId = ''v'', ev_type = ty, ev_tenantId = ''t'', ev_occurredAt = 0, ev_correlationId = ''c'', ev_orderingKey = ''c'',
     ev_payload = \<lparr>tc_callUuid = ''c'', tc_vendor = FREESWITCH, tc_telephonyNodeId = ''n'', tc_caller = ''099'', tc_destination = ''1000'',
       tc_inputMode = None, tc_inputValue = None\<rparr>\<rparr>"

lemmas ex_defs = ex_policy_def ex_queue_def ex_destination_def ex_agent_def ex_log_def ex_db_def ex_env_def ex_call_def

text \<open>The call is offered to the agent, answered and hung up.\<close>

definition ex_offered :: router_db where
  "ex_offered = execute ex_env (Event (ex_call ''call.created'')) ex_db"

definition ex_row :: interaction where
  "ex_row = assignRow ''u'' 1000 21000 (newInteraction ex_env (ex_call ''call.created'') ex_destination None)"

lemma ex_offered_rows: "db_interactions ex_offered = [ex_row]"
  by code_simp

lemma ex_start: "idleStart ex_db"
  by (simp add: idleStart_def logsOrdered_def ex_defs)

lemma ex_step: "router_step ex_db ex_offered"
  unfolding ex_offered_def by (rule command) (simp_all add: clockOk_def fresh_def ex_defs)

lemma ex_reachable: "steps router_step ex_db ex_offered"
  by (intro steps_one ex_step)

lemma ex_row_simps: "in_tenantId ex_row = ''t''" "in_agentId ex_row = Some ''u''" "in_state ex_row = ASSIGNED"
  by (simp_all add: ex_row_def ex_defs)

section \<open>One live call per agent\<close>

text \<open>The invariant leaves an agent one live interaction, and says which state the agent is in.\<close>

lemma one_live_call:
  assumes inv: "routerInv db"
    and "i \<in> set (db_interactions db)" "k \<in> set (db_interactions db)"
    and "in_tenantId i = in_tenantId k" "in_agentId i = in_agentId k"
    and "holds (in_state i) \<noteq> None" "holds (in_state k) \<noteq> None"
  shows "i = k" "\<exists>a l. in_agentId i = Some a \<and> latestLog db (in_tenantId i) a = Some l \<and>
    (holds (in_state i) = Some (al_state l) \<or> in_state i = ASSIGNED \<and> al_state l = OFFLINE)"
proof -
  have "in_id i = in_id k" using routerInvD(6) [OF inv] assms(2-) unfolding oneLive_def by blast
  then show "i = k" by (rule row_unique [OF routerInvD(1) [OF inv] assms(2,3)])
  show "\<exists>a l. in_agentId i = Some a \<and> latestLog db (in_tenantId i) a = Some l \<and>
      (holds (in_state i) = Some (al_state l) \<or> in_state i = ASSIGNED \<and> al_state l = OFFLINE)"
    using routerInvD(3) [OF inv assms(2)] assms(6) by (auto simp: agentHeld_def)
qed

section \<open>Finished interactions\<close>

text \<open>
  C23. No interaction is lost and none moves backwards: whatever the router does next, every
  interaction is still there as the same call, its state was reached by allowed transitions only,
  and a completed or abandoned interaction is unchanged in every column.
\<close>

theorem interactions_only_progress:
  assumes "idleStart db0" "steps router_step db0 db" "steps router_step db db'" "i \<in> set (db_interactions db)"
  shows "\<exists>i' \<in> set (db_interactions db'). sameCall i i' \<and> allowed\<^sup>*\<^sup>* (in_state i) (in_state i') \<and>
    (finished (in_state i) \<longrightarrow> i' = i)"
  using steps_progress [OF assms(3) router.reachable_invar [OF assms(1,2)]] assms(4)
  unfolding progress_def by blast

definition ex_abandoned :: router_db where
  "ex_abandoned = execute ex_env (Event (ex_call ''call.hangup'')) ex_offered"

lemma ex_abandon_step: "router_step ex_offered ex_abandoned"
proof -
  have "clockOk (ex_env\<lparr>env_newId := ''j''\<rparr>) ex_offered \<and> fresh (ex_env\<lparr>env_newId := ''j''\<rparr>) ex_offered"
    unfolding clockOk_def fresh_def by code_simp
  moreover have "execute (ex_env\<lparr>env_newId := ''j''\<rparr>) (Event (ex_call ''call.hangup'')) ex_offered = ex_abandoned"
    unfolding ex_abandoned_def by code_simp
  ultimately show ?thesis by (metis command)
qed

lemma ex_abandon_reachable: "steps router_step ex_offered ex_abandoned"
  by (intro steps_one ex_abandon_step)

theorem interactions_only_progress_witness:
  "\<exists>i' \<in> set (db_interactions ex_abandoned). sameCall ex_row i' \<and> allowed\<^sup>*\<^sup>* ASSIGNED (in_state i')"
  using interactions_only_progress [OF ex_start ex_reachable ex_abandon_reachable, of ex_row]
  by (auto simp: ex_offered_rows ex_row_simps)

section \<open>Tenants\<close>

fun commandTenant :: "router_command \<Rightarrow> string option" where
  "commandTenant (Event ev) = Some (ev_tenantId ev)"
| "commandTenant (Decline cmd) = Some (dc_tenantId cmd)"
| "commandTenant (WrapUp cmd) = Some (cw_tenantId cmd)"
| "commandTenant Due = None"

text \<open>
  A command of one tenant neither changes, adds nor removes an interaction, agent log entry or
  interaction event of any other tenant, and never touches the configuration.
\<close>

lemma tenants_are_isolated:
  assumes "idleStart db0" "steps router_step db0 db" "clockOk env db" "fresh env db" "commandTenant c = Some T"
  shows "otherTenants T (execute env c db) = otherTenants T db \<and> configuration (execute env c db) = configuration db"
proof -
  have inv: "routerInv db" by (rule router.reachable_invar [OF assms(1,2)])
  have "steps (move env T) db (execute env c db)"
    using assms(4,5) handle_refines [OF _ inv assms(3)] decline_refines [OF _ inv] wrapup_refines [OF _ inv]
    by (cases c) (auto simp: committed_def split: sum.split)
  from steps_guaranteed [OF this inv assms(3)] show ?thesis by (simp add: guaranteed_def)
qed

lemma tenants_are_isolated_witness:
  "otherTenants ''t'' ex_offered = otherTenants ''t'' ex_db \<and> configuration ex_offered = configuration ex_db"
  unfolding ex_offered_def
  by (rule tenants_are_isolated [OF ex_start steps_refl]) (simp_all add: clockOk_def fresh_def ex_defs)

section \<open>Refinement\<close>

text \<open>
  C15. Every command of the router, the periodic due work included, is a sequence of the elementary
  moves: rows are created queued and unassigned, offers go to agents whose latest state is
  AVAILABLE and reserve them, every later transition of an interaction is an allowed one that
  changes the state of the agent it names in the same transaction.
\<close>

theorem commands_refine_moves:
  assumes "idleStart db0" "steps router_step db0 db" "clockOk env db" "fresh env db"
  shows "steps (anyMove env) db (execute env c db)"
  by (rule execute_refines [OF router.reachable_invar [OF assms(1,2)] assms(3,4)])

theorem commands_refine_moves_witness: "steps (anyMove ex_env) ex_db (execute ex_env Due ex_db)"
  by (rule commands_refine_moves [OF ex_start steps_refl]) (simp_all add: clockOk_def fresh_def ex_defs)

section \<open>Redelivered events\<close>

definition receiveCreated :: "call_event \<Rightarrow> router_env \<Rightarrow> router_db \<Rightarrow> router_error + router_db \<times> InboundVoiceRoutingResult" where
  "receiveCreated ev env db = rbind (handleCreated env ev db) (\<lambda>(db', r, msgs). Inr (db', r))"

lemma find_none_append: "find P xs = None \<Longrightarrow> find P (xs @ ys) = find P ys"
  by (induction xs) (auto split: if_splits)

lemma find_map_same: "(\<And>x. P (f x) = P x) \<Longrightarrow> find P (map f xs) = map_option f (find P xs)"
  by (induction xs) auto

lemma findCall_events [simp]:
  "findCall (addEvent T iid ty pl db) ev = findCall db ev" "findCall (addLogBy ac env T u st r e db) ev = findCall db ev"
  by (simp_all add: findCall_def)

lemma findCall_assign:
  "findCall (updateInteractions C (assignRow a t x) db) ev = map_option (\<lambda>i. if C i then assignRow a t x i else i) (findCall db ev)"
  unfolding findCall_def tables_simps by (rule find_map_same) auto

lemma created_call_found:
  assumes "createdTransaction env ev db = Inr (db', out)"
  shows "\<exists>i. findCall db' ev = Some i \<and> outcomeResult out = resultFromInteraction i"
proof (cases "findCall db ev")
  case None
  have "findCall (db\<lparr>db_interactions := db_interactions db @ [newInteraction env ev d c]\<rparr>) ev = Some (newInteraction env ev d c)" for d c
    using None by (simp add: findCall_def find_none_append)
  with assms None show ?thesis
    by (auto simp: createdTransaction_def Let_def rbind_eq_Inr_iff findCall_assign resultFromInteraction_def
        split: option.splits EntryMode.splits)
qed (use assms in \<open>auto simp: createdTransaction_def\<close>)

lemma created_again:
  assumes "handleCreated env ev db = Inr (db', r, ms)"
  shows "handleCreated env' ev db' = Inr (db', r, [])"
proof -
  obtain out where out: "createdTransaction env ev db = Inr (db', out)" "r = outcomeResult out" "ev_orderingKey ev = tc_callUuid (ev_payload ev)"
    using assms by (auto simp: handleCreated_def rbind_eq_Inr_iff split: if_splits)
  from created_call_found [OF out(1)] out(2,3) show ?thesis
    by (auto simp: handleCreated_def createdTransaction_def publishCreated_def)
qed

interpretation created: idempotent_command receiveCreated
proof
  show "receiveCreated ev env' db' = Inr (db', r)" if "receiveCreated ev env db = Inr (db', r)" for ev env db db' r env'
  proof -
    from that obtain ms where "handleCreated env ev db = Inr (db', r, ms)" by (auto simp: receiveCreated_def rbind_eq_Inr_iff)
    from created_again [OF this] show ?thesis by (simp add: receiveCreated_def)
  qed
qed

text \<open>
  Delivery is at least once, routing is exactly once: after a \<open>call.created\<close> event was
  processed, any number of redeliveries, whatever their clocks and fresh identifiers, changes no
  table, answers with the same interaction, state and agent, and publishes nothing.
\<close>

lemma redelivered_call_is_absorbed:
  assumes "handleCreated env ev db = Inr (db', r, ms)"
  shows "retries (receiveCreated ev) (env # envs) db = Inr (db', replicate (Suc (length envs)) r) \<and>
    handleCreated env' ev db' = Inr (db', r, [])"
proof -
  have "receiveCreated ev env db = Inr (db', r)" using assms by (simp add: receiveCreated_def)
  from created.retries_once [OF this] created_again [OF assms] show ?thesis by blast
qed

lemma ex_created: "handleCreated ex_env (ex_call ''call.created'') ex_db =
    Inr (ex_offered, \<lparr>rs_interactionId = ''i'', rs_status = ASSIGNED, rs_agentId = Some ''u''\<rparr>,
      snd (snd (projr (handleCreated ex_env (ex_call ''call.created'') ex_db))))"
  by code_simp

lemma redelivered_call_is_absorbed_witness:
  "handleCreated (ex_env\<lparr>env_newId := ''other'', env_stamp := 5000\<rparr>) (ex_call ''call.created'') ex_offered =
    Inr (ex_offered, \<lparr>rs_interactionId = ''i'', rs_status = ASSIGNED, rs_agentId = Some ''u''\<rparr>, [])"
  using redelivered_call_is_absorbed [OF ex_created] by blast

section \<open>Choice of the agent\<close>

text \<open>
  The agent a queue offers a call to is an active agent of the tenant with an extension, in the
  team of the queue where the queue is bound to one, whose latest state is AVAILABLE, without a
  pending clean-up command and with every required skill at its level; among those, one that comes
  first in the queue's routing order, ties broken by the identifier. A call stays unassigned only
  when there is no such agent.
\<close>

lemma offered_agent_is_best:
  shows "(findAvailableAgent db T q s = None \<longleftrightarrow> (\<forall>u \<in> set (db_users db). \<not> agentEligible db T q u)) \<and>
    (\<forall>a. findAvailableAgent db T q s = Some a \<longrightarrow>
      (\<exists>u \<in> set (db_users db). agentEligible db T q u \<and> aa_id a = us_id u \<and> us_extension u = Some (aa_extension a) \<and>
        (\<forall>w \<in> set (db_users db). agentEligible db T q w \<longrightarrow> orderingKey db T s u \<le> orderingKey db T s w)))"
proof -
  define us where "us = filter (agentEligible db T q) (db_users db)"
  define best where "best = hd (sort_key (orderingKey db T s) us)"
  have find: "findAvailableAgent db T q s = (if us = [] then None
      else Some \<lparr>aa_id = us_id best, aa_extension = (case us_extension best of Some x \<Rightarrow> x | None \<Rightarrow> [])\<rparr>)"
    by (cases "sort_key (orderingKey db T s) us") (auto simp: findAvailableAgent_def us_def [symmetric] best_def dest: arg_cong [of _ _ length])
  show ?thesis
  proof (cases "us = []")
    case True
    with find show ?thesis by (auto simp: us_def filter_empty_conv)
  next
    case False
    from hd_sort_key [OF False, where f = "orderingKey db T s"] have b: "best \<in> set us" "\<And>x. x \<in> set us \<Longrightarrow> orderingKey db T s best \<le> orderingKey db T s x"
      unfolding best_def by blast+
    from b(1) have "us_extension best \<noteq> None" by (simp add: us_def agentEligible_def)
    with find b False show ?thesis by (auto simp: us_def filter_empty_conv)
  qed
qed

lemma offered_agent_is_best_witness:
  "\<exists>u \<in> set (db_users ex_db). agentEligible ex_db ''t'' ''q'' u \<and> us_extension u = Some ''8001''"
proof -
  have "findAvailableAgent ex_db ''t'' ''q'' LONGEST_AVAILABLE_IDLE = Some \<lparr>aa_id = ''u'', aa_extension = ''8001''\<rparr>" by code_simp
  with offered_agent_is_best [of ex_db "''t''" "''q''" LONGEST_AVAILABLE_IDLE] show ?thesis by auto
qed

section \<open>Expired offers\<close>

text \<open>The two histories only grow.\<close>

definition extends :: "router_db \<Rightarrow> router_db \<Rightarrow> bool" where
  "extends db db' \<longleftrightarrow> (\<exists>es ls. db_events db' = db_events db @ es \<and> db_logs db' = db_logs db @ ls)"

lemma extends_refl [simp]: "extends db db"
  by (simp add: extends_def)

lemma extends_trans: "extends a b \<Longrightarrow> extends b c \<Longrightarrow> extends a c"
  by (auto simp: extends_def)

lemma addEvent_events [simp]:
  "db_events (addEvent T iid ty pl db) = db_events db @ [\<lparr>ie_tenantId = T, ie_interactionId = iid, ie_type = ty, ie_payload = pl\<rparr>]"
  by (simp add: addEvent_def)

lemma move_extends: "move env T db db' \<Longrightarrow> extends db db'"
  by (induction rule: move.induct) (simp_all add: extends_def)

lemma steps_extends: "steps (move env T) db db' \<Longrightarrow> extends db db'"
  by (induction rule: steps.induct) (auto intro: extends_trans move_extends)

text \<open>The time-out of an offer is on record and its agent has left the reserved state.\<close>

definition timedOutFor :: "string \<Rightarrow> interaction \<Rightarrow> string \<Rightarrow> router_db \<Rightarrow> router_db \<Rightarrow> bool" where
  "timedOutFor T i a db db' \<longleftrightarrow>
     extends db db' \<and>
     \<lparr>ie_tenantId = T, ie_interactionId = in_id i, ie_type = ''interaction.offer_timed_out'', ie_payload = JObj [(''agentId'', JStr a)]\<rparr>
       \<in> set (drop (length (db_events db)) (db_events db')) \<and>
     (\<exists>l \<in> set (drop (length (db_logs db)) (db_logs db')). al_tenantId l = T \<and> al_userId l = a \<and> al_state l \<in> {AVAILABLE, BREAK})"

lemma timedOutFor_trans:
  "extends a b \<Longrightarrow> timedOutFor T i u b c \<Longrightarrow> timedOutFor T i u a c" "timedOutFor T i u a b \<Longrightarrow> extends b c \<Longrightarrow> timedOutFor T i u a c"
  by (auto simp: extends_def timedOutFor_def)

definition offerPending :: "string \<Rightarrow> time_ms \<Rightarrow> router_db \<Rightarrow> interaction \<Rightarrow> bool" where
  "offerPending T now db i \<longleftrightarrow> i \<in> set (db_interactions db) \<and> in_tenantId i = T \<and> in_state i = ASSIGNED \<and>
     dueBy now (in_offerExpiresAt i) \<and> callOf i \<noteq> None \<and> isUnversioned (interactionQueue db i)"

lemma pending_step:
  assumes "dueOfferStep env T now i (db, outs) = Inr (db', outs')" "offerPending T now db i" "in_agentId i = Some a"
  shows "timedOutFor T i a db db'"
proof -
  from assms(2) obtain q call where q: "interactionQueue db i = Some q" "callOf i = Some call"
    by (auto simp: offerPending_def isUnversioned_def split: option.splits)
  moreover from q obtain qid where "in_queueId i = Some qid" by (auto simp: interactionQueue_def bind_eq_Some_conv)
  moreover have "countInteractions (offerDue T now i) db \<noteq> 0"
    using assms(2) by (auto simp: offerPending_def countInteractions_def filter_empty_conv offerDue_def)
  ultimately show ?thesis using assms(1,3)
    by (auto simp: dueOfferStep_def abandonOffer_def requeueOffer_def offerAgain_def newLog_def timedOutFor_def extends_def Let_def
        rbind_eq_Inr_iff split: if_splits option.splits)
qed

lemma interactionQueue_configuration: "configuration db = configuration db' \<Longrightarrow> interactionQueue db = interactionQueue db'"
  by (rule ext) (simp add: interactionQueue_def queueById_def [abs_def] configuration_def)

lemma offers_timed_out:
  assumes "rfold (dueOfferStep env T now) xs (db, outs) = Inr (db', outs')" "routerInv db" "clockOk env db" "distinct (map in_id xs)"
    and "\<forall>x \<in> set xs. x \<in> set (db_interactions db) \<and> in_tenantId x = T \<and> in_state x = ASSIGNED"
    and "i \<in> set xs" "offerPending T now db i" "in_agentId i = Some a"
  shows "timedOutFor T i a db db'"
  using assms(1-7)
proof (induction xs arbitrary: db outs)
  case (Cons x xs)
  then obtain d o1 where d: "dueOfferStep env T now x (db, outs) = Inr (d, o1)" "rfold (dueOfferStep env T now) xs (d, o1) = Inr (db', outs')"
    by (auto simp: rbind_eq_Inr_iff)
  have x: "steps (move env T) db d" and keep: "\<forall>y \<in> set (db_interactions db). in_id y \<noteq> in_id x \<longrightarrow> y \<in> set (db_interactions d)"
    using offer_step_refines [OF d(1) Cons.prems(2,3)] Cons.prems(5) by auto
  from steps_guaranteed [OF x Cons.prems(2,3)] have g: "routerInv d" "clockOk env d" "interactionQueue d = interactionQueue db"
    by (auto simp: guaranteed_def intro: interactionQueue_configuration)
  have rest: "\<forall>y \<in> set xs. y \<in> set (db_interactions d) \<and> in_tenantId y = T \<and> in_state y = ASSIGNED"
    using keep Cons.prems(4,5) by (auto simp: image_iff)
  show ?case
  proof (cases "i = x")
    case True
    have "steps (move env T) d db'"
      by (rule rfold_steps [OF d(2) g(1,2), where P = "\<lambda>x d. x \<in> set (db_interactions d) \<and> in_tenantId x = T \<and> in_state x = ASSIGNED"])
        (use Cons.prems(4) rest in \<open>auto dest!: offer_step_refines\<close>)
    with pending_step [OF d(1)] Cons.prems(7) assms(8) True show ?thesis by (blast intro: timedOutFor_trans(2) steps_extends)
  next
    case False
    then have "timedOutFor T i a d db'"
      using Cons.prems rest g by (intro Cons.IH [OF d(2)]) (auto simp: offerPending_def)
    then show ?thesis by (rule timedOutFor_trans(1) [OF steps_extends [OF x]])
  qed
qed simp

lemma due_offers_timed_out:
  assumes inv: "routerInv db" and clock: "clockOk env db"
    and due: "dueTransaction env T now db = Inr ((db', outs), timeouts)" and i: "offerPending T now db i"
  shows "\<exists>a. in_agentId i = Some a \<and> timedOutFor T i a db db'"
proof -
  from routerInvD(3) [OF inv, of i] i obtain a where a: "in_agentId i = Some a"
    by (auto simp: offerPending_def agentHeld_def holds_def)
  have mem: "i \<in> set (dueOffers T now db)"
    using i routerInvD(5) [OF inv, of i] by (auto simp: dueOffers_def offerPending_def)
  from due inv clock show ?thesis
  proof (rule due_stages)
    fix db1 o1 db2 db3
    assume 1: "rfold (dueOfferStep env T now) (dueOffers T now db) (db, []) = Inr (db1, o1)"
      and s: "steps (move env T) db1 db2" "steps (move env T) db2 db3" "steps (move env T) db3 db'"
    have "timedOutFor T i a db db1" by (rule offers_timed_out [OF 1 inv clock dueOffers_rows [OF inv] mem i a])
    moreover have "extends db1 db'" using s by (blast intro: steps_extends extends_trans)
    ultimately show ?thesis using a by (blast intro: timedOutFor_trans(2))
  qed
qed

text \<open>
  C24. Offers do not hang: when the due work of a tenant commits, every offer whose time was up at
  that point has been timed out on record, and its agent was released to AVAILABLE or sent into the
  cooldown break.
\<close>

theorem expired_offers_are_released:
  assumes "idleStart db0" "steps router_step db0 db" "clockOk env db"
    and due: "dueTransaction env T now db = Inr ((db', outs), timeouts)" and i: "offerPending T now db i"
  shows "\<exists>a. in_agentId i = Some a \<and> timedOutFor T i a db db'"
  by (rule due_offers_timed_out [OF router.reachable_invar [OF assms(1,2)] assms(3) due i])

definition ex_late :: router_env where
  "ex_late = \<lparr>env_now = (\<lambda>_ _. 60000), env_eventId = (\<lambda>_ _. ''e''), env_newId = ''j'', env_stamp = 60000\<rparr>"

definition ex_released :: router_db where
  "ex_released = fst (fst (projr (dueTransaction ex_late ''t'' 60000 ex_offered)))"

lemma ex_due: "dueTransaction ex_late ''t'' 60000 ex_offered =
    Inr ((ex_released, snd (fst (projr (dueTransaction ex_late ''t'' 60000 ex_offered)))), [])"
  by code_simp

theorem expired_offers_are_released_witness: "timedOutFor ''t'' ex_row ''u'' ex_offered ex_released"
proof -
  have "clockOk ex_late ex_offered" unfolding clockOk_def by code_simp
  moreover have "offerPending ''t'' 60000 ex_offered ex_row" by code_simp
  ultimately show ?thesis
    using expired_offers_are_released [OF ex_start ex_reachable _ ex_due, of ex_row] by (auto simp: ex_row_simps)
qed

section \<open>Waiting calls\<close>

lemma offer_step_keeps:
  assumes "dueOfferStep env T now x (db, o1) = Inr (db', o')" "y \<in> set (db_interactions db)" "in_id y \<noteq> in_id x"
  shows "y \<in> set (db_interactions db')"
  using assms
  by (auto simp: dueOfferStep_def abandonOffer_def requeueOffer_def offerAgain_def offerDue_def Let_def rbind_eq_Inr_iff
      split: option.splits if_splits simp del: tables_simps(5) intro!: update_keeps [where iid = "in_id x"])

lemma requeue_step_keeps:
  assumes "dueRequeueStep env T now x (db, o1) = Inr (db', o')" "y \<in> set (db_interactions db)" "in_id y \<noteq> in_id x"
  shows "y \<in> set (db_interactions db')"
  using assms
  by (auto simp: dueRequeueStep_def offerAgain_def requeueDue_def Let_def rbind_eq_Inr_iff
      split: option.splits if_splits simp del: tables_simps(5) intro!: update_keeps [where iid = "in_id x"])

lemma max_wait_step_keeps:
  assumes "maxWaitStep T now x (db, o1) = Inr (db', o')" "y \<in> set (db_interactions db)"
    and "in_id y \<noteq> in_id x \<or> (x = y \<and> interactionQueue db y = Some q \<and> po_maxWaitSec (resolveQueuePolicy (qu_policy q)) = None)"
  shows "y \<in> set (db_interactions db') \<and> interactionQueue db' = interactionQueue db"
proof
  show "y \<in> set (db_interactions db')" using assms
    by (auto simp: maxWaitStep_def Let_def rbind_eq_Inr_iff
        split: option.splits if_splits simp del: tables_simps(5) intro!: update_keeps [where iid = "in_id x"])
  have "db_queues db' = db_queues db" using assms(1)
    by (auto simp: maxWaitStep_def Let_def rbind_eq_Inr_iff split: option.splits if_splits)
  then show "interactionQueue db' = interactionQueue db"
    by (intro ext) (simp add: interactionQueue_def queueById_def [abs_def])
qed

lemma rfold_invariant:
  assumes "rfold f xs s = Inr t" "K s" "\<And>x a b. x \<in> set xs \<Longrightarrow> K a \<Longrightarrow> f x a = Inr b \<Longrightarrow> K b"
  shows "K t"
  using assms by (induction xs arbitrary: s) (auto simp: rbind_eq_Inr_iff)

lemma release_rows: "db_interactions (releaseExpiredCooldowns env T now db) = db_interactions db"
proof -
  have "db_interactions (fold (\<lambda>a. addLog env T a st r None) as d) = db_interactions d" for as st r d
    by (induction as arbitrary: d) auto
  then show ?thesis by (simp add: releaseExpiredCooldowns_def)
qed

text \<open>
  C38. A caller who found no free agent is not matched again: the periodic work of a tenant leaves
  a queued interaction without a requeue time untouched when its queue has no maximum waiting time,
  however many eligible agents are available by then. The routing documentation says that a
  waiting call is matched again when an agent becomes free and at every timer tick.
\<close>

theorem waiting_call_is_not_matched_again:
  assumes "idleStart db0" "steps router_step db0 db" "clockOk env db"
    and due: "dueTransaction env T now db = Inr ((db', outs), timeouts)"
    and i: "i \<in> set (db_interactions db)" "in_state i = QUEUED" "in_requeueAt i = None"
    and q: "interactionQueue db i = Some q" "po_maxWaitSec (resolveQueuePolicy (qu_policy q)) = None"
  shows "i \<in> set (db_interactions db')"
proof -
  have inv: "routerInv db" by (rule router.reachable_invar [OF assms(1,2)])
  note ids = routerInvD(1) [OF inv]
  from due inv assms(3) show ?thesis
  proof (rule due_stages)
    fix db1 o1 db2 db3 o3 Q
    assume 1: "rfold (dueOfferStep env T now) (dueOffers T now db) (db, []) = Inr (db1, o1)"
      and 2: "db2 = releaseExpiredCooldowns env T now db1"
      and 3: "rfold (dueRequeueStep env T now) (filter (\<lambda>i. (in_tenantId i = T \<and> in_channel i = ''VOICE'' \<and>
        isUnversioned (interactionQueue db2 i)) \<and> in_state i = QUEUED \<and> dueBy now (in_requeueAt i)) (db_interactions db2)) (db2, o1) = Inr (db3, o3)"
      and 4: "rfold (maxWaitStep T now) (filter Q (db_interactions db3)) (db3, o3) = Inr (db', outs)"
      and s: "steps (move env T) db db1" "steps (move env T) db1 db2" "steps (move env T) db2 db3"
    have g: "routerInv db2 \<and> routerInv db3 \<and> interactionQueue db3 = interactionQueue db"
      using steps_guaranteed [OF steps_trans [OF s(2,1)] inv assms(3)]
        steps_guaranteed [OF steps_trans [OF s(3) steps_trans [OF s(2,1)]] inv assms(3)]
      by (auto simp: guaranteed_def intro: interactionQueue_configuration)
    have offered: "in_id i \<noteq> in_id x" if "x \<in> set (dueOffers T now db)" for x
      using row_unique [OF ids i(1), of x] that i(2) by (auto simp: dueOffers_def)
    have "i \<in> set (db_interactions (fst (db1, o1)))"
      by (rule rfold_invariant [OF 1, where K = "\<lambda>s. i \<in> set (db_interactions (fst s))"])
        (use i(1) offered offer_step_keeps [where y = i] in fastforce)+
    then have i2: "i \<in> set (db_interactions db2)" by (simp add: 2 release_rows)
    have other: "in_id i \<noteq> in_id x" if "x \<in> set (db_interactions db2)" "dueBy now (in_requeueAt x)" for x
      using row_unique [of _ i x, OF routerInvD(1) [of db2] i2 that(1)] that(2) g i(3) by (auto simp: dueBy_def)
    have "i \<in> set (db_interactions (fst (db3, o3)))"
      by (rule rfold_invariant [OF 3, where K = "\<lambda>s. i \<in> set (db_interactions (fst s))"])
        (use i2 other requeue_step_keeps [where y = i] in fastforce)+
    then have i3: "i \<in> set (db_interactions db3)" by simp
    have same: "in_id i \<noteq> in_id x \<or> x = i" if "x \<in> set (db_interactions db3)" for x
      using row_unique [of _ i x, OF routerInvD(1) [of db3] i3 that] g by auto
    have "i \<in> set (db_interactions (fst (db', outs))) \<and> interactionQueue (fst (db', outs)) i = Some q"
      by (rule rfold_invariant [OF 4, where K = "\<lambda>s. i \<in> set (db_interactions (fst s)) \<and> interactionQueue (fst s) i = Some q"])
        (use q i3 g same max_wait_step_keeps [of T now _ _ _ _ _ i q] in fastforce)+
    then show ?thesis by simp
  qed
qed

text \<open>The agent is away when the call arrives, and available a minute later.\<close>

definition ex_away :: router_db where
  "ex_away = ex_db\<lparr>db_logs := [ex_log BREAK]\<rparr>"

definition ex_back :: router_db where
  "ex_back = addLogBy (Some ''u'') ex_late ''t'' ''u'' AVAILABLE ''agent_self_available'' None
     (execute ex_env (Event (ex_call ''call.created'')) ex_away)"

definition ex_waiting :: interaction where
  "ex_waiting = newInteraction ex_env (ex_call ''call.created'') ex_destination None"

lemma ex_back_rows: "db_interactions ex_back = [ex_waiting]"
  by code_simp

lemma ex_away_start: "idleStart ex_away"
  by (simp add: idleStart_def logsOrdered_def ex_away_def ex_defs)

lemma ex_back_reachable: "steps router_step ex_away ex_back"
proof -
  define d where "d = execute ex_env (Event (ex_call ''call.created'')) ex_away"
  have "router_step ex_away d" unfolding d_def by (rule command) (simp_all add: clockOk_def fresh_def ex_away_def ex_defs)
  then have "steps router_step ex_away d" by (intro steps_one)
  moreover have "router_step d ex_back"
  proof (rule service)
    show "clockOk ex_late d" unfolding clockOk_def d_def by code_simp
    show "move ex_late ''t'' d ex_back" unfolding ex_back_def d_def [symmetric]
    proof (rule presence)
      show "\<forall>k \<in> set (db_interactions d). in_tenantId k = ''t'' \<longrightarrow> in_agentId k = Some ''u'' \<longrightarrow>
          holds (in_state k) = None \<or> in_state k = ASSIGNED \<and> AVAILABLE = OFFLINE"
        unfolding d_def by code_simp
    qed simp
  qed
  ultimately show ?thesis by (rule steps_step)
qed

lemma ex_back_due: "dueTransaction ex_late ''t'' 60000 ex_back =
    Inr ((fst (fst (projr (dueTransaction ex_late ''t'' 60000 ex_back))), []), [])"
  by code_simp

theorem waiting_call_is_not_matched_again_witness:
  "findAvailableAgent ex_back ''t'' ''q'' LONGEST_AVAILABLE_IDLE \<noteq> None \<and>
   ex_waiting \<in> set (db_interactions (fst (fst (projr (dueTransaction ex_late ''t'' 60000 ex_back)))))"
proof
  show "findAvailableAgent ex_back ''t'' ''q'' LONGEST_AVAILABLE_IDLE \<noteq> None" by code_simp
  show "ex_waiting \<in> set (db_interactions (fst (fst (projr (dueTransaction ex_late ''t'' 60000 ex_back)))))"
  proof (rule waiting_call_is_not_matched_again [OF ex_away_start ex_back_reachable _ ex_back_due])
    show "clockOk ex_late ex_back" unfolding clockOk_def by code_simp
    show "ex_waiting \<in> set (db_interactions ex_back)" by (simp add: ex_back_rows)
    show "in_state ex_waiting = QUEUED" "in_requeueAt ex_waiting = None"
      by (simp_all add: ex_waiting_def newInteraction_def)
    show "interactionQueue ex_back ex_waiting = Some ex_queue" by code_simp
    show "po_maxWaitSec (resolveQueuePolicy (qu_policy ex_queue)) = None" by code_simp
  qed
qed

section \<open>The IVR dialogue ends\<close>

lemma update_by_id_row:
  "i \<in> set (db_interactions db) \<Longrightarrow> f i \<in> set (db_interactions (updateInteractions (\<lambda>r. in_id r = in_id i) f db))"
  by force

lemma default_queue_target: "ivrTarget NoRoute n q = RouteValue (JStr q)" if "n \<ge> 2"
  using that by (simp add: ivrTarget_def)

text \<open>
  C26. A caller is not kept in the menu: after one failed input, the next input that matches no
  route (a time-out included) always succeeds, leaves the dialogue and puts the call into the
  default queue of the dialled number, or offers it to an agent of that queue, with the number of
  failures recorded.
\<close>

theorem second_miss_leaves_the_menu:
  assumes i: "i \<in> set (db_interactions db)" "in_state i = QUEUED" and n: "in_ivrAttempts i \<ge> 1"
    and miss: "ivrRoute c stage (tc_inputMode (ev_payload ev)) (tc_inputValue (ev_payload ev)) = NoRoute"
    and queue: "vd_queueId d \<noteq> []" "queueById db (vd_queueId d) \<noteq> None"
  shows "\<exists>db' out j. ivrDecision env ev i stage d q c db = Inr (db', out) \<and> j \<in> set (db_interactions db') \<and> sameCall i j \<and>
    in_ivrStage j = None \<and> in_ivrInputExpiresAt j = None \<and> in_queueId j = Some (vd_queueId d) \<and>
    in_ivrAttempts j = in_ivrAttempts i + 1 \<and> in_state j \<in> {QUEUED, ASSIGNED}"
proof -
  define leave where "leave = (\<lambda>r :: interaction. r\<lparr>in_queueId := Some (vd_queueId d), in_ivrStage := None, in_ivrInputExpiresAt := None,
    in_ivrAttempts := in_ivrAttempts i + 1\<rparr>)"
  have "ivrDecision env ev i stage d q c db =
      resolveIvr env ev i (resolveQueuePolicy (qu_policy q)) NoRoute (in_ivrAttempts i + 1) (vd_queueId d) db"
    using n queue(1) by (simp add: ivrDecision_def miss Let_def default_queue_target)
  moreover have "\<exists>db' out j. resolveIvr env ev i policy NoRoute (in_ivrAttempts i + 1) (vd_queueId d) db = Inr (db', out) \<and>
      j \<in> set (db_interactions db') \<and> (j = leave i \<or> (\<exists>a t x. j = assignRow a t x (leave i)))" for policy
  proof (cases "findAvailableAgent db (ev_tenantId ev) (vd_queueId d) (po_routingStrategy policy)")
    case None
    with queue(2) update_by_id_row [OF i(1), of leave] show ?thesis
      by (auto simp: resolveIvr_def Let_def leave_def [symmetric] simp del: tables_simps(5))
  next
    case (Some a)
    with queue(2) update_by_id_row [OF i(1), of "\<lambda>r. assignRow (aa_id a) (env_now env (ev_eventId ev) 1)
        (plusSeconds (env_now env (ev_eventId ev) 2) (po_offerTimeoutSec policy)) (leave r)"] show ?thesis
      by (auto simp: resolveIvr_def Let_def leave_def [symmetric] simp del: tables_simps(5))
  qed
  ultimately obtain db' out j where r: "ivrDecision env ev i stage d q c db = Inr (db', out)" "j \<in> set (db_interactions db')"
      "j = leave i \<or> (\<exists>a t x. j = assignRow a t x (leave i))" by metis
  from r(3) i(2) have "sameCall i j \<and> in_ivrStage j = None \<and> in_ivrInputExpiresAt j = None \<and> in_queueId j = Some (vd_queueId d) \<and>
      in_ivrAttempts j = in_ivrAttempts i + 1 \<and> in_state j \<in> {QUEUED, ASSIGNED}"
    by (auto simp: leave_def assignRow_def sameCall_def)
  with r(1,2) show ?thesis by blast
qed

definition ex_menu :: IvrConfiguration where
  "ex_menu = \<lparr>ic_prompt = ''Welcome'', ic_inputTimeoutSec = 5, ic_voiceRoutes = JObj [(''sales'', JStr ''q'')], ic_dtmfRoutes = JObj [(''1'', JStr ''q'')]\<rparr>"

definition ex_missed :: interaction where
  "ex_missed = ex_waiting\<lparr>in_queueId := None, in_ivrDestinationId := Some ''d'', in_ivrStage := Some IVR_DTMF, in_ivrAttempts := 1\<rparr>"

definition ex_key :: call_event where
  "ex_key = (ex_call ''call.input'')\<lparr>ev_payload := (ev_payload (ex_call ''call.input''))\<lparr>tc_inputMode := Some INPUT_DTMF, tc_inputValue := Some ''9''\<rparr>\<rparr>"

theorem second_miss_leaves_the_menu_witness:
  "\<exists>db' out j. ivrDecision ex_env ex_key ex_missed IVR_DTMF ex_destination ex_queue ex_menu (ex_away\<lparr>db_interactions := [ex_missed]\<rparr>) = Inr (db', out) \<and>
    j \<in> set (db_interactions db') \<and> in_ivrStage j = None \<and> in_queueId j = Some ''q''"
proof -
  have "ivrRoute ex_menu IVR_DTMF (tc_inputMode (ev_payload ex_key)) (tc_inputValue (ev_payload ex_key)) = NoRoute" by code_simp
  moreover have "queueById (ex_away\<lparr>db_interactions := [ex_missed]\<rparr>) (vd_queueId ex_destination) \<noteq> None" by code_simp
  moreover have "in_state ex_missed = QUEUED" "in_ivrAttempts ex_missed \<ge> 1" "vd_queueId ex_destination = ''q''" by code_simp+
  ultimately show ?thesis
    using second_miss_leaves_the_menu [of ex_missed "ex_away\<lparr>db_interactions := [ex_missed]\<rparr>" ex_menu IVR_DTMF ex_key ex_destination ex_env ex_queue]
    by auto
qed

end
