(* ===== verification/AgentPresence.thy ===== *)
theory AgentPresence
  imports VoiceGuarantees
begin

text \<open>
  The commands with which people change an agent's state beside the router: the agent's own
  \<open>becomeAvailable\<close> and \<open>submitWrapup\<close> (\<open>apps/api/src/agent-workspace-api.ts\<close>) and the
  supervisor's \<open>forceAgentState\<close> (\<open>apps/api/src/supervisor-live-api.ts\<close>). They share the
  interactions and the agent state log with the router, so the platform is the router together
  with them; the guarantees of the router are shown to survive their interleaving.

  The gateway has authenticated the request; its identity is an argument. \<open>new Date()\<close> is
  \<open>env_now env ''request'' 0\<close>.
\<close>

section \<open>Tables\<close>

record gateway_identity =
  gi_tenantId :: string
  gi_userId :: string
  gi_roles :: "string list"

record work_session_lease =
  wl_id :: string
  wl_tenantId :: string
  wl_userId :: string
  wl_surface :: string
  wl_hostOrigin :: "string option"
  wl_acquiredAt :: time_ms
  wl_heartbeatAt :: time_ms
  wl_expiresAt :: time_ms
  wl_releasedAt :: "time_ms option"
  wl_releaseReason :: "string option"

record work_session_event =
  we_id :: string
  we_tenantId :: string
  we_userId :: string
  we_leaseId :: string
  we_action :: string
  we_surface :: string
  we_hostOrigin :: "string option"
  we_previousLeaseId :: "string option"
  we_previousSurface :: "string option"
  we_requeuedInteractionCount :: nat
  we_correlationId :: string
  we_occurredAt :: time_ms

record sip_credential =
  sc_leaseId :: string
  sc_tenantId :: string
  sc_userId :: string
  sc_extension :: string
  sc_sipDomain :: string
  sc_telephonyNodeId :: string
  sc_a1Hash :: string
  sc_issuedAt :: time_ms
  sc_revokedAt :: "time_ms option"

record embed_origin =
  eo_tenantId :: string
  eo_origin :: string
  eo_enabled :: bool

record command_receipt =
  cr_tenantId :: string
  cr_commandId :: string
  cr_actorUserId :: string
  cr_action :: string
  cr_resourceId :: string
  cr_result :: json

text \<open>
  \<open>pd_embeddable\<close> lists the tenants for which the entitlement and the feature flag behind
  \<open>EmbedOriginService.embeddable\<close> are on, \<open>pd_sipDomains\<close> pairs each tenant with its SIP
  domain and \<open>pd_activeTenants\<close> lists the tenants whose lifecycle status is ACTIVE.
\<close>

record platform_db =
  pd_router :: router_db
  pd_leases :: "work_session_lease list"
  pd_sessionEvents :: "work_session_event list"
  pd_credentials :: "sip_credential list"
  pd_origins :: "embed_origin list"
  pd_embeddable :: "string list"
  pd_sipDomains :: "(string \<times> string) list"
  pd_activeTenants :: "string list"
  pd_receipts :: "command_receipt list"

datatype api_error =
    BadRequest string
  | Forbidden string
  | NotFound
  | Conflict string

section \<open>Request bodies\<close>

definition hexChar :: "char \<Rightarrow> bool" where
  "hexChar c \<longleftrightarrow> (let n = (of_char c :: nat) in (48 \<le> n \<and> n \<le> 57) \<or> (65 \<le> n \<and> n \<le> 70) \<or> (97 \<le> n \<and> n \<le> 102))"

text \<open>The pattern of a UUID, letter case ignored.\<close>

definition uuidAt :: "nat \<Rightarrow> char \<Rightarrow> bool" where
  "uuidAt n c =
     (if n \<in> {8, 13, 18, 23} then c = CHR ''-''
      else if n = 14 then c \<in> set ''12345''
      else if n = 19 then c \<in> set ''89abAB''
      else hexChar c)"

definition isUuid :: "string \<Rightarrow> bool" where
  "isUuid v \<longleftrightarrow> length v = 36 \<and> list_all (\<lambda>(n, c). uuidAt n c) (enumerate 0 v)"

definition requiredUuid :: "string \<Rightarrow> string \<Rightarrow> api_error + string" where
  "requiredUuid v field = (if isUuid v then Inr v else Inl (BadRequest (field @ '' must be a UUID'')))"

definition upperChar :: "char \<Rightarrow> bool" where
  "upperChar c \<longleftrightarrow> (let n = (of_char c :: nat) in 65 \<le> n \<and> n \<le> 90)"

definition codeChar :: "char \<Rightarrow> bool" where
  "codeChar c \<longleftrightarrow> upperChar c \<or> c = CHR ''_'' \<or> (let n = (of_char c :: nat) in 48 \<le> n \<and> n \<le> 57)"

definition isDisposition :: "string \<Rightarrow> bool" where
  "isDisposition v = (case v of [] \<Rightarrow> False | c # cs \<Rightarrow> upperChar c \<and> 1 \<le> length cs \<and> length cs \<le> 79 \<and> list_all codeChar cs)"

definition wrapupBody :: "json \<Rightarrow> api_error + string \<times> string" where
  "wrapupBody value =
     (if json_prop value ''note'' \<noteq> None then Inl (BadRequest ''VALIDATION_FAILED'')
      else (case json_prop value ''disposition'' of
        Some (JStr disposition) \<Rightarrow>
          if \<not> isDisposition disposition then Inl (BadRequest ''disposition must be an uppercase code'')
          else (case json_prop value ''commandId'' of
            Some (JStr commandId) \<Rightarrow> rbind (requiredUuid commandId ''commandId'') (\<lambda>c. Inr (disposition, c))
          | _ \<Rightarrow> Inl (BadRequest ''commandId must be a UUID''))
      | _ \<Rightarrow> Inl (BadRequest ''disposition must be an uppercase code'')))"

definition requiredReason :: "json option \<Rightarrow> api_error + string" where
  "requiredReason value =
     (case value of
        Some (JStr r) \<Rightarrow> if js_trim r = [] \<or> length (js_trim r) > 240 then Inl (BadRequest ''reason must contain 1-240 characters'')
          else Inr (js_trim r)
      | _ \<Rightarrow> Inl (BadRequest ''reason must contain 1-240 characters''))"

definition agentStateName :: "AgentStateType \<Rightarrow> string" where
  "agentStateName st = (case st of OFFLINE \<Rightarrow> ''OFFLINE'' | AVAILABLE \<Rightarrow> ''AVAILABLE'' | RESERVED \<Rightarrow> ''RESERVED''
     | BUSY \<Rightarrow> ''BUSY'' | ACW \<Rightarrow> ''ACW'' | BREAK \<Rightarrow> ''BREAK'')"

definition forceableState :: "json option \<Rightarrow> api_error + AgentStateType" where
  "forceableState value =
     (case value of
        Some (JStr s) \<Rightarrow>
          (if s = ''OFFLINE'' then Inr OFFLINE else if s = ''AVAILABLE'' then Inr AVAILABLE else if s = ''BREAK'' then Inr BREAK
           else Inl (BadRequest ''state must be OFFLINE, AVAILABLE or BREAK''))
      | _ \<Rightarrow> Inl (BadRequest ''state must be OFFLINE, AVAILABLE or BREAK''))"

definition requiredCommandId :: "json option \<Rightarrow> api_error + string" where
  "requiredCommandId value =
     (case value of Some (JStr c) \<Rightarrow> requiredUuid c ''commandId'' | _ \<Rightarrow> Inl (BadRequest ''commandId must be a UUID''))"

section \<open>Agent commands\<close>

definition liveState :: "InteractionStateType \<Rightarrow> bool" where
  "liveState st \<longleftrightarrow> st \<in> {ASSIGNED, ACTIVE, WRAPUP}"

definition isEmbeddableInTransaction :: "platform_db \<Rightarrow> string \<Rightarrow> string \<Rightarrow> bool" where
  "isEmbeddableInTransaction p tenantId origin \<longleftrightarrow>
     tenantId \<in> set (pd_embeddable p) \<and>
     list_ex (\<lambda>r. eo_tenantId r = tenantId \<and> eo_origin r = origin \<and> eo_enabled r) (pd_origins p)"

definition embeddedHostAllowed :: "platform_db \<Rightarrow> string \<Rightarrow> work_session_lease \<Rightarrow> bool" where
  "embeddedHostAllowed p T lease \<longleftrightarrow>
     (case wl_hostOrigin lease of Some origin \<Rightarrow> origin \<noteq> [] \<and> isEmbeddableInTransaction p T origin | None \<Rightarrow> False)"

definition becomeAvailable ::
  "router_env \<Rightarrow> gateway_identity \<Rightarrow> string option \<Rightarrow> json option \<Rightarrow> platform_db \<Rightarrow> api_error + platform_db" where
  "becomeAvailable env actor workSessionLeaseId body p =
     (let T = gi_tenantId actor; u = gi_userId actor; db = pd_router p in
      rbind (requiredUuid (coalesce workSessionLeaseId []) ''x-work-session-lease-id'') (\<lambda>leaseId.
      if Option.bind body (\<lambda>b. json_prop b ''state'') \<noteq> Some (JStr ''AVAILABLE'') then Inl (BadRequest ''VALIDATION_FAILED'')
      else if \<not> list_ex (\<lambda>r. us_id r = u \<and> us_tenantId r = T \<and> us_role r = ''AGENT'' \<and> us_isActive r) (db_users db) then Inl NotFound
      else (case find (\<lambda>l. wl_id l = leaseId \<and> wl_tenantId l = T \<and> wl_userId l = u \<and> wl_releasedAt l = None \<and>
                       wl_expiresAt l > env_now env ''request'' 0) (pd_leases p) of
        None \<Rightarrow> Inl (Forbidden ''WORK_SESSION_CHANGED'')
      | Some lease \<Rightarrow>
          if wl_surface lease = ''embedded'' \<and> \<not> embeddedHostAllowed p T lease then Inl (Forbidden ''EMBED_ORIGIN_NOT_ALLOWED'')
          else if \<not> list_ex (\<lambda>c. sc_leaseId c = leaseId \<and> sc_tenantId c = T \<and> sc_userId c = u \<and> sc_revokedAt c = None) (pd_credentials p)
          then Inl (Conflict ''AGENT_SIP_NOT_READY'')
          else if list_ex (\<lambda>i. in_tenantId i = T \<and> in_agentId i = Some u \<and> in_channel i = ''VOICE'' \<and> liveState (in_state i)) (db_interactions db)
          then Inl (Conflict ''WORK_SESSION_BUSY'')
          else if map_option al_state (latestLog db T u) = Some AVAILABLE then Inr p
          else Inr (p\<lparr>pd_router := addLogBy (Some u) env T u AVAILABLE ''agent_self_available'' None db\<rparr>))))"

definition findCommandReceipt :: "platform_db \<Rightarrow> string \<Rightarrow> string \<Rightarrow> command_receipt option" where
  "findCommandReceipt p T commandId = find (\<lambda>r. cr_tenantId r = T \<and> cr_commandId r = commandId) (pd_receipts p)"

definition receiptFits :: "command_receipt \<Rightarrow> string \<Rightarrow> string \<Rightarrow> string \<Rightarrow> bool" where
  "receiptFits r u action resourceId \<longleftrightarrow> cr_actorUserId r = u \<and> cr_action r = action \<and> cr_resourceId r = resourceId"

definition wrapupOnce ::
  "router_env \<Rightarrow> gateway_identity \<Rightarrow> string \<Rightarrow> string \<Rightarrow> string \<Rightarrow> platform_db \<Rightarrow> api_error + platform_db \<times> json" where
  "wrapupOnce env actor disposition commandId resourceId p =
     (let T = gi_tenantId actor; u = gi_userId actor; db = pd_router p in
      case findCommandReceipt p T commandId of
        Some receipt \<Rightarrow>
          if receiptFits receipt u ''AGENT_WRAPUP_SUBMIT'' resourceId then Inr (p, cr_result receipt)
          else Inl (BadRequest ''commandId was already used for another command'')
      | None \<Rightarrow>
          (case find (\<lambda>i. in_id i = resourceId \<and> in_tenantId i = T \<and> in_agentId i = Some u \<and> in_state i = WRAPUP) (db_interactions db) of
             None \<Rightarrow> Inl NotFound
           | Some i \<Rightarrow>
               if in_voiceWrapupPolicy i = ''VOICE_NOTE_V1'' then Inl (Conflict ''WRAPUP_V1_REQUIRED'')
               else
                 let db1 = updateInteractions (\<lambda>r. in_id r = in_id i \<and> in_tenantId r = T \<and> in_agentId r = Some u \<and> in_state r = WRAPUP)
                       (\<lambda>r. r\<lparr>in_state := COMPLETED, in_wrapUpCode := Some disposition\<rparr>) db;
                     db2 = addEvent T (in_id i) ''interaction.wrapup_completed''
                       (JObj [(''disposition'', JStr disposition), (''commandId'', JStr commandId)]) db1;
                     db3 = addLog env T u AVAILABLE ''wrapup_completed'' None db2;
                     result = JObj [(''interactionId'', JStr (in_id i)), (''state'', JStr ''COMPLETED''), (''disposition'', JStr disposition)];
                     receipt = \<lparr>cr_tenantId = T, cr_commandId = commandId, cr_actorUserId = u, cr_action = ''AGENT_WRAPUP_SUBMIT'',
                       cr_resourceId = in_id i, cr_result = result\<rparr>
                 in Inr (p\<lparr>pd_router := db3, pd_receipts := pd_receipts p @ [receipt]\<rparr>, result)))"

definition submitWrapup ::
  "router_env \<Rightarrow> gateway_identity \<Rightarrow> string \<Rightarrow> json \<Rightarrow> platform_db \<Rightarrow> api_error + platform_db \<times> json" where
  "submitWrapup env actor interactionId body p =
     rbind (wrapupBody body) (\<lambda>(disposition, commandId).
     rbind (requiredUuid interactionId ''interactionId'') (\<lambda>resourceId.
     wrapupOnce env actor disposition commandId resourceId p))"

section \<open>Supervisor command\<close>

datatype SupervisorScope = AdminScope | TeamScope string

definition resolveScope :: "platform_db \<Rightarrow> gateway_identity \<Rightarrow> api_error + SupervisorScope" where
  "resolveScope p actor =
     (if ''admin'' \<in> set (gi_roles actor) then Inr AdminScope
      else if ''supervisor'' \<notin> set (gi_roles actor) then Inl (Forbidden [])
      else (case Option.bind (find (\<lambda>r. us_id r = gi_userId actor \<and> us_tenantId r = gi_tenantId actor \<and> us_role r = ''SUPERVISOR'')
                   (db_users (pd_router p))) us_teamId of
        None \<Rightarrow> Inl (Forbidden ''supervisor must belong to a team'')
      | Some team \<Rightarrow> Inr (TeamScope team)))"

definition inScope :: "SupervisorScope \<Rightarrow> string option \<Rightarrow> bool" where
  "inScope scope teamId = (case scope of AdminScope \<Rightarrow> True | TeamScope t \<Rightarrow> teamId = Some t)"

definition recipients :: "platform_db \<Rightarrow> string \<Rightarrow> string option \<Rightarrow> string list" where
  "recipients p T teamId =
     map us_id (filter (\<lambda>r. us_tenantId r = T \<and> (us_role r = ''ADMIN'' \<or> (us_role r = ''SUPERVISOR'' \<and> us_teamId r = teamId)))
       (db_users (pd_router p)))"

definition forceTarget ::
  "router_env \<Rightarrow> gateway_identity \<Rightarrow> AgentStateType \<Rightarrow> string \<Rightarrow> user_row \<Rightarrow> string \<Rightarrow> platform_db \<Rightarrow>
     api_error + platform_db \<times> json \<times> string list" where
  "forceTarget env actor state reason target commandId p =
     (let T = gi_tenantId actor; u = gi_userId actor; a = us_id target; db = pd_router p in
      case findCommandReceipt p T commandId of
        Some receipt \<Rightarrow>
          if receiptFits receipt u ''SUPERVISOR_FORCE_AGENT_STATE'' a then Inr (p, cr_result receipt, [])
          else Inl (BadRequest ''commandId was already used for another command'')
      | None \<Rightarrow>
          if list_ex (\<lambda>i. in_tenantId i = T \<and> in_agentId i = Some a \<and> liveState (in_state i)) (db_interactions db)
          then Inl (Conflict ''agent has an active Interaction; force-safe boundary rejected'')
          else
            let result = JObj [(''agentId'', JStr a), (''state'', JStr (agentStateName state)), (''reason'', JStr reason)];
                receipt = \<lparr>cr_tenantId = T, cr_commandId = commandId, cr_actorUserId = u,
                  cr_action = ''SUPERVISOR_FORCE_AGENT_STATE'', cr_resourceId = a, cr_result = result\<rparr>
            in Inr (p\<lparr>pd_router := addLogBy (Some u) env T a state reason None db,
                      pd_receipts := pd_receipts p @ [receipt]\<rparr>, result, recipients p T (us_teamId target)))"

text \<open>The result, and the users a live event is pushed to.\<close>

definition forceAgentState ::
  "router_env \<Rightarrow> gateway_identity \<Rightarrow> string \<Rightarrow> json \<Rightarrow> platform_db \<Rightarrow> api_error + platform_db \<times> json \<times> string list" where
  "forceAgentState env actor agentId body p =
     rbind (forceableState (json_prop body ''state'')) (\<lambda>state.
     rbind (requiredReason (json_prop body ''reason'')) (\<lambda>reason.
     rbind (resolveScope p actor) (\<lambda>scope.
     rbind (requiredUuid agentId ''agentId'') (\<lambda>targetId.
     case find (\<lambda>r. us_id r = targetId \<and> us_tenantId r = gi_tenantId actor \<and> us_role r = ''AGENT'') (db_users (pd_router p)) of
       None \<Rightarrow> Inl NotFound
     | Some target \<Rightarrow>
         if \<not> inScope scope (us_teamId target) then Inl (Forbidden [])
         else rbind (requiredCommandId (json_prop body ''commandId'')) (\<lambda>commandId.
           forceTarget env actor state reason target commandId p)))))"

section \<open>The commands are moves\<close>

lemma liveState_iff: "liveState st \<longleftrightarrow> holds st \<noteq> None"
  by (cases st) (simp_all add: liveState_def holds_def)

lemma available_refines:
  assumes "becomeAvailable env actor lease body p = Inr p'" and inv: "routerInv (pd_router p)"
  shows "steps (move env (gi_tenantId actor)) (pd_router p) (pd_router p')"
proof (cases "p' = p")
  case False
  with assms(1) have idle: "\<not> list_ex (\<lambda>i. in_tenantId i = gi_tenantId actor \<and> in_agentId i = Some (gi_userId actor) \<and> in_channel i = ''VOICE'' \<and>
      liveState (in_state i)) (db_interactions (pd_router p))"
    and p': "pd_router p' = addLogBy (Some (gi_userId actor)) env (gi_tenantId actor) (gi_userId actor) AVAILABLE ''agent_self_available'' None (pd_router p)"
    by (auto simp: becomeAvailable_def Let_def rbind_eq_Inr_iff split: if_splits option.splits)
  from idle routerInvD(5) [OF inv] show ?thesis unfolding p'
    by (intro steps_one presence) (auto simp: list_ex_iff liveState_iff)
qed auto

lemma force_target_cases:
  assumes "forceTarget env actor state reason target c p = Inr (p', r, us)"
  obtains (again) receipt where "p' = p" "findCommandReceipt p (gi_tenantId actor) c = Some receipt" "r = cr_result receipt"
      "receiptFits receipt (gi_userId actor) ''SUPERVISOR_FORCE_AGENT_STATE'' (us_id target)"
  | (forced) receipt where "findCommandReceipt p (gi_tenantId actor) c = None" "cr_tenantId receipt = gi_tenantId actor" "cr_commandId receipt = c"
      "receiptFits receipt (gi_userId actor) ''SUPERVISOR_FORCE_AGENT_STATE'' (us_id target)" "r = cr_result receipt"
      "\<not> list_ex (\<lambda>i. in_tenantId i = gi_tenantId actor \<and> in_agentId i = Some (us_id target) \<and> liveState (in_state i)) (db_interactions (pd_router p))"
      "p' = p\<lparr>pd_router := addLogBy (Some (gi_userId actor)) env (gi_tenantId actor) (us_id target) state reason None (pd_router p),
        pd_receipts := pd_receipts p @ [receipt]\<rparr>"
proof (cases "findCommandReceipt p (gi_tenantId actor) c")
  case None
  with assms show ?thesis
    by (intro that(2) [of "\<lparr>cr_tenantId = gi_tenantId actor, cr_commandId = c, cr_actorUserId = gi_userId actor,
          cr_action = ''SUPERVISOR_FORCE_AGENT_STATE'', cr_resourceId = us_id target, cr_result = r\<rparr>"])
      (auto simp: forceTarget_def Let_def receiptFits_def split: if_splits)
qed (use assms in \<open>auto simp: forceTarget_def Let_def intro: that(1) split: if_splits\<close>)

lemma force_target_of:
  assumes "forceAgentState env actor agentId body p = Inr x"
  obtains state reason scope target c where "forceableState (json_prop body ''state'') = Inr state"
    "requiredReason (json_prop body ''reason'') = Inr reason" "resolveScope p actor = Inr scope" "requiredUuid agentId ''agentId'' = Inr agentId"
    "find (\<lambda>r. us_id r = agentId \<and> us_tenantId r = gi_tenantId actor \<and> us_role r = ''AGENT'') (db_users (pd_router p)) = Some target"
    "inScope scope (us_teamId target)" "requiredCommandId (json_prop body ''commandId'') = Inr c"
    "forceTarget env actor state reason target c p = Inr x"
proof -
  from assms have "isUuid agentId" by (auto simp: forceAgentState_def rbind_eq_Inr_iff requiredUuid_def split: if_splits)
  then have u: "requiredUuid agentId ''agentId'' = Inr agentId" by (simp add: requiredUuid_def)
  from assms that [OF _ _ _ u] show ?thesis
    unfolding forceAgentState_def rbind_eq_Inr_iff u by (auto simp: rbind_eq_Inr_iff split: option.splits if_splits)
qed

lemma force_refines:
  assumes "forceAgentState env actor agentId body p = Inr (p', r, us)"
  shows "steps (move env (gi_tenantId actor)) (pd_router p) (pd_router p')"
proof -
  from assms obtain state reason target c where state: "forceableState (json_prop body ''state'') = Inr state"
    and f: "forceTarget env actor state reason target c p = Inr (p', r, us)" by (rule force_target_of)
  from state have st: "state \<in> {OFFLINE, AVAILABLE, BREAK}"
    by (auto simp: forceableState_def split: option.splits json.splits if_splits)
  from f show ?thesis
  proof (cases rule: force_target_cases)
    case (forced receipt)
    with st show ?thesis by (auto simp: list_ex_iff liveState_iff intro!: steps_one presence)
  qed auto
qed

lemma log_before_event: "addLogBy ac env T u st r e (addEvent T' iid ty pl db) = addEvent T' iid ty pl (addLogBy ac env T u st r e db)"
  by (simp add: addLogBy_def addEvent_def)

lemma submit_refines:
  assumes "submitWrapup env actor interactionId body p = Inr (p', r)" and inv: "routerInv (pd_router p)"
  shows "steps (move env (gi_tenantId actor)) (pd_router p) (pd_router p')"
proof (cases "p' = p")
  case False
  let ?claim = "\<lambda>i r. in_id r = in_id i \<and> in_tenantId r = gi_tenantId actor \<and> in_agentId r = Some (gi_userId actor) \<and> in_state r = WRAPUP"
  from False assms(1) obtain i d c where
    i: "i \<in> set (db_interactions (pd_router p))" "in_tenantId i = gi_tenantId actor" "in_agentId i = Some (gi_userId actor)" "in_state i = WRAPUP"
    and p': "pd_router p' = addLog env (gi_tenantId actor) (gi_userId actor) AVAILABLE ''wrapup_completed'' None
      (addEvent (gi_tenantId actor) (in_id i) ''interaction.wrapup_completed'' (JObj [(''disposition'', JStr d), (''commandId'', JStr c)])
        (updateInteractions (?claim i) (\<lambda>r. r\<lparr>in_state := COMPLETED, in_wrapUpCode := Some d\<rparr>) (pd_router p)))"
    by (auto simp: submitWrapup_def wrapupOnce_def Let_def rbind_eq_Inr_iff split: if_splits option.splits dest: find_Some_in)
  have "countInteractions (?claim i) (pd_router p) \<noteq> 0" using i by (auto simp: countInteractions_def filter_empty_conv)
  with i inv show ?thesis unfolding p' log_before_event
    by (intro steps_event agent_claim [where i = i]) (auto simp: sameCall_def allowed_def holds_def)
qed auto

section \<open>Retried commands\<close>

lemma receipt_appended:
  "findCommandReceipt p T c = None \<Longrightarrow> cr_tenantId r = T \<Longrightarrow> cr_commandId r = c \<Longrightarrow>
    findCommandReceipt (p\<lparr>pd_router := db, pd_receipts := pd_receipts p @ [r]\<rparr>) T c = Some r"
  by (simp add: findCommandReceipt_def find_none_append)

definition receiveForce :: "gateway_identity \<times> string \<times> json \<Rightarrow> router_env \<Rightarrow> platform_db \<Rightarrow> api_error + platform_db \<times> json" where
  "receiveForce = (\<lambda>(actor, agentId, body) env p. rbind (forceAgentState env actor agentId body p) (\<lambda>(p', r, us). Inr (p', r)))"

definition receiveWrapup :: "gateway_identity \<times> string \<times> json \<Rightarrow> router_env \<Rightarrow> platform_db \<Rightarrow> api_error + platform_db \<times> json" where
  "receiveWrapup = (\<lambda>(actor, interactionId, body) env p. submitWrapup env actor interactionId body p)"

lemma users_addLog [simp]: "db_users (addLogBy ac env T u st r e db) = db_users db"
  by (simp add: addLogBy_def)

lemma force_again:
  assumes "forceAgentState env actor agentId body p = Inr (p', r, us)"
  shows "forceAgentState env' actor agentId body p' = Inr (p', r, [])"
proof -
  from assms obtain state reason scope target c where
    v: "forceableState (json_prop body ''state'') = Inr state" "requiredReason (json_prop body ''reason'') = Inr reason"
      "resolveScope p actor = Inr scope" "requiredUuid agentId ''agentId'' = Inr agentId"
      "find (\<lambda>r. us_id r = agentId \<and> us_tenantId r = gi_tenantId actor \<and> us_role r = ''AGENT'') (db_users (pd_router p)) = Some target"
      "inScope scope (us_teamId target)" "requiredCommandId (json_prop body ''commandId'') = Inr c"
    and f: "forceTarget env actor state reason target c p = Inr (p', r, us)" by (rule force_target_of)
  from f have users: "db_users (pd_router p') = db_users (pd_router p)"
    by (cases rule: force_target_cases) auto
  then have "resolveScope p' actor = resolveScope p actor" by (simp add: resolveScope_def)
  moreover from f have "forceTarget env' actor state reason target c p' = Inr (p', r, [])"
    by (cases rule: force_target_cases) (auto simp: forceTarget_def receipt_appended)
  ultimately show ?thesis using v users by (simp add: forceAgentState_def)
qed

lemma wrapup_once_again:
  assumes "wrapupOnce env actor d c rid p = Inr (p', r)"
  shows "wrapupOnce env' actor d c rid p' = Inr (p', r)"
proof (cases "findCommandReceipt p (gi_tenantId actor) c")
  case None
  define rec where "rec = \<lparr>cr_tenantId = gi_tenantId actor, cr_commandId = c, cr_actorUserId = gi_userId actor,
    cr_action = ''AGENT_WRAPUP_SUBMIT'', cr_resourceId = rid, cr_result = r\<rparr>"
  from None assms obtain db' where p': "p' = p\<lparr>pd_router := db', pd_receipts := pd_receipts p @ [rec]\<rparr>"
    by (auto simp: wrapupOnce_def rec_def Let_def split: if_splits option.splits dest!: find_Some_in)
  have rec: "cr_tenantId rec = gi_tenantId actor" "cr_commandId rec = c" "receiptFits rec (gi_userId actor) ''AGENT_WRAPUP_SUBMIT'' rid"
      "r = cr_result rec" by (simp_all add: rec_def receiptFits_def)
  have "findCommandReceipt p' (gi_tenantId actor) c = Some rec" unfolding p' by (rule receipt_appended [OF None rec(1,2)])
  with rec(3,4) show ?thesis by (simp add: wrapupOnce_def)
qed (use assms in \<open>auto simp: wrapupOnce_def Let_def split: if_splits\<close>)

lemma submit_again:
  assumes "submitWrapup env actor interactionId body p = Inr (p', r)"
  shows "submitWrapup env' actor interactionId body p' = Inr (p', r)"
  using assms by (auto simp: submitWrapup_def rbind_eq_Inr_iff dest: wrapup_once_again)

interpretation force: idempotent_command receiveForce
  by unfold_locales (auto simp: receiveForce_def rbind_eq_Inr_iff, metis force_again)

interpretation wrapup: idempotent_command receiveWrapup
  by unfold_locales (auto simp: receiveWrapup_def dest: submit_again)

text \<open>
  A supervisor's or agent's command that is sent again under the same command identifier, any
  number of times and at any later time, changes nothing and is answered as the first time.
\<close>

lemma retried_workspace_commands:
  assumes "forceAgentState env actor agentId body p = Inr (p', r, us)"
    and "submitWrapup env2 actor2 interactionId body2 q = Inr (q', s)"
  shows "retries (receiveForce (actor, agentId, body)) (env # envs) p = Inr (p', replicate (Suc (length envs)) r) \<and>
    retries (receiveWrapup (actor2, interactionId, body2)) (env2 # envs) q = Inr (q', replicate (Suc (length envs)) s)"
proof
  show "retries (receiveForce (actor, agentId, body)) (env # envs) p = Inr (p', replicate (Suc (length envs)) r)"
    by (rule force.retries_once) (simp add: receiveForce_def assms(1))
  show "retries (receiveWrapup (actor2, interactionId, body2)) (env2 # envs) q = Inr (q', replicate (Suc (length envs)) s)"
    by (rule wrapup.retries_once) (simp add: receiveWrapup_def assms(2))
qed

definition ex_platform :: platform_db where
  "ex_platform = \<lparr>pd_router = ex_db, pd_leases = [], pd_sessionEvents = [], pd_credentials = [], pd_origins = [], pd_embeddable = [], pd_sipDomains = [(''t'', ''t.sip'')],
     pd_activeTenants = [''t''], pd_receipts = []\<rparr>"

definition ex_id :: "char \<Rightarrow> string" where
  "ex_id c = ''00000000-0000-4000-8000-00000000000'' @ [c]"

definition ex_admin :: gateway_identity where
  "ex_admin = \<lparr>gi_tenantId = ''t'', gi_userId = ''boss'', gi_roles = [''admin'']\<rparr>"

definition ex_self :: gateway_identity where
  "ex_self = \<lparr>gi_tenantId = ''t'', gi_userId = ex_id CHR ''a'', gi_roles = [''agent'']\<rparr>"

definition ex_force_body :: json where
  "ex_force_body = JObj [(''state'', JStr ''BREAK''), (''reason'', JStr ''training''), (''commandId'', JStr (ex_id CHR ''1''))]"

definition ex_wrapup_body :: json where
  "ex_wrapup_body = JObj [(''disposition'', JStr ''SOLVED''), (''commandId'', JStr (ex_id CHR ''2''))]"

definition ex_idle_platform :: platform_db where
  "ex_idle_platform = ex_platform\<lparr>pd_router := ex_db\<lparr>db_users := [ex_agent\<lparr>us_id := ex_id CHR ''a''\<rparr>]\<rparr>\<rparr>"

definition ex_wrapup_platform :: platform_db where
  "ex_wrapup_platform = ex_platform\<lparr>pd_router := ex_db\<lparr>db_interactions :=
     [ex_row\<lparr>in_id := ex_id CHR ''c'', in_state := WRAPUP, in_agentId := Some (ex_id CHR ''a'')\<rparr>]\<rparr>\<rparr>"

definition ex_forced :: "platform_db \<times> json \<times> string list" where
  "ex_forced = projr (forceAgentState ex_late ex_admin (ex_id CHR ''a'') ex_force_body ex_idle_platform)"

definition ex_wrapped :: "platform_db \<times> json" where
  "ex_wrapped = projr (submitWrapup ex_late ex_self (ex_id CHR ''c'') ex_wrapup_body ex_wrapup_platform)"

lemma retried_workspace_commands_witness:
  "retries (receiveForce (ex_admin, ex_id CHR ''a'', ex_force_body)) [ex_late, ex_env] ex_idle_platform =
     Inr (fst ex_forced, [fst (snd ex_forced), fst (snd ex_forced)]) \<and>
   retries (receiveWrapup (ex_self, ex_id CHR ''c'', ex_wrapup_body)) [ex_late, ex_env] ex_wrapup_platform =
     Inr (fst ex_wrapped, [snd ex_wrapped, snd ex_wrapped])"
proof -
  have f: "forceAgentState ex_late ex_admin (ex_id CHR ''a'') ex_force_body ex_idle_platform =
      Inr (fst ex_forced, fst (snd ex_forced), snd (snd ex_forced))" by code_simp
  have w: "submitWrapup ex_late ex_self (ex_id CHR ''c'') ex_wrapup_body ex_wrapup_platform = Inr (fst ex_wrapped, snd ex_wrapped)"
    by code_simp
  from retried_workspace_commands [OF f w, of "[ex_env]"] show ?thesis by simp
qed

end
