(* ===== verification/EmbedOrigin.thy ===== *)
theory EmbedOrigin
  imports VoiceRouter
begin

text \<open>
  The form of an origin that may embed the phone (\<open>packages/shared/src/embed-origin.ts\<close>). The URL
  parser of the platform (\<open>new URL\<close>, failing or giving four components) is the parameter \<open>url\<close>.
\<close>

record parsed_url =
  ur_username :: string
  ur_password :: string
  ur_hostname :: string
  ur_origin :: string

datatype EmbedOriginRejection =
    INVALID_URL
  | SCHEME_NOT_ALLOWED
  | WILDCARD
  | USERINFO
  | PATH_QUERY_FRAGMENT
  | IP_ADDRESS
  | LOCALHOST_NOT_ALLOWED
  | RESERVED_ORIGIN

definition letterChar :: "char \<Rightarrow> bool" where
  "letterChar c \<longleftrightarrow> (let n = (of_char c :: nat) in (65 \<le> n \<and> n \<le> 90) \<or> (97 \<le> n \<and> n \<le> 122))"

definition digitChar :: "char \<Rightarrow> bool" where
  "digitChar c \<longleftrightarrow> (let n = (of_char c :: nat) in 48 \<le> n \<and> n \<le> 57)"

definition schemeChar :: "char \<Rightarrow> bool" where
  "schemeChar c \<longleftrightarrow> letterChar c \<or> digitChar c \<or> c \<in> set ''+.-''"

text \<open>The pattern \<open>/^([a-z][a-z0-9+.-]*):\/\//i\<close>: the longest run of scheme characters is the only match.\<close>

definition schemeOf :: "string \<Rightarrow> string option" where
  "schemeOf raw =
     (let s = takeWhile schemeChar raw in
      if s \<noteq> [] \<and> letterChar (hd s) \<and> take 3 (drop (length s) raw) = ''://'' then Some (map lowerChar s) else None)"

text \<open>The pattern \<open>/^[a-z]+:\/\/[^/]*@/i\<close>.\<close>

definition hasUserinfo :: "string \<Rightarrow> bool" where
  "hasUserinfo raw \<longleftrightarrow>
     (let s = takeWhile letterChar raw in
      s \<noteq> [] \<and> take 3 (drop (length s) raw) = ''://'' \<and>
      CHR ''@'' \<in> set (takeWhile (\<lambda>c. c \<noteq> CHR ''/'') (drop (length s + 3) raw)))"

text \<open>After a scheme the first \<open>//\<close> is the one that follows it.\<close>

definition afterAuthority :: "string \<Rightarrow> string" where
  "afterAuthority raw = dropWhile (\<lambda>c. c \<notin> set ''/?#'') (drop (length (takeWhile schemeChar raw) + 3) raw)"

fun splitOn :: "char \<Rightarrow> string \<Rightarrow> string list" where
  "splitOn d [] = [[]]"
| "splitOn d (c # cs) =
     (if c = d then [] # splitOn d cs
      else (case splitOn d cs of w # ws \<Rightarrow> (c # w) # ws | [] \<Rightarrow> [[c]]))"

definition isIpLiteral :: "string \<Rightarrow> bool" where
  "isIpLiteral hostname \<longleftrightarrow>
     (let parts = splitOn CHR ''.'' hostname in
      length parts = 4 \<and> list_all (\<lambda>w. 1 \<le> length w \<and> length w \<le> 3 \<and> list_all digitChar w) parts) \<or>
     take 1 hostname = ''[''"

definition isLocalHost :: "string \<Rightarrow> bool" where
  "isLocalHost hostname \<longleftrightarrow> hostname \<in> {''localhost'', ''127.0.0.1''}"

definition normalizeEmbedOrigin ::
  "(string \<Rightarrow> parsed_url option) \<Rightarrow> bool \<Rightarrow> string list \<Rightarrow> string \<Rightarrow> EmbedOriginRejection + string" where
  "normalizeEmbedOrigin url allowLocalhost reservedOrigins input =
     (let raw = js_trim input in
      if raw = [] \<or> length raw > 255 then Inl INVALID_URL
      else if CHR ''*'' \<in> set raw then Inl WILDCARD
      else (case schemeOf raw of
          None \<Rightarrow> Inl INVALID_URL
        | Some scheme \<Rightarrow>
            (case url raw of
               None \<Rightarrow> Inl INVALID_URL
             | Some u \<Rightarrow>
                 if ur_username u \<noteq> [] \<or> ur_password u \<noteq> [] \<or> hasUserinfo raw then Inl USERINFO
                 else if afterAuthority raw \<notin> {[], ''/''} then Inl PATH_QUERY_FRAGMENT
                 else
                   let hostname = map lowerChar (ur_hostname u);
                       local = isLocalHost hostname;
                       origin = map lowerChar (ur_origin u)
                   in if scheme = ''http'' \<and> \<not> local then Inl SCHEME_NOT_ALLOWED
                      else if scheme = ''http'' \<and> \<not> allowLocalhost then Inl LOCALHOST_NOT_ALLOWED
                      else if scheme \<noteq> ''http'' \<and> scheme \<noteq> ''https'' then Inl SCHEME_NOT_ALLOWED
                      else if local \<and> \<not> allowLocalhost then Inl LOCALHOST_NOT_ALLOWED
                      else if \<not> local \<and> isIpLiteral hostname then Inl IP_ADDRESS
                      else if origin \<in> set (map (map lowerChar) reservedOrigins) then Inl RESERVED_ORIGIN
                      else Inr origin)))"

text \<open>\<open>value.replace(/\/$/, '')\<close>: without a final slash.\<close>

definition dropFinalSlash :: "string \<Rightarrow> string" where
  "dropFinalSlash v = (if v \<noteq> [] \<and> last v = CHR ''/'' then butlast v else v)"

definition normalizeHostOrigin :: "(string \<Rightarrow> parsed_url option) \<Rightarrow> json option \<Rightarrow> string option" where
  "normalizeHostOrigin url v =
     (case v of
        Some (JStr s) \<Rightarrow>
          (case normalizeEmbedOrigin url True [] s of
             Inr origin \<Rightarrow> if origin \<noteq> dropFinalSlash s then None else Some origin
           | Inl _ \<Rightarrow> None)
      | _ \<Rightarrow> None)"

end
