(* ===== verification/WorkSession.thy ===== *)
theory WorkSession
  imports AgentPresence EmbedOrigin
begin

text \<open>
  The work-session lease of an agent (\<open>apps/api/src/work-session.ts\<close>) and the SIP credential that
  hangs on it (\<open>apps/api/src/agent-sip-credentials.ts\<close>), and the platform in which router, agents,
  supervisors and work sessions interleave.

  A transaction yields the new tables and what is sent after the commit, or an error that leaves
  the tables as they were. \<open>env_now env key n\<close> is the \<open>n\<close>-th reading of \<open>this.now()\<close> on behalf of
  \<open>key\<close> (\<open>''request''\<close>, or the lease a sweep works on), \<open>env_newId\<close> the identifier of the new
  lease and \<open>env_eventId\<close> that of an audit row. As transactions run one after the other, the
  branch for a violated unique index is never taken.
\<close>

section \<open>Requests and results\<close>

record WorkSessionActor =
  wa_tenantId :: string
  wa_userId :: string

record WorkSessionRequest =
  wr_surface :: string
  wr_hostOrigin :: "string option"

record WorkSessionHolder =
  wh_leaseId :: string
  wh_surface :: string
  wh_hostOrigin :: "string option"
  wh_acquiredAt :: time_ms
  wh_busy :: bool

record WorkSessionLeaseView =
  wv_leaseId :: string
  wv_surface :: string
  wv_hostOrigin :: "string option"
  wv_acquiredAt :: time_ms
  wv_expiresAt :: time_ms
  wv_ttlSeconds :: int
  wv_heartbeatSeconds :: int

datatype WorkSessionError =
    VALIDATION_FAILED
  | WORK_SESSION_HELD WorkSessionHolder
  | WORK_SESSION_BUSY WorkSessionHolder
  | WORK_SESSION_CHANGED
  | AGENT_NOT_FOUND
  | EMBED_ORIGIN_NOT_ALLOWED

datatype LeaseSignal = LeaseRevoked string string | LeaseExpired string

record WorkSessionDiagnostic =
  wd_event :: string
  wd_tenantId :: string
  wd_surface :: "string option"
  wd_reason :: "string option"
  wd_requeued :: "nat option"

text \<open>What reaches the sinks: socket signals, flushed SIP registrations and metrics.\<close>

datatype session_effect =
    Signal string string LeaseSignal
  | FlushRegistration string sip_credential
  | Diagnose WorkSessionDiagnostic

datatype heartbeat_status = HB_ACTIVE time_ms | HB_REVOKED string | HB_EXPIRED

definition WORK_SESSION_TTL_MS :: int where
  "WORK_SESSION_TTL_MS = 60000"

definition WORK_SESSION_HEARTBEAT_MS :: int where
  "WORK_SESSION_HEARTBEAT_MS = 20000"

definition diagnose :: "string \<Rightarrow> string \<Rightarrow> string option \<Rightarrow> string option \<Rightarrow> nat option \<Rightarrow> session_effect" where
  "diagnose event tenantId surface reason requeued =
     Diagnose \<lparr>wd_event = event, wd_tenantId = tenantId, wd_surface = surface, wd_reason = reason, wd_requeued = requeued\<rparr>"

definition holder :: "work_session_lease \<Rightarrow> bool \<Rightarrow> WorkSessionHolder" where
  "holder lease b = \<lparr>wh_leaseId = wl_id lease, wh_surface = wl_surface lease, wh_hostOrigin = wl_hostOrigin lease,
     wh_acquiredAt = wl_acquiredAt lease, wh_busy = b\<rparr>"

definition parseWorkSessionRequest :: "(string \<Rightarrow> parsed_url option) \<Rightarrow> json \<Rightarrow> WorkSessionError + WorkSessionRequest" where
  "parseWorkSessionRequest url body =
     (case json_prop body ''surface'' of
        Some (JStr surface) \<Rightarrow>
          (if surface \<notin> {''workspace'', ''dphone'', ''embedded''} then Inl VALIDATION_FAILED
           else if surface = ''embedded'' then
             (case normalizeHostOrigin url (json_prop body ''hostOrigin'') of
                Some origin \<Rightarrow> if origin = [] then Inl VALIDATION_FAILED else Inr \<lparr>wr_surface = surface, wr_hostOrigin = Some origin\<rparr>
              | None \<Rightarrow> Inl VALIDATION_FAILED)
           else if json_prop body ''hostOrigin'' \<notin> {None, Some JNull} then Inl VALIDATION_FAILED
           else Inr \<lparr>wr_surface = surface, wr_hostOrigin = None\<rparr>)
      | _ \<Rightarrow> Inl VALIDATION_FAILED)"

section \<open>Internals\<close>

definition isActiveAgent :: "platform_db \<Rightarrow> WorkSessionActor \<Rightarrow> bool" where
  "isActiveAgent p actor \<longleftrightarrow>
     list_ex (\<lambda>r. us_id r = wa_userId actor \<and> us_tenantId r = wa_tenantId actor \<and> us_role r = ''AGENT'' \<and> us_isActive r)
       (db_users (pd_router p))"

definition openFor :: "WorkSessionActor \<Rightarrow> work_session_lease \<Rightarrow> bool" where
  "openFor actor l \<longleftrightarrow> wl_tenantId l = wa_tenantId actor \<and> wl_userId l = wa_userId actor \<and> wl_releasedAt l = None"

definition lockOpen :: "platform_db \<Rightarrow> WorkSessionActor \<Rightarrow> work_session_lease option" where
  "lockOpen p actor = find (openFor actor) (pd_leases p)"

definition busy :: "platform_db \<Rightarrow> WorkSessionActor \<Rightarrow> bool" where
  "busy p actor \<longleftrightarrow>
     countInteractions (\<lambda>i. in_tenantId i = wa_tenantId actor \<and> in_agentId i = Some (wa_userId actor) \<and> in_state i \<in> {ACTIVE, WRAPUP})
       (pd_router p) > 0"

definition lapsed :: "time_ms \<Rightarrow> work_session_lease \<Rightarrow> bool \<Rightarrow> bool" where
  "lapsed now lease b \<longleftrightarrow> \<not> b \<and> wl_expiresAt lease \<le> now"

definition requireEmbeddable :: "bool \<Rightarrow> platform_db \<Rightarrow> WorkSessionActor \<Rightarrow> WorkSessionRequest \<Rightarrow> bool" where
  "requireEmbeddable embedOrigins p actor request \<longleftrightarrow>
     wr_surface request \<noteq> ''embedded'' \<or>
     embedOrigins \<and> isEmbeddableInTransaction p (wa_tenantId actor) (coalesce (wr_hostOrigin request) [])"

text \<open>Whether the allowlist has dropped the host of an open embedded lease.\<close>

definition originRevoked :: "bool \<Rightarrow> platform_db \<Rightarrow> WorkSessionActor \<Rightarrow> string \<Rightarrow> bool" where
  "originRevoked embedOrigins p actor leaseId =
     (case find (\<lambda>l. wl_id l = leaseId \<and> openFor actor l) (pd_leases p) of
        None \<Rightarrow> False
      | Some lease \<Rightarrow>
          if wl_surface lease \<noteq> ''embedded'' \<or> wl_hostOrigin lease \<in> {None, Some []} then False
          else \<not> (embedOrigins \<and> isEmbeddableInTransaction p (wa_tenantId actor) (the (wl_hostOrigin lease))))"

definition openLease ::
  "router_env \<Rightarrow> WorkSessionActor \<Rightarrow> WorkSessionRequest \<Rightarrow> string \<Rightarrow> string \<Rightarrow> time_ms \<Rightarrow>
     (work_session_lease \<times> nat) option \<Rightarrow> platform_db \<Rightarrow> platform_db \<times> WorkSessionLeaseView" where
  "openLease env actor request action correlationId now takeover p =
     (let lease = \<lparr>wl_id = env_newId env, wl_tenantId = wa_tenantId actor, wl_userId = wa_userId actor, wl_surface = wr_surface request,
            wl_hostOrigin = wr_hostOrigin request, wl_acquiredAt = now, wl_heartbeatAt = now, wl_expiresAt = now + WORK_SESSION_TTL_MS,
            wl_releasedAt = None, wl_releaseReason = None\<rparr>;
          event = \<lparr>we_id = env_eventId env ''open'' 0, we_tenantId = wa_tenantId actor, we_userId = wa_userId actor, we_leaseId = wl_id lease,
            we_action = action, we_surface = wr_surface request, we_hostOrigin = wr_hostOrigin request,
            we_previousLeaseId = map_option (wl_id \<circ> fst) takeover, we_previousSurface = map_option (wl_surface \<circ> fst) takeover,
            we_requeuedInteractionCount = (case takeover of Some (_, n) \<Rightarrow> n | None \<Rightarrow> 0),
            we_correlationId = correlationId, we_occurredAt = now\<rparr>
      in (p\<lparr>pd_leases := pd_leases p @ [lease], pd_sessionEvents := pd_sessionEvents p @ [event]\<rparr>,
          \<lparr>wv_leaseId = wl_id lease, wv_surface = wr_surface request, wv_hostOrigin = wr_hostOrigin request,
           wv_acquiredAt = wl_acquiredAt lease, wv_expiresAt = wl_expiresAt lease,
           wv_ttlSeconds = WORK_SESSION_TTL_MS div 1000, wv_heartbeatSeconds = WORK_SESSION_HEARTBEAT_MS div 1000\<rparr>))"

text \<open>The credential of a lease, revoked unless it already is.\<close>

definition revokeCredential :: "WorkSessionActor \<Rightarrow> string \<Rightarrow> time_ms \<Rightarrow> platform_db \<Rightarrow> platform_db \<times> session_effect list" where
  "revokeCredential actor leaseId now p =
     (case find (\<lambda>c. sc_leaseId c = leaseId) (pd_credentials p) of
        None \<Rightarrow> (p, [])
      | Some credential \<Rightarrow>
          if sc_revokedAt credential \<noteq> None then (p, [])
          else (p\<lparr>pd_credentials := map (\<lambda>c. if sc_leaseId c = leaseId then c\<lparr>sc_revokedAt := Some now\<rparr> else c) (pd_credentials p)\<rparr>,
                [FlushRegistration (wa_tenantId actor) credential]))"

definition releaseAction :: "string \<Rightarrow> string" where
  "releaseAction reason =
     (if reason = ''auth_revoked'' then ''AUTH_REVOKED'' else if reason = ''origin_revoked'' then ''ORIGIN_REVOKED''
      else if reason = ''expired'' then ''EXPIRED'' else ''RELEASED'')"

definition markReleased :: "string \<Rightarrow> time_ms \<Rightarrow> string \<Rightarrow> platform_db \<Rightarrow> platform_db" where
  "markReleased leaseId now reason p =
     p\<lparr>pd_leases := map (\<lambda>l. if wl_id l = leaseId then l\<lparr>wl_releasedAt := Some now, wl_releaseReason := Some reason\<rparr> else l) (pd_leases p)\<rparr>"

definition closeLease ::
  "router_env \<Rightarrow> WorkSessionActor \<Rightarrow> work_session_lease \<Rightarrow> string \<Rightarrow> string \<Rightarrow> time_ms \<Rightarrow> platform_db \<Rightarrow> platform_db \<times> session_effect list" where
  "closeLease env actor lease reason correlationId now p =
     (let T = wa_tenantId actor; u = wa_userId actor;
          (p1, flushed) = revokeCredential actor (wl_id lease) now p;
          p2 = markReleased (wl_id lease) now reason p1
      in if reason = ''takeover'' then (p2, flushed)
         else
           let event = \<lparr>we_id = env_eventId env ''close'' 0, we_tenantId = T, we_userId = u, we_leaseId = wl_id lease,
                 we_action = releaseAction reason, we_surface = wl_surface lease, we_hostOrigin = wl_hostOrigin lease,
                 we_previousLeaseId = None, we_previousSurface = None, we_requeuedInteractionCount = 0,
                 we_correlationId = correlationId, we_occurredAt = now\<rparr>
           in (p2\<lparr>pd_sessionEvents := pd_sessionEvents p2 @ [event],
                  pd_router := addLog env T u OFFLINE (''work_session_'' @ reason) None (pd_router p2)\<rparr>,
               flushed @
               (if reason = ''expired'' then [Signal T u (LeaseExpired (wl_id lease)), diagnose ''work_session.expired'' T (Some (wl_surface lease)) None None]
                else if reason \<in> {''auth_revoked'', ''origin_revoked''} then [Signal T u (LeaseRevoked (wl_id lease) reason)] else [])))"

definition offered :: "string \<Rightarrow> string \<Rightarrow> interaction \<Rightarrow> bool" where
  "offered T u i \<longleftrightarrow> in_tenantId i = T \<and> in_agentId i = Some u \<and> in_state i = ASSIGNED"

definition revokeOffer ::
  "WorkSessionActor \<Rightarrow> time_ms \<Rightarrow> interaction \<Rightarrow> router_db \<times> nat \<Rightarrow> router_db \<times> nat" where
  "revokeOffer actor now i = (\<lambda>(db, n).
     let T = wa_tenantId actor; u = wa_userId actor; claim = (\<lambda>r. in_id r = in_id i \<and> offered T u r) in
     if countInteractions claim db = 0 then (db, n)
     else
       (addEvent T (in_id i) ''interaction.queued'' (JObj [(''reason'', JStr ''work_session_takeover'')])
         (addEvent T (in_id i) ''interaction.offer_revoked'' (JObj [(''agentId'', JStr u), (''reason'', JStr ''work_session_takeover'')])
           (updateInteractions claim
             (\<lambda>r. r\<lparr>in_state := QUEUED, in_agentId := None, in_offerExpiresAt := None, in_requeueAt := Some now\<rparr>) db)), n + 1))"

definition requeueOffers :: "router_env \<Rightarrow> WorkSessionActor \<Rightarrow> time_ms \<Rightarrow> router_db \<Rightarrow> router_db \<times> nat" where
  "requeueOffers env actor now db =
     (let T = wa_tenantId actor; u = wa_userId actor;
          (db1, n) = fold (revokeOffer actor now) (filter (offered T u) (db_interactions db)) (db, 0)
      in (if n > 0 then addLog env T u AVAILABLE ''work_session_takeover'' None db1 else db1, n))"

section \<open>Operations\<close>

definition status :: "router_env \<Rightarrow> WorkSessionActor \<Rightarrow> platform_db \<Rightarrow> WorkSessionError + WorkSessionHolder option" where
  "status env actor p =
     (if \<not> isActiveAgent p actor then Inl AGENT_NOT_FOUND
      else Inr (case lockOpen p actor of
        None \<Rightarrow> None
      | Some l \<Rightarrow> if lapsed (env_now env ''request'' 0) l (busy p actor) then None else Some (holder l (busy p actor))))"

type_synonym 'a session_result = "(WorkSessionError + platform_db \<times> 'a) \<times> session_effect list"

definition acquire ::
  "router_env \<Rightarrow> bool \<Rightarrow> WorkSessionActor \<Rightarrow> WorkSessionRequest \<Rightarrow> string \<Rightarrow> platform_db \<Rightarrow> WorkSessionLeaseView session_result" where
  "acquire env embedOrigins actor request correlationId p =
     (let T = wa_tenantId actor; b = busy p actor;
          acquired = (\<lambda>p1 sent.
            let (p2, view) = openLease env actor request ''ACQUIRED'' correlationId (env_now env ''request'' 2) None p1
            in (Inr (p2, view), sent @ [diagnose ''work_session.acquired'' T (Some (wr_surface request)) None None]))
      in if \<not> requireEmbeddable embedOrigins p actor request then (Inl EMBED_ORIGIN_NOT_ALLOWED, [])
         else if \<not> isActiveAgent p actor then (Inl AGENT_NOT_FOUND, [])
         else (case lockOpen p actor of
             None \<Rightarrow> acquired p []
           | Some l \<Rightarrow>
               if \<not> lapsed (env_now env ''request'' 0) l b
               then (Inl (WORK_SESSION_HELD (holder l b)), [diagnose ''work_session.denied'' T None (Some ''WORK_SESSION_HELD'') None])
               else
                 let (p1, sent) = closeLease env actor l ''expired'' correlationId (env_now env ''request'' 1) p
                 in acquired p1 sent))"

definition takeover ::
  "router_env \<Rightarrow> bool \<Rightarrow> WorkSessionActor \<Rightarrow> WorkSessionRequest \<Rightarrow> string \<Rightarrow> string \<Rightarrow> platform_db \<Rightarrow> WorkSessionLeaseView session_result" where
  "takeover env embedOrigins actor request expectedLeaseId correlationId p =
     (let T = wa_tenantId actor; u = wa_userId actor in
      if \<not> requireEmbeddable embedOrigins p actor request then (Inl EMBED_ORIGIN_NOT_ALLOWED, [])
      else if \<not> isActiveAgent p actor then (Inl AGENT_NOT_FOUND, [])
      else (case lockOpen p actor of
          None \<Rightarrow> (Inl WORK_SESSION_CHANGED, [])
        | Some l \<Rightarrow>
            if wl_id l \<noteq> expectedLeaseId then (Inl WORK_SESSION_CHANGED, [])
            else if busy p actor then (Inl (WORK_SESSION_BUSY (holder l True)), [])
            else
              let (db1, requeued) = requeueOffers env actor (env_now env ''request'' 0) (pd_router p);
                  (p2, flushed) = closeLease env actor l ''takeover'' correlationId (env_now env ''request'' 1) (p\<lparr>pd_router := db1\<rparr>);
                  (p3, view) = openLease env actor request ''TAKEOVER'' correlationId (env_now env ''request'' 2) (Some (l, requeued)) p2
              in (Inr (p3, view), flushed @
                    [Signal T u (LeaseRevoked (wl_id l) ''takeover''),
                     diagnose ''work_session.takeover'' T (Some (wr_surface request)) None (Some requeued)])))"

definition release ::
  "router_env \<Rightarrow> WorkSessionActor \<Rightarrow> string \<Rightarrow> string \<Rightarrow> platform_db \<Rightarrow> unit session_result" where
  "release env actor leaseId correlationId p =
     (case lockOpen p actor of
        None \<Rightarrow> (Inl WORK_SESSION_CHANGED, [])
      | Some l \<Rightarrow>
          if wl_id l \<noteq> leaseId then (Inl WORK_SESSION_CHANGED, [])
          else if busy p actor then (Inl (WORK_SESSION_BUSY (holder l True)), [])
          else
            let (p1, sent) = closeLease env actor l ''released'' correlationId (env_now env ''request'' 0) p
            in (Inr (p1, ()), sent @ [diagnose ''work_session.released'' (wa_tenantId actor) None None None]))"

text \<open>The answer for a lease that is not the open one of the agent.\<close>

definition closedStatus :: "platform_db \<Rightarrow> WorkSessionActor \<Rightarrow> string \<Rightarrow> heartbeat_status" where
  "closedStatus p actor leaseId =
     (case Option.bind (find (\<lambda>l. wl_id l = leaseId \<and> wl_tenantId l = wa_tenantId actor \<and> wl_userId l = wa_userId actor) (pd_leases p))
           wl_releaseReason of
        Some reason \<Rightarrow> if reason \<in> {''takeover'', ''auth_revoked'', ''released'', ''origin_revoked''} then HB_REVOKED reason else HB_EXPIRED
      | None \<Rightarrow> HB_EXPIRED)"

definition extendLease :: "string \<Rightarrow> time_ms \<Rightarrow> time_ms \<Rightarrow> platform_db \<Rightarrow> platform_db" where
  "extendLease leaseId heartbeatAt expiresAt p =
     p\<lparr>pd_leases := map (\<lambda>l. if wl_id l = leaseId then l\<lparr>wl_heartbeatAt := heartbeatAt, wl_expiresAt := expiresAt\<rparr> else l) (pd_leases p)\<rparr>"

text \<open>
  The allowlist is consulted in a transaction of its own, so \<open>revoked\<close>, its answer, is an argument
  of the transaction that follows.
\<close>

definition heartbeatTransaction ::
  "router_env \<Rightarrow> bool \<Rightarrow> WorkSessionActor \<Rightarrow> string \<Rightarrow> string \<Rightarrow> platform_db \<Rightarrow> (platform_db \<times> heartbeat_status) \<times> session_effect list" where
  "heartbeatTransaction env revoked actor leaseId correlationId p =
     (let now = env_now env ''request''; b = busy p actor;
          closing = (\<lambda>l reason n answer. let (p1, sent) = closeLease env actor l reason correlationId (now n) p in ((p1, answer), sent))
      in case lockOpen p actor of
        None \<Rightarrow> ((p, closedStatus p actor leaseId), [])
      | Some l \<Rightarrow>
          if wl_id l \<noteq> leaseId then ((p, closedStatus p actor leaseId), [])
          else if \<not> isActiveAgent p actor then
            (if b then ((p, HB_REVOKED ''auth_revoked''), []) else closing l ''auth_revoked'' 0 (HB_REVOKED ''auth_revoked''))
          else if revoked \<and> \<not> b then closing l ''origin_revoked'' 0 (HB_REVOKED ''origin_revoked'')
          else if lapsed (now 0) l b then closing l ''expired'' 1 HB_EXPIRED
          else
            let expiresAt = now 1 + WORK_SESSION_TTL_MS
            in ((extendLease (wl_id l) (now 2) expiresAt p, HB_ACTIVE expiresAt), []))"

definition heartbeat ::
  "router_env \<Rightarrow> bool \<Rightarrow> WorkSessionActor \<Rightarrow> string \<Rightarrow> string \<Rightarrow> platform_db \<Rightarrow> (platform_db \<times> heartbeat_status) \<times> session_effect list" where
  "heartbeat env embedOrigins actor leaseId correlationId p =
     heartbeatTransaction env (originRevoked embedOrigins p actor leaseId) actor leaseId correlationId p"

definition isCurrent :: "router_env \<Rightarrow> bool \<Rightarrow> WorkSessionActor \<Rightarrow> string \<Rightarrow> platform_db \<Rightarrow> bool" where
  "isCurrent env embedOrigins actor leaseId p \<longleftrightarrow>
     \<not> originRevoked embedOrigins p actor leaseId \<and> isActiveAgent p actor \<and>
     (case find (\<lambda>l. wl_id l = leaseId \<and> openFor actor l) (pd_leases p) of
        None \<Rightarrow> False
      | Some l \<Rightarrow> wl_expiresAt l > env_now env ''request'' 0 \<or> busy p actor)"

definition embeddedHostOrigin :: "router_env \<Rightarrow> bool \<Rightarrow> WorkSessionActor \<Rightarrow> string \<Rightarrow> platform_db \<Rightarrow> string option" where
  "embeddedHostOrigin env embedOrigins actor leaseId p =
     (if \<not> isCurrent env embedOrigins actor leaseId p then None
      else Option.bind (find (\<lambda>l. wl_id l = leaseId \<and> wl_tenantId l = wa_tenantId actor \<and> wl_userId l = wa_userId actor \<and>
             wl_surface l = ''embedded'') (pd_leases p)) wl_hostOrigin)"

definition revokeForAuth ::
  "router_env \<Rightarrow> WorkSessionActor \<Rightarrow> string \<Rightarrow> string \<Rightarrow> platform_db \<Rightarrow> (platform_db \<times> bool) \<times> session_effect list" where
  "revokeForAuth env actor leaseId correlationId p =
     (let kept = ((p, False), [diagnose ''work_session.auth_revoked'' (wa_tenantId actor) None (Some ''kept_until_work_ends'') None])
      in case lockOpen p actor of
        None \<Rightarrow> kept
      | Some l \<Rightarrow>
          if wl_id l \<noteq> leaseId \<or> busy p actor then kept
          else
            let (p1, sent) = closeLease env actor l ''auth_revoked'' correlationId (env_now env ''request'' 0) p
            in ((p1, True), sent @ [diagnose ''work_session.auth_revoked'' (wa_tenantId actor) None (Some ''released'') None]))"

text \<open>One transaction of the sweep, for a lease the tenant's query returned.\<close>

definition sweepLease :: "router_env \<Rightarrow> string \<Rightarrow> string \<Rightarrow> string \<Rightarrow> platform_db \<Rightarrow> (platform_db \<times> bool) \<times> session_effect list" where
  "sweepLease env T u leaseId p =
     (let actor = \<lparr>wa_tenantId = T, wa_userId = u\<rparr> in
      case lockOpen p actor of
        None \<Rightarrow> ((p, False), [])
      | Some l \<Rightarrow>
          if wl_id l \<noteq> leaseId \<or> \<not> lapsed (env_now env leaseId 0) l (busy p actor) then ((p, False), [])
          else
            let (p1, sent) = closeLease env actor l ''expired'' (''sweep:'' @ leaseId) (env_now env leaseId 1) p
            in ((p1, True), sent))"

definition sweepCandidates :: "time_ms \<Rightarrow> string \<Rightarrow> platform_db \<Rightarrow> work_session_lease list" where
  "sweepCandidates now T p = filter (\<lambda>l. wl_tenantId l = T \<and> wl_releasedAt l = None \<and> wl_expiresAt l \<le> now) (pd_leases p)"

type_synonym sweep_state = "platform_db \<times> nat \<times> session_effect list"

fun sweepLeases :: "router_env \<Rightarrow> string \<Rightarrow> work_session_lease list \<Rightarrow> sweep_state \<Rightarrow> sweep_state" where
  "sweepLeases env T [] s = s"
| "sweepLeases env T (l # ls) (p, n, sent) =
     (let ((p1, closed), more_sent) = sweepLease env T (wl_userId l) (wl_id l) p
      in sweepLeases env T ls (p1, if closed then n + 1 else n, sent @ more_sent))"

fun sweepTenants :: "router_env \<Rightarrow> string list \<Rightarrow> sweep_state \<Rightarrow> sweep_state" where
  "sweepTenants env [] s = s"
| "sweepTenants env (T # Ts) (p, n, sent) =
     sweepTenants env Ts (sweepLeases env T (sweepCandidates (env_now env T 0) T p) (p, n, sent))"

definition sweep :: "router_env \<Rightarrow> platform_db \<Rightarrow> sweep_state" where
  "sweep env p = sweepTenants env (pd_activeTenants p) (p, 0, [])"

section \<open>SIP credentials\<close>

record BrowserTelephonyNode =
  bn_telephonyNodeId :: string
  bn_wssUrl :: string
  bn_directoryPassword :: string

record AgentSipCredentialLease =
  cl_leaseId :: string
  cl_extension :: string
  cl_authorizationPassword :: string
  cl_sipDomain :: string
  cl_wssUrl :: string
  cl_telephonyNodeId :: string
  cl_expiresAt :: time_ms

record DirectoryEntry =
  de_extension :: string
  de_sipDomain :: string
  de_a1Hash :: string
  de_displayName :: string
  de_workSessionLeaseId :: string

datatype sip_error = ServiceUnavailable string | SipForbidden string | Unauthorized

text \<open>MD5 (\<open>createHash\<close>) is the parameter \<open>md5\<close>.\<close>

definition digestA1 :: "(string \<Rightarrow> string) \<Rightarrow> string \<Rightarrow> string \<Rightarrow> string \<Rightarrow> string" where
  "digestA1 md5 username realm password = md5 (username @ '':'' @ realm @ '':'' @ password)"

definition sipDomainOf :: "platform_db \<Rightarrow> string \<Rightarrow> string" where
  "sipDomainOf p T = coalesce (map_of (pd_sipDomains p) T) []"

text \<open>\<open>upsert\<close> on the lease's credential.\<close>

definition upsertCredential :: "sip_credential \<Rightarrow> platform_db \<Rightarrow> platform_db" where
  "upsertCredential c p =
     (if list_ex (\<lambda>r. sc_leaseId r = sc_leaseId c) (pd_credentials p)
      then p\<lparr>pd_credentials := map (\<lambda>r. if sc_leaseId r = sc_leaseId c
                 then r\<lparr>sc_a1Hash := sc_a1Hash c, sc_issuedAt := sc_issuedAt c, sc_revokedAt := None\<rparr> else r) (pd_credentials p)\<rparr>
      else p\<lparr>pd_credentials := pd_credentials p @ [c]\<rparr>)"

text \<open>
  The nodes and the round-robin cursor are the service's state; the result pairs the tables with
  the next cursor.
\<close>

definition issue ::
  "(string \<Rightarrow> string) \<Rightarrow> BrowserTelephonyNode list \<Rightarrow> string \<Rightarrow> time_ms \<Rightarrow> WorkSessionActor \<Rightarrow> string \<Rightarrow> platform_db \<times> nat \<Rightarrow>
     sip_error + (platform_db \<times> nat) \<times> AgentSipCredentialLease" where
  "issue md5 nodes password issuedAt input leaseId = (\<lambda>(p, cursor).
     let T = wa_tenantId input; u = wa_userId input in
     if nodes = [] then Inl (ServiceUnavailable ''browser telephony nodes are not configured'')
     else (case find (\<lambda>l. wl_id l = leaseId \<and> openFor input l) (pd_leases p) of
         None \<Rightarrow> Inl (SipForbidden ''work-session lease is not active'')
       | Some lease \<Rightarrow>
           if wl_expiresAt lease \<le> issuedAt \<and> \<not> busy p input then Inl (SipForbidden ''work-session lease is not active'')
           else (case Option.bind (find (\<lambda>r. us_id r = u \<and> us_tenantId r = T \<and> us_role r = ''AGENT'' \<and> us_isActive r)
                    (db_users (pd_router p))) us_extension of
               None \<Rightarrow> Inl (SipForbidden ''agent has no SIP extension'')
             | Some extension \<Rightarrow>
                 if extension = [] then Inl (SipForbidden ''agent has no SIP extension'')
                 else
                   let existing = find (\<lambda>c. sc_leaseId c = leaseId) (pd_credentials p);
                       node = (case existing of
                           Some c \<Rightarrow> find (\<lambda>n. bn_telephonyNodeId n = sc_telephonyNodeId c) nodes
                         | None \<Rightarrow> Some (nodes ! (cursor mod length nodes)));
                       cursor' = (if existing = None then cursor + 1 else cursor)
                   in case node of
                       None \<Rightarrow> Inl (ServiceUnavailable ''assigned telephony node is unavailable'')
                     | Some n \<Rightarrow>
                         let domain = sipDomainOf p T;
                             p' = upsertCredential \<lparr>sc_leaseId = leaseId, sc_tenantId = T, sc_userId = u, sc_extension = extension,
                               sc_sipDomain = domain, sc_telephonyNodeId = bn_telephonyNodeId n,
                               sc_a1Hash = digestA1 md5 extension domain password, sc_issuedAt = issuedAt, sc_revokedAt = None\<rparr> p
                         in Inr ((p', cursor'), \<lparr>cl_leaseId = leaseId, cl_extension = extension, cl_authorizationPassword = password,
                              cl_sipDomain = domain, cl_wssUrl = bn_wssUrl n, cl_telephonyNodeId = bn_telephonyNodeId n,
                              cl_expiresAt = wl_expiresAt lease\<rparr>))))"

definition splitAtColon :: "string \<Rightarrow> (string \<times> string) option" where
  "splitAtColon decoded =
     (case dropWhile (\<lambda>c. c \<noteq> CHR '':'') decoded of
        [] \<Rightarrow> None
      | _ # rest \<Rightarrow> if takeWhile (\<lambda>c. c \<noteq> CHR '':'') decoded = [] then None
          else Some (takeWhile (\<lambda>c. c \<noteq> CHR '':'') decoded, rest))"

text \<open>Decoding base64 is the parameter \<open>decode\<close>; \<open>timingSafeEqual\<close> is equality.\<close>

definition authenticateDirectoryRequest ::
  "(string \<Rightarrow> string) \<Rightarrow> BrowserTelephonyNode list \<Rightarrow> string option \<Rightarrow> sip_error + string" where
  "authenticateDirectoryRequest decode nodes authorization =
     (case authorization of
        None \<Rightarrow> Inl Unauthorized
      | Some a \<Rightarrow>
          if take 6 a \<noteq> ''Basic '' then Inl Unauthorized
          else (case splitAtColon (decode (drop 6 a)) of
              None \<Rightarrow> Inl Unauthorized
            | Some (nodeId, supplied) \<Rightarrow>
                (case find (\<lambda>n. bn_telephonyNodeId n = nodeId) nodes of
                   None \<Rightarrow> Inl Unauthorized
                 | Some n \<Rightarrow> if supplied \<noteq> bn_directoryPassword n then Inl Unauthorized else Inr (bn_telephonyNodeId n))))"

definition leaseOf :: "platform_db \<Rightarrow> sip_credential \<Rightarrow> work_session_lease option" where
  "leaseOf p c = find (\<lambda>l. wl_id l = sc_leaseId c) (pd_leases p)"

definition userOf :: "platform_db \<Rightarrow> sip_credential \<Rightarrow> user_row option" where
  "userOf p c = find (\<lambda>r. us_id r = sc_userId c) (db_users (pd_router p))"

definition usable :: "platform_db \<Rightarrow> sip_credential \<Rightarrow> bool" where
  "usable p c \<longleftrightarrow> sc_revokedAt c = None \<and>
     (case userOf p c of Some r \<Rightarrow> us_isActive r \<and> us_role r = ''AGENT'' | None \<Rightarrow> False) \<and>
     (case leaseOf p c of Some l \<Rightarrow> wl_releasedAt l = None | None \<Rightarrow> False)"

definition directory :: "time_ms \<Rightarrow> string \<Rightarrow> string \<Rightarrow> string \<Rightarrow> platform_db \<Rightarrow> DirectoryEntry option" where
  "directory now nodeId extension sipDomain p =
     (case find (\<lambda>(T, d). d = sipDomain) (pd_sipDomains p) of
        None \<Rightarrow> None
      | Some (T, _) \<Rightarrow>
          (case find (\<lambda>c. sc_tenantId c = T \<and> sc_extension c = extension \<and> sc_sipDomain c = sipDomain \<and>
                       sc_telephonyNodeId c = nodeId \<and> usable p c) (pd_credentials p) of
             None \<Rightarrow> None
           | Some c \<Rightarrow>
               (case (leaseOf p c, userOf p c) of
                  (Some l, Some r) \<Rightarrow>
                    if wl_expiresAt l \<le> now \<and> \<not> busy p \<lparr>wa_tenantId = T, wa_userId = wl_userId l\<rparr> then None
                    else Some \<lparr>de_extension = extension, de_sipDomain = sipDomain, de_a1Hash = sc_a1Hash c,
                      de_displayName = us_displayName r, de_workSessionLeaseId = sc_leaseId c\<rparr>
                | _ \<Rightarrow> None)))"

end
