(* ===== verification/SessionMoves.thy ===== *)
theory SessionMoves
  imports WorkSession
begin

text \<open>
  The work sessions as sequences of moves, the invariant of leases and credentials, and the
  platform: all services on the shared tables, with the invariant every step keeps.
\<close>

section \<open>Tables\<close>

definition openKeys :: "work_session_lease list \<Rightarrow> (string \<times> string) list" where
  "openKeys ls = map (\<lambda>l. (wl_tenantId l, wl_userId l)) (filter (\<lambda>l. wl_releasedAt l = None) ls)"

definition covered :: "platform_db \<Rightarrow> sip_credential \<Rightarrow> bool" where
  "covered p c \<longleftrightarrow>
     (\<exists>l \<in> set (pd_leases p). wl_id l = sc_leaseId c \<and> wl_tenantId l = sc_tenantId c \<and> wl_userId l = sc_userId c \<and>
        (sc_revokedAt c = None \<longrightarrow> wl_releasedAt l = None))"

definition sessionInv :: "platform_db \<Rightarrow> bool" where
  "sessionInv p \<longleftrightarrow>
     distinct (map wl_id (pd_leases p)) \<and> distinct (openKeys (pd_leases p)) \<and> distinct (map sc_leaseId (pd_credentials p)) \<and>
     (\<forall>c \<in> set (pd_credentials p). covered p c)"

lemma sessionInv_cong:
  "pd_leases p' = pd_leases p \<Longrightarrow> pd_credentials p' = pd_credentials p \<Longrightarrow> sessionInv p' = sessionInv p"
  by (simp add: sessionInv_def covered_def)

lemma lockOpen_None: "lockOpen p actor = None \<longleftrightarrow> (wa_tenantId actor, wa_userId actor) \<notin> set (openKeys (pd_leases p))"
  by (auto simp: lockOpen_def find_None_iff openFor_def openKeys_def image_iff) metis

lemma lockOpen_Some: "lockOpen p actor = Some l \<Longrightarrow> l \<in> set (pd_leases p) \<and> openFor actor l"
  by (auto simp: lockOpen_def dest: find_Some_in)

lemma lease_unique:
  "distinct (map wl_id ls) \<Longrightarrow> l \<in> set ls \<Longrightarrow> k \<in> set ls \<Longrightarrow> wl_id l = wl_id k \<Longrightarrow> l = k"
  by (metis distinct_map inj_onD)

lemma open_lease_unique:
  assumes "distinct (openKeys ls)" "l \<in> set ls" "k \<in> set ls" "openFor actor l" "openFor actor k"
  shows "l = k"
  using assms unfolding openKeys_def distinct_map by (auto simp: openFor_def inj_on_def)

definition revokedAt :: "string \<Rightarrow> time_ms \<Rightarrow> sip_credential \<Rightarrow> sip_credential" where
  "revokedAt leaseId now c = (if sc_leaseId c = leaseId \<and> sc_revokedAt c = None then c\<lparr>sc_revokedAt := Some now\<rparr> else c)"

lemma revokedAt_simps [simp]:
  "sc_leaseId (revokedAt i now c) = sc_leaseId c" "sc_tenantId (revokedAt i now c) = sc_tenantId c" "sc_userId (revokedAt i now c) = sc_userId c"
  "sc_revokedAt (revokedAt i now c) = None \<longleftrightarrow> sc_revokedAt c = None \<and> sc_leaseId c \<noteq> i"
  by (auto simp: revokedAt_def)

lemma revokeCredential_tables:
  assumes "distinct (map sc_leaseId (pd_credentials p))"
  shows "pd_credentials (fst (revokeCredential actor leaseId now p)) = map (revokedAt leaseId now) (pd_credentials p)"
proof (cases "find (\<lambda>c. sc_leaseId c = leaseId) (pd_credentials p)")
  case None
  then have "map (revokedAt leaseId now) (pd_credentials p) = pd_credentials p"
    by (intro map_idI) (simp add: find_None_iff revokedAt_def)
  with None show ?thesis by (simp add: revokeCredential_def)
next
  case (Some d)
  then have d: "d \<in> set (pd_credentials p)" "sc_leaseId d = leaseId" by (auto dest: find_Some_in)
  have only: "c = d" if "c \<in> set (pd_credentials p)" "sc_leaseId c = leaseId" for c
    using that d assms by (metis distinct_map inj_onD)
  show ?thesis
  proof (cases "sc_revokedAt d = None")
    case True
    have "map (\<lambda>c. if sc_leaseId c = leaseId then c\<lparr>sc_revokedAt := Some now\<rparr> else c) (pd_credentials p) =
        map (revokedAt leaseId now) (pd_credentials p)"
      by (intro map_cong refl) (use only True in \<open>auto simp: revokedAt_def\<close>)
    with Some True show ?thesis by (simp add: revokeCredential_def)
  next
    case False
    have "map (revokedAt leaseId now) (pd_credentials p) = pd_credentials p"
      by (intro map_idI) (use only False in \<open>auto simp: revokedAt_def\<close>)
    with Some False show ?thesis by (simp add: revokeCredential_def)
  qed
qed

lemma revokeCredential_same [simp]:
  "pd_leases (fst (revokeCredential actor leaseId now p)) = pd_leases p"
  "pd_router (fst (revokeCredential actor leaseId now p)) = pd_router p"
  by (auto simp: revokeCredential_def split: option.splits)

definition released :: "string \<Rightarrow> time_ms \<Rightarrow> string \<Rightarrow> work_session_lease \<Rightarrow> work_session_lease" where
  "released leaseId now reason l = (if wl_id l = leaseId then l\<lparr>wl_releasedAt := Some now, wl_releaseReason := Some reason\<rparr> else l)"

lemma released_simps [simp]:
  "wl_id (released i now r l) = wl_id l" "wl_tenantId (released i now r l) = wl_tenantId l" "wl_userId (released i now r l) = wl_userId l"
  "wl_releasedAt (released i now r l) = None \<longleftrightarrow> wl_releasedAt l = None \<and> wl_id l \<noteq> i"
  by (auto simp: released_def)

lemma closeLease_tables:
  "pd_leases (fst (closeLease env actor l reason c now p)) = map (released (wl_id l) now reason) (pd_leases p)"
  "pd_credentials (fst (closeLease env actor l reason c now p)) = pd_credentials (fst (revokeCredential actor (wl_id l) now p))"
  "pd_router (fst (closeLease env actor l reason c now p)) =
    (if reason = ''takeover'' then pd_router p
     else addLog env (wa_tenantId actor) (wa_userId actor) OFFLINE (''work_session_'' @ reason) None (pd_router p))"
proof -
  obtain p1 sent where r: "revokeCredential actor (wl_id l) now p = (p1, sent)" by fastforce
  with revokeCredential_same [of actor "wl_id l" now p] have "pd_leases p1 = pd_leases p" "pd_router p1 = pd_router p" by simp_all
  with r show "pd_leases (fst (closeLease env actor l reason c now p)) = map (released (wl_id l) now reason) (pd_leases p)"
    "pd_credentials (fst (closeLease env actor l reason c now p)) = pd_credentials (fst (revokeCredential actor (wl_id l) now p))"
    "pd_router (fst (closeLease env actor l reason c now p)) =
      (if reason = ''takeover'' then pd_router p
       else addLog env (wa_tenantId actor) (wa_userId actor) OFFLINE (''work_session_'' @ reason) None (pd_router p))"
    by (simp_all add: closeLease_def markReleased_def released_def [abs_def] Let_def)
qed

lemma closeLease_session:
  assumes inv: "sessionInv p"
  shows "sessionInv (fst (closeLease env actor l reason c now p))"
proof -
  let ?p = "fst (closeLease env actor l reason c now p)"
  have d: "distinct (map sc_leaseId (pd_credentials p))" using inv by (simp add: sessionInv_def)
  note tables = closeLease_tables revokeCredential_tables [OF d]
  have "distinct (openKeys (pd_leases ?p))"
    using inv by (simp add: tables openKeys_def filter_map comp_def sessionInv_def distinct_map_filter flip: filter_filter)
  moreover have "covered ?p x" if "x \<in> set (pd_credentials ?p)" for x
  proof -
    from that obtain y where y: "y \<in> set (pd_credentials p)" "x = revokedAt (wl_id l) now y" by (auto simp: tables)
    with inv have "covered p y" by (simp add: sessionInv_def)
    with y(2) show ?thesis by (auto simp: covered_def tables)
  qed
  ultimately show ?thesis using inv by (simp add: sessionInv_def tables comp_def)
qed

lemma openLease_tables:
  "pd_leases (fst (openLease env actor request action c now t p)) = pd_leases p @
    [\<lparr>wl_id = env_newId env, wl_tenantId = wa_tenantId actor, wl_userId = wa_userId actor, wl_surface = wr_surface request,
      wl_hostOrigin = wr_hostOrigin request, wl_acquiredAt = now, wl_heartbeatAt = now, wl_expiresAt = now + WORK_SESSION_TTL_MS,
      wl_releasedAt = None, wl_releaseReason = None\<rparr>]"
  "pd_credentials (fst (openLease env actor request action c now t p)) = pd_credentials p"
  "pd_router (fst (openLease env actor request action c now t p)) = pd_router p"
  by (simp_all add: openLease_def Let_def)

lemma openLease_session:
  assumes "sessionInv p" "lockOpen p actor = None" "env_newId env \<notin> wl_id ` set (pd_leases p)"
  shows "sessionInv (fst (openLease env actor request action c now t p))"
  using assms unfolding lockOpen_None sessionInv_def covered_def by (auto simp: openLease_tables openKeys_def)

lemma extendLease_session:
  assumes "sessionInv p" shows "sessionInv (extendLease i h e p)"
proof -
  define f :: "work_session_lease \<Rightarrow> work_session_lease" where "f = (\<lambda>l. if wl_id l = i then l\<lparr>wl_heartbeatAt := h, wl_expiresAt := e\<rparr> else l)"
  have f: "wl_id (f l) = wl_id l" "wl_tenantId (f l) = wl_tenantId l" "wl_userId (f l) = wl_userId l" "wl_releasedAt (f l) = wl_releasedAt l" for l
    by (simp_all add: f_def)
  have "extendLease i h e p = p\<lparr>pd_leases := map f (pd_leases p)\<rparr>" by (simp add: extendLease_def f_def)
  then show ?thesis using assms by (simp add: sessionInv_def covered_def openKeys_def filter_map comp_def f)
qed

lemma upsert_session:
  assumes inv: "sessionInv p" and l: "l \<in> set (pd_leases p)" "wl_id l = sc_leaseId c" "wl_tenantId l = sc_tenantId c"
    "wl_userId l = sc_userId c" "wl_releasedAt l = None"
  shows "sessionInv (upsertCredential c p)"
proof -
  let ?p = "upsertCredential c p"
  have ls: "pd_leases ?p = pd_leases p" by (simp add: upsertCredential_def)
  have ids: "distinct (map sc_leaseId (pd_credentials ?p))"
    using inv by (auto simp: upsertCredential_def sessionInv_def list_ex_iff comp_def if_distrib cong: if_cong)
  have "covered ?p x" if x: "x \<in> set (pd_credentials ?p)" for x
  proof (cases "sc_leaseId x = sc_leaseId c")
    case False
    with x have "x \<in> set (pd_credentials p)" by (auto simp: upsertCredential_def split: if_splits)
    with inv ls show ?thesis by (simp add: sessionInv_def covered_def)
  next
    case True
    from x consider "x = c" | y where "y \<in> set (pd_credentials p)" "sc_leaseId y = sc_leaseId x" "sc_tenantId y = sc_tenantId x" "sc_userId y = sc_userId x"
      by (auto simp: upsertCredential_def split: if_splits)
    then show ?thesis
    proof cases
      case 1
      with l ls show ?thesis by (auto simp: covered_def)
    next
      case (2 y)
      with inv obtain k where k: "k \<in> set (pd_leases p)" "wl_id k = sc_leaseId x" "wl_tenantId k = sc_tenantId x" "wl_userId k = sc_userId x"
        by (auto simp: sessionInv_def covered_def)
      with True l inv have "k = l" using lease_unique [of "pd_leases p" k l] by (simp add: sessionInv_def)
      with k l(5) ls show ?thesis by (auto simp: covered_def)
    qed
  qed
  with inv ids ls show ?thesis by (simp add: sessionInv_def)
qed

section \<open>Refinement of the router's moves\<close>

lemma busy_iff:
  "busy p actor \<longleftrightarrow> (\<exists>i \<in> set (db_interactions (pd_router p)). in_tenantId i = wa_tenantId actor \<and> in_agentId i = Some (wa_userId actor) \<and>
     in_state i \<in> {ACTIVE, WRAPUP})"
  by (auto simp: busy_def countInteractions_def filter_empty_conv)

text \<open>An agent without a call may leave, a pending offer notwithstanding.\<close>

lemma close_moves:
  assumes "\<not> busy p actor"
  shows "steps (move env (wa_tenantId actor)) (pd_router p) (pd_router (fst (closeLease env actor l reason c now p)))"
proof (cases "reason = ''takeover''")
  case False
  have "\<forall>k \<in> set (db_interactions (pd_router p)). in_tenantId k = wa_tenantId actor \<longrightarrow> in_agentId k = Some (wa_userId actor) \<longrightarrow>
      holds (in_state k) = None \<or> in_state k = ASSIGNED \<and> OFFLINE = OFFLINE"
    using assms by (auto simp: busy_iff holds_def split: InteractionStateType.splits)
  from steps_one [where step = "move env (wa_tenantId actor)", OF presence [OF this]] False show ?thesis by (simp add: closeLease_tables)
qed (auto simp: closeLease_tables)

lemma offers_at_most_one:
  assumes inv: "routerInv db"
  shows "length (filter (offered T u) (db_interactions db)) \<le> 1"
proof (rule ccontr)
  let ?xs = "filter (offered T u) (db_interactions db)"
  assume "\<not> length ?xs \<le> 1"
  then obtain i k zs where xs: "?xs = i # k # zs" by (cases ?xs; cases "tl ?xs") auto
  then have "i \<in> set ?xs" "k \<in> set ?xs" by simp_all
  then have m: "i \<in> set (db_interactions db)" "k \<in> set (db_interactions db)" "offered T u i" "offered T u k" by auto
  then have "i = k" using one_live_call(1) [OF inv m(1,2)] by (simp add: offered_def holds_def)
  moreover have "distinct ?xs" using routerInvD(1) [OF inv] by (simp add: distinct_map)
  ultimately show False using xs by simp
qed

lemma requeue_moves:
  assumes inv: "routerInv db"
  shows "steps (move env (wa_tenantId actor)) db (fst (requeueOffers env actor now db))"
proof (cases "filter (offered (wa_tenantId actor) (wa_userId actor)) (db_interactions db)")
  case Nil
  then show ?thesis by (auto simp: requeueOffers_def)
next
  case (Cons i zs)
  with offers_at_most_one [OF inv, of "wa_tenantId actor" "wa_userId actor"] have zs: "zs = []" by simp
  let ?claim = "\<lambda>r. in_id r = in_id i \<and> offered (wa_tenantId actor) (wa_userId actor) r"
  have "i \<in> set (filter (offered (wa_tenantId actor) (wa_userId actor)) (db_interactions db))" by (simp add: Cons)
  then have i: "i \<in> set (db_interactions db)" "offered (wa_tenantId actor) (wa_userId actor) i" by auto
  then have c: "countInteractions ?claim db \<noteq> 0" by (auto simp: countInteractions_def filter_empty_conv)
  have "fst (requeueOffers env actor now db) =
      addEvent (wa_tenantId actor) (in_id i) ''interaction.queued'' (JObj [(''reason'', JStr ''work_session_takeover'')])
        (addEvent (wa_tenantId actor) (in_id i) ''interaction.offer_revoked''
          (JObj [(''agentId'', JStr (wa_userId actor)), (''reason'', JStr ''work_session_takeover'')])
          (addLog env (wa_tenantId actor) (wa_userId actor) AVAILABLE ''work_session_takeover'' None (updateInteractions ?claim
            (\<lambda>r. r\<lparr>in_state := QUEUED, in_agentId := None, in_offerExpiresAt := None, in_requeueAt := Some now\<rparr>) db)))"
    using c by (simp add: requeueOffers_def Cons zs revokeOffer_def log_before_event Let_def)
  with i(2) show ?thesis
    by (simp only:) (intro steps_event agent_claim [OF inv c i(1)], auto simp: offered_def sameCall_def allowed_def holds_def)
qed

definition busyRow :: "WorkSessionActor \<Rightarrow> interaction \<Rightarrow> bool" where
  "busyRow actor i \<longleftrightarrow> in_tenantId i = wa_tenantId actor \<and> in_agentId i = Some (wa_userId actor) \<and> in_state i \<in> {ACTIVE, WRAPUP}"

lemma busy_count: "busy p actor \<longleftrightarrow> countInteractions (busyRow actor) (pd_router p) > 0"
  by (simp add: busy_def busyRow_def [abs_def])

lemma count_update:
  assumes "\<And>r. P (if C r then f r else r) = P r"
  shows "countInteractions P (updateInteractions C f db) = countInteractions P db"
  by (simp add: countInteractions_def filter_map comp_def assms)

lemma count_tables [simp]:
  "countInteractions P (addEvent T iid ty pl db) = countInteractions P db"
  "countInteractions P (addLogBy ac env T u st r e db) = countInteractions P db"
  by (simp_all add: countInteractions_def)

lemma revokeOffer_busy: "countInteractions (busyRow a) (fst (revokeOffer actor now i s)) = countInteractions (busyRow a) (fst s)"
proof -
  have "countInteractions (busyRow a) (updateInteractions (\<lambda>r. in_id r = in_id i \<and> offered T u r)
      (\<lambda>r. r\<lparr>in_state := QUEUED, in_agentId := None, in_offerExpiresAt := None, in_requeueAt := Some now\<rparr>) db) = countInteractions (busyRow a) db" for T u db
    by (rule count_update) (auto simp: busyRow_def offered_def)
  then show ?thesis by (simp add: revokeOffer_def Let_def split: prod.split)
qed

lemma requeue_busy: "busy (p\<lparr>pd_router := fst (requeueOffers env actor now (pd_router p))\<rparr>) a = busy p a"
proof -
  have "countInteractions (busyRow a) (fst (fold (revokeOffer actor now) is s)) = countInteractions (busyRow a) (fst s)" for "is" s
    by (induction "is" arbitrary: s) (simp_all add: revokeOffer_busy)
  then have "countInteractions (busyRow a) (fst (requeueOffers env actor now (pd_router p))) = countInteractions (busyRow a) (pd_router p)"
    by (simp add: requeueOffers_def Let_def split: prod.split) (metis fst_conv)
  then show ?thesis by (simp add: busy_count)
qed

section \<open>Moves of a work session\<close>

text \<open>
  The transactions of the work sessions are sequences of four moves: offers go back to the queue,
  a lease is closed (never that of an agent with a call), opened or extended.
\<close>

definition freshLease :: "router_env \<Rightarrow> platform_db \<Rightarrow> bool" where
  "freshLease env p \<longleftrightarrow> env_newId env \<notin> wl_id ` set (pd_leases p)"

inductive session_move :: "router_env \<Rightarrow> platform_db \<Rightarrow> platform_db \<Rightarrow> bool" for env where
  requeued: "session_move env p (p\<lparr>pd_router := fst (requeueOffers env actor now (pd_router p))\<rparr>)"
| closed: "lockOpen p actor = Some l \<Longrightarrow> \<not> busy p actor \<Longrightarrow> session_move env p (fst (closeLease env actor l reason c now p))"
| opened: "lockOpen p actor = None \<Longrightarrow> freshLease env p \<Longrightarrow> session_move env p (fst (openLease env actor request action c now t p))"
| extended: "session_move env p (extendLease i h e p)"

text \<open>An agent with a call keeps the lease and its SIP credential.\<close>

definition kept :: "platform_db \<Rightarrow> platform_db \<Rightarrow> bool" where
  "kept p p' \<longleftrightarrow>
     (\<forall>actor l. busy p actor \<longrightarrow> l \<in> set (pd_leases p) \<longrightarrow> openFor actor l \<longrightarrow>
        (\<exists>l' \<in> set (pd_leases p'). wl_id l' = wl_id l \<and> openFor actor l') \<and>
        (\<forall>c \<in> set (pd_credentials p). sc_leaseId c = wl_id l \<longrightarrow> sc_revokedAt c = None \<longrightarrow>
           (\<exists>c' \<in> set (pd_credentials p'). sc_leaseId c' = wl_id l \<and> sc_revokedAt c' = None)))"

definition busySame :: "platform_db \<Rightarrow> platform_db \<Rightarrow> bool" where
  "busySame p p' \<longleftrightarrow> (\<forall>actor. busy p' actor = busy p actor)"

lemma kept_same: "pd_leases p' = pd_leases p \<Longrightarrow> pd_credentials p' = pd_credentials p \<Longrightarrow> kept p p'"
  by (auto simp: kept_def)

lemma kept_trans:
  assumes "kept p q" "busySame p q" "kept q r" shows "kept p r"
  unfolding kept_def
proof (intro allI impI)
  fix actor l assume l: "busy p actor" "l \<in> set (pd_leases p)" "openFor actor l"
  with assms(2) have b: "busy q actor" by (simp add: busySame_def)
  from assms(1) l obtain m where m: "m \<in> set (pd_leases q)" "wl_id m = wl_id l" "openFor actor m" unfolding kept_def by blast
  with assms(3) b obtain n where "n \<in> set (pd_leases r)" "wl_id n = wl_id l" "openFor actor n" unfolding kept_def by metis
  moreover have "\<exists>c' \<in> set (pd_credentials r). sc_leaseId c' = wl_id l \<and> sc_revokedAt c' = None"
    if c: "c \<in> set (pd_credentials p)" "sc_leaseId c = wl_id l" "sc_revokedAt c = None" for c
  proof -
    from assms(1) l c obtain d where "d \<in> set (pd_credentials q)" "sc_leaseId d = wl_id m" "sc_revokedAt d = None"
      unfolding kept_def m(2) by blast
    with assms(3) b m show ?thesis unfolding kept_def by metis
  qed
  ultimately show "(\<exists>l' \<in> set (pd_leases r). wl_id l' = wl_id l \<and> openFor actor l') \<and>
      (\<forall>c \<in> set (pd_credentials p). sc_leaseId c = wl_id l \<longrightarrow> sc_revokedAt c = None \<longrightarrow>
        (\<exists>c' \<in> set (pd_credentials r). sc_leaseId c' = wl_id l \<and> sc_revokedAt c' = None))" by blast
qed

lemma close_kept:
  assumes inv: "sessionInv p" and l: "lockOpen p actor = Some l" and idle: "\<not> busy p actor"
  shows "kept p (fst (closeLease env actor l reason c now p))"
  unfolding kept_def
proof (intro allI impI)
  let ?p = "fst (closeLease env actor l reason c now p)"
  fix a k assume k: "busy p a" "k \<in> set (pd_leases p)" "openFor a k"
  with idle have "a \<noteq> actor" by auto
  with k(3) lockOpen_Some [OF l] have "l \<noteq> k" by (auto simp: openFor_def)
  with lease_unique [of "pd_leases p" l k] lockOpen_Some [OF l] k(2) inv have id: "wl_id l \<noteq> wl_id k" by (auto simp: sessionInv_def)
  have d: "distinct (map sc_leaseId (pd_credentials p))" using inv by (simp add: sessionInv_def)
  have "released (wl_id l) now reason k = k" using id by (simp add: released_def)
  then have "k \<in> set (pd_leases ?p)" using k(2) by (metis closeLease_tables(1) in_set_conv_nth length_map nth_map)
  moreover have "x \<in> set (pd_credentials ?p)" if x: "x \<in> set (pd_credentials p)" "sc_leaseId x = wl_id k" for x
  proof -
    have "revokedAt (wl_id l) now x = x" using id x(2) by (simp add: revokedAt_def)
    then show ?thesis using x(1) unfolding closeLease_tables(2) revokeCredential_tables [OF d] by (metis image_eqI image_set)
  qed
  ultimately show "(\<exists>l' \<in> set (pd_leases ?p). wl_id l' = wl_id k \<and> openFor a l') \<and>
      (\<forall>c \<in> set (pd_credentials p). sc_leaseId c = wl_id k \<longrightarrow> sc_revokedAt c = None \<longrightarrow>
        (\<exists>c' \<in> set (pd_credentials ?p). sc_leaseId c' = wl_id k \<and> sc_revokedAt c' = None))" using k(3) by blast
qed

definition sessionGuaranteed :: "router_env \<Rightarrow> platform_db \<Rightarrow> platform_db \<Rightarrow> bool" where
  "sessionGuaranteed env p p' \<longleftrightarrow> sessionInv p' \<and> routerInv (pd_router p') \<and> clockOk env (pd_router p') \<and> kept p p' \<and> busySame p p' \<and>
     progress (pd_router p) (pd_router p') \<and> configuration (pd_router p') = configuration (pd_router p)"

lemma router_moves_kept:
  assumes "steps (move env T) (pd_router p) (pd_router p')" "routerInv (pd_router p)" "clockOk env (pd_router p)"
    and "sessionInv p'" "kept p p'" "busySame p p'"
  shows "sessionGuaranteed env p p'"
  using steps_guaranteed [OF assms(1-3)] assms(4-) by (simp add: guaranteed_def sessionGuaranteed_def)

lemma session_move_guaranteed:
  assumes "session_move env p p'" and inv: "sessionInv p" "routerInv (pd_router p)" "clockOk env (pd_router p)"
  shows "sessionGuaranteed env p p'"
  using assms(1)
proof cases
  case (requeued actor now)
  have m: "steps (move env (wa_tenantId actor)) (pd_router p) (pd_router p')" using requeue_moves [OF inv(2)] by (simp add: requeued)
  have "pd_leases p' = pd_leases p" "pd_credentials p' = pd_credentials p" by (simp_all add: requeued)
  then have "sessionInv p'" "kept p p'" using sessionInv_cong [of p' p] inv(1) by (simp_all add: kept_same)
  moreover have "busySame p p'" by (simp add: busySame_def requeued requeue_busy)
  ultimately show ?thesis by (rule router_moves_kept [OF m inv(2,3)])
next
  case (closed actor l reason c now)
  have "busySame p p'" by (simp add: closed(1) busySame_def busy_count closeLease_tables)
  then show ?thesis unfolding closed(1)
    by (intro router_moves_kept [OF close_moves [OF closed(3)] inv(2,3) closeLease_session [OF inv(1)] close_kept [OF inv(1) closed(2,3)]]) (simp add: closed(1))
next
  case (opened actor request action c now t)
  have "kept p p'" by (auto simp: kept_def opened(1) openLease_tables)
  moreover have "busySame p p'" by (simp add: busySame_def busy_count opened(1) openLease_tables)
  moreover have "sessionInv p'" using openLease_session [OF inv(1) opened(2)] opened(3) by (simp add: opened(1) freshLease_def)
  ultimately show ?thesis by (intro router_moves_kept [OF _ inv(2,3)]) (auto simp: opened(1) openLease_tables)
next
  case (extended i h e)
  have "pd_router p' = pd_router p" "pd_credentials p' = pd_credentials p" by (simp_all add: extended extendLease_def)
  moreover have "\<exists>l' \<in> set (pd_leases p'). wl_id l' = wl_id l \<and> openFor actor l'" if "l \<in> set (pd_leases p)" "openFor actor l" for actor l
    using that by (intro bexI [of _ "if wl_id l = i then l\<lparr>wl_heartbeatAt := h, wl_expiresAt := e\<rparr> else l"])
      (auto simp: extended extendLease_def openFor_def)
  ultimately have "kept p p'" by (auto simp: kept_def)
  moreover note \<open>pd_router p' = pd_router p\<close>
  ultimately show ?thesis using extendLease_session [OF inv(1)]
    by (intro router_moves_kept [OF _ inv(2,3)]) (auto simp: extended busySame_def busy_count)
qed

lemma session_steps_guaranteed:
  assumes "steps (session_move env) p p'" "sessionInv p" "routerInv (pd_router p)" "clockOk env (pd_router p)"
  shows "sessionGuaranteed env p p'"
  using assms
proof (induction rule: steps.induct)
  case (steps_step s t u)
  then have g: "sessionGuaranteed env s t" by blast
  then have "sessionGuaranteed env t u" using session_move_guaranteed [OF steps_step(2)] by (simp add: sessionGuaranteed_def)
  with g show ?case unfolding sessionGuaranteed_def using kept_trans progress_trans by (auto simp: busySame_def)
qed (auto simp: sessionGuaranteed_def busySame_def kept_same)

section \<open>The platform\<close>

text \<open>
  One committed step: a command of the router, of an agent or of a supervisor, a transaction of the
  work sessions or of the SIP credentials, or an administrator's change of users, origins and
  tenants. The clock does not run backwards and new identifiers are unused; a command that
  fails changes nothing.
\<close>

inductive platform_step :: "platform_db \<Rightarrow> platform_db \<Rightarrow> bool" where
  router_command: "clockOk env (pd_router p) \<Longrightarrow> fresh env (pd_router p) \<Longrightarrow>
    platform_step p (p\<lparr>pd_router := execute env c (pd_router p)\<rparr>)"
| agent_available: "clockOk env (pd_router p) \<Longrightarrow> becomeAvailable env gi lease body p = Inr p' \<Longrightarrow> platform_step p p'"
| agent_wrapup: "clockOk env (pd_router p) \<Longrightarrow> submitWrapup env gi interactionId body p = Inr (p', r) \<Longrightarrow> platform_step p p'"
| supervisor_force: "clockOk env (pd_router p) \<Longrightarrow> forceAgentState env gi agentId body p = Inr (p', r, us) \<Longrightarrow> platform_step p p'"
| session_acquire: "clockOk env (pd_router p) \<Longrightarrow> freshLease env p \<Longrightarrow>
    acquire env eo actor request c p = (Inr (p', view), sent) \<Longrightarrow> platform_step p p'"
| session_takeover: "clockOk env (pd_router p) \<Longrightarrow> freshLease env p \<Longrightarrow>
    takeover env eo actor request expected c p = (Inr (p', view), sent) \<Longrightarrow> platform_step p p'"
| session_release: "clockOk env (pd_router p) \<Longrightarrow> release env actor leaseId c p = (Inr (p', ()), sent) \<Longrightarrow> platform_step p p'"
| session_heartbeat: "clockOk env (pd_router p) \<Longrightarrow>
    heartbeatTransaction env revoked actor leaseId c p = ((p', answer), sent) \<Longrightarrow> platform_step p p'"
| session_auth: "clockOk env (pd_router p) \<Longrightarrow> revokeForAuth env actor leaseId c p = ((p', b), sent) \<Longrightarrow> platform_step p p'"
| session_sweep: "clockOk env (pd_router p) \<Longrightarrow> sweepLease env T u leaseId p = ((p', b), sent) \<Longrightarrow> platform_step p p'"
| sip_issue: "issue md5 nodes password issuedAt actor leaseId (p, cursor) = Inr ((p', cursor'), view) \<Longrightarrow> platform_step p p'"
| administration: "platform_step p (p\<lparr>pd_origins := os, pd_embeddable := es, pd_sipDomains := ds, pd_activeTenants := ts,
    pd_router := (pd_router p)\<lparr>db_users := us\<rparr>\<rparr>)"

definition platformInv :: "platform_db \<Rightarrow> bool" where
  "platformInv p \<longleftrightarrow> routerInv (pd_router p) \<and> sessionInv p"

definition platformStart :: "platform_db \<Rightarrow> bool" where
  "platformStart p \<longleftrightarrow> idleStart (pd_router p) \<and> pd_leases p = [] \<and> pd_credentials p = []"


text \<open>Each transaction of the work sessions as a sequence of moves.\<close>

lemma lockOpen_cong: "pd_leases p' = pd_leases p \<Longrightarrow> lockOpen p' actor = lockOpen p actor"
  by (simp add: lockOpen_def)

lemma lockOpen_closed:
  assumes "sessionInv p" "lockOpen p actor = Some l"
  shows "lockOpen (fst (closeLease env actor l reason c now p)) actor = None"
proof (rule ccontr)
  assume "lockOpen (fst (closeLease env actor l reason c now p)) actor \<noteq> None"
  then obtain k' where "k' \<in> set (map (released (wl_id l) now reason) (pd_leases p))" "openFor actor k'"
    by (metis closeLease_tables(1) lockOpen_Some not_None_eq)
  then obtain k where k: "k \<in> set (pd_leases p)" "openFor actor (released (wl_id l) now reason k)" by auto
  then have o: "openFor actor k" "wl_id k \<noteq> wl_id l" by (auto simp: openFor_def)
  with open_lease_unique [of "pd_leases p" k l actor] k(1) assms(1) lockOpen_Some [OF assms(2)] show False by (auto simp: sessionInv_def)
qed

lemma freshLease_closed: "freshLease env p \<Longrightarrow> freshLease env (fst (closeLease env actor l reason c now p))"
  by (simp add: freshLease_def closeLease_tables image_comp comp_def)

lemma close_then_open:
  assumes "sessionInv p" "lockOpen p actor = Some l" "\<not> busy p actor" "freshLease env p"
  shows "steps (session_move env) p (fst (openLease env actor request action c now t (fst (closeLease env actor l reason c' now' p))))"
  by (rule steps_step [OF steps_one [where step = "session_move env", OF closed [OF assms(2,3)]] opened [OF lockOpen_closed [OF assms(1,2)] freshLease_closed [OF assms(4)]]])

lemma acquire_moves:
  assumes "acquire env eo actor request c p = (Inr (p', view), sent)" "sessionInv p" "freshLease env p"
  shows "steps (session_move env) p p'"
proof (cases "lockOpen p actor")
  case None
  with assms(1) have "p' = fst (openLease env actor request ''ACQUIRED'' c (env_now env ''request'' 2) None p)"
    by (auto simp: acquire_def Let_def split: if_splits prod.splits)
  then show ?thesis using opened [OF None assms(3)] by (auto intro: steps_one)
next
  case (Some l)
  with assms(1) have "\<not> busy p actor" and p': "p' = fst (openLease env actor request ''ACQUIRED'' c (env_now env ''request'' 2) None
      (fst (closeLease env actor l ''expired'' c (env_now env ''request'' 1) p)))"
    by (auto simp: acquire_def lapsed_def Let_def split: if_splits prod.splits)
  then show ?thesis using close_then_open [OF assms(2) Some _ assms(3)] by simp
qed

lemma takeover_moves:
  assumes "takeover env eo actor request e c p = (Inr (p', view), sent)" "sessionInv p" "freshLease env p"
  shows "steps (session_move env) p p'"
proof -
  define q where "q = p\<lparr>pd_router := fst (requeueOffers env actor (env_now env ''request'' 0) (pd_router p))\<rparr>"
  from assms(1) obtain l n where l: "lockOpen p actor = Some l" "\<not> busy p actor"
    and p': "p' = fst (openLease env actor request ''TAKEOVER'' c (env_now env ''request'' 2) (Some (l, n))
      (fst (closeLease env actor l ''takeover'' c (env_now env ''request'' 1) q)))"
    by (auto simp: takeover_def q_def Let_def split: if_splits option.splits prod.splits) (metis fst_conv)
  have q: "pd_leases q = pd_leases p" "pd_credentials q = pd_credentials p" by (simp_all add: q_def)
  have "steps (session_move env) q p'"
    unfolding p' using q l assms(2,3) requeue_busy [where p = p and env = env and actor = actor and now = "env_now env ''request'' 0" and a = actor]
    by (intro close_then_open) (simp_all add: sessionInv_cong [OF q] lockOpen_cong [OF q(1)] freshLease_def flip: q_def)
  moreover have "steps (session_move env) p q" unfolding q_def by (intro steps_one requeued)
  ultimately show ?thesis by (rule steps_trans)
qed

lemma release_moves: "release env actor leaseId c p = (Inr (p', ()), sent) \<Longrightarrow> steps (session_move env) p p'"
  by (auto simp: release_def Let_def split: if_splits option.splits prod.splits)
    (metis closed fst_conv steps_one)

lemma auth_moves: "revokeForAuth env actor leaseId c p = ((p', b), sent) \<Longrightarrow> steps (session_move env) p p'"
  by (auto simp: revokeForAuth_def Let_def split: if_splits option.splits prod.splits)
    (metis closed fst_conv steps_one)

lemma sweep_moves: "sweepLease env T u leaseId p = ((p', b), sent) \<Longrightarrow> steps (session_move env) p p'"
  by (auto simp: sweepLease_def lapsed_def Let_def split: if_splits option.splits prod.splits)
    (metis closed fst_conv steps_one)

lemma heartbeat_moves: "heartbeatTransaction env revoked actor leaseId c p = ((p', answer), sent) \<Longrightarrow> steps (session_move env) p p'"
  by (auto simp: heartbeatTransaction_def lapsed_def Let_def split: if_splits option.splits prod.splits)
    (metis closed extended fst_conv steps_one)+

text \<open>The commands of agents and supervisors leave leases and credentials alone.\<close>

lemma available_tables:
  "becomeAvailable env gi lease body p = Inr p' \<Longrightarrow> pd_leases p' = pd_leases p \<and> pd_credentials p' = pd_credentials p"
  by (auto simp: becomeAvailable_def Let_def rbind_eq_Inr_iff split: if_splits option.splits)

lemma submit_tables:
  "submitWrapup env gi interactionId body p = Inr (p', r) \<Longrightarrow> pd_leases p' = pd_leases p \<and> pd_credentials p' = pd_credentials p"
  by (auto simp: submitWrapup_def wrapupOnce_def Let_def rbind_eq_Inr_iff split: if_splits option.splits)

lemma force_tables:
  "forceAgentState env gi agentId body p = Inr (p', r, us) \<Longrightarrow> pd_leases p' = pd_leases p \<and> pd_credentials p' = pd_credentials p"
  by (erule force_target_of) (auto simp: forceTarget_def Let_def split: if_splits option.splits)

lemma issue_upserts:
  assumes "issue md5 nodes password issuedAt actor leaseId (p, cursor) = Inr ((p', cursor'), view)"
  obtains c l where "p' = upsertCredential c p" "l \<in> set (pd_leases p)" "wl_id l = sc_leaseId c" "wl_tenantId l = sc_tenantId c"
    "wl_userId l = sc_userId c" "wl_releasedAt l = None" "sc_revokedAt c = None"
proof -
  from assms obtain l c where "p' = upsertCredential c p" "find (\<lambda>l. wl_id l = leaseId \<and> openFor actor l) (pd_leases p) = Some l"
      "sc_leaseId c = leaseId" "sc_tenantId c = wa_tenantId actor" "sc_userId c = wa_userId actor" "sc_revokedAt c = None"
    by (auto simp: issue_def Let_def split: if_splits option.splits)
  then show ?thesis using that by (auto simp: openFor_def dest!: find_Some_in)
qed

lemma upsert_kept: "kept p (upsertCredential c p)"
proof -
  have "\<exists>c' \<in> set (pd_credentials (upsertCredential c p)). sc_leaseId c' = sc_leaseId x \<and> sc_revokedAt c' = None"
    if "x \<in> set (pd_credentials p)" "sc_revokedAt x = None" for x
    using that by (intro bexI [of _ "if list_ex (\<lambda>r. sc_leaseId r = sc_leaseId c) (pd_credentials p) \<and> sc_leaseId x = sc_leaseId c
        then x\<lparr>sc_a1Hash := sc_a1Hash c, sc_issuedAt := sc_issuedAt c, sc_revokedAt := None\<rparr> else x"])
      (auto simp: upsertCredential_def)
  moreover have "pd_leases (upsertCredential c p) = pd_leases p" by (simp add: upsertCredential_def)
  ultimately show ?thesis unfolding kept_def by metis
qed

lemma routerInv_users [simp]: "routerInv (db\<lparr>db_users := us\<rparr>) = routerInv db"
proof -
  have "latestLog (db\<lparr>db_users := us\<rparr>) = latestLog db" by (rule latestLog_same_logs) simp
  then have "agentHeld (db\<lparr>db_users := us\<rparr>) i = agentHeld db i" for i by (rule agentHeld_same_logs)
  then show ?thesis by (simp add: routerInv_def logsOrdered_def oneLive_def)
qed

text \<open>Every step keeps the invariants, and an agent with a call keeps the lease.\<close>

lemma router_step_kept:
  assumes "steps (anyMove env) (pd_router p) (pd_router p')" "clockOk env (pd_router p)" "platformInv p"
    and "pd_leases p' = pd_leases p" "pd_credentials p' = pd_credentials p"
  shows "platformInv p' \<and> kept p p'"
  using any_guaranteed [OF assms(1) _ assms(2)] assms(3) sessionInv_cong [OF assms(4,5)] kept_same [OF assms(4,5)]
  by (simp add: platformInv_def)

lemma session_step_kept:
  assumes "steps (session_move env) p p'" "clockOk env (pd_router p)" "platformInv p"
  shows "platformInv p' \<and> kept p p'"
  using session_steps_guaranteed [OF assms(1)] assms(2,3) by (simp add: platformInv_def sessionGuaranteed_def)

lemma platform_step_kept:
  assumes "platform_step p p'" and inv: "platformInv p"
  shows "platformInv p' \<and> kept p p'"
proof -
  from inv have r: "routerInv (pd_router p)" and se: "sessionInv p" by (simp_all add: platformInv_def)
  from assms(1) show ?thesis
  proof cases
    case (router_command env c)
    with execute_refines [OF r] inv show ?thesis by (intro router_step_kept [of env]) auto
  next
    case (agent_available env gi lease body)
    with available_refines [OF _ r] available_tables inv show ?thesis by (intro router_step_kept [of env] steps_any) blast+
  next
    case (agent_wrapup env gi interactionId body r')
    with submit_refines [OF _ r] submit_tables inv show ?thesis by (intro router_step_kept [of env] steps_any) blast+
  next
    case (supervisor_force env gi agentId body r' us)
    with force_refines force_tables inv show ?thesis by (intro router_step_kept [of env] steps_any) blast+
  next
    case (session_acquire env eo actor request c view sent)
    with acquire_moves [OF _ se] inv show ?thesis by (intro session_step_kept [of env]) blast+
  next
    case (session_takeover env eo actor request expected c view sent)
    with takeover_moves [OF _ se] inv show ?thesis by (intro session_step_kept [of env]) blast+
  next
    case (sip_issue md5 nodes password issuedAt actor leaseId cursor cursor' view)
    then obtain c l where c: "p' = upsertCredential c p" "l \<in> set (pd_leases p)" "wl_id l = sc_leaseId c" "wl_tenantId l = sc_tenantId c"
      "wl_userId l = sc_userId c" "wl_releasedAt l = None" by (rule issue_upserts)
    from upsert_session [OF se c(2-6)] r upsert_kept [of p c] show ?thesis
      by (simp add: platformInv_def c(1)) (simp add: upsertCredential_def)
  next
    case (administration os es ds ts us)
    with r se sessionInv_cong [of p' p] kept_same [of p' p] show ?thesis by (simp add: platformInv_def)
  next
    case (session_auth env actor leaseId c b sent)
    then show ?thesis by (intro session_step_kept [OF auth_moves _ inv])
  next
    case (session_sweep env T u leaseId b sent)
    then show ?thesis by (intro session_step_kept [OF sweep_moves _ inv])
  qed (use session_step_kept [OF release_moves _ inv] session_step_kept [OF heartbeat_moves _ inv] in blast)+
qed

interpretation platform: invariant_system platformStart platform_step platformInv
proof
  show "platformStart s \<Longrightarrow> platformInv s" for s
    using router.initial_invar by (simp add: platformStart_def platformInv_def sessionInv_def openKeys_def)
  show "platformInv s \<Longrightarrow> platform_step s t \<Longrightarrow> platformInv t" for s t using platform_step_kept by blast
qed

end
