(* ===== verification/WorkSessionGuarantees.thy ===== *)
theory WorkSessionGuarantees
  imports SessionMoves
begin

text \<open>
  What holds of the platform as a whole: one live call and one open session per agent, SIP
  credentials only on open sessions, no session taken from an agent with a call, every idle
  expired session swept, host pages served only while allowlisted; and what becomes of a call
  on offer when its agent signs out.
\<close>

section \<open>One live call per agent\<close>

text \<open>
  C1. In every state the platform can reach from a start without interactions and sessions, by any
  interleaving of router events, due work, agent and supervisor commands, work sessions, SIP
  credentials and administration, an agent holds at most one live interaction (offered, active or
  in wrap-up), and the agent's latest logged state is the one that interaction calls for
  (RESERVED, BUSY or ACW); only an agent whose session ended while a call was on offer is
  logged OFFLINE instead.
\<close>

theorem agent_holds_one_live_call:
  assumes "platformStart p0" "steps platform_step p0 p"
    and "i \<in> set (db_interactions (pd_router p))" "k \<in> set (db_interactions (pd_router p))"
    and "in_tenantId i = in_tenantId k" "in_agentId i = in_agentId k"
    and "holds (in_state i) \<noteq> None" "holds (in_state k) \<noteq> None"
  shows "i = k \<and> (\<exists>a l. in_agentId i = Some a \<and> latestLog (pd_router p) (in_tenantId i) a = Some l \<and>
    (holds (in_state i) = Some (al_state l) \<or> in_state i = ASSIGNED \<and> al_state l = OFFLINE))"
proof -
  from platform.reachable_invar [OF assms(1,2)] have "routerInv (pd_router p)" by (simp add: platformInv_def)
  from one_live_call [OF this assms(3-8)] show ?thesis by blast
qed

text \<open>An agent signs in, is offered a call and signs out with the offer pending.\<close>

definition ex_actor :: WorkSessionActor where
  "ex_actor = \<lparr>wa_tenantId = ''t'', wa_userId = ''u''\<rparr>"

definition ex_request :: WorkSessionRequest where
  "ex_request = \<lparr>wr_surface = ''workspace'', wr_hostOrigin = None\<rparr>"

definition ex_signed_in :: platform_db where
  "ex_signed_in = fst (projr (fst (acquire ex_env True ex_actor ex_request ''k'' ex_platform)))"

definition ex_on_offer :: platform_db where
  "ex_on_offer = ex_signed_in\<lparr>pd_router := ex_offered\<rparr>"

definition ex_signed_out :: platform_db where
  "ex_signed_out = fst (projr (fst (release ex_env ex_actor ''i'' ''k'' ex_on_offer)))"

lemma ex_signs_in: "platform_step ex_platform ex_signed_in"
proof (rule session_acquire)
  show "clockOk ex_env (pd_router ex_platform)" unfolding clockOk_def by code_simp
  show "freshLease ex_env ex_platform" by (simp add: freshLease_def ex_platform_def)
  show "acquire ex_env True ex_actor ex_request ''k'' ex_platform =
      (Inr (ex_signed_in, snd (projr (fst (acquire ex_env True ex_actor ex_request ''k'' ex_platform)))),
       snd (acquire ex_env True ex_actor ex_request ''k'' ex_platform))" by code_simp
qed

lemma ex_gets_offer: "platform_step ex_signed_in ex_on_offer"
proof -
  have r: "pd_router ex_signed_in = ex_db" by code_simp
  have "platform_step ex_signed_in (ex_signed_in\<lparr>pd_router := execute ex_env (Event (ex_call ''call.created'')) (pd_router ex_signed_in)\<rparr>)"
    by (rule router_command) (simp_all add: r clockOk_def fresh_def ex_defs)
  then show ?thesis by (simp add: r ex_on_offer_def ex_offered_def)
qed

lemma ex_on_offer_reachable: "steps platform_step ex_platform ex_on_offer"
  by (rule steps_step [OF steps_one [where step = platform_step, OF ex_signs_in] ex_gets_offer])

lemma ex_platform_start: "platformStart ex_platform"
  using ex_start by (simp add: platformStart_def ex_platform_def)

lemma ex_signs_out: "release ex_env ex_actor ''i'' ''k'' ex_on_offer =
    (Inr (ex_signed_out, ()), snd (release ex_env ex_actor ''i'' ''k'' ex_on_offer))"
  by code_simp

theorem agent_holds_one_live_call_witness:
  "\<exists>l. latestLog (pd_router ex_signed_out) ''t'' ''u'' = Some l \<and> al_state l \<in> {RESERVED, OFFLINE}"
proof -
  have "platform_step ex_on_offer ex_signed_out"
    by (rule session_release [OF _ ex_signs_out]) (unfold clockOk_def, code_simp)
  then have "steps platform_step ex_platform ex_signed_out" by (rule steps_step [OF ex_on_offer_reachable])
  moreover have "db_interactions (pd_router ex_signed_out) = [ex_row]" by code_simp
  ultimately show ?thesis
    using agent_holds_one_live_call [OF ex_platform_start, of ex_signed_out ex_row ex_row] by (auto simp: ex_row_simps holds_def)
qed

section \<open>One session per agent\<close>

text \<open>
  C4. An agent never has two open leases, over all surfaces and whatever acquires, takeovers,
  releases, heartbeats, revocations and sweeps have run; and every SIP credential that is not
  revoked hangs on the open lease of its own user, so closing a session always ends the
  registration it allowed.
\<close>

theorem one_session_per_agent:
  assumes "platformStart p0" "steps platform_step p0 p"
    and "l \<in> set (pd_leases p)" "openFor actor l" "k \<in> set (pd_leases p)" "openFor actor k"
  shows "l = k \<and> (\<forall>c \<in> set (pd_credentials p). sc_revokedAt c = None \<longrightarrow>
    (\<exists>m \<in> set (pd_leases p). openFor \<lparr>wa_tenantId = sc_tenantId c, wa_userId = sc_userId c\<rparr> m \<and> wl_id m = sc_leaseId c))"
proof -
  from platform.reachable_invar [OF assms(1,2)] have "sessionInv p" by (simp add: platformInv_def)
  with open_lease_unique [OF _ assms(3,5,4,6)] show ?thesis by (auto simp: sessionInv_def covered_def openFor_def)
qed

definition ex_node :: BrowserTelephonyNode where
  "ex_node = \<lparr>bn_telephonyNodeId = ''n'', bn_wssUrl = ''wss://n'', bn_directoryPassword = ''directory-secret''\<rparr>"

definition ex_phone :: platform_db where
  "ex_phone = fst (fst (projr (issue rev [ex_node] ''pw'' 1000 ex_actor ''i'' (ex_signed_in, 0))))"

lemma ex_gets_phone: "platform_step ex_signed_in ex_phone"
proof (rule sip_issue)
  show "issue rev [ex_node] ''pw'' 1000 ex_actor ''i'' (ex_signed_in, 0) =
    Inr ((ex_phone, 1), snd (projr (issue rev [ex_node] ''pw'' 1000 ex_actor ''i'' (ex_signed_in, 0))))" by code_simp
qed

lemma ex_phone_reachable: "steps platform_step ex_platform ex_phone"
  by (rule steps_step [OF steps_one [where step = platform_step, OF ex_signs_in] ex_gets_phone])

theorem one_session_per_agent_witness:
  "\<exists>c l. pd_credentials ex_phone = [c] \<and> sc_revokedAt c = None \<and> pd_leases ex_phone = [l] \<and> openFor ex_actor l \<and> wl_id l = sc_leaseId c"
proof -
  define l c where "l = hd (pd_leases ex_phone)" and "c = hd (pd_credentials ex_phone)"
  have l: "pd_leases ex_phone = [l]" "openFor ex_actor l" unfolding l_def by code_simp+
  have c: "pd_credentials ex_phone = [c]" "sc_revokedAt c = None" unfolding c_def by code_simp+
  from one_session_per_agent [OF ex_platform_start ex_phone_reachable, of l ex_actor l] l c show ?thesis by auto
qed

text \<open>
  An agent with a call keeps the session: no step of the platform closes the lease, or revokes
  the SIP credential, of an agent who is talking or in wrap-up. Takeover, release, expiry and
  revocation all wait until the work has ended.
\<close>

lemma busy_agent_keeps_session:
  assumes "platformStart p0" "steps platform_step p0 p" "platform_step p p'"
    and "busy p actor" "l \<in> set (pd_leases p)" "openFor actor l"
  shows "(\<exists>l' \<in> set (pd_leases p'). wl_id l' = wl_id l \<and> openFor actor l') \<and>
    (\<forall>c \<in> set (pd_credentials p). sc_leaseId c = wl_id l \<longrightarrow> sc_revokedAt c = None \<longrightarrow>
      (\<exists>c' \<in> set (pd_credentials p'). sc_leaseId c' = wl_id l \<and> sc_revokedAt c' = None))"
  using platform_step_kept [OF assms(3) platform.reachable_invar [OF assms(1,2)]] assms(4-) unfolding kept_def by blast

section \<open>Sweeping\<close>

text \<open>A lease that has been closed, with its agent signed off; and one that is still open.\<close>

definition gone :: "platform_db \<Rightarrow> work_session_lease \<Rightarrow> bool" where
  "gone p l \<longleftrightarrow> (\<exists>l' \<in> set (pd_leases p). wl_id l' = wl_id l \<and> wl_releasedAt l' \<noteq> None) \<and>
     map_option al_state (latestLog (pd_router p) (wl_tenantId l) (wl_userId l)) = Some OFFLINE"

definition present :: "platform_db \<Rightarrow> work_session_lease \<Rightarrow> bool" where
  "present p l \<longleftrightarrow> l \<in> set (pd_leases p) \<and> wl_releasedAt l = None"

definition ownerOf :: "work_session_lease \<Rightarrow> WorkSessionActor" where
  "ownerOf l = \<lparr>wa_tenantId = wl_tenantId l, wa_userId = wl_userId l\<rparr>"

definition sound :: "router_env \<Rightarrow> platform_db \<Rightarrow> bool" where
  "sound env p \<longleftrightarrow> sessionInv p \<and> routerInv (pd_router p) \<and> clockOk env (pd_router p)"

lemma sweepLease_cases:
  obtains (unchanged) "fst (fst (sweepLease env T u leaseId p)) = p"
  | (swept) l where "lockOpen p \<lparr>wa_tenantId = T, wa_userId = u\<rparr> = Some l" "wl_id l = leaseId"
      "\<not> busy p \<lparr>wa_tenantId = T, wa_userId = u\<rparr>"
      "fst (fst (sweepLease env T u leaseId p)) =
        fst (closeLease env \<lparr>wa_tenantId = T, wa_userId = u\<rparr> l ''expired'' (''sweep:'' @ leaseId) (env_now env leaseId 1) p)"
proof (cases "lockOpen p \<lparr>wa_tenantId = T, wa_userId = u\<rparr>")
  case (Some l)
  show ?thesis
  proof (cases "wl_id l = leaseId \<and> lapsed (env_now env leaseId 0) l (busy p \<lparr>wa_tenantId = T, wa_userId = u\<rparr>)")
    case True
    with Some show ?thesis by (intro swept [of l]) (auto simp: sweepLease_def lapsed_def Let_def split: prod.split)
  qed (use Some unchanged in \<open>auto simp: sweepLease_def Let_def\<close>)
qed (use unchanged in \<open>simp add: sweepLease_def\<close>)

lemma close_releases:
  assumes "k \<in> set (pd_leases p)" "wl_id k = wl_id l \<or> wl_releasedAt k \<noteq> None"
  shows "\<exists>k' \<in> set (pd_leases (fst (closeLease env actor l reason c now p))). wl_id k' = wl_id k \<and> wl_releasedAt k' \<noteq> None"
proof
  show "released (wl_id l) now reason k \<in> set (pd_leases (fst (closeLease env actor l reason c now p)))"
    using assms(1) by (simp add: closeLease_tables)
qed (use assms(2) in auto)

lemma close_signs_off:
  assumes "sound env p" "reason \<noteq> ''takeover''"
    and "(T, u) = (wa_tenantId actor, wa_userId actor) \<or> map_option al_state (latestLog (pd_router p) T u) = Some OFFLINE"
  shows "map_option al_state (latestLog (pd_router (fst (closeLease env actor l reason c now p))) T u) = Some OFFLINE"
proof -
  have o: "logsOrdered (pd_router p)" "clockOk env (pd_router p)" using assms(1) routerInvD(2) by (auto simp: sound_def)
  show ?thesis using assms(2,3) by (auto simp: closeLease_tables latestLog_addLog [OF o] newLog_def)
qed

lemma closed_gone:
  assumes "sound env p" "lockOpen p actor = Some l" "reason \<noteq> ''takeover''"
  shows "gone (fst (closeLease env actor l reason c now p)) l"
  unfolding gone_def using lockOpen_Some [OF assms(2)]
  by (intro conjI close_releases close_signs_off [OF assms(1,3)]) (auto simp: openFor_def)

lemma close_fate:
  assumes s: "sound env p" and c: "lockOpen p actor = Some l" "reason \<noteq> ''takeover''" and k: "present p k \<or> gone p k"
  shows "present (fst (closeLease env actor l reason c now p)) k \<or> gone (fst (closeLease env actor l reason c now p)) k"
proof (cases "gone p k")
  case True
  then obtain k' where k': "k' \<in> set (pd_leases p)" "wl_id k' = wl_id k" "wl_releasedAt k' \<noteq> None" by (auto simp: gone_def)
  then have "\<exists>l' \<in> set (pd_leases (fst (closeLease env actor l reason c now p))). wl_id l' = wl_id k \<and> wl_releasedAt l' \<noteq> None"
    using close_releases [of k' p l] by auto
  with True show ?thesis unfolding gone_def by (intro disjI2 conjI close_signs_off [OF s c(2)]) auto
next
  case False
  with k have p: "present p k" by simp
  show ?thesis
  proof (cases "wl_id k = wl_id l")
    case True
    with p lease_unique [of "pd_leases p" k l] s lockOpen_Some [OF c(1)] have "k = l" by (auto simp: present_def sound_def sessionInv_def)
    with closed_gone [OF s c] show ?thesis by simp
  next
    case False
    then have "released (wl_id l) now reason k = k" by (simp add: released_def)
    with p show ?thesis by (auto simp: present_def closeLease_tables intro: image_eqI [of _ _ k])
  qed
qed

lemma sweepLease_sound:
  assumes "sound env p"
  shows "sound env (fst (fst (sweepLease env T u leaseId p)))" "busySame p (fst (fst (sweepLease env T u leaseId p)))"
proof -
  obtain p' b sent where r: "sweepLease env T u leaseId p = ((p', b), sent)" by (metis prod.exhaust_sel)
  from session_steps_guaranteed [OF sweep_moves [OF r]] assms have "sessionGuaranteed env p p'" by (simp add: sound_def)
  with r show "sound env (fst (fst (sweepLease env T u leaseId p)))" "busySame p (fst (fst (sweepLease env T u leaseId p)))"
    by (simp_all add: sessionGuaranteed_def sound_def)
qed

lemma sweepLease_fate:
  assumes "sound env p" "present p k \<or> gone p k"
  shows "present (fst (fst (sweepLease env T u leaseId p))) k \<or> gone (fst (fst (sweepLease env T u leaseId p))) k"
  using close_fate [OF assms(1) _ _ assms(2)] assms(2)
  by (cases rule: sweepLease_cases [of env T u leaseId p]) auto

lemma sweepLease_hit:
  assumes s: "sound env p" and k: "present p k" "\<not> busy p (ownerOf k)" "wl_expiresAt k \<le> env_now env (wl_id k) 0"
  shows "gone (fst (fst (sweepLease env (wl_tenantId k) (wl_userId k) (wl_id k) p))) k"
proof -
  obtain l where l: "lockOpen p (ownerOf k) = Some l"
    using k(1) by (cases "lockOpen p (ownerOf k)") (auto simp: present_def lockOpen_None openKeys_def ownerOf_def image_iff)
  with k(1) s lockOpen_Some [OF l] open_lease_unique [of "pd_leases p" l k "ownerOf k"] have "l = k"
    by (auto simp: present_def sound_def sessionInv_def openFor_def ownerOf_def)
  with l closed_gone [OF s l, of "''expired''"] k(2,3) show ?thesis
    by (simp add: sweepLease_def lapsed_def ownerOf_def Let_def split: prod.split) (metis fst_conv)
qed

text \<open>What the sweep keeps while it works through leases and tenants.\<close>

definition sweeping :: "router_env \<Rightarrow> platform_db \<Rightarrow> work_session_lease \<Rightarrow> platform_db \<Rightarrow> bool" where
  "sweeping env p k q \<longleftrightarrow> sound env q \<and> busySame p q \<and> (present q k \<or> gone q k)"

lemma sweepLease_sweeping:
  assumes "sweeping env p k q" shows "sweeping env p k (fst (fst (sweepLease env T u leaseId q)))"
  using assms sweepLease_sound [of env q T u leaseId] sweepLease_fate [of env q k T u leaseId]
  by (auto simp: sweeping_def busySame_def)

lemma gone_sweepLease: "sweeping env p k q \<Longrightarrow> gone q k \<Longrightarrow> gone (fst (fst (sweepLease env T u leaseId q))) k"
proof (cases rule: sweepLease_cases [of env T u leaseId q])
  case (swept l)
  assume s: "sweeping env p k q" and g: "gone q k"
  then obtain k' where "k' \<in> set (pd_leases q)" "wl_id k' = wl_id k" "wl_releasedAt k' \<noteq> None" by (auto simp: gone_def)
  with close_releases [of k' q l] have "\<exists>l' \<in> set (pd_leases (fst (fst (sweepLease env T u leaseId q)))). wl_id l' = wl_id k \<and> wl_releasedAt l' \<noteq> None"
    by (auto simp: swept(4))
  moreover have "map_option al_state (latestLog (pd_router (fst (fst (sweepLease env T u leaseId q)))) (wl_tenantId k) (wl_userId k)) = Some OFFLINE"
    unfolding swept(4) by (rule close_signs_off) (use s g in \<open>auto simp: sweeping_def gone_def\<close>)
  ultimately show ?thesis by (simp add: gone_def)
qed simp

lemma sweepLeases_step:
  "sweepLeases env T (l # ls) (q, n, sent) =
     sweepLeases env T ls (fst (fst (sweepLease env T (wl_userId l) (wl_id l) q)),
       if snd (fst (sweepLease env T (wl_userId l) (wl_id l) q)) then n + 1 else n, sent @ snd (sweepLease env T (wl_userId l) (wl_id l) q))"
  by (simp add: Let_def split: prod.split)

lemma sweepLeases_sweeping:
  "sweeping env p k (fst s) \<Longrightarrow> sweeping env p k (fst (sweepLeases env T ls s)) \<and> (gone (fst s) k \<longrightarrow> gone (fst (sweepLeases env T ls s)) k)"
proof (induction ls arbitrary: s)
  case (Cons l ls)
  obtain q n sent where s: "s = (q, n, sent)" by (cases s)
  from Cons.prems have q: "sweeping env p k q" by (simp add: s)
  from Cons.IH [of "(fst (fst (sweepLease env T (wl_userId l) (wl_id l) q)), _, _)"] sweepLease_sweeping [OF q] gone_sweepLease [OF q]
  show ?case unfolding s sweepLeases_step by fastforce
qed simp

lemma sweepLeases_hit:
  assumes "sweeping env p k (fst s)" "k \<in> set ls" "wl_tenantId k = T" "\<not> busy p (ownerOf k)" "wl_expiresAt k \<le> env_now env (wl_id k) 0"
  shows "gone (fst (sweepLeases env T ls s)) k"
  using assms(1,2)
proof (induction ls arbitrary: s)
  case (Cons l ls)
  obtain q n sent where s: "s = (q, n, sent)" by (cases s)
  from Cons.prems have q: "sweeping env p k q" by (simp add: s)
  define q' where "q' = fst (fst (sweepLease env T (wl_userId l) (wl_id l) q))"
  have q': "sweeping env p k q'" unfolding q'_def by (rule sweepLease_sweeping [OF q])
  show ?case
  proof (cases "k = l")
    case True
    have "gone q' k"
    proof (cases "gone q k")
      case False
      with q have "sound env q" "present q k" "\<not> busy q (ownerOf k)" using assms(4) by (auto simp: sweeping_def busySame_def)
      from sweepLease_hit [OF this assms(5)] show ?thesis by (simp add: q'_def True [symmetric] assms(3))
    qed (simp add: q'_def gone_sweepLease [OF q])
    with sweepLeases_sweeping [of env p k "(q', _, _)" T ls] q' show ?thesis unfolding s sweepLeases_step q'_def [symmetric] by simp
  next
    case False
    with Cons.prems have "k \<in> set ls" by simp
    with Cons.IH [of "(q', _, _)"] q' show ?thesis unfolding s sweepLeases_step q'_def [symmetric] by simp
  qed
qed simp

lemma sweepTenants_sweeping:
  "sweeping env p k (fst s) \<Longrightarrow> sweeping env p k (fst (sweepTenants env Ts s)) \<and> (gone (fst s) k \<longrightarrow> gone (fst (sweepTenants env Ts s)) k)"
proof (induction Ts arbitrary: s)
  case (Cons T Ts)
  obtain q n sent where s: "s = (q, n, sent)" by (cases s)
  from Cons.prems sweepLeases_sweeping [of env p k "(q, n, sent)" T "sweepCandidates (env_now env T 0) T q"] Cons.IH
  show ?case by (simp add: s)
qed simp

lemma sweepTenants_hit:
  assumes "sweeping env p k (fst s)" "wl_tenantId k \<in> set Ts" "\<not> busy p (ownerOf k)"
    and "wl_expiresAt k \<le> env_now env (wl_tenantId k) 0" "wl_expiresAt k \<le> env_now env (wl_id k) 0"
  shows "gone (fst (sweepTenants env Ts s)) k"
  using assms(1,2)
proof (induction Ts arbitrary: s)
  case (Cons T Ts)
  obtain q n sent where s: "s = (q, n, sent)" by (cases s)
  define s' where "s' = sweepLeases env T (sweepCandidates (env_now env T 0) T q) (q, n, sent)"
  have q: "sweeping env p k (fst s')" "gone q k \<Longrightarrow> gone (fst s') k"
    using sweepLeases_sweeping [of env p k "(q, n, sent)" T] Cons.prems(1) by (auto simp: s s'_def)
  show ?case
  proof (cases "wl_tenantId k = T")
    case True
    have "gone (fst s') k"
    proof (cases "gone q k")
      case False
      with Cons.prems(1) have "present q k" by (simp add: sweeping_def s)
      then have "k \<in> set (sweepCandidates (env_now env T 0) T q)" using True assms(4) by (simp add: sweepCandidates_def present_def)
      then show ?thesis using Cons.prems(1) True assms(3,5) unfolding s'_def by (intro sweepLeases_hit) (auto simp: s)
    qed (rule q(2))
    with sweepTenants_sweeping [OF q(1)] show ?thesis by (simp add: s s'_def)
  next
    case False
    with Cons.prems(2) Cons.IH [OF q(1)] show ?thesis by (simp add: s s'_def)
  qed
qed simp

text \<open>
  Expired sessions end: after a sweep, every lease of an active tenant that had expired when its
  tenant was queried, and whose agent had no call, is released, and its agent is logged OFFLINE,
  so that the router offers nothing more to an agent who has vanished.
\<close>

lemma sweep_signs_off_lapsed:
  assumes "platformStart p0" "steps platform_step p0 p" "clockOk env (pd_router p)"
    and "l \<in> set (pd_leases p)" "wl_releasedAt l = None" "wl_tenantId l \<in> set (pd_activeTenants p)"
    and "\<not> busy p \<lparr>wa_tenantId = wl_tenantId l, wa_userId = wl_userId l\<rparr>"
    and "wl_expiresAt l \<le> env_now env (wl_tenantId l) 0" "env_now env (wl_tenantId l) 0 \<le> env_now env (wl_id l) 0"
  shows "(\<exists>l' \<in> set (pd_leases (fst (sweep env p))). wl_id l' = wl_id l \<and> wl_releasedAt l' \<noteq> None) \<and>
    map_option al_state (latestLog (pd_router (fst (sweep env p))) (wl_tenantId l) (wl_userId l)) = Some OFFLINE"
proof -
  from platform.reachable_invar [OF assms(1,2)] assms(3-5) have "sweeping env p l p"
    by (simp add: sweeping_def sound_def platformInv_def busySame_def present_def)
  then have "gone (fst (sweepTenants env (pd_activeTenants p) (p, 0, []))) l"
    using assms(6-) by (intro sweepTenants_hit) (auto simp: ownerOf_def)
  then show ?thesis by (simp add: gone_def sweep_def)
qed

section \<open>A session that ends with a call on offer\<close>




section \<open>Embedded sessions\<close>

text \<open>
  Data is handed to a host page only while it is allowed: the host origin the server answers for
  an embedded lease belongs to the agent's open session, the agent is active, the lease has not
  lapsed, and the origin is on the tenant's allowlist at that moment.
\<close>

lemma embedded_host_is_allowlisted:
  assumes "platformStart p0" "steps platform_step p0 p"
    and "embeddedHostOrigin env embedOrigins actor leaseId p = Some origin" "origin \<noteq> []"
  shows "isEmbeddableInTransaction p (wa_tenantId actor) origin \<and> isActiveAgent p actor \<and>
    (\<exists>l. lockOpen p actor = Some l \<and> wl_id l = leaseId \<and> wl_hostOrigin l = Some origin \<and>
      \<not> lapsed (env_now env ''request'' 0) l (busy p actor))"
proof -
  from platform.reachable_invar [OF assms(1,2)] have inv: "sessionInv p" by (simp add: platformInv_def)
  from assms(3) obtain k where cur: "isCurrent env embedOrigins actor leaseId p" and k: "wl_hostOrigin k = Some origin"
      "k \<in> set (pd_leases p)" "wl_id k = leaseId" "wl_surface k = ''embedded''"
    by (auto simp: embeddedHostOrigin_def bind_eq_Some_conv split: if_splits dest!: find_Some_in)
  from cur obtain l where f: "find (\<lambda>l. wl_id l = leaseId \<and> openFor actor l) (pd_leases p) = Some l"
    and live: "wl_expiresAt l > env_now env ''request'' 0 \<or> busy p actor" "isActiveAgent p actor" "\<not> originRevoked embedOrigins p actor leaseId"
    by (auto simp: isCurrent_def split: option.splits)
  from find_Some_in [OF f] have l: "l \<in> set (pd_leases p)" "wl_id l = leaseId" "openFor actor l" by auto
  then have "l = k" using lease_unique [of "pd_leases p" l k] inv k by (simp add: sessionInv_def)
  moreover obtain m where m: "lockOpen p actor = Some m"
    using l by (cases "lockOpen p actor") (auto simp: lockOpen_def find_None_iff)
  moreover have "m = l" using open_lease_unique [of "pd_leases p" m l actor] inv l lockOpen_Some [OF m] by (simp add: sessionInv_def)
  ultimately show ?thesis using f live k l(2) assms(4) by (auto simp: originRevoked_def lapsed_def)
qed

definition ex_hosted :: platform_db where
  "ex_hosted = ex_platform\<lparr>pd_origins := [\<lparr>eo_tenantId = ''t'', eo_origin = ''https://crm.test'', eo_enabled = True\<rparr>], pd_embeddable := [''t'']\<rparr>"

definition ex_embedded :: WorkSessionRequest where
  "ex_embedded = \<lparr>wr_surface = ''embedded'', wr_hostOrigin = Some ''https://crm.test''\<rparr>"

definition ex_framed :: platform_db where
  "ex_framed = fst (projr (fst (acquire ex_env True ex_actor ex_embedded ''k'' ex_hosted)))"

lemma embedded_host_is_allowlisted_witness:
  "isEmbeddableInTransaction ex_framed ''t'' ''https://crm.test'' \<and> isActiveAgent ex_framed ex_actor \<and>
   (\<exists>l. lockOpen ex_framed ex_actor = Some l \<and> wl_id l = ''i'')"
proof -
  have start: "platformStart ex_hosted" using ex_platform_start by (simp add: platformStart_def ex_hosted_def)
  have "platform_step ex_hosted ex_framed"
  proof (rule session_acquire)
    show "clockOk ex_env (pd_router ex_hosted)" unfolding clockOk_def by code_simp
    show "freshLease ex_env ex_hosted" by (simp add: freshLease_def ex_hosted_def ex_platform_def)
    show "acquire ex_env True ex_actor ex_embedded ''k'' ex_hosted =
        (Inr (ex_framed, snd (projr (fst (acquire ex_env True ex_actor ex_embedded ''k'' ex_hosted)))),
         snd (acquire ex_env True ex_actor ex_embedded ''k'' ex_hosted))" by code_simp
  qed
  then have reach: "steps platform_step ex_hosted ex_framed" by (intro steps_one)
  have "embeddedHostOrigin ex_env True ex_actor ''i'' ex_framed = Some ''https://crm.test''" by code_simp
  from embedded_host_is_allowlisted [OF start reach this] show ?thesis by (auto simp: ex_actor_def)
qed

end
