(* ===== verification/Expression.thy ===== *)
theory Expression
  imports CanonicalJson
begin

text \<open>
  The sandboxed expression language of segments and journey branches
  (\<open>packages/expression/src/evaluator.ts\<close>; its wire types are in
  \<open>packages/cxa-contracts/src/expression.ts\<close>). A document is untrusted plain data: \<open>validate\<close> walks
  it once and fixes grammar, node count and depth; only then \<open>evaluateNode\<close> walks the same object,
  checking a deadline at every node. The two walks are modelled on the raw \<^typ>\<open>json\<close>, as the code
  runs them, and the second one has an outcome \<open>Stuck\<close> wherever the code relies on what the first
  one has established.

  The clock is \<open>now :: nat \<Rightarrow> time_ms\<close>, the value of the \<open>k\<close>-th reading; the number of readings taken
  is threaded through the walk. How JavaScript prints a finite number is the parameter \<open>show\<close>.
\<close>

section \<open>Values and errors\<close>

definition MAX_NODES :: nat where "MAX_NODES = 256"
definition MAX_DEPTH :: nat where "MAX_DEPTH = 32"
definition MAX_DOCUMENT_BYTES :: int where "MAX_DOCUMENT_BYTES = 32 * 1024"
definition MAX_CONTEXT_BYTES :: int where "MAX_CONTEXT_BYTES = 4 * 1024 * 1024"
definition DEADLINE_MS :: int where "DEADLINE_MS = 50"
definition MASK :: string where "MASK = ''[MASKED]''"
definition FORBIDDEN_SEGMENTS :: "string list" where
  "FORBIDDEN_SEGMENTS = [''__proto__'', ''prototype'', ''constructor'']"

datatype expression_value = VNull | VStr string | VNum js_number | VBool bool

datatype expression_value_type = TNull | TString | TNumber | TBoolean

datatype expression_error_code =
    INVALID_EXPRESSION | UNSUPPORTED_VERSION | TYPE_MISMATCH | LIMIT_EXCEEDED
  | EVALUATION_TIMEOUT | FORBIDDEN_REFERENCE

datatype comparison_operator = CmpEq | CmpNe | CmpGt | CmpGte | CmpLt | CmpLte

type_synonym expression_context = "(string \<times> json) list"

fun valueType :: "expression_value \<Rightarrow> expression_value_type" where
  "valueType VNull = TNull"
| "valueType (VStr _) = TString"
| "valueType (VNum _) = TNumber"
| "valueType (VBool _) = TBoolean"

text \<open>\<open>isLiteralValue\<close>: the scalar an unknown value is, when it is one.\<close>

fun literalValue :: "json \<Rightarrow> expression_value option" where
  "literalValue JNull = Some VNull"
| "literalValue (JStr s) = Some (VStr s)"
| "literalValue (JNum n) = Some (VNum n)"
| "literalValue (JBool b) = Some (VBool b)"
| "literalValue _ = None"

definition isLiteralValue :: "json option \<Rightarrow> bool" where
  "isLiteralValue v = (case v of None \<Rightarrow> False | Some j \<Rightarrow> literalValue j \<noteq> None)"

text \<open>\<open>JSON.stringify\<close> of plain data, and the length of its UTF-8 encoding.\<close>

fun stringify :: "(rat \<Rightarrow> string) \<Rightarrow> json \<Rightarrow> string" where
  "stringify show JNull = ''null''"
| "stringify show (JBool b) = (if b then ''true'' else ''false'')"
| "stringify show (JNum n) = (case n of Fin r \<Rightarrow> show r | _ \<Rightarrow> ''null'')"
| "stringify show (JStr s) = jsonQuote s"
| "stringify show (JArr xs) = ''['' @ commaSep (map (stringify show) xs) @ '']''"
| "stringify show (JObj ps) =
     ''{'' @ commaSep (map (\<lambda>(k, v). jsonQuote k @ '':'' @ stringify show v) ps) @ ''}''"

definition byteLength :: "(rat \<Rightarrow> string) \<Rightarrow> json \<Rightarrow> int" where
  "byteLength show j = sum_list (map (\<lambda>c. if (of_char c :: nat) < 128 then 1 else 2) (stringify show j))"

section \<open>Validation\<close>

fun stringItems :: "json list \<Rightarrow> string list option" where
  "stringItems [] = Some []"
| "stringItems (JStr s # xs) = map_option (Cons s) (stringItems xs)"
| "stringItems (_ # xs) = None"

definition referencePath :: "json option \<Rightarrow> string list option" where
  "referencePath v = (case v of Some (JArr xs) \<Rightarrow> stringItems xs | _ \<Rightarrow> None)"

definition validateReference :: "json option \<Rightarrow> expression_error_code + unit" where
  "validateReference path =
     (case referencePath path of
        None \<Rightarrow> Inl INVALID_EXPRESSION
      | Some [] \<Rightarrow> Inl INVALID_EXPRESSION
      | Some (base # rest) \<Rightarrow>
          if base \<notin> {''vars'', ''contact'', ''interaction''} then Inl FORBIDDEN_REFERENCE
          else if list_ex (\<lambda>segment. segment \<in> set FORBIDDEN_SEGMENTS) (base # rest)
          then Inl FORBIDDEN_REFERENCE
          else Inr ())"

definition comparisonOperator :: "json option \<Rightarrow> comparison_operator option" where
  "comparisonOperator v =
     (case v of
        Some (JStr s) \<Rightarrow>
          map_of [(''eq'', CmpEq), (''ne'', CmpNe), (''gt'', CmpGt), (''gte'', CmpGte),
                  (''lt'', CmpLt), (''lte'', CmpLte)] s
      | _ \<Rightarrow> None)"

definition nodeSize :: "json option \<Rightarrow> nat" where
  "nodeSize v = (case v of None \<Rightarrow> 0 | Some j \<Rightarrow> Suc (size j))"

definition itemsSize :: "json list \<Rightarrow> nat" where
  "itemsSize xs = Suc (size_list size xs)"

lemma nodeSize_prop: "nodeSize (map_of ps k) < nodeSize (Some (JObj ps))"
proof (cases "map_of ps k")
  case (Some v)
  then have "(k, v) \<in> set ps" by (rule map_of_SomeD)
  from json_size_entry [OF this] Some show ?thesis by (simp add: nodeSize_def)
qed (simp add: nodeSize_def)

lemma itemsSize_prop: "map_of ps k = Some (JArr xs) \<Longrightarrow> itemsSize xs < nodeSize (Some (JObj ps))"
  using nodeSize_prop [of ps k] by (simp add: nodeSize_def itemsSize_def)

text \<open>The recursive calls of both walks: a property of the node, or an item of an array.\<close>

lemma itemsSize_Cons: "nodeSize (Some x) < itemsSize (x # xs)" "itemsSize xs < itemsSize (x # xs)"
  by (simp_all add: nodeSize_def itemsSize_def)

lemmas walk_sizes = nodeSize_prop itemsSize_prop itemsSize_Cons

text \<open>The answer of a successful validation is the node count so far.\<close>

function (sequential)
  validate :: "json option \<Rightarrow> nat \<Rightarrow> nat \<Rightarrow> expression_error_code + nat" and
  validateAll :: "json list \<Rightarrow> nat \<Rightarrow> nat \<Rightarrow> expression_error_code + nat" where
  "validate (Some (JObj ps)) depth nodes =
     (if MAX_DEPTH < depth then Inl LIMIT_EXCEEDED
      else if MAX_NODES < nodes + 1 then Inl LIMIT_EXCEEDED
      else let kind = map_of ps ''type''; count = nodes + 1 in
        if kind = Some (JStr ''literal'') then
          (if isLiteralValue (map_of ps ''value'') then Inr count else Inl INVALID_EXPRESSION)
        else if kind = Some (JStr ''ref'') then
          rbind (validateReference (map_of ps ''path'')) (\<lambda>_. Inr count)
        else if kind = Some (JStr ''and'') \<or> kind = Some (JStr ''or'') then
          (case map_of ps ''operands'' of
             Some (JArr xs) \<Rightarrow> validateAll xs (depth + 1) count
           | _ \<Rightarrow> Inl INVALID_EXPRESSION)
        else if kind = Some (JStr ''not'') then validate (map_of ps ''operand'') (depth + 1) count
        else if kind = Some (JStr ''comparison'') then
          (if comparisonOperator (map_of ps ''operator'') = None then Inl INVALID_EXPRESSION
           else rbind (validate (map_of ps ''left'') (depth + 1) count)
                  (\<lambda>count. validate (map_of ps ''right'') (depth + 1) count))
        else if kind = Some (JStr ''in'') then
          (case map_of ps ''items'' of
             Some (JArr xs) \<Rightarrow>
               rbind (validate (map_of ps ''value'') (depth + 1) count)
                 (\<lambda>count. validateAll xs (depth + 1) count)
           | _ \<Rightarrow> Inl INVALID_EXPRESSION)
        else if kind = Some (JStr ''coalesce'') then
          (case map_of ps ''operands'' of
             Some (JArr (x # xs)) \<Rightarrow> validateAll (x # xs) (depth + 1) count
           | _ \<Rightarrow> Inl INVALID_EXPRESSION)
        else if kind = Some (JStr ''isNull'') then
          validate (map_of ps ''operand'') (depth + 1) count
        else Inl INVALID_EXPRESSION)"
| "validate _ depth nodes =
     (if MAX_DEPTH < depth then Inl LIMIT_EXCEEDED
      else if MAX_NODES < nodes + 1 then Inl LIMIT_EXCEEDED
      else Inl INVALID_EXPRESSION)"
| "validateAll [] depth nodes = Inr nodes"
| "validateAll (x # xs) depth nodes =
     rbind (validate (Some x) depth nodes) (\<lambda>nodes. validateAll xs depth nodes)"
  by pat_completeness auto

termination
  by (relation "measure (case_sum (\<lambda>(v, _). nodeSize v) (\<lambda>(xs, _). itemsSize xs))")
    (auto intro: walk_sizes)

section \<open>Evaluation\<close>

fun resolvePath :: "json option \<Rightarrow> string list \<Rightarrow> expression_error_code + expression_value" where
  "resolvePath current [] =
     (case current of
        None \<Rightarrow> Inr VNull
      | Some j \<Rightarrow> (case literalValue j of None \<Rightarrow> Inl TYPE_MISMATCH | Some v \<Rightarrow> Inr v))"
| "resolvePath current (segment # rest) =
     (if segment \<in> set FORBIDDEN_SEGMENTS then Inl FORBIDDEN_REFERENCE
      else case current of
        Some (JObj ps) \<Rightarrow>
          (case map_of ps segment of None \<Rightarrow> Inr VNull | Some v \<Rightarrow> resolvePath (Some v) rest)
      | _ \<Rightarrow> Inr VNull)"

fun resolveReference :: "expression_context \<Rightarrow> string list \<Rightarrow> expression_error_code + expression_value" where
  "resolveReference context [] = Inr VNull"
| "resolveReference context (base # rest) = resolvePath (map_of context base) rest"

text \<open>\<open>===\<close> on scalars: a number that is not a number equals nothing.\<close>

fun strictEq :: "expression_value \<Rightarrow> expression_value \<Rightarrow> bool" where
  "strictEq (VNum a) (VNum b) = js_num_eq a b"
| "strictEq a b = (a = b)"

fun compareNumbers :: "comparison_operator \<Rightarrow> js_number \<Rightarrow> js_number \<Rightarrow> bool" where
  "compareNumbers CmpGt a b = js_num_lt b a"
| "compareNumbers CmpGte a b = js_num_le b a"
| "compareNumbers CmpLt a b = js_num_lt a b"
| "compareNumbers CmpLte a b = js_num_le a b"
| "compareNumbers CmpEq a b = js_num_eq a b"
| "compareNumbers CmpNe a b = (\<not> js_num_eq a b)"

definition compare :: "comparison_operator \<Rightarrow> expression_value \<Rightarrow> expression_value \<Rightarrow>
    expression_error_code + bool" where
  "compare op left right =
     (if op = CmpEq \<or> op = CmpNe then
        (if valueType left \<noteq> valueType right then Inl TYPE_MISMATCH
         else Inr (if op = CmpEq then strictEq left right else \<not> strictEq left right))
      else case (left, right) of
        (VNum a, VNum b) \<Rightarrow> Inr (compareNumbers op a b)
      | _ \<Rightarrow> Inl TYPE_MISMATCH)"

text \<open>
  An evaluation step answers an error or a value, with the number of clock readings taken so far.
  \<open>Stuck\<close> is an access the code makes only on what validation has established.
\<close>

datatype evaluation_error = Runtime expression_error_code | Stuck

type_synonym evaluation = "(evaluation_error + expression_value) \<times> nat"

definition ebind :: "evaluation \<Rightarrow> (expression_value \<Rightarrow> nat \<Rightarrow> evaluation) \<Rightarrow> evaluation" where
  "ebind m f = (case m of (Inl e, k) \<Rightarrow> (Inl e, k) | (Inr v, k) \<Rightarrow> f v k)"

lemma ebind_simps [simp]: "ebind (Inl e, k) f = (Inl e, k)" "ebind (Inr v, k) f = f v k"
  by (simp_all add: ebind_def)

lemma ebind_cong [fundef_cong]:
  "m = m' \<Longrightarrow> (\<And>v k. m' = (Inr v, k) \<Longrightarrow> f v k = g v k) \<Longrightarrow> ebind m f = ebind m' g"
  by (auto simp: ebind_def split: sum.splits prod.splits)

definition eresult :: "expression_error_code + expression_value \<Rightarrow> nat \<Rightarrow> evaluation" where
  "eresult r k = (case r of Inl e \<Rightarrow> (Inl (Runtime e), k) | Inr v \<Rightarrow> (Inr v, k))"

lemma eresult_simps [simp]: "eresult (Inl e) k = (Inl (Runtime e), k)" "eresult (Inr v) k = (Inr v, k)"
  by (simp_all add: eresult_def)

function (sequential)
  evaluateNode :: "(nat \<Rightarrow> time_ms) \<Rightarrow> time_ms \<Rightarrow> expression_context \<Rightarrow> json option \<Rightarrow> nat \<Rightarrow> evaluation" and
  evaluateAnd :: "(nat \<Rightarrow> time_ms) \<Rightarrow> time_ms \<Rightarrow> expression_context \<Rightarrow> json list \<Rightarrow> nat \<Rightarrow> evaluation" and
  evaluateOr :: "(nat \<Rightarrow> time_ms) \<Rightarrow> time_ms \<Rightarrow> expression_context \<Rightarrow> json list \<Rightarrow> nat \<Rightarrow> evaluation" and
  evaluateIn :: "(nat \<Rightarrow> time_ms) \<Rightarrow> time_ms \<Rightarrow> expression_context \<Rightarrow> expression_value \<Rightarrow> json list \<Rightarrow>
    nat \<Rightarrow> evaluation" and
  evaluateCoalesce :: "(nat \<Rightarrow> time_ms) \<Rightarrow> time_ms \<Rightarrow> expression_context \<Rightarrow> json list \<Rightarrow>
    expression_value \<Rightarrow> nat \<Rightarrow> evaluation" where
  "evaluateNode now expiresAt context (Some (JObj ps)) k =
     (if expiresAt < now k then (Inl (Runtime EVALUATION_TIMEOUT), k + 1)
      else let kind = map_of ps ''type''; k = k + 1 in
        if kind = Some (JStr ''literal'') then
          (case Option.bind (map_of ps ''value'') literalValue of
             Some v \<Rightarrow> (Inr v, k)
           | None \<Rightarrow> (Inl Stuck, k))
        else if kind = Some (JStr ''ref'') then
          (case referencePath (map_of ps ''path'') of
             Some path \<Rightarrow> eresult (resolveReference context path) k
           | None \<Rightarrow> (Inl Stuck, k))
        else if kind = Some (JStr ''not'') then
          ebind (evaluateNode now expiresAt context (map_of ps ''operand'') k)
            (\<lambda>operand k. case operand of
               VBool b \<Rightarrow> (Inr (VBool (\<not> b)), k)
             | _ \<Rightarrow> (Inl (Runtime TYPE_MISMATCH), k))
        else if kind = Some (JStr ''and'') then
          (case map_of ps ''operands'' of
             Some (JArr xs) \<Rightarrow> evaluateAnd now expiresAt context xs k
           | _ \<Rightarrow> (Inl Stuck, k))
        else if kind = Some (JStr ''or'') then
          (case map_of ps ''operands'' of
             Some (JArr xs) \<Rightarrow> evaluateOr now expiresAt context xs k
           | _ \<Rightarrow> (Inl Stuck, k))
        else if kind = Some (JStr ''comparison'') then
          (case comparisonOperator (map_of ps ''operator'') of
             Some op \<Rightarrow>
               ebind (evaluateNode now expiresAt context (map_of ps ''left'') k)
                 (\<lambda>left k. ebind (evaluateNode now expiresAt context (map_of ps ''right'') k)
                   (\<lambda>right k. eresult (rbind (compare op left right) (\<lambda>b. Inr (VBool b))) k))
           | None \<Rightarrow> (Inl Stuck, k))
        else if kind = Some (JStr ''in'') then
          (case map_of ps ''items'' of
             Some (JArr xs) \<Rightarrow>
               ebind (evaluateNode now expiresAt context (map_of ps ''value'') k)
                 (\<lambda>v k. evaluateIn now expiresAt context v xs k)
           | _ \<Rightarrow> (Inl Stuck, k))
        else if kind = Some (JStr ''coalesce'') then
          (case map_of ps ''operands'' of
             Some (JArr xs) \<Rightarrow> evaluateCoalesce now expiresAt context xs VNull k
           | _ \<Rightarrow> (Inl Stuck, k))
        else if kind = Some (JStr ''isNull'') then
          ebind (evaluateNode now expiresAt context (map_of ps ''operand'') k)
            (\<lambda>v k. (Inr (VBool (v = VNull)), k))
        else (Inl Stuck, k))"
| "evaluateNode now expiresAt context _ k =
     (if expiresAt < now k then (Inl (Runtime EVALUATION_TIMEOUT), k + 1) else (Inl Stuck, k + 1))"
| "evaluateAnd now expiresAt context [] k = (Inr (VBool True), k)"
| "evaluateAnd now expiresAt context (x # xs) k =
     ebind (evaluateNode now expiresAt context (Some x) k)
       (\<lambda>v k. case v of
          VBool b \<Rightarrow> if \<not> b then (Inr (VBool False), k) else evaluateAnd now expiresAt context xs k
        | _ \<Rightarrow> (Inl (Runtime TYPE_MISMATCH), k))"
| "evaluateOr now expiresAt context [] k = (Inr (VBool False), k)"
| "evaluateOr now expiresAt context (x # xs) k =
     ebind (evaluateNode now expiresAt context (Some x) k)
       (\<lambda>v k. case v of
          VBool b \<Rightarrow> if b then (Inr (VBool True), k) else evaluateOr now expiresAt context xs k
        | _ \<Rightarrow> (Inl (Runtime TYPE_MISMATCH), k))"
| "evaluateIn now expiresAt context v [] k = (Inr (VBool False), k)"
| "evaluateIn now expiresAt context v (x # xs) k =
     ebind (evaluateNode now expiresAt context (Some x) k)
       (\<lambda>item k. if valueType item = valueType v \<and> strictEq item v then (Inr (VBool True), k)
                else evaluateIn now expiresAt context v xs k)"
| "evaluateCoalesce now expiresAt context [] final k = (Inr final, k)"
| "evaluateCoalesce now expiresAt context (x # xs) final k =
     ebind (evaluateNode now expiresAt context (Some x) k)
       (\<lambda>final k. if final \<noteq> VNull then (Inr final, k)
                else evaluateCoalesce now expiresAt context xs final k)"
  by pat_completeness auto

termination
  by (relation "measure (\<lambda>a. case a of
        Inl (Inl (_, _, _, v, _)) \<Rightarrow> nodeSize v
      | Inl (Inr (_, _, _, xs, _)) \<Rightarrow> itemsSize xs
      | Inr (Inl (_, _, _, xs, _)) \<Rightarrow> itemsSize xs
      | Inr (Inr (Inl (_, _, _, _, xs, _))) \<Rightarrow> itemsSize xs
      | Inr (Inr (Inr (_, _, _, xs, _, _))) \<Rightarrow> itemsSize xs)")
    (auto intro: walk_sizes)

section \<open>The trace\<close>

text \<open>
  One sensitive path on the clone of the context. A step whose property is missing, an array or a
  scalar leaves the clone as it is; so does an inherited member, which is a function, except that
  \<open>__proto__\<close> leads the code out of the clone and onto \<open>Object.prototype\<close>.
\<close>

fun maskPath :: "string list \<Rightarrow> expression_context \<Rightarrow> expression_context" where
  "maskPath [] current = current"
| "maskPath [final] current =
     (if map_of current final \<noteq> None then js_map_set final (JStr MASK) current else current)"
| "maskPath (segment # next # rest) current =
     (case map_of current segment of
        Some (JObj inner) \<Rightarrow> js_map_set segment (JObj (maskPath (next # rest) inner)) current
      | _ \<Rightarrow> current)"

definition maskContext :: "expression_context \<Rightarrow> string list list \<Rightarrow> expression_context" where
  "maskContext context sensitivePaths = fold maskPath sensitivePaths context"

record expression_trace =
  maskedContext :: json
  result :: "expression_value option"
  durationMs :: int

record evaluate_expression_input =
  ei_document :: "(string \<times> json) list"
  ei_context :: expression_context
  ei_expectedType :: expression_value_type
  ei_sensitivePaths :: "string list list option"

text \<open>\<open>Threw\<close> stands for an exception that is not an \<open>ExpressionRuntimeError\<close> and leaves \<open>evaluate\<close>.\<close>

datatype expression_evaluation_result =
    OK expression_value expression_trace
  | ERROR expression_error_code expression_trace
  | Threw

definition evaluate :: "(nat \<Rightarrow> time_ms) \<Rightarrow> (rat \<Rightarrow> string) \<Rightarrow> evaluate_expression_input \<Rightarrow>
    expression_evaluation_result" where
  "evaluate now show input =
     (let start = now 0;
          document = ei_document input;
          sensitivePaths = (case ei_sensitivePaths input of None \<Rightarrow> [] | Some paths \<Rightarrow> paths);
          trace = (\<lambda>value k. \<lparr> maskedContext = JObj (maskContext (ei_context input) sensitivePaths),
                     result = value, durationMs = now k - start \<rparr>)
      in if map_of document ''language'' \<noteq> Some (JStr ''DC_EXPR'')
         then ERROR INVALID_EXPRESSION (trace None 1)
         else if map_of document ''version'' \<noteq> Some (JNum (Fin 1))
         then ERROR UNSUPPORTED_VERSION (trace None 1)
         else if MAX_DOCUMENT_BYTES < byteLength show (JObj document)
         then ERROR LIMIT_EXCEEDED (trace None 1)
         else if MAX_CONTEXT_BYTES < byteLength show (JObj (ei_context input))
         then ERROR LIMIT_EXCEEDED (trace None 1)
         else case validate (map_of document ''expression'') 1 0 of
             Inl code \<Rightarrow> ERROR code (trace None 1)
           | Inr _ \<Rightarrow>
               (case evaluateNode now (now 1 + DEADLINE_MS) (ei_context input)
                       (map_of document ''expression'') 2 of
                  (Inl (Runtime code), k) \<Rightarrow> ERROR code (trace None k)
                | (Inl Stuck, k) \<Rightarrow> Threw
                | (Inr v, k) \<Rightarrow>
                    if valueType v \<noteq> ei_expectedType input then ERROR TYPE_MISMATCH (trace None k)
                    else OK v (trace (Some v) k)))"

end
