(* ===== verification/ExpressionGuarantees.thy ===== *)
theory ExpressionGuarantees
  imports Expression
begin

text \<open>
  What the expression evaluator guarantees: validation accepts exactly the documents of the
  language within the limits, evaluation of an accepted document computes the meaning of its
  abstract syntax unless the clock passes the deadline, the answer has the expected type, and the
  trace shows nothing of a sensitive value.
\<close>

section \<open>Reference semantics\<close>

text \<open>
  The abstract syntax of the language, the documents that write it, and its meaning without
  clock, limits or JSON.
\<close>

datatype expr =
    Lit expression_value
  | Ref "string list"
  | And "expr list"
  | Or "expr list"
  | Not expr
  | Cmp comparison_operator expr expr
  | In expr "expr list"
  | Coalesce "expr list"
  | IsNull expr

inductive represents :: "json \<Rightarrow> expr \<Rightarrow> bool" where
  lit: "map_of ps ''type'' = Some (JStr ''literal'') \<Longrightarrow> map_of ps ''value'' = Some j \<Longrightarrow>
    literalValue j = Some v \<Longrightarrow> represents (JObj ps) (Lit v)"
| ref: "map_of ps ''type'' = Some (JStr ''ref'') \<Longrightarrow> referencePath (map_of ps ''path'') = Some path \<Longrightarrow>
    validateReference (map_of ps ''path'') = Inr () \<Longrightarrow> represents (JObj ps) (Ref path)"
| conj: "map_of ps ''type'' = Some (JStr ''and'') \<Longrightarrow> map_of ps ''operands'' = Some (JArr xs) \<Longrightarrow>
    list_all2 represents xs es \<Longrightarrow> represents (JObj ps) (And es)"
| disj: "map_of ps ''type'' = Some (JStr ''or'') \<Longrightarrow> map_of ps ''operands'' = Some (JArr xs) \<Longrightarrow>
    list_all2 represents xs es \<Longrightarrow> represents (JObj ps) (Or es)"
| neg: "map_of ps ''type'' = Some (JStr ''not'') \<Longrightarrow> map_of ps ''operand'' = Some x \<Longrightarrow>
    represents x e \<Longrightarrow> represents (JObj ps) (Not e)"
| cmp: "map_of ps ''type'' = Some (JStr ''comparison'') \<Longrightarrow>
    comparisonOperator (map_of ps ''operator'') = Some op \<Longrightarrow>
    map_of ps ''left'' = Some x \<Longrightarrow> represents x e \<Longrightarrow>
    map_of ps ''right'' = Some y \<Longrightarrow> represents y f \<Longrightarrow> represents (JObj ps) (Cmp op e f)"
| isin: "map_of ps ''type'' = Some (JStr ''in'') \<Longrightarrow> map_of ps ''items'' = Some (JArr xs) \<Longrightarrow>
    map_of ps ''value'' = Some x \<Longrightarrow> represents x e \<Longrightarrow>
    list_all2 represents xs es \<Longrightarrow> represents (JObj ps) (In e es)"
| coal: "map_of ps ''type'' = Some (JStr ''coalesce'') \<Longrightarrow> map_of ps ''operands'' = Some (JArr xs) \<Longrightarrow>
    xs \<noteq> [] \<Longrightarrow> list_all2 represents xs es \<Longrightarrow> represents (JObj ps) (Coalesce es)"
| isnull: "map_of ps ''type'' = Some (JStr ''isNull'') \<Longrightarrow> map_of ps ''operand'' = Some x \<Longrightarrow>
    represents x e \<Longrightarrow> represents (JObj ps) (IsNull e)"

inductive_simps represents_iffs:
  "represents j (Lit v)" "represents j (Ref p)" "represents j (And es)" "represents j (Or es)"
  "represents j (Not e)" "represents j (Cmp op e f)" "represents j (In e es)"
  "represents j (Coalesce es)" "represents j (IsNull e)"

primrec nodes :: "expr \<Rightarrow> nat" where
  "nodes (Lit v) = 1"
| "nodes (Ref p) = 1"
| "nodes (And es) = Suc (sum_list (map nodes es))"
| "nodes (Or es) = Suc (sum_list (map nodes es))"
| "nodes (Not e) = Suc (nodes e)"
| "nodes (Cmp op e f) = Suc (nodes e + nodes f)"
| "nodes (In e es) = Suc (nodes e + sum_list (map nodes es))"
| "nodes (Coalesce es) = Suc (sum_list (map nodes es))"
| "nodes (IsNull e) = Suc (nodes e)"

primrec height :: "expr \<Rightarrow> nat" where
  "height (Lit v) = 1"
| "height (Ref p) = 1"
| "height (And es) = Suc (fold max (map height es) 0)"
| "height (Or es) = Suc (fold max (map height es) 0)"
| "height (Not e) = Suc (height e)"
| "height (Cmp op e f) = Suc (max (height e) (height f))"
| "height (In e es) = Suc (max (height e) (fold max (map height es) 0))"
| "height (Coalesce es) = Suc (fold max (map height es) 0)"
| "height (IsNull e) = Suc (height e)"

type_synonym meaning = "expression_error_code + expression_value"

definition asBool :: "meaning \<Rightarrow> (bool \<Rightarrow> meaning) \<Rightarrow> meaning" where
  "asBool r f = rbind r (\<lambda>v. case v of VBool b \<Rightarrow> f b | _ \<Rightarrow> Inl TYPE_MISMATCH)"

fun allTrue :: "meaning list \<Rightarrow> meaning" where
  "allTrue [] = Inr (VBool True)"
| "allTrue (r # rs) = asBool r (\<lambda>b. if b then allTrue rs else Inr (VBool False))"

fun someTrue :: "meaning list \<Rightarrow> meaning" where
  "someTrue [] = Inr (VBool False)"
| "someTrue (r # rs) = asBool r (\<lambda>b. if b then Inr (VBool True) else someTrue rs)"

fun someEqual :: "expression_value \<Rightarrow> meaning list \<Rightarrow> meaning" where
  "someEqual v [] = Inr (VBool False)"
| "someEqual v (r # rs) = rbind r (\<lambda>item. if strictEq item v then Inr (VBool True) else someEqual v rs)"

fun firstNonNull :: "meaning list \<Rightarrow> meaning" where
  "firstNonNull [] = Inr VNull"
| "firstNonNull (r # rs) = rbind r (\<lambda>v. if v = VNull then firstNonNull rs else Inr v)"

primrec denote :: "expression_context \<Rightarrow> expr \<Rightarrow> meaning" where
  "denote context (Lit v) = Inr v"
| "denote context (Ref p) = resolveReference context p"
| "denote context (And es) = allTrue (map (denote context) es)"
| "denote context (Or es) = someTrue (map (denote context) es)"
| "denote context (Not e) = asBool (denote context e) (\<lambda>b. Inr (VBool (\<not> b)))"
| "denote context (Cmp op e f) =
     rbind (denote context e) (\<lambda>left. rbind (denote context f) (\<lambda>right.
       rbind (compare op left right) (\<lambda>b. Inr (VBool b))))"
| "denote context (In e es) = rbind (denote context e) (\<lambda>v. someEqual v (map (denote context) es))"
| "denote context (Coalesce es) = firstNonNull (map (denote context) es)"
| "denote context (IsNull e) = rbind (denote context e) (\<lambda>v. Inr (VBool (v = VNull)))"

section \<open>Validation accepts exactly the grammar, within the limits\<close>

lemma fold_max_le_iff: "fold max xs a \<le> (n :: nat) \<longleftrightarrow> a \<le> n \<and> (\<forall>x \<in> set xs. x \<le> n)"
  by (induction xs arbitrary: a) auto

lemma validateReference_path: "validateReference p = Inr () \<Longrightarrow> \<exists>path. referencePath p = Some path"
  by (auto simp: validateReference_def split: option.splits)

lemma isLiteralValue_iff: "isLiteralValue v \<longleftrightarrow> (\<exists>j x. v = Some j \<and> literalValue j = Some x)"
  by (auto simp: isLiteralValue_def split: option.splits)

text \<open>What an accepted node, or a list of them, is: its abstract syntax and its place in the limits.\<close>

definition accepted :: "json option \<Rightarrow> nat \<Rightarrow> nat \<Rightarrow> nat \<Rightarrow> bool" where
  "accepted v depth n m \<longleftrightarrow> (\<exists>j e. v = Some j \<and> represents j e \<and> m = n + nodes e \<and>
     m \<le> MAX_NODES \<and> depth + height e \<le> Suc MAX_DEPTH)"

definition acceptedAll :: "json list \<Rightarrow> nat \<Rightarrow> nat \<Rightarrow> nat \<Rightarrow> bool" where
  "acceptedAll xs depth n m \<longleftrightarrow> (\<exists>es. list_all2 represents xs es \<and> m = n + sum_list (map nodes es) \<and>
     (n \<le> MAX_NODES \<longrightarrow> m \<le> MAX_NODES) \<and> (\<forall>e \<in> set es. depth + height e \<le> Suc MAX_DEPTH))"

lemma acceptedAll_Cons:
  assumes "accepted (Some x) depth n k" and "acceptedAll xs depth k m"
  shows "acceptedAll (x # xs) depth n m"
proof -
  from assms(1) obtain e where e: "represents x e" "k = n + nodes e" "k \<le> MAX_NODES"
    "depth + height e \<le> Suc MAX_DEPTH" by (auto simp: accepted_def)
  from assms(2) obtain es where es: "list_all2 represents xs es" "m = k + sum_list (map nodes es)"
    "k \<le> MAX_NODES \<longrightarrow> m \<le> MAX_NODES" "\<forall>e \<in> set es. depth + height e \<le> Suc MAX_DEPTH"
    by (auto simp: acceptedAll_def)
  from e es show ?thesis
    unfolding acceptedAll_def by (intro exI [of _ "e # es"]) auto
qed

lemma acceptedAll_node:
  assumes "acceptedAll xs (Suc depth) (Suc n) m" and "depth \<le> MAX_DEPTH" and "Suc n \<le> MAX_NODES"
    and "\<And>es. list_all2 represents xs es \<Longrightarrow> represents j (node es)"
    and "\<And>es. nodes (node es) = Suc (sum_list (map nodes es))"
    and "\<And>es. height (node es) = Suc (fold max (map height es) 0)"
  shows "accepted (Some j) depth n m"
proof -
  from assms(1) obtain es where es: "list_all2 represents xs es" "m = Suc n + sum_list (map nodes es)"
    "Suc n \<le> MAX_NODES \<longrightarrow> m \<le> MAX_NODES" "\<forall>e \<in> set es. Suc depth + height e \<le> Suc MAX_DEPTH"
    by (auto simp: acceptedAll_def)
  have "fold max (map height es) 0 \<le> MAX_DEPTH - depth"
    using es(4) by (auto simp: fold_max_le_iff)
  with es assms show ?thesis
    unfolding accepted_def by (intro exI [of _ j] exI [of _ "node es"]) auto
qed

lemma accepted_unary:
  assumes "accepted v (Suc depth) (Suc n) m"
    and "\<And>x e. v = Some x \<Longrightarrow> represents x e \<Longrightarrow> represents j (node e)"
    and "\<And>e. nodes (node e) = Suc (nodes e)" and "\<And>e. height (node e) = Suc (height e)"
  shows "accepted (Some j) depth n m"
proof -
  from assms(1) obtain x e where "v = Some x" "represents x e" "m = Suc n + nodes e"
    "m \<le> MAX_NODES" "Suc depth + height e \<le> Suc MAX_DEPTH" by (auto simp: accepted_def)
  with assms(2-) show ?thesis
    unfolding accepted_def by (intro exI [of _ j] exI [of _ "node e"]) auto
qed

lemma accepted_binary:
  assumes "accepted v (Suc depth) (Suc n) k" and "accepted w (Suc depth) k m"
    and "\<And>x e y f. v = Some x \<Longrightarrow> represents x e \<Longrightarrow> w = Some y \<Longrightarrow> represents y f \<Longrightarrow>
      represents j (Cmp op e f)"
  shows "accepted (Some j) depth n m"
proof -
  from assms(1,2) obtain x e y f where "v = Some x" "represents x e" "w = Some y" "represents y f"
    "m = Suc n + nodes e + nodes f" "m \<le> MAX_NODES"
    "Suc depth + height e \<le> Suc MAX_DEPTH" "Suc depth + height f \<le> Suc MAX_DEPTH"
    by (auto simp: accepted_def)
  with assms(3) show ?thesis
    unfolding accepted_def by (intro exI [of _ j] exI [of _ "Cmp op e f"]) auto
qed

lemma accepted_items:
  assumes "accepted v (Suc depth) (Suc n) k" and "acceptedAll xs (Suc depth) k m" and "depth \<le> MAX_DEPTH"
    and "\<And>x e es. v = Some x \<Longrightarrow> represents x e \<Longrightarrow> list_all2 represents xs es \<Longrightarrow> represents j (In e es)"
  shows "accepted (Some j) depth n m"
proof -
  from assms(1,2) obtain x e es where x: "v = Some x" "represents x e" "list_all2 represents xs es"
    "m = Suc n + nodes e + sum_list (map nodes es)" "m \<le> MAX_NODES"
    and h: "Suc depth + height e \<le> Suc MAX_DEPTH" "\<forall>e \<in> set es. Suc depth + height e \<le> Suc MAX_DEPTH"
    by (auto simp: accepted_def acceptedAll_def)
  have "fold max (map height es) 0 \<le> MAX_DEPTH - depth"
    using h(2) by (auto simp: fold_max_le_iff)
  with x h(1) assms(3,4) show ?thesis
    unfolding accepted_def by (intro exI [of _ j] exI [of _ "In e es"]) auto
qed

lemma validate_node_accepted:
  assumes v: "validate (Some (JObj ps)) depth n = Inr m"
    and one: "\<And>k d n m. validate (map_of ps k) d n = Inr m \<Longrightarrow> accepted (map_of ps k) d n m"
    and many: "\<And>k xs d n m. map_of ps k = Some (JArr xs) \<Longrightarrow> validateAll xs d n = Inr m \<Longrightarrow> acceptedAll xs d n m"
  shows "accepted (Some (JObj ps)) depth n m"
proof -
  have lim: "depth \<le> MAX_DEPTH" "Suc n \<le> MAX_NODES" using v by (auto split: if_splits)
  note s = v [unfolded validate.simps Let_def]
  consider
     (a) "map_of ps ''type'' = Some (JStr ''literal'')" | (b) "map_of ps ''type'' = Some (JStr ''ref'')"
   | (c) "map_of ps ''type'' = Some (JStr ''and'')" | (d) "map_of ps ''type'' = Some (JStr ''or'')"
   | (e) "map_of ps ''type'' = Some (JStr ''not'')" | (f) "map_of ps ''type'' = Some (JStr ''comparison'')"
   | (g) "map_of ps ''type'' = Some (JStr ''in'')" | (h) "map_of ps ''type'' = Some (JStr ''coalesce'')"
   | (i) "map_of ps ''type'' = Some (JStr ''isNull'')"
    using s by (auto split: if_splits)
  then show ?thesis
  proof cases
    case a
    with s lim obtain j x where "map_of ps ''value'' = Some j" "literalValue j = Some x" "m = n + 1"
      by (auto simp: isLiteralValue_iff split: if_splits)
    with a lim show ?thesis
      unfolding accepted_def by (intro exI [of _ "JObj ps"] exI [of _ "Lit x"]) (auto intro: represents.lit)
  next
    case b
    with s lim have r: "validateReference (map_of ps ''path'') = Inr ()" "m = n + 1"
      by (auto simp: result_simps)
    from validateReference_path [OF r(1)] obtain path where "referencePath (map_of ps ''path'') = Some path" ..
    with b lim r show ?thesis
      unfolding accepted_def by (intro exI [of _ "JObj ps"] exI [of _ "Ref path"]) (auto intro: represents.ref)
  next
    case c
    with s lim obtain xs where xs: "map_of ps ''operands'' = Some (JArr xs)"
      "validateAll xs (Suc depth) (Suc n) = Inr m"
      by (auto split: option.splits json.splits)
    from many [OF this] lim show ?thesis
      by (rule acceptedAll_node [where node = And]) (auto intro: represents.conj c xs)
  next
    case d
    with s lim obtain xs where xs: "map_of ps ''operands'' = Some (JArr xs)"
      "validateAll xs (Suc depth) (Suc n) = Inr m"
      by (auto split: option.splits json.splits)
    from many [OF this] lim show ?thesis
      by (rule acceptedAll_node [where node = Or]) (auto intro: represents.disj d xs)
  next
    case e
    with s lim have "validate (map_of ps ''operand'') (Suc depth) (Suc n) = Inr m" by simp
    from one [OF this] show ?thesis
      by (rule accepted_unary [where node = Not]) (auto intro: represents.neg e)
  next
    case f
    with s lim obtain op k where op: "comparisonOperator (map_of ps ''operator'') = Some op"
      and l: "validate (map_of ps ''left'') (Suc depth) (Suc n) = Inr k"
      and r: "validate (map_of ps ''right'') (Suc depth) k = Inr m"
      by (auto simp: result_simps split: if_splits)
    from one [OF l] one [OF r] show ?thesis
      by (rule accepted_binary) (auto intro: represents.cmp f op)
  next
    case g
    with s lim obtain xs k where xs: "map_of ps ''items'' = Some (JArr xs)"
      and l: "validate (map_of ps ''value'') (Suc depth) (Suc n) = Inr k"
      and r: "validateAll xs (Suc depth) k = Inr m"
      by (auto simp: result_simps split: option.splits json.splits)
    from one [OF l] many [OF xs r] lim(1) show ?thesis
      by (rule accepted_items) (auto intro: represents.isin g xs)
  next
    case h
    with s lim obtain xs where xs: "map_of ps ''operands'' = Some (JArr xs)" "xs \<noteq> []"
      "validateAll xs (Suc depth) (Suc n) = Inr m"
      by (auto split: option.splits json.splits list.splits simp del: validateAll.simps)
    from many [OF xs(1,3)] lim show ?thesis
      by (rule acceptedAll_node [where node = Coalesce]) (auto intro!: represents.coal [OF h xs(1,2)])
  next
    case i
    with s lim have "validate (map_of ps ''operand'') (Suc depth) (Suc n) = Inr m" by simp
    from one [OF this] show ?thesis
      by (rule accepted_unary [where node = IsNull]) (auto intro: represents.isnull i)
  qed
qed

lemma validate_sound:
  "validate v depth n = Inr m \<Longrightarrow> accepted v depth n m"
  "validateAll xs depth n = Inr m \<Longrightarrow> acceptedAll xs depth n m"
proof -
  have "(\<forall>v depth n m. nodeSize v < N \<longrightarrow> validate v depth n = Inr m \<longrightarrow> accepted v depth n m) \<and>
    (\<forall>xs depth n m. itemsSize xs < N \<longrightarrow> validateAll xs depth n = Inr m \<longrightarrow> acceptedAll xs depth n m)" for N
  proof (induction N)
    case (Suc N)
    have "accepted v depth n m" if "nodeSize v < Suc N" "validate v depth n = Inr m" for v depth n m
    proof -
      from that(2) obtain ps where v: "v = Some (JObj ps)"
        by (cases "(v, depth, n)" rule: validate.cases) (auto split: if_splits)
      have le: "nodeSize (map_of ps k) < N" for k
        using nodeSize_prop [of ps k] that(1) v by simp
      show ?thesis
        unfolding v
        by (rule validate_node_accepted [OF that(2) [unfolded v]])
          (use Suc.IH le that(1) v in \<open>auto dest!: itemsSize_prop\<close>)
    qed
    moreover have "acceptedAll xs depth n m" if "itemsSize xs < Suc N" "validateAll xs depth n = Inr m" for xs depth n m
    proof (cases xs)
      case Nil
      with that show ?thesis by (auto simp: acceptedAll_def)
    next
      case (Cons x ys)
      with that(2) obtain k where k: "validate (Some x) depth n = Inr k" "validateAll ys depth k = Inr m"
        by (auto simp: result_simps)
      from itemsSize_Cons(1) [of x ys] itemsSize_Cons(2) [of ys x] that(1) Cons have "nodeSize (Some x) < N" "itemsSize ys < N" by auto
      with Suc.IH k show ?thesis unfolding Cons by (blast intro: acceptedAll_Cons)
    qed
    ultimately show ?case by blast
  qed simp
  then show "validate v depth n = Inr m \<Longrightarrow> accepted v depth n m"
    "validateAll xs depth n = Inr m \<Longrightarrow> acceptedAll xs depth n m" by blast+
qed

text \<open>Conversely, a document of the language within the limits is accepted.\<close>

lemma validateAll_complete:
  assumes "list_all2 (\<lambda>x e. \<forall>n depth. n + nodes e \<le> MAX_NODES \<longrightarrow> depth + height e \<le> Suc MAX_DEPTH \<longrightarrow>
      validate (Some x) depth n = Inr (n + nodes e)) xs es"
    and "n + sum_list (map nodes es) \<le> MAX_NODES" and "depth + fold max (map height es) 0 \<le> Suc MAX_DEPTH"
  shows "validateAll xs depth n = Inr (n + sum_list (map nodes es))"
proof -
  have "\<forall>e \<in> set es. height e \<le> fold max (map height es) 0"
    using fold_max_le_iff [of "map height es" 0 "fold max (map height es) 0"] by auto
  with assms(3) have "\<forall>e \<in> set es. depth + height e \<le> Suc MAX_DEPTH" by fastforce
  with assms(1,2) show ?thesis
    by (induction arbitrary: n rule: list_all2_induct) (auto simp: add.assoc)
qed

lemma validate_complete:
  "represents j e \<Longrightarrow> n + nodes e \<le> MAX_NODES \<Longrightarrow> depth + height e \<le> Suc MAX_DEPTH \<Longrightarrow>
   validate (Some j) depth n = Inr (n + nodes e)"
proof (induction arbitrary: n depth rule: represents.induct)
  case (conj ps xs es)
  have "validateAll xs (Suc depth) (Suc n) = Inr (Suc n + sum_list (map nodes es))"
    by (rule validateAll_complete) (use conj in \<open>auto elim: list_all2_mono\<close>)
  with conj show ?case by simp
next
  case (disj ps xs es)
  have "validateAll xs (Suc depth) (Suc n) = Inr (Suc n + sum_list (map nodes es))"
    by (rule validateAll_complete) (use disj in \<open>auto elim: list_all2_mono\<close>)
  with disj show ?case by simp
next
  case (isin ps xs x e es)
  have "validateAll xs (Suc depth) (Suc (n + nodes e)) = Inr (Suc (n + nodes e) + sum_list (map nodes es))"
    by (rule validateAll_complete) (use isin in \<open>auto elim: list_all2_mono\<close>)
  moreover from isin have "validate (Some x) (Suc depth) (Suc n) = Inr (Suc (n + nodes e))" by auto
  ultimately show ?case using isin by simp
next
  case (coal ps xs es)
  have "validateAll xs (Suc depth) (Suc n) = Inr (Suc n + sum_list (map nodes es))"
    by (rule validateAll_complete) (use coal in \<open>auto elim: list_all2_mono\<close>)
  with coal show ?case by (cases xs) simp_all
qed (auto simp: isLiteralValue_def)

section \<open>Evaluation computes the meaning\<close>

text \<open>
  An evaluation that takes at most \<open>b\<close> clock readings and ends either with the meaning \<open>r\<close>, or
  with a timeout after a reading past the deadline.
\<close>

definition computes :: "(nat \<Rightarrow> time_ms) \<Rightarrow> time_ms \<Rightarrow> (nat \<Rightarrow> evaluation) \<Rightarrow> nat \<Rightarrow> meaning \<Rightarrow> bool" where
  "computes now expiresAt m b r \<longleftrightarrow> (\<forall>k. \<exists>k' \<ge> k. k' \<le> k + b \<and>
     (m k = eresult r k' \<or>
      m k = (Inl (Runtime EVALUATION_TIMEOUT), k') \<and> (\<exists>i \<ge> k. i < k' \<and> expiresAt < now i)))"

lemma computes_result: "computes now expiresAt (eresult r) b r"
  by (auto simp: computes_def)

lemma computes_value: "computes now expiresAt (\<lambda>k. (Inr v, k)) b (Inr v)"
  by (auto simp: computes_def)

lemma computes_error: "computes now expiresAt (\<lambda>k. (Inl (Runtime e), k)) b (Inl e)"
  by (auto simp: computes_def)

lemma computes_bind:
  assumes m: "computes now expiresAt m b r"
    and f: "\<And>v. r = Inr v \<Longrightarrow> computes now expiresAt (f v) c (g v)"
  shows "computes now expiresAt (\<lambda>k. ebind (m k) f) (b + c) (rbind r g)"
  unfolding computes_def
proof
  fix k
  from m obtain k' where k': "k \<le> k'" "k' \<le> k + b"
    "m k = eresult r k' \<or> m k = (Inl (Runtime EVALUATION_TIMEOUT), k') \<and> (\<exists>i \<ge> k. i < k' \<and> expiresAt < now i)"
    unfolding computes_def by blast
  show "\<exists>k'' \<ge> k. k'' \<le> k + (b + c) \<and>
     (ebind (m k) f = eresult (rbind r g) k'' \<or>
      ebind (m k) f = (Inl (Runtime EVALUATION_TIMEOUT), k'') \<and> (\<exists>i \<ge> k. i < k'' \<and> expiresAt < now i))"
  proof (cases "\<exists>v. r = Inr v \<and> m k = eresult r k'")
    case True
    then obtain v where v: "r = Inr v" "m k = (Inr v, k')" by auto
    from f [OF v(1)] obtain k'' where "k' \<le> k''" "k'' \<le> k' + c"
      "f v k' = eresult (g v) k'' \<or>
       f v k' = (Inl (Runtime EVALUATION_TIMEOUT), k'') \<and> (\<exists>i \<ge> k'. i < k'' \<and> expiresAt < now i)"
      unfolding computes_def by blast
    with v k'(1,2) show ?thesis
      by (intro exI [of _ k'']) (auto intro: le_trans)
  next
    case False
    with k' show ?thesis by (intro exI [of _ k']) (cases r; auto)
  qed
qed

lemma computes_check:
  assumes "computes now expiresAt m b r"
  shows "computes now expiresAt
    (\<lambda>k. if expiresAt < now k then (Inl (Runtime EVALUATION_TIMEOUT), k + 1) else m (k + 1)) (Suc b) r"
  unfolding computes_def
proof
  fix k
  from assms obtain k' where k': "Suc k \<le> k'" "k' \<le> Suc k + b"
    "m (Suc k) = eresult r k' \<or>
     m (Suc k) = (Inl (Runtime EVALUATION_TIMEOUT), k') \<and> (\<exists>i \<ge> Suc k. i < k' \<and> expiresAt < now i)"
    unfolding computes_def by blast
  show "\<exists>k' \<ge> k. k' \<le> k + Suc b \<and>
     ((if expiresAt < now k then (Inl (Runtime EVALUATION_TIMEOUT), k + 1) else m (k + 1)) = eresult r k' \<or>
      (if expiresAt < now k then (Inl (Runtime EVALUATION_TIMEOUT), k + 1) else m (k + 1)) =
        (Inl (Runtime EVALUATION_TIMEOUT), k') \<and> (\<exists>i \<ge> k. i < k' \<and> expiresAt < now i))"
  proof (cases "expiresAt < now k")
    case True
    then show ?thesis by (intro exI [of _ "Suc k"]) auto
  next
    case False
    with k' show ?thesis by (intro exI [of _ k']) (auto dest: Suc_leD)
  qed
qed

lemma computes_asBool:
  assumes "computes now expiresAt m b r" and "\<And>x. computes now expiresAt (f x) c (g x)"
  shows "computes now expiresAt
    (\<lambda>k. ebind (m k) (\<lambda>v k. case v of VBool x \<Rightarrow> f x k | _ \<Rightarrow> (Inl (Runtime TYPE_MISMATCH), k))) (b + c) (asBool r g)"
  unfolding asBool_def
proof (rule computes_bind [OF assms(1)])
  fix v
  show "computes now expiresAt (\<lambda>k. case v of VBool x \<Rightarrow> f x k | _ \<Rightarrow> (Inl (Runtime TYPE_MISMATCH), k)) c
      (case v of VBool b \<Rightarrow> g b | _ \<Rightarrow> Inl TYPE_MISMATCH)"
    by (cases v) (simp_all add: computes_error assms(2))
qed

lemma strictEq_type: "strictEq a b \<Longrightarrow> valueType a = valueType b"
  by (cases "(a, b)" rule: strictEq.cases) auto

abbreviation evaluates :: "(nat \<Rightarrow> time_ms) \<Rightarrow> time_ms \<Rightarrow> expression_context \<Rightarrow> json \<Rightarrow> expr \<Rightarrow> bool" where
  "evaluates now expiresAt context x e \<equiv>
     computes now expiresAt (evaluateNode now expiresAt context (Some x)) (nodes e) (denote context e)"

lemma evaluateAnd_computes: "list_all2 (evaluates now expiresAt context) xs es \<Longrightarrow>
    computes now expiresAt (evaluateAnd now expiresAt context xs) (sum_list (map nodes es))
      (allTrue (map (denote context) es))"
proof (induction rule: list_all2_induct)
  case (Cons x xs e es)
  have "evaluateAnd now expiresAt context (x # xs) = (\<lambda>k. ebind (evaluateNode now expiresAt context (Some x) k)
      (\<lambda>v k. case v of VBool b \<Rightarrow> (if b then evaluateAnd now expiresAt context xs k else (Inr (VBool False), k))
        | _ \<Rightarrow> (Inl (Runtime TYPE_MISMATCH), k)))"
    by (auto simp: fun_eq_iff intro!: ebind_cong split: expression_value.splits)
  then show ?case
    using computes_asBool [OF Cons(1), of
        "\<lambda>b k. if b then evaluateAnd now expiresAt context xs k else (Inr (VBool False), k)"] Cons(3)
    by (simp add: computes_value)
qed (simp add: computes_value)

lemma evaluateOr_computes: "list_all2 (evaluates now expiresAt context) xs es \<Longrightarrow>
    computes now expiresAt (evaluateOr now expiresAt context xs) (sum_list (map nodes es))
      (someTrue (map (denote context) es))"
proof (induction rule: list_all2_induct)
  case (Cons x xs e es)
  then show ?case
    using computes_asBool [OF Cons(1), of
        "\<lambda>b k. if b then (Inr (VBool True), k) else evaluateOr now expiresAt context xs k"]
    by (simp add: computes_value)
qed (simp add: computes_value)

lemma evaluateIn_computes: "list_all2 (evaluates now expiresAt context) xs es \<Longrightarrow>
    computes now expiresAt (evaluateIn now expiresAt context v xs) (sum_list (map nodes es))
      (someEqual v (map (denote context) es))"
proof (induction rule: list_all2_induct)
  case (Cons x xs e es)
  have "evaluateIn now expiresAt context v (x # xs) = (\<lambda>k. ebind (evaluateNode now expiresAt context (Some x) k)
      (\<lambda>item k. if strictEq item v then (Inr (VBool True), k) else evaluateIn now expiresAt context v xs k))"
    by (auto simp: fun_eq_iff intro!: ebind_cong dest: strictEq_type)
  moreover have "computes now expiresAt
      (\<lambda>k. if strictEq item v then (Inr (VBool True), k) else evaluateIn now expiresAt context v xs k)
      (sum_list (map nodes es)) (if strictEq item v then Inr (VBool True) else someEqual v (map (denote context) es))"
    for item using Cons(3) by (simp add: computes_value)
  ultimately show ?case
    using computes_bind [OF Cons(1), of
        "\<lambda>item k. if strictEq item v then (Inr (VBool True), k) else evaluateIn now expiresAt context v xs k"]
    by simp
qed (simp add: computes_value)

lemma evaluateCoalesce_computes: "list_all2 (evaluates now expiresAt context) xs es \<Longrightarrow>
    computes now expiresAt (evaluateCoalesce now expiresAt context xs VNull) (sum_list (map nodes es))
      (firstNonNull (map (denote context) es))"
proof (induction rule: list_all2_induct)
  case (Cons x xs e es)
  have "evaluateCoalesce now expiresAt context (x # xs) VNull =
      (\<lambda>k. ebind (evaluateNode now expiresAt context (Some x) k)
      (\<lambda>v k. if v = VNull then evaluateCoalesce now expiresAt context xs VNull k else (Inr v, k)))"
    by (auto simp: fun_eq_iff intro!: ebind_cong)
  moreover have "computes now expiresAt
      (\<lambda>k. if v = VNull then evaluateCoalesce now expiresAt context xs VNull k else (Inr v, k))
      (sum_list (map nodes es)) (if v = VNull then firstNonNull (map (denote context) es) else Inr v)"
    for v using Cons(3) by (simp add: computes_value)
  ultimately show ?case
    using computes_bind [OF Cons(1), of
        "\<lambda>v k. if v = VNull then evaluateCoalesce now expiresAt context xs VNull k else (Inr v, k)"]
    by simp
qed (simp add: computes_value)

lemmas evaluateItems_computes =
  evaluateAnd_computes evaluateOr_computes evaluateIn_computes evaluateCoalesce_computes

text \<open>One node: the deadline check, then the branch of its kind.\<close>

lemma computes_node:
  assumes "computes now expiresAt m b r"
    and "\<And>k. evaluateNode now expiresAt context v k =
      (if expiresAt < now k then (Inl (Runtime EVALUATION_TIMEOUT), k + 1) else m (k + 1))"
  shows "computes now expiresAt (evaluateNode now expiresAt context v) (Suc b) r"
proof -
  from assms(2) have "evaluateNode now expiresAt context v =
      (\<lambda>k. if expiresAt < now k then (Inl (Runtime EVALUATION_TIMEOUT), k + 1) else m (k + 1))"
    by (rule ext)
  with computes_check [OF assms(1)] show ?thesis by simp
qed

lemma evaluateNode_computes: "represents j e \<Longrightarrow> evaluates now expiresAt context j e"
proof (induction rule: represents.induct)
  case (lit ps j v)
  show ?case unfolding nodes.simps denote.simps One_nat_def
    by (rule computes_node [OF computes_value]) (simp add: lit)
next
  case (ref ps path)
  show ?case unfolding nodes.simps denote.simps One_nat_def
    by (rule computes_node [OF computes_result]) (simp add: ref)
next
  case (conj ps xs es)
  then have "list_all2 (evaluates now expiresAt context) xs es" by (auto elim: list_all2_mono)
  then show ?case unfolding nodes.simps denote.simps
    by (rule computes_node [OF evaluateAnd_computes]) (simp add: conj)
next
  case (disj ps xs es)
  then have "list_all2 (evaluates now expiresAt context) xs es" by (auto elim: list_all2_mono)
  then show ?case unfolding nodes.simps denote.simps
    by (rule computes_node [OF evaluateOr_computes]) (simp add: disj)
next
  case (neg ps x e)
  show ?case unfolding nodes.simps denote.simps
    by (rule computes_node [OF computes_asBool [OF neg(4) computes_value [where b = 0], unfolded add_0_right]])
      (simp add: neg)
next
  case (cmp ps op x e y f)
  have "computes now expiresAt
    (\<lambda>k. ebind (evaluateNode now expiresAt context (Some x) k)
       (\<lambda>l k. ebind (evaluateNode now expiresAt context (Some y) k)
         (\<lambda>r k. eresult (rbind (compare op l r) (\<lambda>b. Inr (VBool b))) k)))
    (nodes e + (nodes f + 0)) (denote context (Cmp op e f))"
    unfolding denote.simps by (intro computes_bind cmp.IH computes_result)
  then show ?case unfolding nodes.simps add_0_right
    by (rule computes_node) (simp add: cmp)
next
  case (isin ps xs x e es)
  then have "list_all2 (evaluates now expiresAt context) xs es" by (auto elim: list_all2_mono)
  then show ?case unfolding nodes.simps denote.simps
    by (rule computes_node [OF computes_bind [OF isin(5) evaluateIn_computes]]) (simp add: isin)
next
  case (coal ps xs es)
  then have "list_all2 (evaluates now expiresAt context) xs es" by (auto elim: list_all2_mono)
  then show ?case unfolding nodes.simps denote.simps
    by (rule computes_node [OF evaluateCoalesce_computes]) (simp add: coal)
next
  case (isnull ps x e)
  show ?case unfolding nodes.simps denote.simps
    by (rule computes_node [OF computes_bind [OF isnull(4) computes_value [where b = 0], unfolded add_0_right]])
      (simp add: isnull)
qed

section \<open>The evaluator\<close>

definition traceOf :: "(nat \<Rightarrow> time_ms) \<Rightarrow> evaluate_expression_input \<Rightarrow> expression_value option \<Rightarrow> nat \<Rightarrow>
    expression_trace" where
  "traceOf now input value k =
     \<lparr> maskedContext = JObj (maskContext (ei_context input)
         (case ei_sensitivePaths input of None \<Rightarrow> [] | Some paths \<Rightarrow> paths)),
       result = value, durationMs = now k - now 0 \<rparr>"

text \<open>The outcome the meaning of an expression calls for, with its trace taken at reading \<open>k\<close>.\<close>

definition answers :: "(nat \<Rightarrow> time_ms) \<Rightarrow> evaluate_expression_input \<Rightarrow> meaning \<Rightarrow> nat \<Rightarrow>
    expression_evaluation_result" where
  "answers now input r k =
     (case r of
        Inl code \<Rightarrow> ERROR code (traceOf now input None k)
      | Inr v \<Rightarrow> if valueType v = ei_expectedType input then OK v (traceOf now input (Some v) k)
                 else ERROR TYPE_MISMATCH (traceOf now input None k))"

definition header_ok :: "(rat \<Rightarrow> string) \<Rightarrow> evaluate_expression_input \<Rightarrow> bool" where
  "header_ok show input \<longleftrightarrow>
     map_of (ei_document input) ''language'' = Some (JStr ''DC_EXPR'') \<and>
     map_of (ei_document input) ''version'' = Some (JNum (Fin 1)) \<and>
     byteLength show (JObj (ei_document input)) \<le> MAX_DOCUMENT_BYTES \<and>
     byteLength show (JObj (ei_context input)) \<le> MAX_CONTEXT_BYTES"

lemma evaluate_header:
  "\<not> header_ok show input \<Longrightarrow> \<exists>code. evaluate now show input = ERROR code (traceOf now input None 1)"
  by (auto simp: evaluate_def header_ok_def traceOf_def Let_def)

lemma evaluate_rejected:
  assumes "header_ok show input" and "validate (map_of (ei_document input) ''expression'') 1 0 = Inl code"
  shows "evaluate now show input = ERROR code (traceOf now input None 1)"
  using assms by (auto simp: evaluate_def header_ok_def traceOf_def Let_def)

lemma evaluate_accepted:
  assumes "header_ok show input" and "map_of (ei_document input) ''expression'' = Some j"
    and "represents j e" and "nodes e \<le> MAX_NODES" and "height e \<le> MAX_DEPTH"
  obtains k where "2 \<le> k" "k \<le> nodes e + 2"
    "evaluate now show input = answers now input (denote (ei_context input) e) k \<or>
     evaluate now show input = ERROR EVALUATION_TIMEOUT (traceOf now input None k) \<and>
       (\<exists>i < k. now 1 + DEADLINE_MS < now i)"
proof -
  have v: "validate (Some j) 1 0 = Inr (nodes e)"
    using validate_complete [OF assms(3), of 0 1] assms(4,5) by simp
  let ?run = "evaluateNode now (now 1 + DEADLINE_MS) (ei_context input) (Some j) 2"
  obtain k where k: "2 \<le> k" "k \<le> 2 + nodes e"
    "?run = eresult (denote (ei_context input) e) k \<or>
     ?run = (Inl (Runtime EVALUATION_TIMEOUT), k) \<and> (\<exists>i \<ge> 2. i < k \<and> now 1 + DEADLINE_MS < now i)"
    using evaluateNode_computes [OF assms(3), of now "now 1 + DEADLINE_MS" "ei_context input"]
    unfolding computes_def by blast
  have e: "evaluate now show input =
      (case ?run of
         (Inl (Runtime code), k) \<Rightarrow> ERROR code (traceOf now input None k)
       | (Inl Stuck, k) \<Rightarrow> Threw
       | (Inr v, k) \<Rightarrow>
           if valueType v \<noteq> ei_expectedType input then ERROR TYPE_MISMATCH (traceOf now input None k)
           else OK v (traceOf now input (Some v) k))"
    using assms(1,2) v unfolding evaluate_def header_ok_def traceOf_def Let_def by simp
  have "evaluate now show input = answers now input (denote (ei_context input) e) k \<or>
     evaluate now show input = ERROR EVALUATION_TIMEOUT (traceOf now input None k) \<and>
       (\<exists>i < k. now 1 + DEADLINE_MS < now i)"
    using k(3) unfolding e by (auto simp: answers_def split: sum.splits)
  with k that show thesis by auto
qed

lemma evaluation_cases:
  obtains (rejected) code where "evaluate now show input = ERROR code (traceOf now input None 1)"
  | (answered) j e k where "map_of (ei_document input) ''expression'' = Some j" "represents j e"
      "nodes e \<le> MAX_NODES" "k \<le> MAX_NODES + 2"
      "evaluate now show input = answers now input (denote (ei_context input) e) k"
  | (timeout) k where "k \<le> MAX_NODES + 2"
      "evaluate now show input = ERROR EVALUATION_TIMEOUT (traceOf now input None k)"
proof (cases "header_ok show input")
  case True
  show thesis
  proof (cases "validate (map_of (ei_document input) ''expression'') 1 0")
    case (Inl code)
    from evaluate_rejected [OF True this] show thesis by (rule rejected)
  next
    case (Inr m)
    then obtain j e where j: "map_of (ei_document input) ''expression'' = Some j" "represents j e"
      and l: "nodes e \<le> MAX_NODES" "height e \<le> MAX_DEPTH"
      using validate_sound(1) [OF Inr] by (auto simp: accepted_def)
    obtain k where k: "k \<le> nodes e + 2"
      "evaluate now show input = answers now input (denote (ei_context input) e) k \<or>
       evaluate now show input = ERROR EVALUATION_TIMEOUT (traceOf now input None k)"
      by (rule evaluate_accepted [OF True j l, of now]) blast
    from k(1) l(1) have "k \<le> MAX_NODES + 2" by simp
    with k(2) j l(1) answered timeout show thesis by blast
  qed
qed (use evaluate_header rejected in blast)

text \<open>
  C18. The evaluator is type sound on untrusted documents: whatever the document and the context, no
  exception leaves it, a value it returns has the type the caller asked for and is the meaning of
  the expression the document writes, and it has looked at no more than 256 nodes when it answers
  (the trace is taken at clock reading 258 at the latest).
\<close>

theorem evaluation_is_type_sound:
  "(\<exists>code k. k \<le> 258 \<and> evaluate now show input = ERROR code (traceOf now input None k)) \<or>
   (\<exists>v k j e. k \<le> 258 \<and> evaluate now show input = OK v (traceOf now input (Some v) k) \<and>
      valueType v = ei_expectedType input \<and>
      map_of (ei_document input) ''expression'' = Some j \<and> represents j e \<and>
      denote (ei_context input) e = Inr v)"
proof (cases rule: evaluation_cases [of now "show" input])
  case (answered j e k)
  then show ?thesis
    by (cases "denote (ei_context input) e") (auto simp: answers_def MAX_NODES_def)
next
  case (rejected code)
  then show ?thesis by (intro disjI1 exI [of _ code] exI [of _ 1]) simp
next
  case (timeout k)
  then show ?thesis
    by (intro disjI1 exI [of _ EVALUATION_TIMEOUT] exI [of _ k]) (simp add: MAX_NODES_def)
qed

text \<open>
  C14. Evaluation refines the meaning of the expression: for a document of the language within the
  size, node and depth limits, and a clock that stays within the 50 ms deadline, the evaluator
  answers exactly what the clock-free, limit-free semantics of the abstract syntax says.
\<close>

theorem evaluation_refines_meaning:
  assumes "header_ok show input" and "map_of (ei_document input) ''expression'' = Some j"
    and "represents j e" and "nodes e \<le> 256" and "height e \<le> 32"
    and "\<forall>i. now i \<le> now 1 + 50"
  shows "\<exists>k. evaluate now show input = answers now input (denote (ei_context input) e) k"
  using evaluate_accepted [OF assms(1-3), of now] assms(4-6)
  by (metis DEADLINE_MS_def MAX_DEPTH_def MAX_NODES_def leD)

definition sample_expression :: json where
  "sample_expression = JObj [(''type'', JStr ''and''), (''operands'', JArr
     [JObj [(''type'', JStr ''comparison''), (''operator'', JStr ''eq''),
        (''left'', JObj [(''type'', JStr ''ref''), (''path'', JArr [JStr ''contact'', JStr ''tier''])]),
        (''right'', JObj [(''type'', JStr ''literal''), (''value'', JStr ''gold'')])],
      JObj [(''type'', JStr ''not''), (''operand'',
        JObj [(''type'', JStr ''isNull''), (''operand'',
          JObj [(''type'', JStr ''ref''), (''path'', JArr [JStr ''vars'', JStr ''spend''])])])]])]"

definition sample_input :: evaluate_expression_input where
  "sample_input = \<lparr>
     ei_document = [(''language'', JStr ''DC_EXPR''), (''version'', JNum (Fin 1)), (''expression'', sample_expression)],
     ei_context = [(''contact'', JObj [(''tier'', JStr ''gold'')]), (''vars'', JObj [(''spend'', JNum (Fin 7))])],
     ei_expectedType = TBoolean,
     ei_sensitivePaths = Some [[''vars'', ''spend'']] \<rparr>"

definition sample_syntax :: expr where
  "sample_syntax = And [Cmp CmpEq (Ref [''contact'', ''tier'']) (Lit (VStr ''gold'')), Not (IsNull (Ref [''vars'', ''spend'']))]"

lemma sample_represents: "represents sample_expression sample_syntax"
  unfolding sample_expression_def sample_syntax_def
  by (simp add: represents_iffs referencePath_def validateReference_def FORBIDDEN_SEGMENTS_def
      comparisonOperator_def)

theorem evaluation_refines_meaning_witness:
  "\<exists>k. evaluate (\<lambda>i. 0) (\<lambda>_. ''1'') sample_input = OK (VBool True) (traceOf (\<lambda>i. 0) sample_input (Some (VBool True)) k)"
proof -
  have "denote (ei_context sample_input) sample_syntax = Inr (VBool True)" by code_simp
  moreover have "header_ok (\<lambda>_. ''1'') sample_input" by code_simp
  ultimately show ?thesis
    using evaluation_refines_meaning [of "\<lambda>_. ''1''" sample_input sample_expression sample_syntax "\<lambda>i. 0"]
      sample_represents
    by (simp add: sample_input_def sample_syntax_def answers_def)
qed

section \<open>Sensitive values stay out of the trace\<close>

text \<open>Two contexts that differ at most in the value at one path.\<close>

fun differAt :: "string list \<Rightarrow> expression_context \<Rightarrow> expression_context \<Rightarrow> bool" where
  "differAt [] m m' \<longleftrightarrow> m = m'"
| "differAt (x # rest) m m' \<longleftrightarrow> m = m' \<or>
     (\<exists>before after v v'. m = before @ (x, v) # after \<and> m' = before @ (x, v') # after \<and>
        x \<notin> fst ` set before \<and>
        (rest = [] \<or> (\<exists>a b. v = JObj a \<and> v' = JObj b \<and> differAt rest a b)))"

lemma differAt_refl [simp]: "differAt p m m"
  by (cases p) auto

lemma map_of_before: "x \<notin> fst ` set before \<Longrightarrow> map_of (before @ (x, v) # after) x = Some v"
  by (induction before) auto

lemma js_map_set_before: "x \<notin> fst ` set before \<Longrightarrow>
    js_map_set x w (before @ (x, v) # after) = before @ (x, w) # after"
  by (induction before) auto

lemma maskPath_before:
  assumes "x \<notin> fst ` set before"
  shows "maskPath [x] (before @ (x, v) # after) = before @ (x, JStr MASK) # after"
    and "maskPath (x # y # rest) (before @ (x, v) # after) = before @ (x,
      case v of JObj inner \<Rightarrow> JObj (maskPath (y # rest) inner) | _ \<Rightarrow> v) # after"
  unfolding maskPath.simps map_of_before [OF assms]
  by (simp_all add: js_map_set_before [OF assms] split: json.splits)

lemma mask_same_path: "p \<noteq> [] \<Longrightarrow> differAt p m m' \<Longrightarrow> maskPath p m = maskPath p m'"
proof (induction p m arbitrary: m' rule: maskPath.induct)
  case (2 x m)
  then show ?case by (auto simp: maskPath_before simp del: maskPath.simps)
next
  case (3 x y rest m)
  show ?case
  proof (cases "m = m'")
    case False
    with 3(3) obtain before after a b where m: "m = before @ (x, JObj a) # after"
      "m' = before @ (x, JObj b) # after" "x \<notin> fst ` set before" "differAt (y # rest) a b"
      unfolding differAt.simps(2) [of x] by blast
    have "map_of m x = Some (JObj a)" unfolding m(1) by (rule map_of_before [OF m(3)])
    from 3(1) [OF this refl _ m(4)] m show ?thesis by (simp add: maskPath_before(2) del: maskPath.simps)
  qed simp
qed simp

lemma js_map_set_other:
  assumes "x \<noteq> y" and "x \<notin> fst ` set before"
  shows "\<exists>b a. x \<notin> fst ` set b \<and> (\<forall>v. js_map_set y w (before @ (x, v) # after) = b @ (x, v) # a)"
  using assms
proof (induction before)
  case (Cons q before)
  obtain k u where q: "q = (k, u)" by force
  show ?case
  proof (cases "k = y")
    case True
    with Cons(2,3) q show ?thesis by (intro exI [of _ "(y, w) # before"] exI [of _ after]) auto
  next
    case False
    from Cons obtain b a where "x \<notin> fst ` set b" "\<forall>v. js_map_set y w (before @ (x, v) # after) = b @ (x, v) # a"
      by auto
    with False q Cons(3) show ?thesis by (intro exI [of _ "(k, u) # b"] exI [of _ a]) auto
  qed
next
  case Nil
  then show ?case by (intro exI [of _ "[]"] exI [of _ "js_map_set y w after"]) auto
qed

lemma maskPath_other:
  assumes "x \<noteq> y" and "x \<notin> fst ` set before"
  shows "\<exists>b a. x \<notin> fst ` set b \<and> (\<forall>v. maskPath (y # rest) (before @ (x, v) # after) = b @ (x, v) # a)"
proof -
  have l: "map_of (before @ (x, v) # after) y = map_of (before @ after) y" for v
    using assms(1) by (cases "map_of before y") (auto simp: map_add_def)
  show ?thesis
  proof (cases rest)
    case Nil
    show ?thesis
    proof (cases "map_of (before @ after) y")
      case None
      with assms(2) Nil l show ?thesis by (auto simp del: map_of_append)
    next
      case (Some u)
      with js_map_set_other [OF assms] Nil l show ?thesis by (simp del: map_of_append)
    qed
  next
    case (Cons z zs)
    show ?thesis
    proof (cases "\<exists>inner. map_of (before @ after) y = Some (JObj inner)")
      case True
      with js_map_set_other [OF assms] Cons l show ?thesis by (auto simp del: map_of_append)
    next
      case False
      with assms(2) Cons l show ?thesis by (auto simp del: map_of_append split: option.splits json.splits)
    qed
  qed
qed

lemma differAtI:
  "x \<notin> fst ` set before \<Longrightarrow> rest = [] \<or> (\<exists>a b. v = JObj a \<and> v' = JObj b \<and> differAt rest a b) \<Longrightarrow>
   differAt (x # rest) (before @ (x, v) # after) (before @ (x, v') # after)"
  by (simp only: differAt.simps) blast

lemma mask_other_path: "differAt p m m' \<Longrightarrow> differAt p (maskPath q m) (maskPath q m')"
proof (induction p arbitrary: m m' q)
  case (Cons x rest)
  show ?case
  proof (cases "m = m' \<or> q = []")
    case False
    then obtain y q' where q: "q = y # q'" by (cases q) auto
    from False Cons.prems obtain before after v v' where m: "m = before @ (x, v) # after"
      "m' = before @ (x, v') # after" "x \<notin> fst ` set before"
      and r: "rest = [] \<or> (\<exists>a b. v = JObj a \<and> v' = JObj b \<and> differAt rest a b)"
      unfolding differAt.simps(2) by blast
    show ?thesis
    proof (cases "y = x")
      case True
      show ?thesis
      proof (cases q')
        case Nil
        with True q m show ?thesis by (simp add: maskPath_before(1) del: maskPath.simps)
      next
        case (Cons z zs)
        have "rest = [] \<or> (\<exists>a b. (case v of JObj inner \<Rightarrow> JObj (maskPath (z # zs) inner) | _ \<Rightarrow> v) = JObj a \<and>
            (case v' of JObj inner \<Rightarrow> JObj (maskPath (z # zs) inner) | _ \<Rightarrow> v') = JObj b \<and> differAt rest a b)"
          using r Cons.IH by auto
        with m(3) show ?thesis unfolding m(1,2) q True Cons maskPath_before(2) [OF m(3)]
          by (rule differAtI)
      qed
    next
      case False
      from maskPath_other [OF False [symmetric] m(3), of q' after] obtain b a where
        ba: "x \<notin> fst ` set b" "\<forall>v. maskPath (y # q') (before @ (x, v) # after) = b @ (x, v) # a" by blast
      show ?thesis unfolding m(1,2) q ba(2) [rule_format] by (rule differAtI [OF ba(1) r])
    qed
  qed (use Cons.prems in \<open>auto simp del: differAt.simps\<close>)
qed simp

lemma mask_fold_differ: "differAt p m m' \<Longrightarrow> p \<noteq> [] \<Longrightarrow> p \<in> set ps \<Longrightarrow> fold maskPath ps m = fold maskPath ps m'"
proof (induction ps arbitrary: m m')
  case (Cons q ps)
  then show ?case
    by (cases "q = p") (auto dest: mask_same_path intro: mask_other_path)
qed simp

definition traceContext :: "expression_evaluation_result \<Rightarrow> json option" where
  "traceContext r = (case r of OK _ tr \<Rightarrow> Some (maskedContext tr) | ERROR _ tr \<Rightarrow> Some (maskedContext tr) | Threw \<Rightarrow> None)"

lemma traceContext_evaluate:
  "traceContext (evaluate now show input) = Some (JObj (maskContext (ei_context input)
     (case ei_sensitivePaths input of None \<Rightarrow> [] | Some paths \<Rightarrow> paths)))"
  by (cases rule: evaluation_cases [of now "show" input])
    (auto simp: traceContext_def answers_def traceOf_def split: sum.splits)

text \<open>
  C21. A sensitive value never reaches the trace: when two contexts differ only in the value at a path
  that is declared sensitive, the traces of the two evaluations show the same context, whatever the
  other sensitive paths are and in whatever order they are masked.
\<close>

theorem sensitive_value_not_in_trace:
  assumes "differAt path ctx ctx'" and "path \<noteq> []"
    and "ei_sensitivePaths input = Some paths" and "path \<in> set paths"
  shows "traceContext (evaluate now show (input\<lparr>ei_context := ctx\<rparr>)) =
         traceContext (evaluate now show (input\<lparr>ei_context := ctx'\<rparr>))"
  using mask_fold_differ [OF assms(1,2,4)] assms(3) by (simp add: traceContext_evaluate maskContext_def)

theorem sensitive_value_not_in_trace_witness:
  "traceContext (evaluate (\<lambda>i. 0) (\<lambda>_. ''1'') (sample_input\<lparr>ei_context := [(''vars'', JObj [(''spend'', JNum (Fin 7))])]\<rparr>)) =
   traceContext (evaluate (\<lambda>i. 0) (\<lambda>_. ''1'') (sample_input\<lparr>ei_context := [(''vars'', JObj [(''spend'', JNum (Fin 9))])]\<rparr>))"
proof (rule sensitive_value_not_in_trace [where path = "[''vars'', ''spend'']" and paths = "[[''vars'', ''spend'']]"])
  show "differAt [''vars'', ''spend''] [(''vars'', JObj [(''spend'', JNum (Fin 7))])]
      [(''vars'', JObj [(''spend'', JNum (Fin 9))])]"
    using differAtI [of "''vars''" "[]" "[''spend'']" "JObj [(''spend'', JNum (Fin 7))]"
        "JObj [(''spend'', JNum (Fin 9))]" "[]"]
      differAtI [of "''spend''" "[]" "[]" "JNum (Fin 7)" "JNum (Fin 9)" "[]"] by simp
qed (simp_all add: sample_input_def)

end
