(* ===== verification/Segments.thy ===== *)
theory Segments
  imports Expression
begin

text \<open>
  Customer 360 segments: the contract of a segment definition and of a fact snapshot
  (\<open>apps/customer-360/src/segment-definition.ts\<close>) and the evaluator that runs the definition's
  expression on the snapshot (\<open>apps/customer-360/src/segment-evaluator.ts\<close>). Field names only
  appear in error texts and are left out. Text normalisation is the identity on the strings of
  the model, whose code units are below 256. \<open>Date.parse\<close> and \<open>toISOString\<close> are the parameters
  \<open>parseDate\<close> and \<open>toISO\<close>, SHA-256 is \<open>sha256\<close>, number printing is \<open>show\<close>.
\<close>

datatype segment_error =
    INVALID_DEFINITION | UNSUPPORTED_CONTRACT | FORBIDDEN_SEGMENT_REFERENCE | INVALID_FACT_SNAPSHOT
  | FACT_TYPE_MISMATCH | TIME_AMBIGUOUS
  | JsTypeError

section \<open>Shapes\<close>

definition objectValue :: "json option \<Rightarrow> segment_error \<Rightarrow> segment_error + (string \<times> json) list" where
  "objectValue v code = (case v of Some (JObj ps) \<Rightarrow> Inr ps | _ \<Rightarrow> Inl code)"

definition exactKeys :: "(string \<times> json) list \<Rightarrow> string list \<Rightarrow> segment_error \<Rightarrow> segment_error + unit" where
  "exactKeys ps keys code =
     (if list_ex (\<lambda>p. fst p \<notin> set keys) ps then Inl code
      else if list_ex (\<lambda>key. map_of ps key = None) keys then Inl code
      else Inr ())"

text \<open>
  \<open>String(v)\<close> of plain data; \<open>None\<close> is the \<open>TypeError\<close> for an object whose own \<open>toString\<close> is data.
  The items of an array are joined by commas, \<open>null\<close> as the empty string.
\<close>

fun optionList :: "'a option list \<Rightarrow> 'a list option" where
  "optionList [] = Some []"
| "optionList (None # xs) = None"
| "optionList (Some x # xs) = map_option (Cons x) (optionList xs)"

fun jsString :: "(rat \<Rightarrow> string) \<Rightarrow> json \<Rightarrow> string option" where
  "jsString show JNull = Some ''null''"
| "jsString show (JBool b) = Some (if b then ''true'' else ''false'')"
| "jsString show (JNum n) = Some (case n of Fin r \<Rightarrow> show r | PosInf \<Rightarrow> ''Infinity'' | NegInf \<Rightarrow> ''-Infinity'' | NaN \<Rightarrow> ''NaN'')"
| "jsString show (JStr s) = Some s"
| "jsString show (JArr xs) =
     map_option commaSep (optionList (map (\<lambda>x. if x = JNull then Some [] else jsString show x) xs))"
| "jsString show (JObj ps) = (if map_of ps ''toString'' = None then Some ''[object Object]'' else None)"

text \<open>\<open>throw\<close> of a contract error whose text prints \<open>v\<close>.\<close>

definition throwPrinting :: "(rat \<Rightarrow> string) \<Rightarrow> json option \<Rightarrow> segment_error \<Rightarrow> segment_error" where
  "throwPrinting show v code =
     (case v of Some j \<Rightarrow> if jsString show j = None then JsTypeError else code | None \<Rightarrow> code)"

section \<open>Definitions\<close>

definition validateSegmentReference :: "json option \<Rightarrow> segment_error + unit" where
  "validateSegmentReference path =
     (case referencePath path of
        None \<Rightarrow> Inl INVALID_DEFINITION
      | Some parts \<Rightarrow>
          if length parts < 2 \<or> list_ex (\<lambda>part. part = []) parts then Inl INVALID_DEFINITION
          else if hd parts \<noteq> ''contact'' \<and> hd parts \<noteq> ''vars'' then Inl FORBIDDEN_SEGMENT_REFERENCE
          else if list_ex (\<lambda>part. part \<in> {''__proto__'', ''prototype'', ''constructor''}) parts
          then Inl FORBIDDEN_SEGMENT_REFERENCE
          else Inr ())"

definition validateSegmentLiteral :: "json option \<Rightarrow> segment_error + unit" where
  "validateSegmentLiteral v =
     (case Option.bind v literalValue of
        None \<Rightarrow> Inl INVALID_DEFINITION
      | Some (VNum n) \<Rightarrow> (case n of Fin _ \<Rightarrow> Inr () | _ \<Rightarrow> Inl INVALID_DEFINITION)
      | Some _ \<Rightarrow> Inr ())"

definition validateSegmentOperator :: "(rat \<Rightarrow> string) \<Rightarrow> json option \<Rightarrow> segment_error + unit" where
  "validateSegmentOperator show v =
     (case (case v of None \<Rightarrow> Some ''undefined'' | Some j \<Rightarrow> jsString show j) of
        None \<Rightarrow> Inl JsTypeError
      | Some text \<Rightarrow>
          if text \<in> {''eq'', ''ne'', ''gt'', ''gte'', ''lt'', ''lte''} then Inr () else Inl INVALID_DEFINITION)"

function (sequential)
  validateExpressionNode :: "(rat \<Rightarrow> string) \<Rightarrow> json option \<Rightarrow> segment_error + unit" and
  validateExpressionNodes :: "(rat \<Rightarrow> string) \<Rightarrow> json list \<Rightarrow> segment_error + unit" where
  "validateExpressionNode show (Some (JObj ps)) =
     (case map_of ps ''type'' of
        Some (JStr kind) \<Rightarrow>
          if kind = ''literal'' then
            rbind (exactKeys ps [''type'', ''value''] INVALID_DEFINITION)
              (\<lambda>_. validateSegmentLiteral (map_of ps ''value''))
          else if kind = ''ref'' then
            rbind (exactKeys ps [''type'', ''path''] INVALID_DEFINITION)
              (\<lambda>_. validateSegmentReference (map_of ps ''path''))
          else if kind = ''and'' \<or> kind = ''or'' then
            rbind (exactKeys ps [''type'', ''operands''] INVALID_DEFINITION)
              (\<lambda>_. case map_of ps ''operands'' of
                 Some (JArr xs) \<Rightarrow> validateExpressionNodes show xs
               | _ \<Rightarrow> Inl INVALID_DEFINITION)
          else if kind = ''not'' \<or> kind = ''isNull'' then
            rbind (exactKeys ps [''type'', ''operand''] INVALID_DEFINITION)
              (\<lambda>_. validateExpressionNode show (map_of ps ''operand''))
          else if kind = ''comparison'' then
            rbind (exactKeys ps [''type'', ''operator'', ''left'', ''right''] INVALID_DEFINITION)
              (\<lambda>_. rbind (validateSegmentOperator show (map_of ps ''operator''))
                (\<lambda>_. rbind (validateExpressionNode show (map_of ps ''left''))
                  (\<lambda>_. validateExpressionNode show (map_of ps ''right''))))
          else if kind = ''in'' then
            rbind (exactKeys ps [''type'', ''value'', ''items''] INVALID_DEFINITION)
              (\<lambda>_. case map_of ps ''items'' of
                 Some (JArr xs) \<Rightarrow>
                   rbind (validateExpressionNode show (map_of ps ''value''))
                     (\<lambda>_. validateExpressionNodes show xs)
               | _ \<Rightarrow> Inl INVALID_DEFINITION)
          else if kind = ''coalesce'' then
            rbind (exactKeys ps [''type'', ''operands''] INVALID_DEFINITION)
              (\<lambda>_. case map_of ps ''operands'' of
                 Some (JArr (x # xs)) \<Rightarrow> validateExpressionNodes show (x # xs)
               | _ \<Rightarrow> Inl INVALID_DEFINITION)
          else Inl INVALID_DEFINITION
      | _ \<Rightarrow> Inl INVALID_DEFINITION)"
| "validateExpressionNode show _ = Inl INVALID_DEFINITION"
| "validateExpressionNodes show [] = Inr ()"
| "validateExpressionNodes show (x # xs) =
     rbind (validateExpressionNode show (Some x)) (\<lambda>_. validateExpressionNodes show xs)"
  by pat_completeness auto

termination
  by (relation "measure (case_sum (\<lambda>(_, v). nodeSize v) (\<lambda>(_, xs). itemsSize xs))")
    (simp_all only: wf_measure in_measure sum.case prod.case walk_sizes)

definition validateSegmentDefinitionContent :: "(rat \<Rightarrow> string) \<Rightarrow> json \<Rightarrow> segment_error + (string \<times> json) list" where
  "validateSegmentDefinitionContent show v =
     rbind (objectValue (Some v) INVALID_DEFINITION) (\<lambda>content.
     rbind (exactKeys content [''contractVersion'', ''name'', ''expression''] INVALID_DEFINITION) (\<lambda>_.
     rbind (throw_if (map_of content ''contractVersion'' \<noteq> Some (JNum (Fin 1)))
              (throwPrinting show (map_of content ''contractVersion'') UNSUPPORTED_CONTRACT)) (\<lambda>_.
     case map_of content ''name'' of
       Some (JStr name) \<Rightarrow>
         rbind (throw_if (js_trim name = []) INVALID_DEFINITION) (\<lambda>_.
         rbind (throw_if (160 < length name) INVALID_DEFINITION) (\<lambda>_.
         rbind (objectValue (map_of content ''expression'') INVALID_DEFINITION) (\<lambda>document.
         rbind (exactKeys document [''language'', ''version'', ''expression''] INVALID_DEFINITION) (\<lambda>_.
         rbind (throw_if (map_of document ''language'' \<noteq> Some (JStr ''DC_EXPR'')) INVALID_DEFINITION) (\<lambda>_.
         rbind (throw_if (map_of document ''version'' \<noteq> Some (JNum (Fin 1)))
                  (throwPrinting show (map_of document ''version'') UNSUPPORTED_CONTRACT)) (\<lambda>_.
         rbind (validateExpressionNode show (map_of document ''expression'')) (\<lambda>_.
         Inr [(''contractVersion'', JNum (Fin 1)), (''name'', JStr (js_trim name)),
              (''expression'', JObj document)])))))))
     | _ \<Rightarrow> Inl INVALID_DEFINITION)))"

section \<open>Fact snapshots\<close>

definition isDigit :: "char \<Rightarrow> bool" where
  "isDigit c \<longleftrightarrow> CHR ''0'' \<le> c \<and> c \<le> CHR ''9''"

definition isLetter :: "char \<Rightarrow> bool" where
  "isLetter c \<longleftrightarrow> (CHR ''A'' \<le> c \<and> c \<le> CHR ''Z'') \<or> (CHR ''a'' \<le> c \<and> c \<le> CHR ''z'')"

text \<open>A pattern of digits (\<open>d\<close>) and literal characters, matched character by character.\<close>

definition matchesPattern :: "string \<Rightarrow> string \<Rightarrow> bool" where
  "matchesPattern pat s \<longleftrightarrow> list_all2 (\<lambda>p c. if p = CHR ''d'' then isDigit c else c = p) pat s"

definition dateTimePrefix :: "string \<Rightarrow> bool" where
  "dateTimePrefix s \<longleftrightarrow> matchesPattern ''dddd-dd-ddT'' (take 11 s)"

definition zoneSuffix :: "string \<Rightarrow> bool" where
  "zoneSuffix s \<longleftrightarrow>
     (s \<noteq> [] \<and> last s = CHR ''Z'') \<or>
     (let tail = drop (length s - 6) s in matchesPattern ''+dd:dd'' tail \<or> matchesPattern ''-dd:dd'' tail)"

definition validateTimestamp :: "(string \<Rightarrow> time_ms option) \<Rightarrow> (time_ms \<Rightarrow> string) \<Rightarrow> json option \<Rightarrow>
    segment_error + string" where
  "validateTimestamp parseDate toISO v =
     (case v of
        Some (JStr text) \<Rightarrow>
          if \<not> dateTimePrefix text then Inl TIME_AMBIGUOUS
          else (case parseDate text of
                  None \<Rightarrow> Inl TIME_AMBIGUOUS
                | Some instant \<Rightarrow> if \<not> zoneSuffix text then Inl TIME_AMBIGUOUS else Inr (toISO instant))
      | _ \<Rightarrow> Inl TIME_AMBIGUOUS)"

definition validateFactValue :: "(rat \<Rightarrow> string) \<Rightarrow> (string \<Rightarrow> time_ms option) \<Rightarrow> (time_ms \<Rightarrow> string) \<Rightarrow>
    json \<Rightarrow> segment_error + expression_value" where
  "validateFactValue show parseDate toISO v =
     rbind (objectValue (Some v) INVALID_FACT_SNAPSHOT) (\<lambda>fact.
     rbind (exactKeys fact [''type'', ''value''] INVALID_FACT_SNAPSHOT) (\<lambda>_.
     let kind = map_of fact ''type''; val = map_of fact ''value'' in
     if kind = Some (JStr ''STRING'') then
       (case val of Some (JStr s) \<Rightarrow> Inr (VStr s) | _ \<Rightarrow> Inl FACT_TYPE_MISMATCH)
     else if kind = Some (JStr ''NUMBER'') then
       (case val of Some (JNum (Fin r)) \<Rightarrow> Inr (VNum (Fin r)) | _ \<Rightarrow> Inl FACT_TYPE_MISMATCH)
     else if kind = Some (JStr ''BOOLEAN'') then
       (case val of Some (JBool b) \<Rightarrow> Inr (VBool b) | _ \<Rightarrow> Inl FACT_TYPE_MISMATCH)
     else if kind = Some (JStr ''TIMESTAMP'') then
       rbind (validateTimestamp parseDate toISO val) (\<lambda>text. Inr (VStr text))
     else if kind = Some (JStr ''NULL'') then
       (if val = Some JNull then Inr VNull else Inl FACT_TYPE_MISMATCH)
     else Inl (throwPrinting show kind INVALID_FACT_SNAPSHOT)))"

definition factKey :: "string \<Rightarrow> bool" where
  "factKey key \<longleftrightarrow>
     key \<noteq> [] \<and> length key \<le> 128 \<and> isLetter (hd key) \<and>
     list_all (\<lambda>c. isLetter c \<or> isDigit c \<or> c \<in> set ''_.-'') (tl key) \<and>
     key \<notin> {''__proto__'', ''prototype'', ''constructor''}"

type_synonym fact_map = "(string \<times> expression_value) list"

definition normalizeFactMap :: "(rat \<Rightarrow> string) \<Rightarrow> (string \<Rightarrow> time_ms option) \<Rightarrow> (time_ms \<Rightarrow> string) \<Rightarrow>
    json option \<Rightarrow> segment_error + fact_map" where
  "normalizeFactMap show parseDate toISO v =
     rbind (objectValue v INVALID_FACT_SNAPSHOT) (\<lambda>facts.
       rmap (\<lambda>(key, fact). if \<not> factKey key then Inl INVALID_FACT_SNAPSHOT
              else rbind (validateFactValue show parseDate toISO fact) (\<lambda>x. Inr (key, x)))
         (sort_key fst facts))"

record fact_snapshot =
  fs_attributes :: fact_map
  fs_computed :: fact_map
  fs_sourceCutoffAt :: string

definition normalizeFactSnapshot :: "(rat \<Rightarrow> string) \<Rightarrow> (string \<Rightarrow> time_ms option) \<Rightarrow> (time_ms \<Rightarrow> string) \<Rightarrow>
    json \<Rightarrow> segment_error + fact_snapshot" where
  "normalizeFactSnapshot show parseDate toISO v =
     rbind (objectValue (Some v) INVALID_FACT_SNAPSHOT) (\<lambda>snapshot.
     rbind (exactKeys snapshot [''attributes'', ''computed'', ''sourceCutoffAt''] INVALID_FACT_SNAPSHOT) (\<lambda>_.
     rbind (case map_of snapshot ''sourceCutoffAt'' of
              Some (JStr text) \<Rightarrow>
                if \<not> dateTimePrefix text \<or> \<not> zoneSuffix text then Inl TIME_AMBIGUOUS
                else (case parseDate text of None \<Rightarrow> Inl TIME_AMBIGUOUS | Some instant \<Rightarrow> Inr instant)
            | _ \<Rightarrow> Inl TIME_AMBIGUOUS) (\<lambda>sourceCutoffAt.
     rbind (normalizeFactMap show parseDate toISO (map_of snapshot ''attributes'')) (\<lambda>attributes.
     rbind (normalizeFactMap show parseDate toISO (map_of snapshot ''computed'')) (\<lambda>computed.
     Inr \<lparr> fs_attributes = attributes, fs_computed = computed, fs_sourceCutoffAt = toISO sourceCutoffAt \<rparr>)))))"

section \<open>Digests\<close>

function canonicalJson :: "(rat \<Rightarrow> string) \<Rightarrow> json \<Rightarrow> segment_error + string" where
  "canonicalJson show JNull = Inr ''null''"
| "canonicalJson show (JStr s) = Inr (jsonQuote s)"
| "canonicalJson show (JBool b) = Inr (if b then ''true'' else ''false'')"
| "canonicalJson show (JNum n) = (case n of Fin r \<Rightarrow> Inr (show r) | _ \<Rightarrow> Inl FACT_TYPE_MISMATCH)"
| "canonicalJson show (JArr xs) =
     rbind (rmap (canonicalJson show) xs) (\<lambda>parts. Inr (''['' @ commaSep parts @ '']''))"
| "canonicalJson show (JObj ps) =
     rbind (rmap (\<lambda>p. rbind (canonicalJson show (snd p)) (\<lambda>text. Inr (jsonQuote (fst p) @ '':'' @ text)))
              (sort_key fst ps))
       (\<lambda>parts. Inr (''{'' @ commaSep parts @ ''}''))"
  by pat_completeness auto

termination canonicalJson
  by (relation "measure (\<lambda>(show, j). size j)") (auto dest: json_size_item json_size_entry)

definition stableDigest :: "(string \<Rightarrow> string) \<Rightarrow> (rat \<Rightarrow> string) \<Rightarrow> json \<Rightarrow> segment_error + string" where
  "stableDigest sha256 show v = rbind (canonicalJson show v) (\<lambda>text. Inr (sha256 text))"

definition segmentDefinitionContentDigest :: "(string \<Rightarrow> string) \<Rightarrow> (rat \<Rightarrow> string) \<Rightarrow> json \<Rightarrow> segment_error + string" where
  "segmentDefinitionContentDigest sha256 show v =
     rbind (validateSegmentDefinitionContent show v) (\<lambda>content. stableDigest sha256 show (JObj content))"

section \<open>The segment evaluator\<close>

record evaluate_segment_input =
  si_tenantId :: string
  si_contactId :: string
  si_segmentId :: string
  si_segmentDefinitionVersion :: rat
  si_snapshotVersion :: rat
  si_definition :: json
  si_snapshot :: fact_snapshot

datatype segment_outcome = OUTCOME_MATCH | OUTCOME_NO_MATCH | OUTCOME_ERROR

record segment_evaluation =
  se_outcome :: segment_outcome
  se_matched :: bool
  se_errorCode :: "expression_error_code option"
  se_inputDigest :: string
  se_evaluationDigest :: string

fun valueJson :: "expression_value \<Rightarrow> json" where
  "valueJson VNull = JNull"
| "valueJson (VStr s) = JStr s"
| "valueJson (VNum n) = JNum n"
| "valueJson (VBool b) = JBool b"

definition factJson :: "fact_map \<Rightarrow> json" where
  "factJson facts = JObj (map (\<lambda>(k, v). (k, valueJson v)) facts)"

fun truthy :: "expression_value \<Rightarrow> bool" where
  "truthy VNull = False"
| "truthy (VStr s) = (s \<noteq> [])"
| "truthy (VNum n) = (n \<noteq> Fin 0 \<and> n \<noteq> NaN)"
| "truthy (VBool b) = b"

fun errorCodeText :: "expression_error_code \<Rightarrow> string" where
  "errorCodeText INVALID_EXPRESSION = ''INVALID_EXPRESSION''"
| "errorCodeText UNSUPPORTED_VERSION = ''UNSUPPORTED_VERSION''"
| "errorCodeText TYPE_MISMATCH = ''TYPE_MISMATCH''"
| "errorCodeText LIMIT_EXCEEDED = ''LIMIT_EXCEEDED''"
| "errorCodeText EVALUATION_TIMEOUT = ''EVALUATION_TIMEOUT''"
| "errorCodeText FORBIDDEN_REFERENCE = ''FORBIDDEN_REFERENCE''"

fun outcomeText :: "segment_outcome \<Rightarrow> string" where
  "outcomeText OUTCOME_MATCH = ''MATCH''"
| "outcomeText OUTCOME_NO_MATCH = ''NO_MATCH''"
| "outcomeText OUTCOME_ERROR = ''ERROR''"

definition sensitivePathsOf :: "string \<Rightarrow> fact_map \<Rightarrow> string list list" where
  "sensitivePathsOf base facts = map (\<lambda>p. [base, fst p]) facts"

definition segmentInputJson :: "evaluate_segment_input \<Rightarrow> (string \<times> json) list \<Rightarrow> json" where
  "segmentInputJson input content =
     JObj [(''tenantId'', JStr (si_tenantId input)),
       (''contactId'', JStr (si_contactId input)),
       (''segmentId'', JStr (si_segmentId input)),
       (''segmentDefinitionVersion'', JNum (Fin (si_segmentDefinitionVersion input))),
       (''snapshotVersion'', JNum (Fin (si_snapshotVersion input))),
       (''evaluatorVersion'', JStr ''C360_SEGMENT_EVALUATOR_V1''),
       (''definition'', JObj content),
       (''snapshot'', JObj
          [(''attributes'', factJson (fs_attributes (si_snapshot input))),
           (''computed'', factJson (fs_computed (si_snapshot input))),
           (''sourceCutoffAt'', JStr (fs_sourceCutoffAt (si_snapshot input)))])]"

definition segmentExpressionInput :: "(string \<times> json) list \<Rightarrow> fact_snapshot \<Rightarrow> evaluate_expression_input" where
  "segmentExpressionInput content snapshot =
     \<lparr> ei_document = (case map_of content ''expression'' of Some (JObj document) \<Rightarrow> document | _ \<Rightarrow> []),
       ei_context = [(''contact'', factJson (fs_attributes snapshot)), (''vars'', factJson (fs_computed snapshot))],
       ei_expectedType = TBoolean,
       ei_sensitivePaths = Some (sensitivePathsOf ''contact'' (fs_attributes snapshot) @
         sensitivePathsOf ''vars'' (fs_computed snapshot)) \<rparr>"

text \<open>
  The evaluator of expressions is an argument of the class's constructor; an exception it throws
  passes through.
\<close>

definition evaluateSegment :: "(string \<Rightarrow> string) \<Rightarrow> (rat \<Rightarrow> string) \<Rightarrow>
    (evaluate_expression_input \<Rightarrow> expression_evaluation_result) \<Rightarrow> evaluate_segment_input \<Rightarrow>
    segment_error + segment_evaluation" where
  "evaluateSegment sha256 show expressionEvaluator input =
     rbind (validateSegmentDefinitionContent show (si_definition input)) (\<lambda>content.
     rbind (stableDigest sha256 show (segmentInputJson input content)) (\<lambda>inputDigest.
     rbind (case expressionEvaluator (segmentExpressionInput content (si_snapshot input)) of
              ERROR code _ \<Rightarrow> Inr (OUTCOME_ERROR, Some code)
            | OK v _ \<Rightarrow> Inr (if truthy v then OUTCOME_MATCH else OUTCOME_NO_MATCH, None)
            | Threw \<Rightarrow> Inl JsTypeError) (\<lambda>(outcome, errorCode).
     rbind (stableDigest sha256 show (JObj [(''inputDigest'', JStr inputDigest),
              (''outcome'', JStr (outcomeText outcome)),
              (''errorCode'', case errorCode of None \<Rightarrow> JNull | Some code \<Rightarrow> JStr (errorCodeText code))]))
       (\<lambda>evaluationDigest.
     Inr \<lparr> se_outcome = outcome, se_matched = (outcome = OUTCOME_MATCH), se_errorCode = errorCode,
           se_inputDigest = inputDigest, se_evaluationDigest = evaluationDigest \<rparr>))))"

end
