(* ===== verification/SegmentGuarantees.thy ===== *)
theory SegmentGuarantees
  imports Segments ExpressionGuarantees
begin

text \<open>
  What the authoring check of a segment definition promises its evaluation: an accepted definition
  whose comparison operators are strings is a document of the expression language, so evaluating it
  fails only on a limit, on the types of the facts or on the deadline. The contract the segment
  evaluator relies on is stated as a locale and discharged by the evaluator of
  \<open>packages/expression\<close>.
\<close>

section \<open>The contract of an expression evaluator\<close>

locale expression_evaluator =
  fixes run :: "evaluate_expression_input \<Rightarrow> expression_evaluation_result"
  assumes never_throws: "run input \<noteq> Threw"
    and expected_type: "run input = OK v tr \<Longrightarrow> valueType v = ei_expectedType input"
begin

text \<open>A segment evaluation matches exactly when its expression evaluates to \<open>true\<close>.\<close>

lemma segment_outcome:
  assumes "evaluateSegment sha256 show run input = Inr evaluation"
  obtains content where "validateSegmentDefinitionContent show (si_definition input) = Inr content"
    and "se_matched evaluation \<longleftrightarrow>
      (\<exists>tr. run (segmentExpressionInput content (si_snapshot input)) = OK (VBool True) tr)"
    and "\<And>code. se_errorCode evaluation = Some code \<longleftrightarrow>
      (\<exists>tr. run (segmentExpressionInput content (si_snapshot input)) = ERROR code tr)"
    and "se_matched evaluation \<longleftrightarrow> se_outcome evaluation = OUTCOME_MATCH"
    and "se_outcome evaluation = OUTCOME_ERROR \<longleftrightarrow> se_errorCode evaluation \<noteq> None"
proof -
  from assms obtain content where c: "validateSegmentDefinitionContent show (si_definition input) = Inr content"
    by (auto simp: evaluateSegment_def result_simps)
  let ?r = "run (segmentExpressionInput content (si_snapshot input))"
  show thesis
  proof (cases ?r)
    case (OK v tr)
    have "valueType v = TBoolean" using expected_type [OF OK] by (simp add: segmentExpressionInput_def)
    then obtain b where "v = VBool b" by (cases v) auto
    with OK c assms show thesis
      by (cases b; intro that [OF c]) (auto simp: evaluateSegment_def result_simps)
  next
    case (ERROR code tr)
    with c assms show thesis by (intro that [OF c]) (auto simp: evaluateSegment_def result_simps)
  qed (simp add: never_throws)
qed

end

lemma evaluate_not_Threw: "evaluate now show input \<noteq> Threw"
  by (cases rule: evaluation_cases [of now "show" input]) (auto simp: answers_def split: sum.splits)

lemma evaluate_OK_type: "evaluate now show input = OK v tr \<Longrightarrow> valueType v = ei_expectedType input"
  by (cases rule: evaluation_cases [of now "show" input])
    (auto simp: answers_def split: sum.splits if_splits)

interpretation dc_expr: expression_evaluator "evaluate now show" for now "show"
  by unfold_locales (auto simp: evaluate_not_Threw dest: evaluate_OK_type)

section \<open>Which errors an expression of the language can have\<close>

lemma asBool_error:
  "asBool r f = Inl c \<Longrightarrow> (\<And>c'. r = Inl c' \<Longrightarrow> c' = TYPE_MISMATCH) \<Longrightarrow>
   (\<And>b. f b = Inl c \<Longrightarrow> c = TYPE_MISMATCH) \<Longrightarrow> c = TYPE_MISMATCH"
  by (cases r; cases "projr r") (auto simp: asBool_def)

lemma items_error:
  assumes "\<forall>r \<in> set rs. \<forall>c. r = Inl c \<longrightarrow> c = TYPE_MISMATCH"
  shows "allTrue rs = Inl c \<Longrightarrow> c = TYPE_MISMATCH" "someTrue rs = Inl c \<Longrightarrow> c = TYPE_MISMATCH"
    "someEqual v rs = Inl c \<Longrightarrow> c = TYPE_MISMATCH" "firstNonNull rs = Inl c \<Longrightarrow> c = TYPE_MISMATCH"
  using assms
proof -
  show "allTrue rs = Inl c \<Longrightarrow> c = TYPE_MISMATCH"
    using assms by (induction rs) (auto elim!: asBool_error split: if_splits)
  show "someTrue rs = Inl c \<Longrightarrow> c = TYPE_MISMATCH"
    using assms by (induction rs) (auto elim!: asBool_error split: if_splits)
  show "someEqual v rs = Inl c \<Longrightarrow> c = TYPE_MISMATCH"
    using assms by (induction rs) (auto simp: result_simps split: if_splits)
  show "firstNonNull rs = Inl c \<Longrightarrow> c = TYPE_MISMATCH"
    using assms by (induction rs) (auto simp: result_simps split: if_splits)
qed

lemma compare_error: "compare op a b = Inl c \<Longrightarrow> c = TYPE_MISMATCH"
  by (auto simp: compare_def split: if_splits expression_value.splits)

lemma resolvePath_error:
  "resolvePath v path = Inl c \<Longrightarrow> \<forall>s \<in> set path. s \<notin> set FORBIDDEN_SEGMENTS \<Longrightarrow> c = TYPE_MISMATCH"
  by (induction v path rule: resolvePath.induct) (auto split: option.splits json.splits if_splits)

lemma validReference_error:
  assumes "validateReference p = Inr ()" and "referencePath p = Some path"
    and "resolveReference context path = Inl c"
  shows "c = TYPE_MISMATCH"
  using assms by (cases path) (auto simp: validateReference_def list_ex_iff dest: resolvePath_error split: if_splits)

lemma all2_denote_error:
  assumes "list_all2 (\<lambda>x e. represents x e \<and> (\<forall>c. denote context e = Inl c \<longrightarrow> c = TYPE_MISMATCH)) xs es"
  shows "\<forall>r \<in> set (map (denote context) es). \<forall>c. r = Inl c \<longrightarrow> c = TYPE_MISMATCH"
  using assms by (induction rule: list_all2_induct) auto

lemma denote_error: "represents j e \<Longrightarrow> denote context e = Inl c \<Longrightarrow> c = TYPE_MISMATCH"
proof (induction arbitrary: c rule: represents.induct)
  case (conj ps xs es)
  then have "allTrue (map (denote context) es) = Inl c" by simp
  from items_error(1) [OF all2_denote_error this] conj(3) show ?case by auto
next
  case (disj ps xs es)
  then have "someTrue (map (denote context) es) = Inl c" by simp
  from items_error(2) [OF all2_denote_error this] disj(3) show ?case by auto
next
  case (neg ps x e)
  then show ?case by (auto elim!: asBool_error)
next
  case (isin ps xs x e es)
  then consider "denote context e = Inl c" | v where "someEqual v (map (denote context) es) = Inl c"
    by (auto simp: result_simps)
  then show ?case using isin items_error(3) [OF all2_denote_error] by cases auto
next
  case (coal ps xs es)
  then have "firstNonNull (map (denote context) es) = Inl c" by simp
  from items_error(4) [OF all2_denote_error this] coal(4) show ?case by auto
qed (auto simp: result_simps intro: compare_error validReference_error)

definition limitOnly :: "expression_error_code + 'a \<Rightarrow> bool" where
  "limitOnly r \<longleftrightarrow> (\<forall>c. r = Inl c \<longrightarrow> c = LIMIT_EXCEEDED)"

lemma limitOnly_simps [simp]: "limitOnly (Inr x)" "limitOnly (Inl c) \<longleftrightarrow> c = LIMIT_EXCEEDED"
  by (auto simp: limitOnly_def)

lemma limitOnly_rbind: "limitOnly r \<Longrightarrow> (\<And>x. limitOnly (f x)) \<Longrightarrow> limitOnly (rbind r f)"
  by (cases r) auto

lemma validateAll_limitOnly:
  "list_all2 (\<lambda>x e. represents x e \<and> (\<forall>depth n. limitOnly (validate (Some x) depth n))) xs es \<Longrightarrow>
   limitOnly (validateAll xs depth n)"
  by (induction arbitrary: n rule: list_all2_induct) (auto intro: limitOnly_rbind)

lemma validate_limitOnly: "represents j e \<Longrightarrow> limitOnly (validate (Some j) depth n)"
proof (induction arbitrary: depth n rule: represents.induct)
  case (conj ps xs es)
  from validateAll_limitOnly [OF conj(3)] conj(1,2) show ?case by simp
next
  case (disj ps xs es)
  from validateAll_limitOnly [OF disj(3)] disj(1,2) show ?case by simp
next
  case (isin ps xs x e es)
  from validateAll_limitOnly [OF isin(6)] isin(1-3,5) show ?case by (auto intro!: limitOnly_rbind)
next
  case (coal ps xs es)
  from validateAll_limitOnly [OF coal(4)] coal(1-3) show ?case by (cases xs) auto
qed (auto simp: isLiteralValue_def intro!: limitOnly_rbind)

section \<open>Accepted definitions are expressions\<close>

text \<open>Every comparison of the document has one of the six operator strings.\<close>

fun plainOperators :: "json \<Rightarrow> bool" where
  "plainOperators (JObj ps) \<longleftrightarrow>
     (map_of ps ''type'' = Some (JStr ''comparison'') \<longrightarrow> comparisonOperator (map_of ps ''operator'') \<noteq> None) \<and>
     list_all (\<lambda>p. plainOperators (snd p)) ps"
| "plainOperators (JArr xs) \<longleftrightarrow> list_all plainOperators xs"
| "plainOperators _ \<longleftrightarrow> True"

lemma plainOperators_prop: "plainOperators (JObj ps) \<Longrightarrow> map_of ps k = Some v \<Longrightarrow> plainOperators v"
  using map_of_SomeD [of ps k v] by (fastforce simp: list_all_iff)

lemma validateSegmentReference_sound:
  assumes "validateSegmentReference p = Inr ()"
  obtains path where "referencePath p = Some path" and "validateReference p = Inr ()"
proof -
  from assms obtain path where p: "referencePath p = Some path" "2 \<le> length path"
    "hd path = ''contact'' \<or> hd path = ''vars''" "\<not> list_ex (\<lambda>part. part \<in> set FORBIDDEN_SEGMENTS) path"
    by (auto simp: validateSegmentReference_def FORBIDDEN_SEGMENTS_def split: option.splits if_splits)
  then have "validateReference p = Inr ()"
    by (cases path) (auto simp: validateReference_def)
  with p(1) that show thesis by blast
qed

lemma validateSegmentLiteral_sound: "validateSegmentLiteral v = Inr () \<Longrightarrow> \<exists>j x. v = Some j \<and> literalValue j = Some x"
  by (cases v) (auto simp: validateSegmentLiteral_def split: option.splits)

lemma segment_node_represents:
  assumes v: "validateExpressionNode show (Some (JObj ps)) = Inr ()" and plain: "plainOperators (JObj ps)"
    and one: "\<And>k. validateExpressionNode show (map_of ps k) = Inr () \<Longrightarrow> \<exists>x e. map_of ps k = Some x \<and> represents x e"
    and many: "\<And>k xs. map_of ps k = Some (JArr xs) \<Longrightarrow> validateExpressionNodes show xs = Inr () \<Longrightarrow>
      \<exists>es. list_all2 represents xs es"
  shows "\<exists>e. represents (JObj ps) e"
proof -
  from v obtain kind where kind: "map_of ps ''type'' = Some (JStr kind)"
    by (auto split: option.splits json.splits)
  note s = v [unfolded validateExpressionNode.simps kind option.case json.case]
  have "kind \<in> {''literal'', ''ref'', ''and'', ''or'', ''not'', ''isNull'', ''comparison'', ''in'', ''coalesce''}"
    (is "kind \<in> ?kinds")
  proof (rule ccontr)
    assume "kind \<notin> ?kinds"
    with s show False by (simp only: insert_iff empty_iff de_Morgan_disj simp_thms if_False sum.distinct)
  qed
  then consider "kind = ''literal''" | "kind = ''ref''" | "kind = ''and''" | "kind = ''or''" | "kind = ''not''"
    | "kind = ''isNull''" | "kind = ''comparison''" | "kind = ''in''" | "kind = ''coalesce''"
    by (elim insertE emptyE)
  then show ?thesis
  proof cases
    case 1
    with s validateSegmentLiteral_sound kind show ?thesis
      by (fastforce simp: result_simps intro: represents.lit)
  next
    case 2
    with s have "validateSegmentReference (map_of ps ''path'') = Inr ()" by (auto simp: result_simps)
    then obtain path where "referencePath (map_of ps ''path'') = Some path" "validateReference (map_of ps ''path'') = Inr ()"
      by (rule validateSegmentReference_sound)
    with 2 kind show ?thesis by (auto intro: represents.ref)
  next
    case 3
    with s many kind show ?thesis
      by (fastforce simp: result_simps intro: represents.conj split: option.splits json.splits)
  next
    case 4
    with s many kind show ?thesis
      by (fastforce simp: result_simps intro: represents.disj split: option.splits json.splits)
  next
    case 5
    with s one kind show ?thesis by (fastforce simp: result_simps intro: represents.neg)
  next
    case 6
    with s one kind show ?thesis by (fastforce simp: result_simps intro: represents.isnull)
  next
    case 7
    with plain kind obtain op where "comparisonOperator (map_of ps ''operator'') = Some op" by auto
    moreover from 7 s one obtain x e y f where "map_of ps ''left'' = Some x" "represents x e"
      "map_of ps ''right'' = Some y" "represents y f" by (auto simp: result_simps) blast
    ultimately show ?thesis using 7 kind by (auto intro: represents.cmp)
  next
    case 8
    with s obtain xs where xs: "map_of ps ''items'' = Some (JArr xs)" "validateExpressionNodes show xs = Inr ()"
      "validateExpressionNode show (map_of ps ''value'') = Inr ()"
      by (auto simp: result_simps split: option.splits json.splits)
    with 8 kind many [OF xs(1,2)] one [OF xs(3)] show ?thesis by (auto intro: represents.isin)
  next
    case 9
    with s obtain xs where xs: "map_of ps ''operands'' = Some (JArr xs)" "xs \<noteq> []" "validateExpressionNodes show xs = Inr ()"
      by (auto simp: result_simps split: option.splits json.splits list.splits)
    with 9 kind many [OF xs(1,3)] show ?thesis by (auto intro: represents.coal)
  qed
qed

lemma segment_represents:
  "validateExpressionNode show v = Inr () \<Longrightarrow> (\<And>x. v = Some x \<Longrightarrow> plainOperators x) \<Longrightarrow>
     \<exists>x e. v = Some x \<and> represents x e"
  "validateExpressionNodes show xs = Inr () \<Longrightarrow> list_all plainOperators xs \<Longrightarrow> \<exists>es. list_all2 represents xs es"
proof -
  have "(\<forall>v. nodeSize v < N \<longrightarrow> validateExpressionNode show v = Inr () \<longrightarrow> (\<forall>x. v = Some x \<longrightarrow> plainOperators x) \<longrightarrow>
      (\<exists>x e. v = Some x \<and> represents x e)) \<and>
    (\<forall>xs. itemsSize xs < N \<longrightarrow> validateExpressionNodes show xs = Inr () \<longrightarrow> list_all plainOperators xs \<longrightarrow>
      (\<exists>es. list_all2 represents xs es))" for N
  proof (induction N)
    case (Suc N)
    have "\<exists>x e. v = Some x \<and> represents x e"
      if lt: "nodeSize v < Suc N" and ok: "validateExpressionNode show v = Inr ()"
        and plain: "\<forall>x. v = Some x \<longrightarrow> plainOperators x" for v
    proof -
      from ok obtain ps where v: "v = Some (JObj ps)"
        by (cases "(show, v)" rule: validateExpressionNode.cases) auto
      have le: "nodeSize (map_of ps k) < N" for k
        using nodeSize_prop [of ps k] lt v by simp
      have "\<exists>e. represents (JObj ps) e"
      proof (rule segment_node_represents)
        show "\<exists>x e. map_of ps k = Some x \<and> represents x e"
          if "validateExpressionNode show (map_of ps k) = Inr ()" for k
          using Suc.IH le that plain v plainOperators_prop by blast
        show "\<exists>es. list_all2 represents xs es"
          if "map_of ps k = Some (JArr xs)" "validateExpressionNodes show xs = Inr ()" for k xs
        proof -
          have "itemsSize xs < N" using itemsSize_prop [OF that(1)] lt v by simp
          moreover have "list_all plainOperators xs"
            using plain v plainOperators_prop [OF _ that(1)] by simp
          ultimately show ?thesis using Suc.IH that(2) by blast
        qed
      qed (use ok plain v in auto)
      with v show ?thesis by blast
    qed
    moreover have "\<exists>es. list_all2 represents xs es"
      if "itemsSize xs < Suc N" "validateExpressionNodes show xs = Inr ()" "list_all plainOperators xs" for xs
    proof (cases xs)
      case (Cons x ys)
      from itemsSize_Cons(1) [of x ys] itemsSize_Cons(2) [of ys x] that(1) Cons
      have "nodeSize (Some x) < N" "itemsSize ys < N" by auto
      moreover from that(2,3) Cons have "validateExpressionNode show (Some x) = Inr ()"
        "validateExpressionNodes show ys = Inr ()" "plainOperators x" "list_all plainOperators ys"
        by (auto simp: result_simps)
      ultimately obtain e es where "represents x e" "list_all2 represents ys es"
        using Suc.IH by blast
      with Cons show ?thesis by (intro exI [of _ "e # es"]) simp
    qed simp
    ultimately show ?case by blast
  qed simp
  then show "validateExpressionNode show v = Inr () \<Longrightarrow> (\<And>x. v = Some x \<Longrightarrow> plainOperators x) \<Longrightarrow>
     \<exists>x e. v = Some x \<and> represents x e"
   "validateExpressionNodes show xs = Inr () \<Longrightarrow> list_all plainOperators xs \<Longrightarrow> \<exists>es. list_all2 represents xs es"
    by blast+
qed

lemma objectValue_Inr: "objectValue v code = Inr ps \<longleftrightarrow> v = Some (JObj ps)"
  by (auto simp: objectValue_def split: option.splits json.splits)

lemma accepted_definition:
  assumes "validateSegmentDefinitionContent show v = Inr content"
  obtains fields document where "v = JObj fields" and "map_of fields ''expression'' = Some (JObj document)"
    and "map_of content ''expression'' = Some (JObj document)"
    and "map_of document ''language'' = Some (JStr ''DC_EXPR'')"
    and "map_of document ''version'' = Some (JNum (Fin 1))"
    and "validateExpressionNode show (map_of document ''expression'') = Inr ()"
proof -
  from assms obtain fields where f: "v = JObj fields"
    by (auto simp: validateSegmentDefinitionContent_def result_simps objectValue_Inr)
  obtain name where n: "map_of fields ''name'' = Some (JStr name)"
    using assms by (auto simp: validateSegmentDefinitionContent_def result_simps objectValue_Inr f
        split: option.splits json.splits)
  obtain document where d: "map_of fields ''expression'' = Some (JObj document)"
    "map_of document ''language'' = Some (JStr ''DC_EXPR'')"
    "map_of document ''version'' = Some (JNum (Fin 1))"
    "validateExpressionNode show (map_of document ''expression'') = Inr ()"
    "map_of content ''expression'' = Some (JObj document)"
    using assms by (auto simp: validateSegmentDefinitionContent_def result_simps objectValue_Inr f n)
  with f that show thesis by blast
qed

lemma evaluate_error_codes:
  assumes "map_of (ei_document input) ''language'' = Some (JStr ''DC_EXPR'')"
    and "map_of (ei_document input) ''version'' = Some (JNum (Fin 1))"
    and "map_of (ei_document input) ''expression'' = Some j" and "represents j e"
    and "evaluate now show input = ERROR code tr"
  shows "code \<in> {LIMIT_EXCEEDED, TYPE_MISMATCH, EVALUATION_TIMEOUT}"
proof (cases "header_ok show input")
  case False
  with assms show ?thesis
    by (simp add: header_ok_def evaluate_def Let_def not_le split: if_splits)
next
  case h: True
  show ?thesis
  proof (cases "validate (map_of (ei_document input) ''expression'') 1 0")
    case (Inl c)
    with evaluate_rejected [OF h Inl, of now] validate_limitOnly [OF assms(4), of 1 0] assms(3,5)
    show ?thesis by (simp add: limitOnly_def)
  next
    case (Inr m)
    then obtain f where f: "represents j f" "nodes f \<le> MAX_NODES" "height f \<le> MAX_DEPTH"
      using validate_sound(1) [OF Inr] assms(3) by (auto simp: accepted_def)
    obtain k where "evaluate now show input = answers now input (denote (ei_context input) f) k \<or>
        evaluate now show input = ERROR EVALUATION_TIMEOUT (traceOf now input None k)"
      by (rule evaluate_accepted [OF h assms(3) f, of now]) blast
    with assms(5) denote_error [OF f(1)] show ?thesis
      by (auto simp: answers_def split: sum.splits if_splits)
  qed
qed

text \<open>
  C22. A segment definition that authoring accepts, with operator strings in its comparisons, can only
  fail on a limit, on the types of the facts or on the deadline: its evaluation is never refused as
  an invalid expression, an unsupported version or a forbidden reference.
\<close>

theorem accepted_segment_evaluates:
  assumes "evaluateSegment sha256 show (evaluate now show) input = Inr evaluation"
    and "plainOperators (si_definition input)"
    and "se_errorCode evaluation = Some code"
  shows "code \<in> {LIMIT_EXCEEDED, TYPE_MISMATCH, EVALUATION_TIMEOUT}"
proof -
  obtain content tr where c: "validateSegmentDefinitionContent show (si_definition input) = Inr content"
    and r: "evaluate now show (segmentExpressionInput content (si_snapshot input)) = ERROR code tr"
    using dc_expr.segment_outcome [OF assms(1)] assms(3) by metis
  obtain fields document where d: "si_definition input = JObj fields"
    "map_of fields ''expression'' = Some (JObj document)"
    "map_of content ''expression'' = Some (JObj document)"
    "map_of document ''language'' = Some (JStr ''DC_EXPR'')"
    "map_of document ''version'' = Some (JNum (Fin 1))"
    "validateExpressionNode show (map_of document ''expression'') = Inr ()"
    by (rule accepted_definition [OF c])
  have "plainOperators (JObj document)" using plainOperators_prop d(1,2) assms(2) by metis
  with d(6) obtain j e where j: "map_of document ''expression'' = Some j" "represents j e"
    using segment_represents(1) plainOperators_prop by meson
  have "ei_document (segmentExpressionInput content (si_snapshot input)) = document"
    using d(3) by (simp add: segmentExpressionInput_def)
  with evaluate_error_codes [OF _ _ _ j(2) r] d(4,5) j(1) show ?thesis by simp
qed

definition comparisonDefinition :: "json \<Rightarrow> json \<Rightarrow> json \<Rightarrow> json" where
  "comparisonDefinition op l r =
     JObj [(''contractVersion'', JNum (Fin 1)), (''name'', JStr ''gold''), (''expression'', JObj
       [(''language'', JStr ''DC_EXPR''), (''version'', JNum (Fin 1)), (''expression'', JObj
         [(''type'', JStr ''comparison''), (''operator'', op), (''left'', l), (''right'', r)])])]"

definition sample_ref :: json where
  "sample_ref = JObj [(''type'', JStr ''ref''), (''path'', JArr [JStr ''vars'', JStr ''spend''])]"

definition sample_literal :: json where
  "sample_literal = JObj [(''type'', JStr ''literal''), (''value'', JNum (Fin 5))]"

definition sample_segment :: "json \<Rightarrow> expression_value \<Rightarrow> evaluate_segment_input" where
  "sample_segment op spend = \<lparr>
     si_tenantId = ''t'', si_contactId = ''c'', si_segmentId = ''s'',
     si_segmentDefinitionVersion = 1, si_snapshotVersion = 1,
     si_definition = comparisonDefinition op sample_ref sample_literal,
     si_snapshot = \<lparr> fs_attributes = [], fs_computed = [(''spend'', spend)], fs_sourceCutoffAt = ''2026'' \<rparr> \<rparr>"

definition sample_evaluation :: "json \<Rightarrow> expression_value \<Rightarrow> segment_error + segment_evaluation" where
  "sample_evaluation op spend =
     evaluateSegment (\<lambda>x. ''digest'') (\<lambda>_. ''1'') (evaluate (\<lambda>i. 0) (\<lambda>_. ''1'')) (sample_segment op spend)"

lemma sample_evaluation_mismatch:
  "(case sample_evaluation (JStr ''gt'') (VStr ''7'') of Inr ev \<Rightarrow> se_errorCode ev = Some TYPE_MISMATCH | Inl _ \<Rightarrow> False)"
  by code_simp

theorem accepted_segment_evaluates_witness:
  "\<exists>evaluation. sample_evaluation (JStr ''gt'') (VStr ''7'') = Inr evaluation \<and>
     the (se_errorCode evaluation) \<in> {LIMIT_EXCEEDED, TYPE_MISMATCH, EVALUATION_TIMEOUT}"
proof -
  obtain evaluation where e: "sample_evaluation (JStr ''gt'') (VStr ''7'') = Inr evaluation"
    "se_errorCode evaluation = Some TYPE_MISMATCH"
    using sample_evaluation_mismatch by (auto split: sum.splits)
  have "plainOperators (si_definition (sample_segment (JStr ''gt'') (VStr ''7'')))" by code_simp
  from accepted_segment_evaluates [OF e(1) [unfolded sample_evaluation_def] this e(2)] e show ?thesis by auto
qed

text \<open>
  C32. Authoring compares \<open>String(operator)\<close> with the operator names while the evaluator compares the
  operator itself: a comparison whose operator is a one-element array of a name is accepted as a
  segment definition, and every evaluation of it is an error, whatever the contact's facts.
\<close>

theorem array_operator_never_evaluates:
  assumes "name \<in> {''eq'', ''ne'', ''gt'', ''gte'', ''lt'', ''lte''}"
    and "validateExpressionNode show (Some l) = Inr ()" and "validateExpressionNode show (Some r) = Inr ()"
    and "si_definition input = comparisonDefinition (JArr [JStr name]) l r"
  shows "(\<exists>content. validateSegmentDefinitionContent show (si_definition input) = Inr content) \<and>
    (\<forall>sha256 now evaluation. evaluateSegment sha256 show (evaluate now show) input = Inr evaluation \<longrightarrow>
       se_outcome evaluation = OUTCOME_ERROR)"
proof (intro conjI allI impI)
  have "jsString show (JArr [JStr name]) = Some name" by simp
  with assms(1) have "validateSegmentOperator show (Some (JArr [JStr name])) = Inr ()"
    by (simp add: validateSegmentOperator_def del: jsString.simps)
  then show "\<exists>content. validateSegmentDefinitionContent show (si_definition input) = Inr content"
    using assms(2,3) unfolding assms(4) comparisonDefinition_def
    by (simp add: validateSegmentDefinitionContent_def objectValue_def exactKeys_def js_trim_def js_space_def)
next
  fix sha256 now evaluation
  assume ev: "evaluateSegment sha256 show (evaluate now show) input = Inr evaluation"
  then show "se_outcome evaluation = OUTCOME_ERROR"
  proof (rule dc_expr.segment_outcome)
    fix content
    let ?in = "segmentExpressionInput content (si_snapshot input)"
    assume c: "validateSegmentDefinitionContent show (si_definition input) = Inr content"
      and code: "\<And>code. (se_errorCode evaluation = Some code) = (\<exists>tr. evaluate now show ?in = ERROR code tr)"
      and out: "(se_outcome evaluation = OUTCOME_ERROR) = (se_errorCode evaluation \<noteq> None)"
    from c obtain fields document where "si_definition input = JObj fields"
      "map_of fields ''expression'' = Some (JObj document)" "map_of content ''expression'' = Some (JObj document)"
      by (rule accepted_definition)
    then have "map_of (ei_document ?in) ''expression'' = Some (JObj
        [(''type'', JStr ''comparison''), (''operator'', JArr [JStr name]), (''left'', l), (''right'', r)])"
      using assms(4) by (auto simp: segmentExpressionInput_def comparisonDefinition_def)
    then have "validate (map_of (ei_document ?in) ''expression'') 1 0 = Inl INVALID_EXPRESSION"
      by (simp add: MAX_DEPTH_def MAX_NODES_def comparisonOperator_def)
    then obtain code tr where "evaluate now show ?in = ERROR code tr"
      using evaluate_header [of "show" ?in now] evaluate_rejected [of "show" ?in _ now] by blast
    with code out show "se_outcome evaluation = OUTCOME_ERROR" by blast
  qed
qed

lemma sample_evaluation_array:
  "(case sample_evaluation (JArr [JStr ''gt'']) (VNum (Fin 7)) of Inr ev \<Rightarrow> True | Inl _ \<Rightarrow> False)"
  by code_simp

theorem array_operator_never_evaluates_witness:
  "\<exists>evaluation. sample_evaluation (JArr [JStr ''gt'']) (VNum (Fin 7)) = Inr evaluation \<and>
     se_outcome evaluation = OUTCOME_ERROR"
proof -
  obtain evaluation where e: "sample_evaluation (JArr [JStr ''gt'']) (VNum (Fin 7)) = Inr evaluation"
    using sample_evaluation_array by (auto split: sum.splits)
  have "validateExpressionNode (\<lambda>_. ''1'') (Some sample_ref) = Inr ()" by code_simp
  moreover have "validateExpressionNode (\<lambda>_. ''1'') (Some sample_literal) = Inr ()" by code_simp
  ultimately show ?thesis
    using array_operator_never_evaluates [of "''gt''" "\<lambda>_. ''1''" sample_ref sample_literal
        "sample_segment (JArr [JStr ''gt'']) (VNum (Fin 7))"] e
    by (simp add: sample_evaluation_def sample_segment_def)
qed

end
