(* ===== verification/ExceptionLifecycle.thy ===== *)
theory ExceptionLifecycle
  imports ApprovalRepository
begin

text \<open>
  The life of an approved exception: recording a revision
  (\<open>apps/contact-governance/src/cg4-foundation-repository.ts\<close>), the workflow transitions of a series
  (\<open>cg4-exception-lifecycle.ts\<close>), the version of the contact event stream both publish on
  (\<open>cg4-contact-stream.ts\<close>) and the vote the gateway casts with the canonical maker
  (\<open>cg4ExceptionMakerSubjectId\<close> of \<open>cg4-query.ts\<close>, \<open>decide\<close> of
  \<open>apps/api/src/contact-governance-cg4-api.ts\<close>).

  Each command is one database transaction, serialised per contact by an advisory lock and guarded
  by compare-and-set updates, and is modelled as one atomic step; a thrown error rolls the step
  back. The unique keys of the exception and outbox tables are part of the model. Identifiers are
  opaque strings; the \<open>n\<close>-th fresh identifier of a command is \<open>ge_id env n\<close>, one number for each use.
\<close>

section \<open>Environment and tables\<close>

record governance_env =
  ge_digest :: "json \<Rightarrow> string"
  ge_parseDate :: "string \<Rightarrow> time_ms option"
  ge_toISO :: "time_ms \<Rightarrow> string"
  ge_id :: "nat \<Rightarrow> string"
  ge_now :: "nat \<Rightarrow> time_ms"
  ge_dbNow :: time_ms

record contact_head =
  ch_tenantId :: string
  ch_contactId :: string
  ch_aggregateVersion :: int
  ch_currentDigest :: string
  ch_latestMutationId :: string

record stream_head =
  sh_tenantId :: string
  sh_contactId :: string
  sh_aggregateVersion :: int
  sh_currentDigest :: string
  sh_latestMutationId :: string

datatype outbox_state = OB_PENDING | OB_PUBLISHING | OB_PUBLISHED | OB_FAILED | OB_QUARANTINED

record outbox_row =
  ob_id :: string
  ob_mutationId :: string
  ob_tenantId :: string
  ob_aggregateType :: string
  ob_aggregateId :: string
  ob_aggregateVersion :: int
  ob_eventType :: string
  ob_orderingKey :: string
  ob_payload :: json
  ob_payloadHash :: string
  ob_state :: outbox_state
  ob_attempts :: int
  ob_availableAt :: time_ms
  ob_leaseOwner :: "string option"
  ob_leaseExpiresAt :: "time_ms option"
  ob_publishedAt :: "time_ms option"
  ob_createdAt :: time_ms

record 'r governance_receipt =
  cm_id :: string
  cm_tenantId :: string
  cm_idempotencyKey :: string
  cm_requestHash :: string
  cm_expectedVersion :: int
  cm_aggregateVersion :: int
  cm_responseStatus :: int
  cm_responseBody :: 'r

record RecordCg4ExceptionResult =
  er_mutationId :: string
  er_eventId :: string
  er_aggregateVersion :: int
  er_exception :: json

record Cg4ExceptionTransitionResult =
  tr_mutationId :: string
  tr_eventId :: string
  tr_aggregateVersion :: int
  tr_exceptionId :: string
  tr_revision :: int
  tr_workflowState :: Cg4ExceptionWorkflowState
  tr_effectiveState :: Cg4ExceptionEffectiveState
  tr_quorum :: "Cg4QuorumEvaluation option"

text \<open>
  The receipts of the two commands are kept apart: the key of the receipt table starts with the
  operation.
\<close>

record governance_store =
  gs_core :: cg4_store
  gs_contacts :: "(string \<times> string) list"
  gs_identities :: "(string \<times> string \<times> string) list"
  gs_contactHeads :: "contact_head list"
  gs_streamHeads :: "stream_head list"
  gs_outbox :: "outbox_row list"
  gs_recordReceipts :: "RecordCg4ExceptionResult governance_receipt list"
  gs_transitionReceipts :: "Cg4ExceptionTransitionResult governance_receipt list"

datatype governance_error =
    FieldTypeError string
  | FieldRangeError string
  | Cg4PolicyBindingError
  | IdempotencyConflict string
  | ResourceNotFound
  | VersionConflict int int
  | Cg4InvalidLifecycleTransitionError Cg4ExceptionWorkflowState Cg4ExceptionWorkflowState
  | Cg4ExceptionScopeConflictError string
  | NotAuthorized cg4_auth_error
  | UniqueConstraintError

section \<open>Shared helpers\<close>

definition updateWhere :: "('a \<Rightarrow> bool) \<Rightarrow> ('a \<Rightarrow> 'a) \<Rightarrow> 'a list \<Rightarrow> 'a list" where
  "updateWhere P f rows = map (\<lambda>r. if P r then f r else r) rows"

definition countWhere :: "('a \<Rightarrow> bool) \<Rightarrow> 'a list \<Rightarrow> nat" where
  "countWhere P rows = length (filter P rows)"

definition jint :: "int \<Rightarrow> json" where
  "jint n = JNum (Fin (of_int n))"

definition jopt :: "string option \<Rightarrow> json" where
  "jopt v = (case v of None \<Rightarrow> JNull | Some s \<Rightarrow> JStr s)"

text \<open>\<open>if (value)\<close> on an optional string: absent and empty are both false.\<close>

definition truthyText :: "string option \<Rightarrow> bool" where
  "truthyText v = (case v of None \<Rightarrow> False | Some s \<Rightarrow> s \<noteq> [])"

definition optionalField :: "string \<Rightarrow> string option \<Rightarrow> (string \<times> json) list" where
  "optionalField name v = (if truthyText v then [(name, jopt v)] else [])"

fun channelText :: "ContactChannel \<Rightarrow> string" where
  "channelText VOICE = ''VOICE''"
| "channelText WEBCHAT = ''WEBCHAT''"
| "channelText LINE = ''LINE''"
| "channelText FACEBOOK = ''FACEBOOK''"
| "channelText WHATSAPP = ''WHATSAPP''"
| "channelText EMAIL = ''EMAIL''"

fun tierText :: "Cg4ExceptionRiskTier \<Rightarrow> string" where
  "tierText STANDARD = ''STANDARD''"
| "tierText HIGH = ''HIGH''"
| "tierText EMERGENCY = ''EMERGENCY''"

fun workflowText :: "Cg4ExceptionWorkflowState \<Rightarrow> string" where
  "workflowText PENDING = ''PENDING''"
| "workflowText APPROVED = ''APPROVED''"
| "workflowText REJECTED = ''REJECTED''"
| "workflowText CANCELLED = ''CANCELLED''"
| "workflowText REVOKED = ''REVOKED''"

fun scopeKindText :: "exception_scope_kind \<Rightarrow> string" where
  "scopeKindText ScopeIdentity = ''IDENTITY''"
| "scopeKindText ScopeContactWide = ''CONTACT_WIDE''"

definition requireText :: "string \<Rightarrow> string \<Rightarrow> governance_error + string" where
  "requireText field v = (if js_trim v = [] then Inl (FieldTypeError field) else Inr (js_trim v))"

fun requireTexts :: "(string \<times> string) list \<Rightarrow> governance_error + unit" where
  "requireTexts [] = Inr ()"
| "requireTexts ((field, v) # rest) = rbind (requireText field v) (\<lambda>_. requireTexts rest)"

definition requireOptional :: "string \<Rightarrow> string option \<Rightarrow> governance_error + unit" where
  "requireOptional field v =
     (if truthyText v then rbind (requireText field (the v)) (\<lambda>_. Inr ()) else Inr ())"

definition instant :: "governance_env \<Rightarrow> string \<Rightarrow> string \<Rightarrow> governance_error + time_ms" where
  "instant env field v = (case ge_parseDate env v of None \<Rightarrow> Inl (FieldTypeError field) | Some t \<Rightarrow> Inr t)"

definition lowercaseSha256 :: "string \<Rightarrow> bool" where
  "lowercaseSha256 v \<longleftrightarrow> length v = 64 \<and>
     list_all (\<lambda>c. (CHR ''a'' \<le> c \<and> c \<le> CHR ''f'') \<or> (CHR ''0'' \<le> c \<and> c \<le> CHR ''9'')) v"

definition findReceiptBy :: "string \<Rightarrow> string \<Rightarrow> 'r governance_receipt list \<Rightarrow> 'r governance_receipt option" where
  "findReceiptBy tenantId key rows = find (\<lambda>r. cm_tenantId r = tenantId \<and> cm_idempotencyKey r = key) rows"

definition findHead :: "string \<Rightarrow> string \<Rightarrow> governance_store \<Rightarrow> exception_head option" where
  "findHead tenantId exceptionId st =
     find (\<lambda>h. eh_tenantId h = tenantId \<and> eh_exceptionId h = exceptionId) (st_heads (gs_core st))"

definition findContactHead :: "string \<Rightarrow> string \<Rightarrow> governance_store \<Rightarrow> contact_head option" where
  "findContactHead tenantId contactId st =
     find (\<lambda>h. ch_tenantId h = tenantId \<and> ch_contactId h = contactId) (gs_contactHeads st)"

section \<open>The contact stream\<close>

definition EMPTY_CONTACT_STATE_DIGEST :: "governance_env \<Rightarrow> string" where
  "EMPTY_CONTACT_STATE_DIGEST env = ge_digest env (JObj [(''preferences'', JArr [])])"

definition nextContactStreamVersion ::
  "governance_env \<Rightarrow> string \<Rightarrow> string \<Rightarrow> string \<Rightarrow> stream_head list \<Rightarrow> stream_head list \<times> int" where
  "nextContactStreamVersion env tenantId contactId mutationId heads =
     (let here = (\<lambda>h. sh_tenantId h = tenantId \<and> sh_contactId h = contactId) in
      case find here heads of
        None \<Rightarrow>
          (heads @ [\<lparr> sh_tenantId = tenantId, sh_contactId = contactId, sh_aggregateVersion = 1,
             sh_currentDigest = EMPTY_CONTACT_STATE_DIGEST env, sh_latestMutationId = mutationId \<rparr>], 1)
      | Some h \<Rightarrow>
          (updateWhere here (\<lambda>h. h\<lparr>sh_aggregateVersion := sh_aggregateVersion h + 1,
             sh_latestMutationId := mutationId\<rparr>) heads, sh_aggregateVersion h + 1))"

text \<open>
  The writes both commands share: the contact head moves under its expected version, and the event
  and the audit entry are appended at the version the stream has taken.
\<close>

definition moveContactHead ::
  "string \<Rightarrow> string \<Rightarrow> int \<Rightarrow> string \<Rightarrow> string \<Rightarrow> contact_head list \<Rightarrow> governance_error + contact_head list" where
  "moveContactHead tenantId contactId expectedVersion digest mutationId heads =
     (let here = (\<lambda>h. ch_tenantId h = tenantId \<and> ch_contactId h = contactId) in
      case find here heads of
        None \<Rightarrow>
          Inr (heads @ [\<lparr> ch_tenantId = tenantId, ch_contactId = contactId,
            ch_aggregateVersion = 1, ch_currentDigest = digest,
            ch_latestMutationId = mutationId \<rparr>])
      | Some h \<Rightarrow>
          let guarded = (\<lambda>h. here h \<and> ch_aggregateVersion h = expectedVersion) in
          if countWhere guarded heads \<noteq> 1 then Inl (VersionConflict expectedVersion (ch_aggregateVersion h))
          else Inr (updateWhere guarded (\<lambda>h. h\<lparr>ch_aggregateVersion := expectedVersion + 1,
            ch_currentDigest := digest, ch_latestMutationId := mutationId\<rparr>) heads))"

definition outboxEvent :: "governance_env \<Rightarrow> string \<Rightarrow> string \<Rightarrow> string \<Rightarrow> string \<Rightarrow> string \<Rightarrow> int \<Rightarrow> json \<Rightarrow> outbox_row" where
  "outboxEvent env eventId mutationId tenantId contactId eventType version payload =
     \<lparr> ob_id = eventId, ob_mutationId = mutationId, ob_tenantId = tenantId,
       ob_aggregateType = ''CONTACT'', ob_aggregateId = contactId, ob_aggregateVersion = version,
       ob_eventType = eventType, ob_orderingKey = tenantId @ '':'' @ contactId,
       ob_payload = payload, ob_payloadHash = ge_digest env payload, ob_state = OB_PENDING,
       ob_attempts = 0, ob_availableAt = ge_dbNow env, ob_leaseOwner = None, ob_leaseExpiresAt = None,
       ob_publishedAt = None, ob_createdAt = ge_dbNow env \<rparr>"

definition appendOutbox :: "outbox_row \<Rightarrow> outbox_row list \<Rightarrow> governance_error + outbox_row list" where
  "appendOutbox row rows =
     (if list_ex (\<lambda>r. ob_id r = ob_id row \<or>
           ob_tenantId r = ob_tenantId row \<and> ob_mutationId r = ob_mutationId row \<and>
           ob_eventType r = ob_eventType row) rows
      then Inl UniqueConstraintError else Inr (rows @ [row]))"

definition complianceAudit ::
  "string \<Rightarrow> string \<Rightarrow> string \<Rightarrow> string \<Rightarrow> int \<Rightarrow> string \<Rightarrow> string \<Rightarrow> string \<Rightarrow> string option \<Rightarrow> string \<Rightarrow> time_ms \<Rightarrow> audit_row" where
  "complianceAudit auditId tenantId mutationId contactId version action actorRef evidenceRef before after occurredAt =
     \<lparr> au_id = auditId, au_tenantId = tenantId, au_mutationId = mutationId, au_aggregateType = ''CONTACT'',
       au_aggregateId = contactId, au_aggregateVersion = version, au_action = action,
       au_actorClass = ''COMPLIANCE'', au_actorRef = actorRef, au_sourceKind = ''COMPLIANCE'',
       au_evidenceRef = evidenceRef, au_beforeDigest = before, au_afterDigest = after,
       au_occurredAt = occurredAt \<rparr>"

section \<open>Recording an exception\<close>

record RecordCg4ExceptionInput =
  re_tenantId :: string
  re_contactId :: string
  re_identityId :: "string option"
  re_scopeKind :: exception_scope_kind
  re_channel :: ContactChannel
  re_purpose :: string
  re_sourceType :: string
  re_sourceId :: string
  re_allowedRuleCodes :: "string list"
  re_policyId :: string
  re_policyVersion :: int
  re_policyContentDigest :: string
  re_registryVersion :: string
  re_startsAt :: string
  re_expiresAt :: string
  re_tier :: Cg4ExceptionRiskTier
  re_reasonCode :: string
  re_ticketRef :: "string option"
  re_evidenceRef :: string
  re_actorRef :: string
  re_occurredAt :: string
  re_exceptionId :: "string option"
  re_renewsExceptionId :: "string option"
  re_idempotencyKey :: string
  re_expectedVersion :: int

definition CG4_SOURCE_TYPES :: "string list" where
  "CG4_SOURCE_TYPES =
     [''JOURNEY'', ''CAMPAIGN'', ''DIALER'', ''CHANNEL'', ''SURVEY'', ''AGENT'', ''EXTERNAL'']"

definition policyAllowedRuleCodes :: "json \<Rightarrow> governance_error + string list" where
  "policyAllowedRuleCodes content =
     (case json_prop content ''allowedOperationalRuleCodes'' of
        Some (JArr entries) \<Rightarrow>
          rmap (\<lambda>entry. case entry of
              JStr code \<Rightarrow> if js_trim code = [] then Inl Cg4PolicyBindingError else Inr code
            | _ \<Rightarrow> Inl Cg4PolicyBindingError) entries
      | _ \<Rightarrow> Inl Cg4PolicyBindingError)"

definition exceptionView :: "governance_env \<Rightarrow> exception_row \<Rightarrow> json" where
  "exceptionView env row = JObj (
     [(''id'', JStr (ex_id row)), (''tenantId'', JStr (ex_tenantId row)),
      (''exceptionId'', JStr (ex_exceptionId row)), (''revision'', jint (ex_revision row)),
      (''contactId'', JStr (ex_contactId row))]
     @ optionalField ''identityId'' (ex_identityId row) @
     [(''scopeKind'', JStr (scopeKindText (ex_scopeKind row))), (''channel'', JStr (channelText (ex_channel row))),
      (''purpose'', JStr (ex_purpose row)), (''sourceType'', JStr (ex_sourceType row)),
      (''sourceId'', JStr (ex_sourceId row)), (''allowedRuleCodes'', JArr (map JStr (ex_allowedRuleCodes row))),
      (''policyId'', JStr (ex_policyId row)), (''policyVersion'', jint (ex_policyVersion row)),
      (''policyContentDigest'', JStr (ex_policyContentDigest row)),
      (''registryVersion'', JStr (ex_registryVersion row)),
      (''startsAt'', JStr (ge_toISO env (ex_startsAt row))), (''expiresAt'', JStr (ge_toISO env (ex_expiresAt row))),
      (''tier'', JStr (tierText (ex_tier row))), (''status'', JStr (workflowText (ex_status row))),
      (''reasonCode'', JStr (ex_reasonCode row))]
     @ optionalField ''ticketRef'' (ex_ticketRef row) @
     [(''evidenceRef'', JStr (ex_evidenceRef row)), (''actorRef'', JStr (ex_actorRef row)),
      (''createdAt'', JStr (ge_toISO env (ex_createdAt row)))])"

record exception_window =
  ew_occurredAt :: time_ms
  ew_startsAt :: time_ms
  ew_expiresAt :: time_ms
  ew_ruleCodes :: "string list"

definition validateExceptionRequest ::
  "governance_env \<Rightarrow> RecordCg4ExceptionInput \<Rightarrow> governance_error + exception_window" where
  "validateExceptionRequest env i =
     rbind (requireTexts
        [(''tenantId'', re_tenantId i), (''contactId'', re_contactId i), (''purpose'', re_purpose i),
         (''sourceType'', re_sourceType i), (''sourceId'', re_sourceId i), (''policyId'', re_policyId i),
         (''registryVersion'', re_registryVersion i), (''reasonCode'', re_reasonCode i),
         (''evidenceRef'', re_evidenceRef i), (''actorRef'', re_actorRef i),
         (''idempotencyKey'', re_idempotencyKey i)]) (\<lambda>_.
     rbind (requireOptional ''exceptionId'' (re_exceptionId i)) (\<lambda>_.
     rbind (requireOptional ''identityId'' (re_identityId i)) (\<lambda>_.
     rbind (requireOptional ''ticketRef'' (re_ticketRef i)) (\<lambda>_.
     rbind (requireOptional ''renewsExceptionId'' (re_renewsExceptionId i)) (\<lambda>_.
     rbind (throw_if (re_sourceType i \<notin> set CG4_SOURCE_TYPES) (FieldTypeError ''sourceType'')) (\<lambda>_.
     rbind (throw_if (re_scopeKind i = ScopeIdentity \<and> \<not> truthyText (re_identityId i) \<or>
                      re_scopeKind i = ScopeContactWide \<and> truthyText (re_identityId i))
              (FieldTypeError ''scopeKind'')) (\<lambda>_.
     rbind (throw_if (re_policyVersion i < 1) (FieldRangeError ''policyVersion'')) (\<lambda>_.
     rbind (throw_if (re_expectedVersion i < 0) (FieldRangeError ''expectedVersion'')) (\<lambda>_.
     rbind (throw_if (\<not> lowercaseSha256 (re_policyContentDigest i)) (FieldTypeError ''policyContentDigest'')) (\<lambda>_.
     rbind (instant env ''occurredAt'' (re_occurredAt i)) (\<lambda>occurredAt.
     rbind (instant env ''startsAt'' (re_startsAt i)) (\<lambda>startsAt.
     rbind (instant env ''expiresAt'' (re_expiresAt i)) (\<lambda>expiresAt.
     rbind (throw_if (expiresAt \<le> startsAt) (FieldRangeError ''expiresAt'')) (\<lambda>_.
     rbind (rmap (requireText ''allowedRuleCodes'') (re_allowedRuleCodes i)) (\<lambda>codes.
     let allowedRuleCodes = sort (js_uniq codes) in
     rbind (throw_if (allowedRuleCodes = []) (FieldRangeError ''allowedRuleCodes'')) (\<lambda>_.
     Inr \<lparr> ew_occurredAt = occurredAt, ew_startsAt = startsAt, ew_expiresAt = expiresAt,
           ew_ruleCodes = allowedRuleCodes \<rparr>))))))))))))))))"

definition exceptionRequestHash ::
  "governance_env \<Rightarrow> RecordCg4ExceptionInput \<Rightarrow> exception_window \<Rightarrow> string" where
  "exceptionRequestHash env i w = ge_digest env (JObj
     [(''tenantId'', JStr (re_tenantId i)), (''contactId'', JStr (re_contactId i)),
      (''identityId'', jopt (re_identityId i)), (''scopeKind'', JStr (scopeKindText (re_scopeKind i))),
      (''channel'', JStr (channelText (re_channel i))), (''purpose'', JStr (re_purpose i)),
      (''sourceType'', JStr (re_sourceType i)), (''sourceId'', JStr (re_sourceId i)),
      (''allowedRuleCodes'', JArr (map JStr (ew_ruleCodes w))), (''policyId'', JStr (re_policyId i)),
      (''policyVersion'', jint (re_policyVersion i)),
      (''policyContentDigest'', JStr (re_policyContentDigest i)),
      (''registryVersion'', JStr (re_registryVersion i)),
      (''startsAt'', JStr (ge_toISO env (ew_startsAt w))), (''expiresAt'', JStr (ge_toISO env (ew_expiresAt w))),
      (''tier'', JStr (tierText (re_tier i))), (''reasonCode'', JStr (re_reasonCode i)),
      (''ticketRef'', jopt (re_ticketRef i)), (''evidenceRef'', JStr (re_evidenceRef i)),
      (''actorRef'', JStr (re_actorRef i)), (''occurredAt'', JStr (ge_toISO env (ew_occurredAt w))),
      (''exceptionId'', jopt (re_exceptionId i)), (''renewsExceptionId'', jopt (re_renewsExceptionId i)),
      (''expectedVersion'', jint (re_expectedVersion i))])"

definition ruleEligibility ::
  "RecordCg4ExceptionInput \<Rightarrow> exception_window \<Rightarrow> string list \<Rightarrow> string \<Rightarrow> Cg4OverrideEligibility" where
  "ruleEligibility i w policyRules ruleCode = resolveCg4OverrideEligibility
     \<lparr> oe_ruleCode = ruleCode, oe_mechanism = APPROVED_EXCEPTION,
       oe_identityScope = (if re_scopeKind i = ScopeIdentity then EXACT_IDENTITY else CONTACT_WIDE),
       oe_policyAllowedRuleCodes = policyRules, oe_riskTier = re_tier i,
       oe_requestedRuleCount = int (length (ew_ruleCodes w)),
       oe_lifetimeSeconds = (ew_expiresAt w - ew_startsAt w) div 1000 \<rparr>"

fun isEligible :: "Cg4OverrideEligibility \<Rightarrow> bool" where
  "isEligible (Eligible _ _) = True"
| "isEligible (Ineligible _ _) = False"

definition checkSubject :: "RecordCg4ExceptionInput \<Rightarrow> governance_store \<Rightarrow> governance_error + unit" where
  "checkSubject i st =
     (if (re_tenantId i, re_contactId i) \<notin> set (gs_contacts st) then Inl ResourceNotFound
      else if truthyText (re_identityId i) \<and>
              (re_tenantId i, re_contactId i, the (re_identityId i)) \<notin> set (gs_identities st)
      then Inl ResourceNotFound
      else Inr ())"

definition checkPolicyBinding ::
  "RecordCg4ExceptionInput \<Rightarrow> exception_window \<Rightarrow> governance_store \<Rightarrow> governance_error + unit" where
  "checkPolicyBinding i w st =
     (case find (\<lambda>p. po_tenantId p = re_tenantId i \<and> po_policyId p = re_policyId i \<and>
                  po_version p = re_policyVersion i) (st_policies (gs_core st)) of
        None \<Rightarrow> Inl Cg4PolicyBindingError
      | Some policy \<Rightarrow>
          if po_status policy \<notin> {PS_PUBLISHED, PS_SCHEDULED, PS_ACTIVE} then Inl Cg4PolicyBindingError
          else if po_contentDigest policy \<noteq> re_policyContentDigest i \<or>
                  po_registryVersion policy \<noteq> re_registryVersion i
          then Inl Cg4PolicyBindingError
          else rbind (policyAllowedRuleCodes (po_content policy)) (\<lambda>policyRules.
            throw_if (\<not> list_all (\<lambda>code. isEligible (ruleEligibility i w policyRules code)) (ew_ruleCodes w))
              Cg4PolicyBindingError))"

text \<open>The current revision of a head, when it belongs to this contact.\<close>

definition revisionOfContact :: "string \<Rightarrow> string \<Rightarrow> exception_head \<Rightarrow> governance_store \<Rightarrow> exception_row option" where
  "revisionOfContact tenantId contactId head st =
     find (\<lambda>e. ex_tenantId e = tenantId \<and> ex_id e = eh_currentRevisionId head \<and> ex_contactId e = contactId)
       (st_exceptions (gs_core st))"

definition checkSeries ::
  "RecordCg4ExceptionInput \<Rightarrow> exception_head option \<Rightarrow> governance_store \<Rightarrow> governance_error + unit" where
  "checkSeries i exceptionHead st =
     (case exceptionHead of
        None \<Rightarrow> Inr ()
      | Some head \<Rightarrow>
          if revisionOfContact (re_tenantId i) (re_contactId i) head st = None then Inl ResourceNotFound
          else if eh_status head \<noteq> PENDING
          then Inl (Cg4InvalidLifecycleTransitionError (eh_status head) PENDING)
          else Inr ())"

definition checkRenewal :: "RecordCg4ExceptionInput \<Rightarrow> governance_store \<Rightarrow> governance_error + unit" where
  "checkRenewal i st =
     (if \<not> truthyText (re_renewsExceptionId i) then Inr ()
      else case findHead (re_tenantId i) (the (re_renewsExceptionId i)) st of
          None \<Rightarrow> Inl ResourceNotFound
        | Some renewed \<Rightarrow>
            throw_if (revisionOfContact (re_tenantId i) (re_contactId i) renewed st = None) ResourceNotFound)"

definition newExceptionRow ::
  "governance_env \<Rightarrow> RecordCg4ExceptionInput \<Rightarrow> exception_window \<Rightarrow> string \<Rightarrow> string \<Rightarrow> exception_head option \<Rightarrow> exception_row" where
  "newExceptionRow env i w requestHash exceptionId exceptionHead =
     \<lparr> ex_tenantId = re_tenantId i, ex_id = ge_id env 2, ex_exceptionId = exceptionId,
       ex_revision = (case exceptionHead of None \<Rightarrow> 0 | Some h \<Rightarrow> eh_currentRevision h) + 1,
       ex_contactId = re_contactId i, ex_identityId = re_identityId i, ex_scopeKind = re_scopeKind i,
       ex_channel = re_channel i, ex_purpose = re_purpose i, ex_sourceType = re_sourceType i,
       ex_sourceId = re_sourceId i, ex_allowedRuleCodes = ew_ruleCodes w, ex_policyId = re_policyId i,
       ex_policyVersion = re_policyVersion i, ex_policyContentDigest = re_policyContentDigest i,
       ex_registryVersion = re_registryVersion i, ex_startsAt = ew_startsAt w,
       ex_expiresAt = ew_expiresAt w, ex_tier = re_tier i, ex_status = PENDING,
       ex_reasonCode = re_reasonCode i, ex_ticketRef = re_ticketRef i, ex_evidenceRef = re_evidenceRef i,
       ex_actorRef = re_actorRef i, ex_requestHash = requestHash,
       ex_supersedesId = map_option eh_currentRevisionId exceptionHead,
       ex_renewsExceptionId = re_renewsExceptionId i, ex_createdAt = ge_dbNow env \<rparr>"

definition appendException :: "exception_row \<Rightarrow> exception_row list \<Rightarrow> governance_error + exception_row list" where
  "appendException row rows =
     (if list_ex (\<lambda>r. ex_id r = ex_id row \<or>
           ex_tenantId r = ex_tenantId row \<and> ex_exceptionId r = ex_exceptionId row \<and>
           ex_revision r = ex_revision row) rows
      then Inl UniqueConstraintError else Inr (rows @ [row]))"

definition moveSeriesHead :: "exception_row \<Rightarrow> exception_head option \<Rightarrow> exception_head list \<Rightarrow> exception_head list" where
  "moveSeriesHead row exceptionHead heads =
     (case exceptionHead of
        Some _ \<Rightarrow>
          updateWhere (\<lambda>h. eh_tenantId h = ex_tenantId row \<and> eh_exceptionId h = ex_exceptionId row)
            (\<lambda>h. h\<lparr>eh_currentRevisionId := ex_id row, eh_currentRevision := ex_revision row,
              eh_status := PENDING\<rparr>) heads
      | None \<Rightarrow>
          heads @ [\<lparr> eh_tenantId = ex_tenantId row, eh_exceptionId = ex_exceptionId row,
            eh_currentRevision = ex_revision row, eh_currentRevisionId = ex_id row, eh_status = PENDING \<rparr>])"

definition recordedPayload ::
  "governance_env \<Rightarrow> RecordCg4ExceptionInput \<Rightarrow> exception_window \<Rightarrow> string \<Rightarrow> string \<Rightarrow> int \<Rightarrow> json" where
  "recordedPayload env i w mutationId afterDigest streamVersion = JObj (
     [(''contractVersion'', jint 1), (''mutationId'', JStr mutationId), (''subjectVersion'', jint streamVersion)]
     @ optionalField ''identityId'' (re_identityId i) @
     [(''affectedScope'', JObj
        [(''identityId'', jopt (re_identityId i)), (''channel'', JStr (channelText (re_channel i))),
         (''purpose'', JStr (re_purpose i)), (''contactKind'', JNull)]),
      (''effectiveAt'', JStr (ge_toISO env (ew_startsAt w))), (''policyVersion'', jint (re_policyVersion i)),
      (''stateDigest'', JStr afterDigest)])"

text \<open>Everything the transaction writes once its checks have passed.\<close>

definition commitException ::
  "governance_env \<Rightarrow> RecordCg4ExceptionInput \<Rightarrow> exception_window \<Rightarrow> string \<Rightarrow> string \<Rightarrow> exception_head option \<Rightarrow>
     governance_store \<Rightarrow> governance_error + governance_store \<times> RecordCg4ExceptionResult" where
  "commitException env i w requestHash exceptionId exceptionHead st =
     (let T = re_tenantId i; C = re_contactId i;
          contactHead = findContactHead T C st;
          before = map_option ch_currentDigest contactHead;
          mutationId = ge_id env 1; eventId = ge_id env 4;
          aggregateVersion = re_expectedVersion i + 1;
          row = newExceptionRow env i w requestHash exceptionId exceptionHead in
      rbind (appendException row (st_exceptions (gs_core st))) (\<lambda>exceptions.
      let afterDigest = ge_digest env (JObj [(''previous'', jopt before), (''exception'', exceptionView env row)]) in
      rbind (moveContactHead T C (re_expectedVersion i) afterDigest mutationId (gs_contactHeads st)) (\<lambda>contactHeads.
      let (streamHeads, streamVersion) = nextContactStreamVersion env T C mutationId (gs_streamHeads st) in
      rbind (appendOutbox (outboxEvent env eventId mutationId T C ''exception.recorded'' streamVersion
               (recordedPayload env i w mutationId afterDigest streamVersion)) (gs_outbox st)) (\<lambda>outbox.
      let result = \<lparr> er_mutationId = mutationId, er_eventId = eventId,
                     er_aggregateVersion = aggregateVersion, er_exception = exceptionView env row \<rparr> in
      Inr (st\<lparr>gs_core := (gs_core st)\<lparr>
                st_exceptions := exceptions,
                st_heads := moveSeriesHead row exceptionHead (st_heads (gs_core st)),
                st_audit := st_audit (gs_core st) @ [complianceAudit (ge_id env 5) T mutationId C streamVersion
                  ''CG4_EXCEPTION_RECORDED'' (re_actorRef i) (re_evidenceRef i) before afterDigest (ew_occurredAt w)]\<rparr>,
              gs_contactHeads := contactHeads, gs_streamHeads := streamHeads, gs_outbox := outbox,
              gs_recordReceipts := gs_recordReceipts st @
                [\<lparr> cm_id = ge_id env 6, cm_tenantId = T, cm_idempotencyKey = re_idempotencyKey i,
                   cm_requestHash = requestHash, cm_expectedVersion = re_expectedVersion i,
                   cm_aggregateVersion = aggregateVersion, cm_responseStatus = 201,
                   cm_responseBody = result \<rparr>]\<rparr>,
           result)))))"

definition recordException ::
  "governance_env \<Rightarrow> RecordCg4ExceptionInput \<Rightarrow> governance_store \<Rightarrow>
     governance_error + governance_store \<times> RecordCg4ExceptionResult" where
  "recordException env i st =
     rbind (validateExceptionRequest env i) (\<lambda>w.
     let requestHash = exceptionRequestHash env i w in
     case findReceiptBy (re_tenantId i) (re_idempotencyKey i) (gs_recordReceipts st) of
       Some receipt \<Rightarrow>
         if cm_requestHash receipt \<noteq> requestHash then Inl (IdempotencyConflict (re_idempotencyKey i))
         else Inr (st, cm_responseBody receipt)
     | None \<Rightarrow>
         rbind (checkSubject i st) (\<lambda>_.
         rbind (checkPolicyBinding i w st) (\<lambda>_.
         let actualVersion = (case findContactHead (re_tenantId i) (re_contactId i) st of
               None \<Rightarrow> 0 | Some h \<Rightarrow> ch_aggregateVersion h) in
         rbind (throw_if (actualVersion \<noteq> re_expectedVersion i)
                  (VersionConflict (re_expectedVersion i) actualVersion)) (\<lambda>_.
         let exceptionId = (case re_exceptionId i of Some e \<Rightarrow> e | None \<Rightarrow> ge_id env 0);
             exceptionHead = findHead (re_tenantId i) exceptionId st in
         rbind (checkSeries i exceptionHead st) (\<lambda>_.
         rbind (checkRenewal i st) (\<lambda>_.
         commitException env i w requestHash exceptionId exceptionHead st))))))"

text \<open>\<open>history\<close>: the revisions of a contact, by series and revision.\<close>

definition exceptionHistory ::
  "governance_env \<Rightarrow> string \<Rightarrow> string \<Rightarrow> string option \<Rightarrow> governance_store \<Rightarrow> governance_error + json list" where
  "exceptionHistory env tenantId contactId exceptionId st =
     rbind (requireTexts [(''tenantId'', tenantId), (''contactId'', contactId)]) (\<lambda>_.
     rbind (requireOptional ''exceptionId'' exceptionId) (\<lambda>_.
     Inr (map (exceptionView env)
       (sort_key (\<lambda>e. ex_exceptionId e) (sort_key ex_revision
         (filter (\<lambda>e. ex_tenantId e = tenantId \<and> ex_contactId e = contactId \<and>
            (truthyText exceptionId \<longrightarrow> Some (ex_exceptionId e) = exceptionId))
           (st_exceptions (gs_core st))))))))"

section \<open>Workflow transitions\<close>

datatype exception_action = ActApprove | ActReject | ActCancel | ActRevoke

fun actionText :: "exception_action \<Rightarrow> string" where
  "actionText ActApprove = ''APPROVE''"
| "actionText ActReject = ''REJECT''"
| "actionText ActCancel = ''CANCEL''"
| "actionText ActRevoke = ''REVOKE''"

text \<open>The table \<open>TRANSITIONS\<close>: source state, target state and transition kind of an action.\<close>

fun TRANSITIONS :: "exception_action \<Rightarrow> Cg4ExceptionWorkflowState \<times> Cg4ExceptionWorkflowState \<times> string" where
  "TRANSITIONS ActApprove = (PENDING, APPROVED, ''EXCEPTION_APPROVED'')"
| "TRANSITIONS ActReject = (PENDING, REJECTED, ''EXCEPTION_REJECTED'')"
| "TRANSITIONS ActCancel = (PENDING, CANCELLED, ''EXCEPTION_CANCELLED'')"
| "TRANSITIONS ActRevoke = (APPROVED, REVOKED, ''EXCEPTION_REVOKED'')"

definition resolveCg4TransitionTarget ::
  "exception_action \<Rightarrow> Cg4ExceptionWorkflowState \<Rightarrow> governance_error + Cg4ExceptionWorkflowState \<times> string" where
  "resolveCg4TransitionTarget action from_state =
     (case TRANSITIONS action of (source, target, kind) \<Rightarrow>
        if source \<noteq> from_state then Inl (Cg4InvalidLifecycleTransitionError from_state target)
        else Inr (target, kind))"

definition cg4ExceptionsOverlap :: "exception_row \<Rightarrow> exception_row \<Rightarrow> bool" where
  "cg4ExceptionsOverlap l r \<longleftrightarrow>
     (ex_identityId l = ex_identityId r \<and> ex_channel l = ex_channel r \<and> ex_purpose l = ex_purpose r \<and>
      ex_sourceType l = ex_sourceType r \<and> ex_sourceId l = ex_sourceId r) \<and>
     list_ex (\<lambda>code. code \<in> set (ex_allowedRuleCodes r)) (ex_allowedRuleCodes l) \<and>
     ex_startsAt l < ex_expiresAt r \<and> ex_startsAt r < ex_expiresAt l"

fun capabilityFor :: "exception_action \<Rightarrow> Cg4ExceptionRiskTier \<Rightarrow> Cg4Capability" where
  "capabilityFor ActApprove tier = resolveCg4RequiredExceptionCapability tier"
| "capabilityFor ActReject tier = resolveCg4RequiredExceptionCapability tier"
| "capabilityFor ActCancel tier = ExceptionAmend"
| "capabilityFor ActRevoke tier = ExceptionRevoke"

record TransitionCg4ExceptionInput =
  ti_tenantId :: string
  ti_exceptionId :: string
  ti_expectedRevision :: int
  ti_expectedContentDigest :: string
  ti_action :: exception_action
  ti_reasonCode :: string
  ti_evidenceRef :: string
  ti_actor :: Cg4AuthorizationSubject
  ti_scopeKey :: string
  ti_occurredAt :: string
  ti_expectedVersion :: int
  ti_idempotencyKey :: string

definition transitionRequestHash :: "governance_env \<Rightarrow> TransitionCg4ExceptionInput \<Rightarrow> string" where
  "transitionRequestHash env i = ge_digest env (JObj
     [(''tenantId'', JStr (ti_tenantId i)), (''exceptionId'', JStr (ti_exceptionId i)),
      (''expectedRevision'', jint (ti_expectedRevision i)),
      (''expectedContentDigest'', JStr (ti_expectedContentDigest i)),
      (''action'', JStr (actionText (ti_action i))), (''reasonCode'', JStr (ti_reasonCode i)),
      (''evidenceRef'', JStr (ti_evidenceRef i)), (''actorSubjectId'', JStr (sub_subjectId (ti_actor i))),
      (''authorizationEpoch'', jint (sub_authorizationEpoch (ti_actor i))),
      (''scopeVersion'', jint (sub_scopeVersion (ti_actor i))), (''scopeKey'', JStr (ti_scopeKey i)),
      (''expectedVersion'', jint (ti_expectedVersion i))])"

definition lift_auth :: "cg4_auth_error + 'a \<Rightarrow> governance_error + 'a" where
  "lift_auth r = (case r of Inl e \<Rightarrow> Inl (NotAuthorized e) | Inr x \<Rightarrow> Inr x)"

definition authorizeTransition ::
  "governance_env \<Rightarrow> TransitionCg4ExceptionInput \<Rightarrow> exception_row \<Rightarrow> governance_error + unit" where
  "authorizeTransition env i revision =
     rbind (lift_auth (assertCg4RequestAuthorization (ti_actor i) (capabilityFor (ti_action i) (ex_tier revision))
              (ti_scopeKey i) (ge_now env 0))) (\<lambda>_.
     if ti_action i = ActCancel \<and> ex_actorRef revision \<noteq> sub_subjectId (ti_actor i) then Inl ResourceNotFound
     else if (ti_action i = ActApprove \<or> ti_action i = ActReject) \<and>
             ex_actorRef revision = sub_subjectId (ti_actor i)
     then Inl (NotAuthorized Cg4SelfApprovalError)
     else Inr ())"

definition countedApproval :: "approval_row \<Rightarrow> Cg4RecordedApproval" where
  "countedApproval row =
     \<lparr> ra_checkerSubjectId = ap_approverRef row, ra_capability = ap_capability row,
       ra_directComplianceAuthority = ap_directCompliance row,
       ra_emergencyAuthority = ap_emergencyAuthority row, ra_source = ap_capabilitySource row,
       ra_delegationId = None, ra_authorizationEpoch = ap_authorizationEpoch row,
       ra_scopeVersion = ap_scopeVersion row, ra_decidedAt = ap_decidedAt row \<rparr>"

definition revisionVotes :: "string \<Rightarrow> string \<Rightarrow> int \<Rightarrow> governance_store \<Rightarrow> approval_row list" where
  "revisionVotes tenantId exceptionId revision st =
     filter (\<lambda>r. ap_tenantId r = tenantId \<and> ap_targetId r = exceptionId \<and> ap_targetRevision r = revision)
       (st_exceptionApprovals (gs_core st))"

definition approvalQuorum ::
  "governance_env \<Rightarrow> TransitionCg4ExceptionInput \<Rightarrow> exception_row \<Rightarrow> governance_store \<Rightarrow> Cg4QuorumEvaluation" where
  "approvalQuorum env i revision st =
     (let approvalRows = revisionVotes (ti_tenantId i) (ti_exceptionId i) (ti_expectedRevision i) st in
      evaluateCg4Quorum (resolveCg4ExceptionQuorum (ex_tier revision))
        (map countedApproval (filter (\<lambda>r. ap_decision r = DecisionApproved) approvalRows))
        (list_ex (\<lambda>r. ap_decision r = DecisionRejected) approvalRows) (ge_now env 1))"

definition scopeConflict :: "TransitionCg4ExceptionInput \<Rightarrow> exception_row \<Rightarrow> governance_store \<Rightarrow> exception_row option" where
  "scopeConflict i revision st =
     (let candidates = filter (\<lambda>e. ex_tenantId e = ti_tenantId i \<and> ex_contactId e = ex_contactId revision \<and>
            ex_exceptionId e \<noteq> ti_exceptionId i \<and> ex_startsAt revision < ex_expiresAt e \<and>
            ex_startsAt e < ex_expiresAt revision) (st_exceptions (gs_core st));
          activeHeads = filter (\<lambda>h. eh_tenantId h = ti_tenantId i \<and>
            eh_exceptionId h \<in> set (js_uniq (map ex_exceptionId candidates)) \<and> eh_status h = APPROVED)
            (st_heads (gs_core st));
          activeRevisionIds = map eh_currentRevisionId activeHeads in
      find (cg4ExceptionsOverlap revision) (filter (\<lambda>e. ex_id e \<in> set activeRevisionIds) candidates))"

definition checkApproval ::
  "governance_env \<Rightarrow> TransitionCg4ExceptionInput \<Rightarrow> exception_row \<Rightarrow> governance_store \<Rightarrow>
     governance_error + Cg4QuorumEvaluation option" where
  "checkApproval env i revision st =
     (if ti_action i \<noteq> ActApprove then Inr None
      else let quorum = approvalQuorum env i revision st in
        rbind (lift_auth (assertCg4QuorumMet quorum)) (\<lambda>_.
        case scopeConflict i revision st of
          Some conflict \<Rightarrow> Inl (Cg4ExceptionScopeConflictError (ex_exceptionId conflict))
        | None \<Rightarrow> Inr (Some quorum)))"

definition transitionPayload ::
  "governance_env \<Rightarrow> TransitionCg4ExceptionInput \<Rightarrow> exception_row \<Rightarrow> Cg4ExceptionWorkflowState \<Rightarrow> string \<Rightarrow> time_ms \<Rightarrow>
     string \<Rightarrow> string \<Rightarrow> json" where
  "transitionPayload env i revision target kind occurredAt mutationId afterDigest = JObj
     [(''contractVersion'', jint 1), (''mutationId'', JStr mutationId), (''transitionKind'', JStr kind),
      (''subjectId'', JStr (ti_exceptionId i)), (''subjectVersion'', jint (ti_expectedRevision i)),
      (''state'', JStr (workflowText target)), (''effectiveAt'', JStr (ge_toISO env occurredAt)),
      (''affectedScope'', JObj
         [(''scopeKey'', JStr (ti_scopeKey i)), (''channel'', JStr (channelText (ex_channel revision))),
          (''purpose'', JStr (ex_purpose revision)), (''sourceType'', JStr (ex_sourceType revision))]),
      (''scopeDigest'', JStr (ge_digest env (JObj
         [(''contactId'', JStr (ex_contactId revision)), (''identityId'', jopt (ex_identityId revision)),
          (''channel'', JStr (channelText (ex_channel revision))), (''purpose'', JStr (ex_purpose revision)),
          (''sourceType'', JStr (ex_sourceType revision)), (''sourceId'', JStr (ex_sourceId revision))]))),
      (''policyVersion'', jint (ex_policyVersion revision)),
      (''policyContentDigest'', JStr (ex_policyContentDigest revision)),
      (''exceptionVersion'', jint (ti_expectedRevision i)),
      (''ruleRegistryVersion'', JStr CG4_RULE_REGISTRY_VERSION),
      (''policySchemaVersion'', jint CG4_POLICY_SCHEMA_VERSION),
      (''evaluatorVersion'', JStr CG4_EVALUATOR_VERSION), (''stateDigest'', JStr afterDigest),
      (''restrictiveness'', JStr (if target = APPROVED then ''RELAXATION'' else ''TIGHTENING''))]"

definition commitTransition ::
  "governance_env \<Rightarrow> TransitionCg4ExceptionInput \<Rightarrow> time_ms \<Rightarrow> string \<Rightarrow> exception_head \<Rightarrow> exception_row \<Rightarrow>
     Cg4ExceptionWorkflowState \<Rightarrow> string \<Rightarrow> Cg4QuorumEvaluation option \<Rightarrow> governance_store \<Rightarrow>
     governance_error + governance_store \<times> Cg4ExceptionTransitionResult" where
  "commitTransition env i occurredAt requestHash head revision target kind quorum st =
     (let T = ti_tenantId i; C = ex_contactId revision;
          contactHead = findContactHead T C st;
          before = map_option ch_currentDigest contactHead;
          actualVersion = (case contactHead of None \<Rightarrow> 0 | Some h \<Rightarrow> ch_aggregateVersion h);
          moved = (\<lambda>h. eh_tenantId h = T \<and> eh_exceptionId h = ti_exceptionId i \<and>
            eh_currentRevision h = ti_expectedRevision i \<and> eh_status h = eh_status head);
          mutationId = ge_id env 1; eventId = ge_id env 4;
          aggregateVersion = actualVersion + 1 in
      rbind (throw_if (actualVersion \<noteq> ti_expectedVersion i)
               (VersionConflict (ti_expectedVersion i) actualVersion)) (\<lambda>_.
      rbind (throw_if (countWhere moved (st_heads (gs_core st)) \<noteq> 1)
               (VersionConflict (ti_expectedRevision i) (eh_currentRevision head))) (\<lambda>_.
      let afterDigest = ge_digest env (JObj [(''previous'', jopt before),
            (''exceptionId'', JStr (ti_exceptionId i)), (''revision'', jint (ti_expectedRevision i)),
            (''contentDigest'', JStr (ex_requestHash revision)), (''workflowState'', JStr (workflowText target))]) in
      rbind (moveContactHead T C (ti_expectedVersion i) afterDigest mutationId (gs_contactHeads st)) (\<lambda>contactHeads.
      let effectiveState = (if target = APPROVED
            then resolveCg4EffectiveState APPROVED (ex_startsAt revision) (ex_expiresAt revision) (ge_now env 2)
            else INACTIVE);
          (streamHeads, streamVersion) = nextContactStreamVersion env T C mutationId (gs_streamHeads st) in
      rbind (appendOutbox (outboxEvent env eventId mutationId T C ''exception.changed'' streamVersion
               (transitionPayload env i revision target kind occurredAt mutationId afterDigest))
               (gs_outbox st)) (\<lambda>outbox.
      let result = \<lparr> tr_mutationId = mutationId, tr_eventId = eventId, tr_aggregateVersion = aggregateVersion,
            tr_exceptionId = ti_exceptionId i, tr_revision = ti_expectedRevision i,
            tr_workflowState = target, tr_effectiveState = effectiveState, tr_quorum = quorum \<rparr> in
      Inr (st\<lparr>gs_core := (gs_core st)\<lparr>
                st_heads := updateWhere moved (\<lambda>h. h\<lparr>eh_status := target\<rparr>) (st_heads (gs_core st)),
                st_audit := st_audit (gs_core st) @ [complianceAudit (ge_id env 5) T mutationId C streamVersion
                  (''CG4_EXCEPTION_'' @ actionText (ti_action i)) (sub_subjectId (ti_actor i)) (ti_evidenceRef i)
                  before afterDigest occurredAt]\<rparr>,
              gs_contactHeads := contactHeads, gs_streamHeads := streamHeads, gs_outbox := outbox,
              gs_transitionReceipts := gs_transitionReceipts st @
                [\<lparr> cm_id = ge_id env 6, cm_tenantId = T, cm_idempotencyKey = ti_idempotencyKey i,
                   cm_requestHash = requestHash, cm_expectedVersion = ti_expectedVersion i,
                   cm_aggregateVersion = aggregateVersion, cm_responseStatus = 200,
                   cm_responseBody = result \<rparr>]\<rparr>,
           result))))))"

definition transition ::
  "governance_env \<Rightarrow> TransitionCg4ExceptionInput \<Rightarrow> governance_store \<Rightarrow>
     governance_error + governance_store \<times> Cg4ExceptionTransitionResult" where
  "transition env i st =
     rbind (requireTexts [(''tenantId'', ti_tenantId i), (''exceptionId'', ti_exceptionId i),
        (''reasonCode'', ti_reasonCode i), (''evidenceRef'', ti_evidenceRef i), (''scopeKey'', ti_scopeKey i),
        (''idempotencyKey'', ti_idempotencyKey i)]) (\<lambda>_.
     rbind (instant env ''occurredAt'' (ti_occurredAt i)) (\<lambda>occurredAt.
     let requestHash = transitionRequestHash env i in
     case findReceiptBy (ti_tenantId i) (ti_idempotencyKey i) (gs_transitionReceipts st) of
       Some receipt \<Rightarrow>
         if cm_requestHash receipt \<noteq> requestHash then Inl (IdempotencyConflict (ti_idempotencyKey i))
         else Inr (st, cm_responseBody receipt)
     | None \<Rightarrow>
       (case findHead (ti_tenantId i) (ti_exceptionId i) st of
          None \<Rightarrow> Inl ResourceNotFound
        | Some head \<Rightarrow>
          if eh_currentRevision head \<noteq> ti_expectedRevision i
          then Inl (VersionConflict (ti_expectedRevision i) (eh_currentRevision head))
          else (case find (\<lambda>e. ex_tenantId e = ti_tenantId i \<and> ex_id e = eh_currentRevisionId head)
                       (st_exceptions (gs_core st)) of
            None \<Rightarrow> Inl ResourceNotFound
          | Some revision \<Rightarrow>
            if ex_requestHash revision \<noteq> ti_expectedContentDigest i
            then Inl (VersionConflict (ti_expectedRevision i) (eh_currentRevision head))
            else
              rbind (resolveCg4TransitionTarget (ti_action i) (eh_status head)) (\<lambda>(target, kind).
              rbind (authorizeTransition env i revision) (\<lambda>_.
              rbind (checkApproval env i revision st) (\<lambda>quorum.
              commitTransition env i occurredAt requestHash head revision target kind quorum st)))))))"

section \<open>Casting a vote\<close>

definition cg4ExceptionMakerSubjectId :: "string \<Rightarrow> string \<Rightarrow> int \<Rightarrow> governance_store \<Rightarrow> string option" where
  "cg4ExceptionMakerSubjectId tenantId seriesId revision st =
     map_option ex_actorRef
       (find (\<lambda>e. ex_tenantId e = tenantId \<and> ex_exceptionId e = seriesId \<and> ex_revision e = revision)
         (st_exceptions (gs_core st)))"

text \<open>The gateway records a vote with the maker it reads from the revision, never one the caller names.\<close>

definition castVote ::
  "request_digest \<Rightarrow> (nat \<Rightarrow> string) \<Rightarrow> time_ms \<Rightarrow> RecordCg4ApprovalInput \<Rightarrow> governance_store \<Rightarrow>
     approval_error + governance_store \<times> Cg4ApprovalCommandResult" where
  "castVote dg ids now i st =
     (let maker = (case cg4ExceptionMakerSubjectId (ri_tenantId i) (ri_targetId i) (ri_expectedRevision i) st of
          Some m \<Rightarrow> m | None \<Rightarrow> []) in
      rbind (recordExceptionApproval dg ids now (i\<lparr>ri_makerSubjectId := maker\<rparr>) (gs_core st))
        (\<lambda>(core, r). Inr (st\<lparr>gs_core := core\<rparr>, r)))"

end
