(* ===== verification/ExceptionGuarantees.thy ===== *)
theory ExceptionGuarantees
  imports ExceptionLifecycle
begin

text \<open>
  What the exception lifecycle guarantees. The commands are first shown to refine a small
  specification of a series (open, revise, vote, approve, close); the invariants are proved once on
  its moves and carried to every state the commands reach.
\<close>

section \<open>What a successful command has done\<close>

lemma record_outcome:
  assumes "recordException env i st = Inr (st', res)"
  obtains (replayed) w receipt where "validateExceptionRequest env i = Inr w"
      "findReceiptBy (re_tenantId i) (re_idempotencyKey i) (gs_recordReceipts st) = Some receipt"
      "cm_requestHash receipt = exceptionRequestHash env i w" "st' = st" "res = cm_responseBody receipt"
    | (recorded) w exceptionId where "validateExceptionRequest env i = Inr w"
      "findReceiptBy (re_tenantId i) (re_idempotencyKey i) (gs_recordReceipts st) = None"
      "checkPolicyBinding i w st = Inr ()"
      "checkSeries i (findHead (re_tenantId i) exceptionId st) st = Inr ()"
      "commitException env i w (exceptionRequestHash env i w) exceptionId
         (findHead (re_tenantId i) exceptionId st) st = Inr (st', res)"
proof -
  from assms obtain w where w: "validateExceptionRequest env i = Inr w"
    by (auto simp: recordException_def result_simps)
  show thesis
  proof (cases "findReceiptBy (re_tenantId i) (re_idempotencyKey i) (gs_recordReceipts st)")
    case (Some receipt)
    with assms w show thesis
      by (intro replayed [OF w Some]) (auto simp: recordException_def split: if_splits)
  next
    case None
    let ?id = "case re_exceptionId i of None \<Rightarrow> ge_id env 0 | Some e \<Rightarrow> e"
    from assms have "checkPolicyBinding i w st = Inr ()"
      "checkSeries i (findHead (re_tenantId i) ?id st) st = Inr ()"
      "commitException env i w (exceptionRequestHash env i w) ?id (findHead (re_tenantId i) ?id st) st = Inr (st', res)"
      unfolding recordException_def w None rbind_Inr Let_def option.case rbind_eq_Inr_iff by simp_all
    then show thesis by (rule recorded [OF w None])
  qed
qed

lemma commit_exception_outcome:
  assumes "commitException env i w hash exceptionId hd0 st = Inr (st', res)"
  obtains exceptions version payload where
    "appendException (newExceptionRow env i w hash exceptionId hd0) (st_exceptions (gs_core st)) = Inr exceptions"
    "st_exceptions (gs_core st') = exceptions"
    "st_heads (gs_core st') = moveSeriesHead (newExceptionRow env i w hash exceptionId hd0) hd0 (st_heads (gs_core st))"
    "st_exceptionApprovals (gs_core st') = st_exceptionApprovals (gs_core st)"
    "nextContactStreamVersion env (re_tenantId i) (re_contactId i) (ge_id env 1) (gs_streamHeads st) =
       (gs_streamHeads st', version)"
    "appendOutbox (outboxEvent env (ge_id env 4) (ge_id env 1) (re_tenantId i) (re_contactId i)
       ''exception.recorded'' version payload) (gs_outbox st) = Inr (gs_outbox st')"
    "gs_recordReceipts st' = gs_recordReceipts st @
       [\<lparr> cm_id = ge_id env 6, cm_tenantId = re_tenantId i, cm_idempotencyKey = re_idempotencyKey i,
          cm_requestHash = hash, cm_expectedVersion = re_expectedVersion i,
          cm_aggregateVersion = re_expectedVersion i + 1, cm_responseStatus = 201, cm_responseBody = res \<rparr>]"
    "gs_transitionReceipts st' = gs_transitionReceipts st"
proof -
  obtain heads version where n: "nextContactStreamVersion env (re_tenantId i) (re_contactId i) (ge_id env 1)
      (gs_streamHeads st) = (heads, version)" by fastforce
  show thesis
    using assms that [of _ version]
    unfolding commitException_def Let_def n prod.case rbind_eq_Inr_iff by (elim exE conjE) (force simp: n)
qed

lemma transition_outcome:
  assumes "transition env i st = Inr (st', res)"
  obtains (replayed) receipt where
      "findReceiptBy (ti_tenantId i) (ti_idempotencyKey i) (gs_transitionReceipts st) = Some receipt"
      "cm_requestHash receipt = transitionRequestHash env i" "st' = st" "res = cm_responseBody receipt"
      "requireTexts [(''tenantId'', ti_tenantId i), (''exceptionId'', ti_exceptionId i),
        (''reasonCode'', ti_reasonCode i), (''evidenceRef'', ti_evidenceRef i), (''scopeKey'', ti_scopeKey i),
        (''idempotencyKey'', ti_idempotencyKey i)] = Inr ()" "\<exists>t. instant env ''occurredAt'' (ti_occurredAt i) = Inr t"
    | (moved) occurredAt head revision target kind quorum where
      "findReceiptBy (ti_tenantId i) (ti_idempotencyKey i) (gs_transitionReceipts st) = None"
      "requireTexts [(''tenantId'', ti_tenantId i), (''exceptionId'', ti_exceptionId i),
        (''reasonCode'', ti_reasonCode i), (''evidenceRef'', ti_evidenceRef i), (''scopeKey'', ti_scopeKey i),
        (''idempotencyKey'', ti_idempotencyKey i)] = Inr ()" "instant env ''occurredAt'' (ti_occurredAt i) = Inr occurredAt"
      "findHead (ti_tenantId i) (ti_exceptionId i) st = Some head"
      "eh_currentRevision head = ti_expectedRevision i"
      "find (\<lambda>e. ex_tenantId e = ti_tenantId i \<and> ex_id e = eh_currentRevisionId head)
         (st_exceptions (gs_core st)) = Some revision"
      "resolveCg4TransitionTarget (ti_action i) (eh_status head) = Inr (target, kind)"
      "authorizeTransition env i revision = Inr ()"
      "checkApproval env i revision st = Inr quorum"
      "commitTransition env i occurredAt (transitionRequestHash env i) head revision target kind quorum st = Inr (st', res)"
proof -
  from assms obtain occurredAt where t: "instant env ''occurredAt'' (ti_occurredAt i) = Inr occurredAt"
    and r: "requireTexts [(''tenantId'', ti_tenantId i), (''exceptionId'', ti_exceptionId i),
        (''reasonCode'', ti_reasonCode i), (''evidenceRef'', ti_evidenceRef i), (''scopeKey'', ti_scopeKey i),
        (''idempotencyKey'', ti_idempotencyKey i)] = Inr ()"
    unfolding transition_def rbind_eq_Inr_iff by auto
  note a = assms [unfolded transition_def t r rbind_Inr Let_def]
  show thesis
  proof (cases "findReceiptBy (ti_tenantId i) (ti_idempotencyKey i) (gs_transitionReceipts st)")
    case (Some receipt)
    with a r t show thesis by (intro replayed [OF Some]) (auto split: if_splits)
  next
    case None
    note a = a [unfolded None option.case]
    obtain head where h: "findHead (ti_tenantId i) (ti_exceptionId i) st = Some head"
      using a by (cases "findHead (ti_tenantId i) (ti_exceptionId i) st") auto
    note a = a [unfolded h option.case]
    have v: "eh_currentRevision head = ti_expectedRevision i" using a by (auto split: if_splits)
    obtain revision where e: "find (\<lambda>e. ex_tenantId e = ti_tenantId i \<and> ex_id e = eh_currentRevisionId head)
        (st_exceptions (gs_core st)) = Some revision"
      using a by (auto split: if_splits option.splits)
    note a = a [unfolded e option.case]
    have c: "rbind (resolveCg4TransitionTarget (ti_action i) (eh_status head)) (\<lambda>(target, kind).
        rbind (authorizeTransition env i revision) (\<lambda>_. rbind (checkApproval env i revision st) (\<lambda>quorum.
        commitTransition env i occurredAt (transitionRequestHash env i) head revision target kind quorum st))) = Inr (st', res)"
      using a by (simp split: if_splits)
    then show thesis
      unfolding rbind_eq_Inr_iff by (elim exE conjE) (auto simp: rbind_eq_Inr_iff intro: moved [OF None r t h v e])
  qed
qed

lemma commit_transition_outcome:
  assumes "commitTransition env i occurredAt hash head revision target kind quorum st = Inr (st', res)"
  obtains version payload where
    "st_exceptions (gs_core st') = st_exceptions (gs_core st)"
    "st_heads (gs_core st') = updateWhere (\<lambda>h. eh_tenantId h = ti_tenantId i \<and> eh_exceptionId h = ti_exceptionId i \<and>
        eh_currentRevision h = ti_expectedRevision i \<and> eh_status h = eh_status head)
        (\<lambda>h. h\<lparr>eh_status := target\<rparr>) (st_heads (gs_core st))"
    "st_exceptionApprovals (gs_core st') = st_exceptionApprovals (gs_core st)"
    "nextContactStreamVersion env (ti_tenantId i) (ex_contactId revision) (ge_id env 1) (gs_streamHeads st) =
       (gs_streamHeads st', version)"
    "appendOutbox (outboxEvent env (ge_id env 4) (ge_id env 1) (ti_tenantId i) (ex_contactId revision)
       ''exception.changed'' version payload) (gs_outbox st) = Inr (gs_outbox st')"
    "\<exists>r. gs_transitionReceipts st' = gs_transitionReceipts st @ [r] \<and> cm_tenantId r = ti_tenantId i \<and>
       cm_idempotencyKey r = ti_idempotencyKey i \<and> cm_requestHash r = hash \<and> cm_responseBody r = res"
    "gs_recordReceipts st' = gs_recordReceipts st"
proof -
  obtain heads version where n: "nextContactStreamVersion env (ti_tenantId i) (ex_contactId revision) (ge_id env 1)
      (gs_streamHeads st) = (heads, version)" by fastforce
  show thesis
    using assms that [of version]
    unfolding commitTransition_def Let_def n prod.case rbind_eq_Inr_iff by (elim exE conjE) (force simp: n)
qed

section \<open>Retried commands\<close>

text \<open>A retry runs with other fresh identifiers and another clock; digests and dates read the same.\<close>

definition retryEnv :: "governance_env \<Rightarrow> (nat \<Rightarrow> string) \<times> (nat \<Rightarrow> time_ms) \<times> time_ms \<Rightarrow> governance_env" where
  "retryEnv env v = env\<lparr>ge_id := fst v, ge_now := fst (snd v), ge_dbNow := snd (snd v)\<rparr>"

lemma retryEnv_reads:
  "validateExceptionRequest (retryEnv env v) i = validateExceptionRequest env i"
  "exceptionRequestHash (retryEnv env v) i w = exceptionRequestHash env i w"
  "transitionRequestHash (retryEnv env v) t = transitionRequestHash env t"
  "instant (retryEnv env v) f d = instant env f d"
  by (simp_all add: retryEnv_def validateExceptionRequest_def exceptionRequestHash_def
      transitionRequestHash_def instant_def)

lemma find_appended: "find P xs = None \<Longrightarrow> P x \<Longrightarrow> find P (xs @ [x]) = Some x"
  by (induction xs) (auto split: if_splits)

interpretation recording: idempotent_command "\<lambda>i v. recordException (retryEnv env v) i" for env
proof
  fix i v st st' res v'
  assume "recordException (retryEnv env v) i st = Inr (st', res)"
  then show "recordException (retryEnv env v') i st' = Inr (st', res)"
  proof (cases rule: record_outcome)
    case (replayed w receipt)
    then show ?thesis by (simp add: recordException_def retryEnv_reads)
  next
    case (recorded w exceptionId)
    from recorded(5) obtain r where "gs_recordReceipts st' = gs_recordReceipts st @ [r]"
      "cm_tenantId r = re_tenantId i" "cm_idempotencyKey r = re_idempotencyKey i"
      "cm_requestHash r = exceptionRequestHash env i w" "cm_responseBody r = res"
      by (rule commit_exception_outcome) (simp add: retryEnv_reads)
    with recorded(1,2) show ?thesis
      by (simp add: recordException_def retryEnv_reads findReceiptBy_def find_appended)
  qed
qed

interpretation transitions: idempotent_command "\<lambda>i v. transition (retryEnv env v) i" for env
proof
  fix i v st st' res v'
  assume "transition (retryEnv env v) i st = Inr (st', res)"
  then show "transition (retryEnv env v') i st' = Inr (st', res)"
  proof (cases rule: transition_outcome)
    case (replayed receipt)
    then show ?thesis by (auto simp: transition_def retryEnv_reads)
  next
    case (moved occurredAt head revision target kind quorum)
    from moved(10) obtain r where "gs_transitionReceipts st' = gs_transitionReceipts st @ [r]"
      "cm_tenantId r = ti_tenantId i" "cm_idempotencyKey r = ti_idempotencyKey i"
      "cm_requestHash r = transitionRequestHash env i" "cm_responseBody r = res"
      by (rule commit_transition_outcome) (auto simp: retryEnv_reads)
    with moved(1-3) show ?thesis
      by (simp add: transition_def retryEnv_reads findReceiptBy_def find_appended)
  qed
qed

section \<open>The specification of a series\<close>

type_synonym series_state = "exception_head list \<times> exception_row list \<times> approval_row list"

definition seriesOf :: "governance_store \<Rightarrow> series_state" where
  "seriesOf st = (st_heads (gs_core st), st_exceptions (gs_core st), st_exceptionApprovals (gs_core st))"

definition headKey :: "exception_head \<Rightarrow> string \<times> string" where
  "headKey h = (eh_tenantId h, eh_exceptionId h)"

definition rowKey :: "exception_row \<Rightarrow> string \<times> string" where
  "rowKey e = (ex_tenantId e, ex_exceptionId e)"

definition currentOf :: "exception_head \<Rightarrow> exception_row \<Rightarrow> bool" where
  "currentOf h e \<longleftrightarrow> rowKey e = headKey h \<and> ex_id e = eh_currentRevisionId h \<and> ex_revision e = eh_currentRevision h"

definition voteFor :: "exception_row \<Rightarrow> approval_row \<Rightarrow> bool" where
  "voteFor e v \<longleftrightarrow> (ap_tenantId v, ap_targetId v) = rowKey e \<and> ap_targetRevision v = ex_revision e"

definition approvers :: "exception_row \<Rightarrow> approval_row list \<Rightarrow> string set" where
  "approvers e votes = ap_approverRef ` {v \<in> set votes. voteFor e v \<and> ap_decision v = DecisionApproved}"

definition headOf :: "exception_row \<Rightarrow> exception_head" where
  "headOf e = \<lparr> eh_tenantId = ex_tenantId e, eh_exceptionId = ex_exceptionId e,
     eh_currentRevision = ex_revision e, eh_currentRevisionId = ex_id e, eh_status = PENDING \<rparr>"

text \<open>A new row takes a fresh identifier and a fresh revision of its series.\<close>

definition freshRow :: "exception_row \<Rightarrow> exception_row list \<Rightarrow> bool" where
  "freshRow e rows \<longleftrightarrow> ex_id e \<notin> ex_id ` set rows \<and> (rowKey e, ex_revision e) \<notin> (\<lambda>r. (rowKey r, ex_revision r)) ` set rows"

inductive series_move :: "series_state \<Rightarrow> series_state \<Rightarrow> bool" where
  open_series: "headKey (headOf e) \<notin> headKey ` set heads \<Longrightarrow> freshRow e rows \<Longrightarrow> ex_revision e = 1 \<Longrightarrow>
    series_move (heads, rows, votes) (heads @ [headOf e], rows @ [e], votes)"
| revise_series: "h \<in> set heads \<Longrightarrow> headKey h = rowKey e \<Longrightarrow> eh_status h = PENDING \<Longrightarrow>
    old \<in> set rows \<Longrightarrow> ex_tenantId old = eh_tenantId h \<Longrightarrow> ex_id old = eh_currentRevisionId h \<Longrightarrow>
    ex_contactId old = ex_contactId e \<Longrightarrow>
    freshRow e rows \<Longrightarrow> ex_revision e = eh_currentRevision h + 1 \<Longrightarrow>
    series_move (heads, rows, votes) (updateWhere (\<lambda>x. headKey x = headKey h) (\<lambda>x. headOf e) heads, rows @ [e], votes)"
| cast_vote: "h \<in> set heads \<Longrightarrow> (ap_tenantId v, ap_targetId v) = headKey h \<Longrightarrow>
    ap_targetRevision v = eh_currentRevision h \<Longrightarrow>
    e \<in> set rows \<Longrightarrow> voteFor e v \<Longrightarrow> ap_approverRef v \<noteq> ex_actorRef e \<Longrightarrow>
    series_move (heads, rows, votes) (heads, rows, votes @ [v])"
| approve_series: "h \<in> set heads \<Longrightarrow> eh_status h = PENDING \<Longrightarrow> e \<in> set rows \<Longrightarrow> currentOf h e \<Longrightarrow>
    qr_requiredApprovers (resolveCg4ExceptionQuorum (ex_tier e)) \<le> card (approvers e votes) \<Longrightarrow>
    (\<And>h' e'. h' \<in> set heads \<Longrightarrow> eh_status h' = APPROVED \<Longrightarrow> e' \<in> set rows \<Longrightarrow> currentOf h' e' \<Longrightarrow>
       ex_tenantId e' = ex_tenantId e \<Longrightarrow> ex_contactId e' = ex_contactId e \<Longrightarrow> rowKey e' \<noteq> rowKey e \<Longrightarrow>
       \<not> cg4ExceptionsOverlap e e') \<Longrightarrow>
    series_move (heads, rows, votes) (updateWhere (\<lambda>x. headKey x = headKey h) (\<lambda>x. x\<lparr>eh_status := APPROVED\<rparr>) heads, rows, votes)"
| close_series: "h \<in> set heads \<Longrightarrow>
    (eh_status h, target) \<in> {(PENDING, REJECTED), (PENDING, CANCELLED), (APPROVED, REVOKED)} \<Longrightarrow>
    series_move (heads, rows, votes) (updateWhere (\<lambda>x. headKey x = headKey h) (\<lambda>x. x\<lparr>eh_status := target\<rparr>) heads, rows, votes)"
| stay: "series_move s s"

text \<open>The shape every reachable set of tables has.\<close>

definition seriesInv :: "series_state \<Rightarrow> bool" where
  "seriesInv s \<longleftrightarrow> (case s of (heads, rows, votes) \<Rightarrow>
     distinct (map headKey heads) \<and> distinct (map ex_id rows) \<and> distinct (map (\<lambda>r. (rowKey r, ex_revision r)) rows) \<and>
     (\<forall>h \<in> set heads. \<exists>e \<in> set rows. currentOf h e) \<and>
     (\<forall>v \<in> set votes. \<exists>h \<in> set heads. headKey h = (ap_tenantId v, ap_targetId v) \<and> ap_targetRevision v \<le> eh_currentRevision h) \<and>
     (\<forall>r \<in> set rows. \<exists>h \<in> set heads. headKey h = rowKey r \<and> ex_revision r \<le> eh_currentRevision h))"

text \<open>No checker of a revision is its maker; an approved series has its quorum; no two overlap.\<close>

definition separated :: "series_state \<Rightarrow> bool" where
  "separated s \<longleftrightarrow> (case s of (heads, rows, votes) \<Rightarrow>
     \<forall>v \<in> set votes. \<forall>e \<in> set rows. voteFor e v \<longrightarrow> ap_approverRef v \<noteq> ex_actorRef e)"

definition quorate :: "series_state \<Rightarrow> bool" where
  "quorate s \<longleftrightarrow> (case s of (heads, rows, votes) \<Rightarrow>
     \<forall>h \<in> set heads. \<forall>e \<in> set rows. eh_status h \<in> {APPROVED, REVOKED} \<longrightarrow> currentOf h e \<longrightarrow>
       qr_requiredApprovers (resolveCg4ExceptionQuorum (ex_tier e)) \<le> card (approvers e votes))"

definition disjointApproved :: "series_state \<Rightarrow> bool" where
  "disjointApproved s \<longleftrightarrow> (case s of (heads, rows, votes) \<Rightarrow>
     \<forall>h \<in> set heads. \<forall>h' \<in> set heads. \<forall>e \<in> set rows. \<forall>e' \<in> set rows.
       eh_status h = APPROVED \<longrightarrow> eh_status h' = APPROVED \<longrightarrow> currentOf h e \<longrightarrow> currentOf h' e' \<longrightarrow>
       ex_tenantId e' = ex_tenantId e \<longrightarrow> ex_contactId e' = ex_contactId e \<longrightarrow> rowKey e' \<noteq> rowKey e \<longrightarrow>
       \<not> cg4ExceptionsOverlap e e')"

definition lifecycleInv :: "series_state \<Rightarrow> bool" where
  "lifecycleInv s \<longleftrightarrow> seriesInv s \<and> separated s \<and> quorate s \<and> disjointApproved s"

section \<open>Moves keep the invariant\<close>

lemma in_updateWhere: "x \<in> set (updateWhere P f xs) \<longleftrightarrow> (\<exists>y \<in> set xs. x = (if P y then f y else y))"
  by (auto simp: updateWhere_def)

lemma map_updateWhere: "(\<And>x. P x \<Longrightarrow> g (f x) = g x) \<Longrightarrow> map g (updateWhere P f xs) = map g xs"
  by (induction xs) (auto simp: updateWhere_def)

lemma headKey_status [simp]: "headKey (h\<lparr>eh_status := t\<rparr>) = headKey h"
  by (simp add: headKey_def)

lemma headKey_headOf [simp]: "headKey (headOf e) = rowKey e"
  by (simp add: headKey_def headOf_def rowKey_def)

lemma currentOf_status [simp]: "currentOf (h\<lparr>eh_status := t\<rparr>) e \<longleftrightarrow> currentOf h e"
  by (simp add: currentOf_def)

lemma currentOf_headOf: "currentOf (headOf e) e' \<longleftrightarrow> rowKey e' = rowKey e \<and> ex_id e' = ex_id e \<and> ex_revision e' = ex_revision e"
  by (simp add: currentOf_def headOf_def headKey_def rowKey_def)

lemma overlap_sym: "cg4ExceptionsOverlap a b \<longleftrightarrow> cg4ExceptionsOverlap b a"
  by (auto simp: cg4ExceptionsOverlap_def list_ex_iff)

lemma keyed_unique: "distinct (map f xs) \<Longrightarrow> x \<in> set xs \<Longrightarrow> y \<in> set xs \<Longrightarrow> f x = f y \<Longrightarrow> x = y"
  by (simp add: distinct_map inj_on_def)

lemma head_row_unique:
  "distinct (map ex_id rows) \<Longrightarrow> e \<in> set rows \<Longrightarrow> e' \<in> set rows \<Longrightarrow> currentOf h e \<Longrightarrow> currentOf h e' \<Longrightarrow> e = e'"
  by (auto simp: currentOf_def dest: keyed_unique)

lemma fresh_distinct:
  "distinct (map ex_id rows) \<Longrightarrow> distinct (map (\<lambda>r. (rowKey r, ex_revision r)) rows) \<Longrightarrow> freshRow e rows \<Longrightarrow>
   distinct (map ex_id (rows @ [e])) \<and> distinct (map (\<lambda>r. (rowKey r, ex_revision r)) (rows @ [e]))"
  by (auto simp: freshRow_def)

lemma approvers_more: "approvers e votes \<subseteq> approvers e (votes @ [v])"
  by (auto simp: approvers_def)

lemma finite_approvers [simp]: "finite (approvers e votes)"
  by (simp add: approvers_def)

lemma seriesInvD:
  assumes "seriesInv (heads, rows, votes)"
  shows "distinct (map headKey heads)" and "distinct (map ex_id rows)"
    and "distinct (map (\<lambda>r. (rowKey r, ex_revision r)) rows)"
    and "\<And>h. h \<in> set heads \<Longrightarrow> \<exists>e \<in> set rows. currentOf h e"
    and "\<And>v. v \<in> set votes \<Longrightarrow> \<exists>h \<in> set heads. headKey h = (ap_tenantId v, ap_targetId v) \<and> ap_targetRevision v \<le> eh_currentRevision h"
    and "\<And>r. r \<in> set rows \<Longrightarrow> \<exists>h \<in> set heads. headKey h = rowKey r \<and> ex_revision r \<le> eh_currentRevision h"
  using assms unfolding seriesInv_def prod.case by blast+

lemma seriesInvI:
  assumes "distinct (map headKey heads)" and "distinct (map ex_id rows)"
    and "distinct (map (\<lambda>r. (rowKey r, ex_revision r)) rows)"
    and "\<And>h. h \<in> set heads \<Longrightarrow> \<exists>e \<in> set rows. currentOf h e"
    and "\<And>v. v \<in> set votes \<Longrightarrow> \<exists>h \<in> set heads. headKey h = (ap_tenantId v, ap_targetId v) \<and> ap_targetRevision v \<le> eh_currentRevision h"
    and "\<And>r. r \<in> set rows \<Longrightarrow> \<exists>h \<in> set heads. headKey h = rowKey r \<and> ex_revision r \<le> eh_currentRevision h"
  shows "seriesInv (heads, rows, votes)"
  unfolding seriesInv_def prod.case using assms by blast

lemma seriesInv_status:
  assumes "seriesInv (heads, rows, votes)"
  shows "seriesInv (updateWhere P (\<lambda>x. x\<lparr>eh_status := t\<rparr>) heads, rows, votes)"
proof (rule seriesInvI)
  let ?heads = "updateWhere P (\<lambda>x. x\<lparr>eh_status := t\<rparr>) heads"
  have "map headKey ?heads = map headKey heads" by (rule map_updateWhere) simp
  with seriesInvD(1) [OF assms] show "distinct (map headKey ?heads)" by simp
  show "\<exists>e \<in> set rows. currentOf h e" if "h \<in> set ?heads" for h
    using that seriesInvD(4) [OF assms] by (auto simp: in_updateWhere)
  have keep: "\<exists>y \<in> set ?heads. headKey y = headKey x \<and> eh_currentRevision y = eh_currentRevision x" if "x \<in> set heads" for x
    using that by (intro bexI [of _ "if P x then x\<lparr>eh_status := t\<rparr> else x"]) (auto simp: in_updateWhere)
  show "\<exists>h \<in> set ?heads. headKey h = (ap_tenantId v, ap_targetId v) \<and> ap_targetRevision v \<le> eh_currentRevision h"
    if "v \<in> set votes" for v
    using seriesInvD(5) [OF assms that] keep by metis
  show "\<exists>h \<in> set ?heads. headKey h = rowKey r \<and> ex_revision r \<le> eh_currentRevision h" if "r \<in> set rows" for r
    using seriesInvD(6) [OF assms that] keep by metis
qed (use seriesInvD [OF assms] in simp_all)

text \<open>Every head lives on under its key, at the same revision or a later one.\<close>

definition headsGrow :: "exception_head list \<Rightarrow> exception_head list \<Rightarrow> bool" where
  "headsGrow heads heads' \<longleftrightarrow>
     (\<forall>x \<in> set heads. \<exists>y \<in> set heads'. headKey y = headKey x \<and> eh_currentRevision x \<le> eh_currentRevision y)"

lemma headsGrow_revise:
  assumes "distinct (map headKey heads)" and "h \<in> set heads" and "headKey h = rowKey e"
    and "ex_revision e = eh_currentRevision h + 1"
  shows "headsGrow heads (updateWhere (\<lambda>x. headKey x = headKey h) (\<lambda>x. headOf e) heads)"
  unfolding headsGrow_def
proof
  fix x assume x: "x \<in> set heads"
  show "\<exists>y \<in> set (updateWhere (\<lambda>x. headKey x = headKey h) (\<lambda>x. headOf e) heads).
      headKey y = headKey x \<and> eh_currentRevision x \<le> eh_currentRevision y"
  proof (cases "headKey x = headKey h")
    case True
    from keyed_unique [OF assms(1) x assms(2) True] assms True x show ?thesis
      by (intro bexI [of _ "headOf e"] conjI) (simp, simp add: headOf_def, auto simp: in_updateWhere)
  next
    case False
    with x show ?thesis by (intro bexI [of _ x]) (auto simp: in_updateWhere)
  qed
qed

lemma seriesInv_add_row:
  assumes inv: "seriesInv (heads, rows, votes)" and fresh: "freshRow e rows"
    and "distinct (map headKey heads')" and grow: "headsGrow heads heads'"
    and new: "headOf e \<in> set heads'" and old: "\<And>x. x \<in> set heads' \<Longrightarrow> x = headOf e \<or> x \<in> set heads"
  shows "seriesInv (heads', rows @ [e], votes)"
proof (rule seriesInvI)
  show "distinct (map ex_id (rows @ [e]))" "distinct (map (\<lambda>r. (rowKey r, ex_revision r)) (rows @ [e]))"
    using fresh_distinct [OF seriesInvD(2,3) [OF inv] fresh] by auto
  show "\<exists>r \<in> set (rows @ [e]). currentOf x r" if "x \<in> set heads'" for x
    using old [OF that] seriesInvD(4) [OF inv] by (auto simp: currentOf_headOf)
  show "\<exists>h \<in> set heads'. headKey h = (ap_tenantId v, ap_targetId v) \<and> ap_targetRevision v \<le> eh_currentRevision h"
    if "v \<in> set votes" for v
    using seriesInvD(5) [OF inv that] grow unfolding headsGrow_def by (metis order_trans)
  show "\<exists>h \<in> set heads'. headKey h = rowKey r \<and> ex_revision r \<le> eh_currentRevision h" if "r \<in> set (rows @ [e])" for r
  proof (cases "r = e")
    case True
    with new show ?thesis by (intro bexI [of _ "headOf e"]) (simp_all add: headOf_def headKey_def rowKey_def)
  next
    case False
    with that have "r \<in> set rows" by simp
    from seriesInvD(6) [OF inv this] grow show ?thesis unfolding headsGrow_def by (metis order_trans)
  qed
qed fact

lemma seriesInv_move: "series_move s t \<Longrightarrow> seriesInv s \<Longrightarrow> seriesInv t"
proof (induction rule: series_move.induct)
  case (open_series e heads rows votes)
  then show ?case
    by (intro seriesInv_add_row) (auto simp: headsGrow_def dest: seriesInvD(1))
next
  case (revise_series h heads e old rows votes)
  note d = seriesInvD(1) [OF revise_series(10)]
  have "map headKey (updateWhere (\<lambda>x. headKey x = headKey h) (\<lambda>x. headOf e) heads) = map headKey heads"
    by (rule map_updateWhere) (simp add: revise_series(2))
  with d revise_series(1) show ?case
    by (intro seriesInv_add_row [OF revise_series(10,8)] headsGrow_revise revise_series(1,2,9)) (auto simp: in_updateWhere)
next
  case (cast_vote h heads v e rows votes)
  note inv = cast_vote(7)
  show ?case
  proof (rule seriesInvI)
    show "\<exists>h \<in> set heads. headKey h = (ap_tenantId w, ap_targetId w) \<and> ap_targetRevision w \<le> eh_currentRevision h"
      if "w \<in> set (votes @ [v])" for w
      using that seriesInvD(5) [OF inv] cast_vote(1-3) by auto
  qed (use seriesInvD [OF inv] in blast)+
next
  case (approve_series h heads e rows votes)
  then show ?case by (intro seriesInv_status)
next
  case (close_series h heads target rows votes)
  then show ?case by (intro seriesInv_status)
qed

lemma new_row_no_votes:
  assumes "seriesInv (heads, rows, votes)" and "v \<in> set votes" and "voteFor e v"
  obtains h where "h \<in> set heads" "headKey h = rowKey e" "ex_revision e \<le> eh_currentRevision h"
  using seriesInvD(5) [OF assms(1,2)] assms(3) by (auto simp: voteFor_def)

lemma separated_move: "series_move s t \<Longrightarrow> seriesInv s \<Longrightarrow> separated s \<Longrightarrow> separated t"
proof (induction rule: series_move.induct)
  case (open_series e heads rows votes)
  have "\<not> voteFor e v" if "v \<in> set votes" for v
  proof
    assume "voteFor e v"
    from new_row_no_votes [OF open_series(4) that this] obtain x where "x \<in> set heads" "headKey x = rowKey e" .
    with open_series(1) show False by (metis headKey_headOf image_eqI)
  qed
  with open_series show ?case by (auto simp: separated_def)
next
  case (revise_series h heads e old rows votes)
  have "\<not> voteFor e v" if "v \<in> set votes" for v
  proof
    assume "voteFor e v"
    from new_row_no_votes [OF revise_series(10) that this] obtain x where x: "x \<in> set heads"
      "headKey x = rowKey e" "ex_revision e \<le> eh_currentRevision x" .
    with keyed_unique [OF seriesInvD(1) [OF revise_series(10)] x(1) revise_series(1)] revise_series(2)
    have "x = h" by simp
    with x revise_series(9) show False by simp
  qed
  with revise_series show ?case by (auto simp: separated_def)
next
  case (cast_vote h heads v e rows votes)
  have "ap_approverRef v \<noteq> ex_actorRef r" if "r \<in> set rows" "voteFor r v" for r
  proof -
    have "(rowKey r, ex_revision r) = (rowKey e, ex_revision e)" using that cast_vote(5) by (simp add: voteFor_def)
    with keyed_unique [OF seriesInvD(3) [OF cast_vote(7)] that(1) cast_vote(4)] have "r = e" by simp
    with cast_vote(6) show ?thesis by simp
  qed
  with cast_vote(8) show ?case by (auto simp: separated_def)
qed (auto simp: separated_def)

lemma new_row_not_current:
  assumes "seriesInv (heads, rows, votes)" and "freshRow e rows" and "x \<in> set heads"
  shows "\<not> currentOf x e"
  using seriesInvD(4) [OF assms(1,3)] assms(2) unfolding currentOf_def freshRow_def by (metis image_eqI)

text \<open>A settled head, approved or closed, is an old one and its current revision is an old row.\<close>

lemma settled_head_old:
  assumes "seriesInv (heads, rows, votes)" and "freshRow e rows"
    and "\<And>x. x \<in> set heads' \<Longrightarrow> x = headOf e \<or> x \<in> set heads"
    and "h \<in> set heads'" and "eh_status h \<noteq> PENDING" and "r \<in> set (rows @ [e])" and "currentOf h r"
  shows "h \<in> set heads \<and> r \<in> set rows"
proof -
  have "h \<noteq> headOf e" using assms(5) by (auto simp: headOf_def)
  with assms(3,4) have "h \<in> set heads" by blast
  with new_row_not_current [OF assms(1,2)] assms(6,7) show ?thesis by auto
qed

lemma quorate_add_row:
  assumes "seriesInv (heads, rows, votes)" and "freshRow e rows"
    and "\<And>x. x \<in> set heads' \<Longrightarrow> x = headOf e \<or> x \<in> set heads" and "quorate (heads, rows, votes)"
  shows "quorate (heads', rows @ [e], votes)"
  unfolding quorate_def prod.case
proof (intro ballI impI)
  fix h r assume h: "h \<in> set heads'" "r \<in> set (rows @ [e])" "eh_status h \<in> {APPROVED, REVOKED}" "currentOf h r"
  then have "eh_status h \<noteq> PENDING" by auto
  from settled_head_old [OF assms(1-3) h(1) this h(2,4)] h assms(4)
  show "qr_requiredApprovers (resolveCg4ExceptionQuorum (ex_tier r)) \<le> card (approvers r votes)"
    by (auto simp: quorate_def)
qed

lemma disjointApproved_add_row:
  assumes "seriesInv (heads, rows, votes)" and "freshRow e rows"
    and "\<And>x. x \<in> set heads' \<Longrightarrow> x = headOf e \<or> x \<in> set heads" and "disjointApproved (heads, rows, votes)"
  shows "disjointApproved (heads', rows @ [e], votes)"
  unfolding disjointApproved_def prod.case
proof (intro ballI impI)
  fix h h' r r'
  assume h: "h \<in> set heads'" "h' \<in> set heads'" "r \<in> set (rows @ [e])" "r' \<in> set (rows @ [e])"
    "eh_status h = APPROVED" "eh_status h' = APPROVED" "currentOf h r" "currentOf h' r'"
    "ex_tenantId r' = ex_tenantId r" "ex_contactId r' = ex_contactId r" "rowKey r' \<noteq> rowKey r"
  then have p: "eh_status h \<noteq> PENDING" "eh_status h' \<noteq> PENDING" by auto
  from settled_head_old [OF assms(1-3) h(1) p(1) h(3,7)] settled_head_old [OF assms(1-3) h(2) p(2) h(4,8)] h assms(4)
  show "\<not> cg4ExceptionsOverlap r r'"
    unfolding disjointApproved_def prod.case by blast
qed

lemma revised_heads_old:
  "x \<in> set (updateWhere P (\<lambda>x. headOf e) heads) \<Longrightarrow> x = headOf e \<or> x \<in> set heads"
  by (auto simp: in_updateWhere)

lemma quorate_move: "series_move s t \<Longrightarrow> seriesInv s \<Longrightarrow> quorate s \<Longrightarrow> quorate t"
proof (induction rule: series_move.induct)
  case (open_series e heads rows votes)
  then show ?case by (intro quorate_add_row [where heads = heads]) auto
next
  case (revise_series h heads e old rows votes)
  then show ?case by (intro quorate_add_row [where heads = heads] revised_heads_old) auto
next
  case (cast_vote h heads v e rows votes)
  have "card (approvers r votes) \<le> card (approvers r (votes @ [v]))" for r
    by (rule card_mono) (simp_all add: approvers_more)
  with cast_vote(8) show ?case unfolding quorate_def prod.case by (meson order_trans)
next
  case (approve_series h heads e rows votes)
  show ?case unfolding quorate_def prod.case
  proof (intro ballI impI)
    fix x r assume x: "x \<in> set (updateWhere (\<lambda>x. headKey x = headKey h) (\<lambda>x. x\<lparr>eh_status := APPROVED\<rparr>) heads)"
      "r \<in> set rows" "eh_status x \<in> {APPROVED, REVOKED}" "currentOf x r"
    then obtain y where y: "y \<in> set heads" "x = (if headKey y = headKey h then y\<lparr>eh_status := APPROVED\<rparr> else y)"
      by (auto simp: in_updateWhere)
    show "qr_requiredApprovers (resolveCg4ExceptionQuorum (ex_tier r)) \<le> card (approvers r votes)"
    proof (cases "headKey y = headKey h")
      case True
      have "y = h" by (rule keyed_unique [OF seriesInvD(1) [OF approve_series(7)] y(1) approve_series(1) True])
      with y x True have "currentOf h r" by simp
      with head_row_unique [OF seriesInvD(2) [OF approve_series(7)] x(2) approve_series(3)] approve_series(4)
      have "r = e" by blast
      with approve_series(5) show ?thesis by simp
    next
      case False
      with y x approve_series(8) show ?thesis by (auto simp: quorate_def)
    qed
  qed
next
  case (close_series h heads target rows votes)
  show ?case unfolding quorate_def prod.case
  proof (intro ballI impI)
    fix x r assume x: "x \<in> set (updateWhere (\<lambda>x. headKey x = headKey h) (\<lambda>x. x\<lparr>eh_status := target\<rparr>) heads)"
      "r \<in> set rows" "eh_status x \<in> {APPROVED, REVOKED}" "currentOf x r"
    then obtain y where y: "y \<in> set heads" "x = (if headKey y = headKey h then y\<lparr>eh_status := target\<rparr> else y)"
      by (auto simp: in_updateWhere)
    have "eh_status y \<in> {APPROVED, REVOKED}"
    proof (cases "headKey y = headKey h")
      case True
      have "y = h" by (rule keyed_unique [OF seriesInvD(1) [OF close_series(3)] y(1) close_series(1) True])
      with y x True close_series(2) show ?thesis by auto
    qed (use x y in simp)
    with y x close_series(4) show "qr_requiredApprovers (resolveCg4ExceptionQuorum (ex_tier r)) \<le> card (approvers r votes)"
      by (auto simp: quorate_def split: if_splits)
  qed
qed simp

lemma disjointApproved_move: "series_move s t \<Longrightarrow> seriesInv s \<Longrightarrow> disjointApproved s \<Longrightarrow> disjointApproved t"
proof (induction rule: series_move.induct)
  case (open_series e heads rows votes)
  then show ?case by (intro disjointApproved_add_row [where heads = heads]) auto
next
  case (revise_series h heads e old rows votes)
  then show ?case by (intro disjointApproved_add_row [where heads = heads] revised_heads_old) auto
next
  case (cast_vote h heads v e rows votes)
  then show ?case by (simp add: disjointApproved_def)
next
  case (approve_series h heads e rows votes)
  note d = seriesInvD(1) [OF approve_series(7)] and ids = seriesInvD(2) [OF approve_series(7)]
  have old: "x = h\<lparr>eh_status := APPROVED\<rparr> \<or> x \<in> set heads \<and> headKey x \<noteq> headKey h"
    if "x \<in> set (updateWhere (\<lambda>x. headKey x = headKey h) (\<lambda>x. x\<lparr>eh_status := APPROVED\<rparr>) heads)" for x
    using that keyed_unique [OF d _ approve_series(1)] by (auto simp: in_updateWhere split: if_splits)
  show ?case unfolding disjointApproved_def prod.case
  proof (intro ballI impI)
    fix x x' r r'
    assume x: "x \<in> set (updateWhere (\<lambda>x. headKey x = headKey h) (\<lambda>x. x\<lparr>eh_status := APPROVED\<rparr>) heads)"
      "x' \<in> set (updateWhere (\<lambda>x. headKey x = headKey h) (\<lambda>x. x\<lparr>eh_status := APPROVED\<rparr>) heads)"
      "r \<in> set rows" "r' \<in> set rows"
      "eh_status x = APPROVED" "eh_status x' = APPROVED" "currentOf x r" "currentOf x' r'"
      "ex_tenantId r' = ex_tenantId r" "ex_contactId r' = ex_contactId r" "rowKey r' \<noteq> rowKey r"
    have this_row: "r0 = e" if "r0 \<in> set rows" "currentOf (h\<lparr>eh_status := APPROVED\<rparr>) r0" for r0
      using head_row_unique [OF ids that(1) approve_series(3)] that(2) approve_series(4) by simp
    from old [OF x(1)] old [OF x(2)] consider
        "x = h\<lparr>eh_status := APPROVED\<rparr>" "x' = h\<lparr>eh_status := APPROVED\<rparr>"
      | "x = h\<lparr>eh_status := APPROVED\<rparr>" "x' \<in> set heads"
      | "x \<in> set heads" "x' = h\<lparr>eh_status := APPROVED\<rparr>"
      | "x \<in> set heads" "x' \<in> set heads" by blast
    then show "\<not> cg4ExceptionsOverlap r r'"
    proof cases
      case 1
      with x this_row show ?thesis by metis
    next
      case 2
      with x this_row approve_series(6) show ?thesis by metis
    next
      case 3
      with x this_row approve_series(6) overlap_sym show ?thesis by metis
    next
      case 4
      with x approve_series(8) show ?thesis unfolding disjointApproved_def prod.case by blast
    qed
  qed
next
  case (close_series h heads target rows votes)
  have "\<exists>y \<in> set heads. eh_status y = APPROVED \<and> (\<forall>r. currentOf x r \<longrightarrow> currentOf y r)"
    if "x \<in> set (updateWhere (\<lambda>x. headKey x = headKey h) (\<lambda>x. x\<lparr>eh_status := target\<rparr>) heads)" "eh_status x = APPROVED" for x
    using that close_series(2) by (auto simp: in_updateWhere split: if_splits)
  with close_series(4) show ?case unfolding disjointApproved_def prod.case by meson
qed simp

lemma lifecycleInv_move: "series_move s t \<Longrightarrow> lifecycleInv s \<Longrightarrow> lifecycleInv t"
  by (auto simp: lifecycleInv_def intro: seriesInv_move separated_move quorate_move disjointApproved_move)

lemma lifecycleInv_empty: "lifecycleInv ([], [], [])"
  by (simp add: lifecycleInv_def seriesInv_def separated_def quorate_def disjointApproved_def)

interpretation series: invariant_system "\<lambda>s. s = ([], [], [])" series_move lifecycleInv
  by unfold_locales (use lifecycleInv_empty lifecycleInv_move in blast)+

section \<open>Commands refine moves\<close>

inductive governance_step :: "governance_store \<Rightarrow> governance_store \<Rightarrow> bool" where
  record_step: "recordException env i st = Inr (st', r) \<Longrightarrow> governance_step st st'"
| transition_step: "transition env t st = Inr (st', q) \<Longrightarrow> governance_step st st'"
| vote_step: "castVote dg ids now v st = Inr (st', p) \<Longrightarrow> governance_step st st'"

lemma findHead_Some: "findHead T E st = Some h \<Longrightarrow> h \<in> set (st_heads (gs_core st)) \<and> headKey h = (T, E)"
  by (auto simp: findHead_def headKey_def dest: find_Some_in)

lemma findHead_None: "findHead T E st = None \<Longrightarrow> (T, E) \<notin> headKey ` set (st_heads (gs_core st))"
  by (auto simp: findHead_def headKey_def find_None_iff)

lemma appendException_Inr: "appendException e rows = Inr rows' \<longleftrightarrow> freshRow e rows \<and> rows' = rows @ [e]"
  unfolding appendException_def freshRow_def rowKey_def list_ex_iff by (auto split: if_splits intro: rev_image_eqI)

lemma updateWhere_cong: "(\<And>x. x \<in> set xs \<Longrightarrow> (if P x then f x else x) = (if Q x then g x else x)) \<Longrightarrow>
    updateWhere P f xs = updateWhere Q g xs"
  by (simp add: updateWhere_def)

lemma moveSeriesHead_None: "moveSeriesHead e None heads = heads @ [headOf e]"
  by (simp add: moveSeriesHead_def headOf_def)

lemma moveSeriesHead_Some:
  "headKey h = rowKey e \<Longrightarrow> moveSeriesHead e (Some h) heads = updateWhere (\<lambda>x. headKey x = headKey h) (\<lambda>x. headOf e) heads"
  unfolding moveSeriesHead_def option.case
  by (rule updateWhere_cong) (auto simp: headKey_def rowKey_def headOf_def)

lemma rowKey_new [simp]: "rowKey (newExceptionRow env i w hash exceptionId h) = (re_tenantId i, exceptionId)"
  by (simp add: rowKey_def newExceptionRow_def)

lemma newRow_fields [simp]:
  "ex_revision (newExceptionRow env i w hash exceptionId h) = (case h of None \<Rightarrow> 0 | Some h \<Rightarrow> eh_currentRevision h) + 1"
  "ex_contactId (newExceptionRow env i w hash exceptionId h) = re_contactId i"
  "ex_tenantId (newExceptionRow env i w hash exceptionId h) = re_tenantId i"
  by (simp_all add: newExceptionRow_def)

lemma record_refines:
  assumes "recordException env i st = Inr (st', res)"
  shows "series_move (seriesOf st) (seriesOf st')"
  using assms
proof (cases rule: record_outcome)
  case (replayed w receipt)
  then show ?thesis by (simp add: series_move.stay)
next
  case (recorded w exceptionId)
  let ?T = "re_tenantId i"
  let ?head = "findHead ?T exceptionId st"
  let ?row = "newExceptionRow env i w (exceptionRequestHash env i w) exceptionId ?head"
  from recorded(5) have fresh: "freshRow ?row (st_exceptions (gs_core st))"
    and st': "seriesOf st' = (moveSeriesHead ?row ?head (st_heads (gs_core st)), st_exceptions (gs_core st) @ [?row],
      st_exceptionApprovals (gs_core st))"
    by (rule commit_exception_outcome; simp add: appendException_Inr seriesOf_def)+
  show ?thesis
  proof (cases ?head)
    case None
    from fresh findHead_None [OF None] show ?thesis
      unfolding st' unfolding seriesOf_def None moveSeriesHead_None
      by (intro series_move.open_series) simp_all
  next
    case (Some h)
    from findHead_Some [OF Some] have h: "h \<in> set (st_heads (gs_core st))" "headKey h = (?T, exceptionId)" by auto
    from recorded(4) Some obtain old where o: "eh_status h = PENDING"
      "revisionOfContact ?T (re_contactId i) h st = Some old"
      by (auto simp: checkSeries_def split: if_splits)
    from o(2) have old: "old \<in> set (st_exceptions (gs_core st))" "ex_tenantId old = ?T"
      "ex_id old = eh_currentRevisionId h" "ex_contactId old = re_contactId i"
      by (auto simp: revisionOfContact_def dest: find_Some_in)
    have m: "moveSeriesHead ?row ?head (st_heads (gs_core st)) =
        updateWhere (\<lambda>x. headKey x = headKey h) (\<lambda>x. headOf ?row) (st_heads (gs_core st))"
      unfolding Some by (rule moveSeriesHead_Some) (simp add: h(2))
    have t: "eh_tenantId h = ?T" using h(2) by (simp add: headKey_def)
    show ?thesis unfolding st' m unfolding seriesOf_def
      by (rule series_move.revise_series [OF h(1) _ o(1) old(1) _ old(3) _ fresh]) (simp_all add: h(2) old t Some)
  qed
qed

lemma transition_head_unique:
  assumes "seriesInv (seriesOf st)" and "findHead T E st = Some head"
  shows "updateWhere (\<lambda>h. eh_tenantId h = T \<and> eh_exceptionId h = E \<and> eh_currentRevision h = eh_currentRevision head \<and>
      eh_status h = eh_status head) f (st_heads (gs_core st)) =
    updateWhere (\<lambda>x. headKey x = headKey head) f (st_heads (gs_core st))"
proof (rule updateWhere_cong)
  fix x assume x: "x \<in> set (st_heads (gs_core st))"
  from findHead_Some [OF assms(2)] have h: "head \<in> set (st_heads (gs_core st))" "headKey head = (T, E)" by auto
  from keyed_unique [OF seriesInvD(1) [OF assms(1) [unfolded seriesOf_def]] x h(1)] h(2)
  have "headKey x = headKey head \<longleftrightarrow> x = head" by blast
  with h(2) show "(if eh_tenantId x = T \<and> eh_exceptionId x = E \<and> eh_currentRevision x = eh_currentRevision head \<and>
      eh_status x = eh_status head then f x else x) = (if headKey x = headKey head then f x else x)"
    by (auto simp: headKey_def)
qed

lemma transition_revision:
  assumes "seriesInv (seriesOf st)" and "findHead T E st = Some head"
    and "find (\<lambda>e. ex_tenantId e = T \<and> ex_id e = eh_currentRevisionId head) (st_exceptions (gs_core st)) = Some revision"
  shows "revision \<in> set (st_exceptions (gs_core st)) \<and> currentOf head revision"
proof -
  from findHead_Some [OF assms(2)] have h: "head \<in> set (st_heads (gs_core st))" by auto
  from find_Some_in [OF assms(3)] have r: "revision \<in> set (st_exceptions (gs_core st))" "ex_id revision = eh_currentRevisionId head"
    by auto
  note inv = assms(1) [unfolded seriesOf_def]
  from seriesInvD(4) [OF inv h] obtain e where e: "e \<in> set (st_exceptions (gs_core st))" "currentOf head e" by blast
  from keyed_unique [OF seriesInvD(2) [OF inv] r(1) e(1)] r(2) e(2) have "revision = e" by (simp add: currentOf_def)
  with r e show ?thesis by simp
qed

lemma counted_approvers:
  assumes "rowKey e = (T, E)" and "ex_revision e = R"
  shows "ra_checkerSubjectId ` set (map countedApproval (filter (\<lambda>r. ap_decision r = DecisionApproved) (revisionVotes T E R st)))
    = approvers e (st_exceptionApprovals (gs_core st))"
proof -
  have "ra_checkerSubjectId (countedApproval v) = ap_approverRef v" for v by (simp add: countedApproval_def)
  moreover have "voteFor e v \<longleftrightarrow> ap_tenantId v = T \<and> ap_targetId v = E \<and> ap_targetRevision v = R" for v
    using assms by (auto simp: voteFor_def)
  ultimately show ?thesis
    by (auto simp: approvers_def revisionVotes_def image_image)
qed

lemma transition_quorum:
  assumes "checkApproval env i revision st = Inr q" and "ti_action i = ActApprove"
    and "rowKey revision = (ti_tenantId i, ti_exceptionId i)" and "ex_revision revision = ti_expectedRevision i"
  shows "qr_requiredApprovers (resolveCg4ExceptionQuorum (ex_tier revision)) \<le>
    card (approvers revision (st_exceptionApprovals (gs_core st)))"
proof -
  from assms(1,2) have "qe_status (approvalQuorum env i revision st) = QuorumMet"
    by (auto simp: checkApproval_def Let_def result_simps lift_auth_def assertCg4QuorumMet_def split: sum.splits)
  from quorum_met_counts(2) [OF this [unfolded approvalQuorum_def Let_def]]
  show ?thesis unfolding counted_approvers [OF assms(3,4)] .
qed

lemma transition_no_conflict:
  assumes "checkApproval env i revision st = Inr q" and "ti_action i = ActApprove"
    and "rowKey revision = (ti_tenantId i, ti_exceptionId i)"
    and "h' \<in> set (st_heads (gs_core st))" and "eh_status h' = APPROVED"
    and "e' \<in> set (st_exceptions (gs_core st))" and "currentOf h' e'"
    and "ex_tenantId e' = ex_tenantId revision" and "ex_contactId e' = ex_contactId revision"
    and "rowKey e' \<noteq> rowKey revision"
  shows "\<not> cg4ExceptionsOverlap revision e'"
proof
  assume o: "cg4ExceptionsOverlap revision e'"
  from assms(1,2) have "scopeConflict i revision st = None"
    by (auto simp: checkApproval_def Let_def result_simps split: option.splits)
  moreover have "scopeConflict i revision st \<noteq> None"
  proof -
    have k: "ex_tenantId e' = ti_tenantId i" "ex_exceptionId e' \<noteq> ti_exceptionId i"
      using assms(3,8,10) by (auto simp: rowKey_def)
    have w: "ex_startsAt revision < ex_expiresAt e'" "ex_startsAt e' < ex_expiresAt revision"
      using o by (auto simp: cg4ExceptionsOverlap_def)
    have c: "eh_tenantId h' = ti_tenantId i" "eh_exceptionId h' = ex_exceptionId e'" "eh_currentRevisionId h' = ex_id e'"
      using assms(7) k by (auto simp: currentOf_def rowKey_def headKey_def)
    show ?thesis
      unfolding scopeConflict_def Let_def find_None_iff
      using o k w c assms(4-6,9) by (auto intro!: exI [of _ e'] rev_image_eqI [of h'])
  qed
  ultimately show False by blast
qed

lemma transition_refines:
  assumes "transition env i st = Inr (st', res)" and inv: "seriesInv (seriesOf st)"
  shows "series_move (seriesOf st) (seriesOf st')"
  using assms(1)
proof (cases rule: transition_outcome)
  case (replayed receipt)
  then show ?thesis by (simp add: series_move.stay)
next
  case (moved occurredAt head revision target kind quorum)
  from findHead_Some [OF moved(4)] have h: "head \<in> set (st_heads (gs_core st))" "headKey head = (ti_tenantId i, ti_exceptionId i)" by auto
  from transition_revision [OF inv moved(4,6)] have r: "revision \<in> set (st_exceptions (gs_core st))" "currentOf head revision" by auto
  have st': "seriesOf st' = (updateWhere (\<lambda>x. headKey x = headKey head) (\<lambda>h. h\<lparr>eh_status := target\<rparr>) (st_heads (gs_core st)),
      st_exceptions (gs_core st), st_exceptionApprovals (gs_core st))"
    using moved(10) by (rule commit_transition_outcome)
      (simp add: seriesOf_def transition_head_unique [OF inv moved(4)] flip: moved(5))
  show ?thesis
  proof (cases "ti_action i = ActApprove")
    case True
    with moved(7) have t: "eh_status head = PENDING" "target = APPROVED"
      by (auto simp: resolveCg4TransitionTarget_def split: if_splits)
    have k: "rowKey revision = (ti_tenantId i, ti_exceptionId i)" "ex_revision revision = ti_expectedRevision i"
      using r(2) h(2) moved(5) by (auto simp: currentOf_def)
    show ?thesis unfolding st' t(2) unfolding seriesOf_def
      by (rule series_move.approve_series [OF h(1) t(1) r transition_quorum [OF moved(9) True k]])
        (rule transition_no_conflict [OF moved(9) True k(1)])
  next
    case False
    with moved(7) have "(eh_status head, target) \<in> {(PENDING, REJECTED), (PENDING, CANCELLED), (APPROVED, REVOKED)}"
      by (cases "ti_action i") (auto simp: resolveCg4TransitionTarget_def split: if_splits)
    then show ?thesis unfolding st' unfolding seriesOf_def by (rule series_move.close_series [OF h(1)])
  qed
qed

lemma recorded_vote_head:
  assumes "recordExceptionApproval dg ids now i st = Inr (st', res)"
    and "findReceipt st CG4_EXCEPTION_APPROVAL_RECORD i = None"
  obtains h where "h \<in> set (st_heads st)" "headKey h = (ri_tenantId i, ri_targetId i)"
    "eh_currentRevision h = ri_expectedRevision i"
proof -
  from assms obtain h where h: "find (\<lambda>h. eh_tenantId h = ri_tenantId i \<and> eh_exceptionId h = ri_targetId i) (st_heads st) = Some h"
    by (auto simp: recordExceptionApproval_def Let_def result_simps split: option.splits)
  with assms have "eh_currentRevision h = ri_expectedRevision i"
    by (auto simp: recordExceptionApproval_def Let_def result_simps split: if_splits)
  with find_Some_in [OF h] that show thesis by (auto simp: headKey_def)
qed

lemma checkRequired_maker: "checkRequiredFields f i = Inr () \<Longrightarrow> ri_makerSubjectId i \<noteq> []"
  by (auto simp: checkRequiredFields_def nonEmpty_def Let_def js_trim_def result_simps split: if_splits)

lemma vote_refines:
  assumes "castVote dg ids now i st = Inr (st', res)"
  shows "series_move (seriesOf st) (seriesOf st')"
proof -
  let ?maker = "case cg4ExceptionMakerSubjectId (ri_tenantId i) (ri_targetId i) (ri_expectedRevision i) st of
      Some m \<Rightarrow> m | None \<Rightarrow> []"
  let ?i = "i\<lparr>ri_makerSubjectId := ?maker\<rparr>"
  from assms obtain core where r: "recordExceptionApproval dg ids now ?i (gs_core st) = Inr (core, res)"
    and st': "st' = st\<lparr>gs_core := core\<rparr>"
    by (auto simp: castVote_def Let_def result_simps)
  from r show ?thesis
  proof (cases rule: record_exception_outcome)
    case (replayed rec)
    then show ?thesis by (simp add: st' seriesOf_def series_move.stay)
  next
    case (recorded exc row q au)
    note row = admitVote_row [OF recorded(4)]
    obtain h where h: "h \<in> set (st_heads (gs_core st))" "headKey h = (ri_tenantId i, ri_targetId i)"
      "eh_currentRevision h = ri_expectedRevision i"
      by (rule recorded_vote_head [OF r recorded(1)]) simp
    have "?maker \<noteq> []" using checkRequired_maker [OF recorded(2)] by simp
    then obtain e where "cg4ExceptionMakerSubjectId (ri_tenantId i) (ri_targetId i) (ri_expectedRevision i) st = Some (ex_actorRef e)"
      and e: "find (\<lambda>e. ex_tenantId e = ri_tenantId i \<and> ex_exceptionId e = ri_targetId i \<and> ex_revision e = ri_expectedRevision i)
        (st_exceptions (gs_core st)) = Some e"
      by (auto simp: cg4ExceptionMakerSubjectId_def split: option.splits)
    then have "?maker = ex_actorRef e" by simp
    with row have v: "vote_key row = (ri_tenantId i, ri_targetId i, ri_expectedRevision i, sub_subjectId (ri_checker i))"
      "sub_subjectId (ri_checker i) \<noteq> ex_actorRef e" by simp_all
    from find_Some_in [OF e] v have m: "e \<in> set (st_exceptions (gs_core st))" "voteFor e row" "ap_approverRef row \<noteq> ex_actorRef e"
      by (auto simp: voteFor_def vote_key_def rowKey_def)
    have "seriesOf st' = (st_heads (gs_core st), st_exceptions (gs_core st), st_exceptionApprovals (gs_core st) @ [row])"
      unfolding seriesOf_def st' recorded(6) by simp
    moreover have "(ap_tenantId row, ap_targetId row) = headKey h" "ap_targetRevision row = eh_currentRevision h"
      using v(1) h(2,3) unfolding vote_key_def by auto
    ultimately show ?thesis
      unfolding seriesOf_def [of st] by (simp only:) (rule series_move.cast_vote [OF h(1) _ _ m])
  qed
qed

text \<open>
  Every command is one move of the specification.
\<close>

lemma step_refines: "governance_step st st' \<Longrightarrow> seriesInv (seriesOf st) \<Longrightarrow> series_move (seriesOf st) (seriesOf st')"
  by (induction rule: governance_step.induct) (auto intro: record_refines transition_refines vote_refines)

interpretation governance: invariant_system
  "\<lambda>st. seriesOf st = ([], [], [])" governance_step "\<lambda>st. lifecycleInv (seriesOf st)"
proof
  fix st st'
  assume inv: "lifecycleInv (seriesOf st)" and step: "governance_step st st'"
  from inv have "seriesInv (seriesOf st)" unfolding lifecycleInv_def by blast
  from series.step_invar [OF inv step_refines [OF step this]] show "lifecycleInv (seriesOf st')" .
qed (simp add: lifecycleInv_empty)

section \<open>A sample run\<close>

text \<open>Alice requests two exceptions for one contact, Bob and Eve vote for both, Eve finalises them.\<close>

definition sample_env :: "nat \<Rightarrow> governance_env" where
  "sample_env n = \<lparr>
     ge_digest = (\<lambda>_. ''d''),
     ge_parseDate = (\<lambda>s. map_of [(''T0'', 0), (''T1'', 3600000), (''T2'', 7200000)] s),
     ge_toISO = (\<lambda>_. ''iso''), ge_id = (\<lambda>k. [char_of (65 + n), char_of (65 + k)]),
     ge_now = (\<lambda>_. 10), ge_dbNow = 10 \<rparr>"

definition sample_digest :: string where
  "sample_digest = replicate 64 (CHR ''a'')"

definition sample_store :: governance_store where
  "sample_store = \<lparr>
     gs_core = \<lparr> st_heads = [], st_exceptions = [],
       st_policies = [\<lparr> po_tenantId = ''t1'', po_id = ''p1'', po_policyId = ''pol'', po_version = 1,
         po_contentDigest = sample_digest,
         po_content = JObj [(''allowedOperationalRuleCodes'', JArr [JStr ''QUIET_HOURS''])],
         po_registryVersion = ''v'', po_status = PS_ACTIVE \<rparr>],
       st_exceptionApprovals = [], st_policyApprovals = [], st_receipts = [], st_audit = [] \<rparr>,
     gs_contacts = [(''t1'', ''c1'')], gs_identities = [], gs_contactHeads = [], gs_streamHeads = [],
     gs_outbox = [], gs_recordReceipts = [], gs_transitionReceipts = [] \<rparr>"

definition sample_request :: "string \<Rightarrow> string \<Rightarrow> string \<Rightarrow> int \<Rightarrow> RecordCg4ExceptionInput" where
  "sample_request series from_time to_time version = \<lparr>
     re_tenantId = ''t1'', re_contactId = ''c1'', re_identityId = None, re_scopeKind = ScopeContactWide,
     re_channel = VOICE, re_purpose = ''p'', re_sourceType = ''AGENT'', re_sourceId = ''s'',
     re_allowedRuleCodes = [''QUIET_HOURS''], re_policyId = ''pol'', re_policyVersion = 1,
     re_policyContentDigest = sample_digest, re_registryVersion = ''v'', re_startsAt = from_time,
     re_expiresAt = to_time, re_tier = HIGH, re_reasonCode = ''r'', re_ticketRef = None,
     re_evidenceRef = ''ev'', re_actorRef = ''alice'', re_occurredAt = ''T0'',
     re_exceptionId = Some series, re_renewsExceptionId = None, re_idempotencyKey = series,
     re_expectedVersion = version \<rparr>"

definition sample_vote :: "string \<Rightarrow> string \<Rightarrow> RecordCg4ApprovalInput" where
  "sample_vote who series = (example_vote who APPROVE)\<lparr>ri_targetId := series, ri_idempotencyKey := who @ series\<rparr>"

definition sample_transition :: "string \<Rightarrow> exception_action \<Rightarrow> int \<Rightarrow> TransitionCg4ExceptionInput" where
  "sample_transition series action version = \<lparr>
     ti_tenantId = ''t1'', ti_exceptionId = series, ti_expectedRevision = 1, ti_expectedContentDigest = ''d'',
     ti_action = action, ti_reasonCode = ''r'', ti_evidenceRef = ''ev'',
     ti_actor = example_checker\<lparr>sub_subjectId := ''eve''\<rparr>, ti_scopeKey = ''k'', ti_occurredAt = ''T0'',
     ti_expectedVersion = version, ti_idempotencyKey = series \<rparr>"

datatype sample_command = DoRecord RecordCg4ExceptionInput | DoVote RecordCg4ApprovalInput | DoMove TransitionCg4ExceptionInput

fun sampleStep :: "nat \<Rightarrow> sample_command \<Rightarrow> governance_store \<Rightarrow> governance_store option" where
  "sampleStep n (DoRecord i) st = (case recordException (sample_env n) i st of Inr (s, _) \<Rightarrow> Some s | _ \<Rightarrow> None)"
| "sampleStep n (DoVote i) st = (case castVote (\<lambda>_. ''h'') (\<lambda>k. [char_of (65 + n), char_of (65 + k)]) 10 i st of
     Inr (s, _) \<Rightarrow> Some s | _ \<Rightarrow> None)"
| "sampleStep n (DoMove i) st = (case transition (sample_env n) i st of Inr (s, _) \<Rightarrow> Some s | _ \<Rightarrow> None)"

fun sampleRun :: "nat \<Rightarrow> sample_command list \<Rightarrow> governance_store \<Rightarrow> governance_store option" where
  "sampleRun n [] st = Some st"
| "sampleRun n (c # cs) st = (case sampleStep n c st of None \<Rightarrow> None | Some s \<Rightarrow> sampleRun (Suc n) cs s)"

lemma sampleStep_step: "sampleStep n c st = Some st' \<Longrightarrow> governance_step st st'"
  by (cases c) (auto intro: governance_step.intros split: sum.splits)

lemma sampleRun_steps: "sampleRun n cs st = Some st' \<Longrightarrow> steps governance_step st st'"
proof (induction cs arbitrary: n st)
  case (Cons c cs)
  then obtain s where "sampleStep n c st = Some s" and run: "sampleRun (Suc n) cs s = Some st'"
    by (auto split: option.splits)
  then have "steps governance_step st s" by (intro steps_step [OF steps_refl] sampleStep_step)
  with Cons.IH [OF run] show ?case by (rule steps_trans)
qed auto

definition sample_commands :: "sample_command list" where
  "sample_commands =
     [DoRecord (sample_request ''e1'' ''T0'' ''T1'' 0), DoRecord (sample_request ''e2'' ''T1'' ''T2'' 1),
      DoVote (sample_vote ''bob'' ''e1''), DoVote (sample_vote ''eve'' ''e1''),
      DoVote (sample_vote ''bob'' ''e2''), DoVote (sample_vote ''eve'' ''e2''),
      DoMove (sample_transition ''e1'' ActApprove 2), DoMove (sample_transition ''e2'' ActApprove 3)]"

definition sample_final :: governance_store where
  "sample_final = the (sampleRun 0 sample_commands sample_store)"

section \<open>Guarantees\<close>

text \<open>The revision in force of a series with a given status.\<close>

definition inForce :: "governance_store \<Rightarrow> Cg4ExceptionWorkflowState \<Rightarrow> exception_row \<Rightarrow> bool" where
  "inForce st status e \<longleftrightarrow> e \<in> set (st_exceptions (gs_core st)) \<and>
     (\<exists>h \<in> set (st_heads (gs_core st)). currentOf h e \<and> eh_status h = status)"

definition sample_row :: "nat \<Rightarrow> exception_row" where
  "sample_row k = st_exceptions (gs_core sample_final) ! k"

text \<open>What the run ends in, evaluated once.\<close>

definition sample_ok :: "governance_store \<Rightarrow> bool" where
  "sample_ok st \<longleftrightarrow> (case st_exceptions (gs_core st) of
     [a, b] \<Rightarrow>
       inForce st APPROVED a \<and> inForce st APPROVED b \<and> ex_tier a = HIGH \<and>
       (ex_tenantId a, ex_contactId a, ex_exceptionId a) = (''t1'', ''c1'', ''e1'') \<and>
       (ex_tenantId b, ex_contactId b, ex_exceptionId b) = (''t1'', ''c1'', ''e2'')
   | _ \<Rightarrow> False)"

lemma sample_checked:
  "(case sampleRun 0 sample_commands sample_store of Some st \<Rightarrow> sample_ok st | None \<Rightarrow> False)"
  by code_simp

lemma sample_final: "sampleRun 0 sample_commands sample_store = Some sample_final" "sample_ok sample_final"
  using sample_checked unfolding sample_final_def by (auto split: option.splits)

lemma sample_reached: "steps governance_step sample_store sample_final"
  by (rule sampleRun_steps [OF sample_final(1)])

lemma sample_empty: "seriesOf sample_store = ([], [], [])"
  by (simp add: sample_store_def seriesOf_def)

lemma sample_rows: "st_exceptions (gs_core sample_final) = [sample_row 0, sample_row (Suc 0)]"
  using sample_final(2) unfolding sample_ok_def sample_row_def by (auto split: list.splits)

lemma sample_in_force: "inForce sample_final APPROVED (sample_row 0)" "inForce sample_final APPROVED (sample_row (Suc 0))"
  and sample_fields: "ex_tenantId (sample_row 0) = ''t1''" "ex_tenantId (sample_row (Suc 0)) = ''t1''"
  "ex_contactId (sample_row 0) = ''c1''" "ex_contactId (sample_row (Suc 0)) = ''c1''"
  "ex_exceptionId (sample_row 0) = ''e1''" "ex_exceptionId (sample_row (Suc 0)) = ''e2''"
  "ex_tier (sample_row 0) = HIGH"
  using sample_final(2) unfolding sample_ok_def sample_rows by simp_all

text \<open>
  C2. In every state the commands reach from empty tables, two approved exceptions of one contact never
  bind the same scope and share a rule while their windows intersect.
\<close>

theorem approved_exceptions_never_overlap:
  assumes "seriesOf st0 = ([], [], [])" and "steps governance_step st0 st"
    and "inForce st APPROVED e" and "inForce st APPROVED e'"
    and "ex_tenantId e = ex_tenantId e'" and "ex_contactId e = ex_contactId e'"
    and "ex_exceptionId e \<noteq> ex_exceptionId e'"
  shows "\<not> cg4ExceptionsOverlap e e'"
proof -
  have "disjointApproved (seriesOf st)"
    using governance.reachable_invar [OF assms(1,2)] unfolding lifecycleInv_def by blast
  moreover have "rowKey e' \<noteq> rowKey e" using assms(7) by (simp add: rowKey_def)
  ultimately show ?thesis
    using assms(3-6) unfolding disjointApproved_def seriesOf_def prod.case inForce_def by metis
qed

theorem approved_exceptions_never_overlap_witness:
  "inForce sample_final APPROVED (sample_row 0) \<and> inForce sample_final APPROVED (sample_row (Suc 0)) \<and>
   \<not> cg4ExceptionsOverlap (sample_row 0) (sample_row (Suc 0))"
proof (intro conjI)
  have r: "inForce sample_final APPROVED (sample_row 0)" "inForce sample_final APPROVED (sample_row (Suc 0))"
    by (fact sample_in_force)+
  then show "inForce sample_final APPROVED (sample_row 0)" "inForce sample_final APPROVED (sample_row (Suc 0))" .
  show "\<not> cg4ExceptionsOverlap (sample_row 0) (sample_row (Suc 0))"
    by (rule approved_exceptions_never_overlap [OF sample_empty sample_reached r]) (simp_all add: sample_fields)
qed

text \<open>
  C3. An exception in force, approved or since revoked, was approved by as many different checkers as
  the quorum of its risk tier asks for, none of whom made the request.
\<close>

theorem approved_exception_has_independent_quorum:
  assumes "seriesOf st0 = ([], [], [])" and "steps governance_step st0 st"
    and "inForce st APPROVED e \<or> inForce st REVOKED e"
  shows "qr_requiredApprovers (resolveCg4ExceptionQuorum (ex_tier e)) \<le>
      card (approvers e (st_exceptionApprovals (gs_core st))) \<and>
    ex_actorRef e \<notin> approvers e (st_exceptionApprovals (gs_core st))"
proof -
  have inv: "quorate (seriesOf st)" "separated (seriesOf st)"
    using governance.reachable_invar [OF assms(1,2)] unfolding lifecycleInv_def by blast+
  from inv(1) assms(3) have "qr_requiredApprovers (resolveCg4ExceptionQuorum (ex_tier e)) \<le>
      card (approvers e (st_exceptionApprovals (gs_core st)))"
    unfolding quorate_def seriesOf_def prod.case inForce_def by blast
  moreover have "e \<in> set (st_exceptions (gs_core st))" using assms(3) by (auto simp: inForce_def)
  with inv(2) have "\<forall>v \<in> set (st_exceptionApprovals (gs_core st)). voteFor e v \<longrightarrow> ap_approverRef v \<noteq> ex_actorRef e"
    unfolding separated_def seriesOf_def prod.case by blast
  then have "ex_actorRef e \<notin> approvers e (st_exceptionApprovals (gs_core st))"
    unfolding approvers_def by fastforce
  ultimately show ?thesis by blast
qed

theorem approved_exception_has_independent_quorum_witness:
  "2 \<le> card (approvers (sample_row 0) (st_exceptionApprovals (gs_core sample_final))) \<and>
   ex_actorRef (sample_row 0) \<notin> approvers (sample_row 0) (st_exceptionApprovals (gs_core sample_final))"
  using approved_exception_has_independent_quorum [OF sample_empty sample_reached, of "sample_row 0"] sample_in_force(1)
  by (simp add: sample_fields resolveCg4ExceptionQuorum_def)

text \<open>The workflow a head may take, and what a step leaves of a settled head.\<close>

definition headEvolves :: "exception_head \<Rightarrow> exception_head \<Rightarrow> bool" where
  "headEvolves h h' \<longleftrightarrow> headKey h' = headKey h \<and>
     (eh_status h \<noteq> PENDING \<longrightarrow>
        eh_currentRevisionId h' = eh_currentRevisionId h \<and> eh_currentRevision h' = eh_currentRevision h \<and>
        (eh_status h' = eh_status h \<or> eh_status h = APPROVED \<and> eh_status h' = REVOKED))"

lemma headEvolves_refl [simp]: "headEvolves h h"
  by (simp add: headEvolves_def)

lemma headEvolves_trans: "headEvolves h h' \<Longrightarrow> headEvolves h' h'' \<Longrightarrow> headEvolves h h''"
  by (auto simp: headEvolves_def)

lemma move_evolves:
  assumes "series_move s t" and "seriesInv s" and "h \<in> set (fst s)"
  shows "\<exists>h' \<in> set (fst t). headEvolves h h'"
  using assms
proof (induction rule: series_move.induct)
  case (revise_series x heads e old rows votes)
  show ?case
  proof (cases "headKey h = headKey x")
    case True
    with keyed_unique [OF seriesInvD(1) [OF revise_series(10)] _ revise_series(1)] revise_series(11) have "h = x" by simp
    with revise_series(1-3) show ?thesis
      by (intro bexI [of _ "headOf e"]) (auto simp: headEvolves_def in_updateWhere)
  next
    case False
    with revise_series(11) show ?thesis by (intro bexI [of _ h]) (auto simp: in_updateWhere)
  qed
next
  case (approve_series x heads e rows votes)
  show ?case
  proof (cases "headKey h = headKey x")
    case True
    with keyed_unique [OF seriesInvD(1) [OF approve_series(7)] _ approve_series(1)] approve_series(8) have "h = x" by simp
    with approve_series(1,2) show ?thesis
      by (intro bexI [of _ "h\<lparr>eh_status := APPROVED\<rparr>"]) (auto simp: headEvolves_def in_updateWhere)
  next
    case False
    with approve_series(8) show ?thesis by (intro bexI [of _ h]) (auto simp: in_updateWhere)
  qed
next
  case (close_series x heads target rows votes)
  show ?case
  proof (cases "headKey h = headKey x")
    case True
    with keyed_unique [OF seriesInvD(1) [OF close_series(3)] _ close_series(1)] close_series(4) have "h = x" by simp
    with close_series(1,2) show ?thesis
      by (intro bexI [of _ "h\<lparr>eh_status := target\<rparr>"]) (auto simp: headEvolves_def in_updateWhere)
  next
    case False
    with close_series(4) show ?thesis by (intro bexI [of _ h]) (auto simp: in_updateWhere)
  qed
qed (auto intro!: bexI [of _ h])

lemma move_keeps_rows: "series_move s t \<Longrightarrow> set (fst (snd s)) \<subseteq> set (fst (snd t))"
  by (induction rule: series_move.induct) auto

lemma steps_evolve:
  assumes "steps governance_step st st'" and "lifecycleInv (seriesOf st)" and "h \<in> set (st_heads (gs_core st))"
  shows "(\<exists>h' \<in> set (st_heads (gs_core st')). headEvolves h h') \<and>
    set (st_exceptions (gs_core st)) \<subseteq> set (st_exceptions (gs_core st'))"
  using assms
proof (induction rule: steps.induct)
  case (steps_step s t u)
  have inv: "seriesInv (seriesOf t)"
    using governance.steps_invar [OF steps_step(1,4)] unfolding lifecycleInv_def by blast
  note m = step_refines [OF steps_step(2) inv]
  from steps_step.IH [OF steps_step(4,5)] obtain x where x: "x \<in> set (st_heads (gs_core t))" "headEvolves h x"
    and r: "set (st_exceptions (gs_core s)) \<subseteq> set (st_exceptions (gs_core t))" by blast
  from move_evolves [OF m inv, of x] x(1) obtain y where "y \<in> set (st_heads (gs_core u))" "headEvolves x y"
    by (auto simp: seriesOf_def)
  with x(2) headEvolves_trans move_keeps_rows [OF m] r show ?case by (fastforce simp: seriesOf_def)
qed (auto intro!: bexI [of _ h])

text \<open>
  C20. Once a series has left PENDING its content is fixed: whatever commands follow, its head keeps
  naming the same revision, that revision is still the stored row, and the status either stays or
  goes from APPROVED to REVOKED. REJECTED, CANCELLED and REVOKED are final.
\<close>

theorem settled_exception_is_immutable:
  assumes "seriesOf st0 = ([], [], [])" and "steps governance_step st0 st" and "steps governance_step st st'"
    and "h \<in> set (st_heads (gs_core st))" and "eh_status h \<noteq> PENDING"
    and "e \<in> set (st_exceptions (gs_core st))" and "currentOf h e"
  shows "e \<in> set (st_exceptions (gs_core st')) \<and>
    (\<exists>h' \<in> set (st_heads (gs_core st')). headKey h' = headKey h \<and> currentOf h' e \<and>
       (eh_status h' = eh_status h \<or> eh_status h = APPROVED \<and> eh_status h' = REVOKED))"
proof -
  have "lifecycleInv (seriesOf st)" by (rule governance.reachable_invar [OF assms(1,2)])
  from steps_evolve [OF assms(3) this assms(4)] obtain h' where h': "h' \<in> set (st_heads (gs_core st'))" "headEvolves h h'"
    and "set (st_exceptions (gs_core st)) \<subseteq> set (st_exceptions (gs_core st'))" by blast
  with assms(5-7) show ?thesis unfolding headEvolves_def currentOf_def by fastforce
qed

theorem settled_exception_is_immutable_witness:
  "sample_row 0 \<in> set (st_exceptions (gs_core sample_final)) \<and>
   (\<exists>h' \<in> set (st_heads (gs_core sample_final)). headKey h' = (''t1'', ''e1'') \<and> currentOf h' (sample_row 0))"
proof -
  from sample_in_force(1) obtain h where h: "h \<in> set (st_heads (gs_core sample_final))" "currentOf h (sample_row 0)"
    "eh_status h = APPROVED" "sample_row 0 \<in> set (st_exceptions (gs_core sample_final))" by (auto simp: inForce_def)
  then have "eh_status h \<noteq> PENDING" "headKey h = (''t1'', ''e1'')"
    using sample_fields by (auto simp: currentOf_def rowKey_def)
  with settled_exception_is_immutable [OF sample_empty sample_reached steps_refl h(1) _ h(4,2)] show ?thesis by auto
qed

section \<open>Recorded rules stay within the registry\<close>

text \<open>A row the registry allows: only rules open to exceptions, within the tier's lifetime and scope.\<close>

definition registryAllows :: "exception_row \<Rightarrow> bool" where
  "registryAllows e \<longleftrightarrow> ex_allowedRuleCodes e \<noteq> [] \<and> set (ex_allowedRuleCodes e) \<subseteq> set exception_rule_codes \<and>
     (ex_expiresAt e - ex_startsAt e) div 1000 \<le> CG4_PLATFORM_LIFETIME_CAP_SECONDS (ex_tier e) \<and>
     (ex_tier e = STANDARD \<longrightarrow> ex_scopeKind e = ScopeIdentity \<and> length (ex_allowedRuleCodes e) = 1)"

lemma isEligible_conv: "isEligible r \<longleftrightarrow> (\<exists>m c. r = Eligible m c)"
  by (cases r) auto

lemma eligible_rule:
  assumes "isEligible (ruleEligibility i w policyRules code)"
  shows "code \<in> set exception_rule_codes"
    and "(ew_expiresAt w - ew_startsAt w) div 1000 \<le> CG4_PLATFORM_LIFETIME_CAP_SECONDS (re_tier i)"
    and "re_tier i = STANDARD \<Longrightarrow> re_scopeKind i = ScopeIdentity \<and> length (ew_ruleCodes w) = 1"
proof -
  let ?in = "\<lparr> oe_ruleCode = code, oe_mechanism = APPROVED_EXCEPTION,
       oe_identityScope = (if re_scopeKind i = ScopeIdentity then EXACT_IDENTITY else CONTACT_WIDE),
       oe_policyAllowedRuleCodes = policyRules, oe_riskTier = re_tier i,
       oe_requestedRuleCount = int (length (ew_ruleCodes w)),
       oe_lifetimeSeconds = (ew_expiresAt w - ew_startsAt w) div 1000 \<rparr>"
  from assms have e: "\<exists>m c. resolveCg4OverrideEligibility ?in = Eligible m c"
    unfolding ruleEligibility_def isEligible_conv .
  then obtain m c where "resolveCg4OverrideEligibility ?in = Eligible m c" by blast
  from eligibility_of_registered [OF eligible_entry [OF this]] e
  have r: "oe_ruleCode ?in \<in> set (mechanism_rule_codes (oe_mechanism ?in))"
    "oe_riskTier ?in = STANDARD \<longrightarrow> oe_identityScope ?in = EXACT_IDENTITY \<and> oe_requestedRuleCount ?in = 1"
    "oe_lifetimeSeconds ?in \<le> CG4_PLATFORM_LIFETIME_CAP_SECONDS (oe_riskTier ?in)" by blast+
  from r show "code \<in> set exception_rule_codes"
    "(ew_expiresAt w - ew_startsAt w) div 1000 \<le> CG4_PLATFORM_LIFETIME_CAP_SECONDS (re_tier i)"
    by (simp_all add: mechanism_rule_codes_def)
  show "re_tier i = STANDARD \<Longrightarrow> re_scopeKind i = ScopeIdentity \<and> length (ew_ruleCodes w) = 1"
    using r(2) by (simp split: if_splits)
qed

lemma validated_codes: "validateExceptionRequest env i = Inr w \<Longrightarrow> ew_ruleCodes w \<noteq> []"
  by (auto simp: validateExceptionRequest_def Let_def result_simps)

lemma recorded_row_allowed:
  assumes "validateExceptionRequest env i = Inr w" and "checkPolicyBinding i w st = Inr ()"
  shows "registryAllows (newExceptionRow env i w hash exceptionId h)"
proof -
  from assms(2) obtain policyRules where "list_all (\<lambda>code. isEligible (ruleEligibility i w policyRules code)) (ew_ruleCodes w)"
    by (auto simp: checkPolicyBinding_def result_simps split: option.splits if_splits)
  then have e: "isEligible (ruleEligibility i w policyRules code)" if "code \<in> set (ew_ruleCodes w)" for code
    using that by (simp add: list_all_iff)
  from validated_codes [OF assms(1)] obtain c where "c \<in> set (ew_ruleCodes w)" by fastforce
  from eligible_rule(2,3) [OF e [OF this]] eligible_rule(1) [OF e] validated_codes [OF assms(1)]
  show ?thesis by (auto simp: registryAllows_def newExceptionRow_def)
qed

definition allRowsAllowed :: "governance_store \<Rightarrow> bool" where
  "allRowsAllowed st \<longleftrightarrow> (\<forall>e \<in> set (st_exceptions (gs_core st)). registryAllows e)"

lemma castVote_rows: "castVote dg ids now v st = Inr (st', p) \<Longrightarrow> st_exceptions (gs_core st') = st_exceptions (gs_core st)"
proof -
  assume "castVote dg ids now v st = Inr (st', p)"
  then obtain core i where r: "recordExceptionApproval dg ids now i (gs_core st) = Inr (core, p)" "st' = st\<lparr>gs_core := core\<rparr>"
    by (auto simp: castVote_def Let_def result_simps)
  from r(1) show ?thesis by (cases rule: record_exception_outcome) (simp_all add: r(2))
qed

interpretation registry: invariant_system
  "\<lambda>st. st_exceptions (gs_core st) = []" governance_step allRowsAllowed
proof
  fix st st' assume inv: "allRowsAllowed st" and "governance_step st st'"
  from this(2) show "allRowsAllowed st'"
  proof cases
    case (record_step env i r)
    then show ?thesis
    proof (cases rule: record_outcome)
      case (recorded w exceptionId)
      from recorded(5) have "st_exceptions (gs_core st') = st_exceptions (gs_core st) @
          [newExceptionRow env i w (exceptionRequestHash env i w) exceptionId (findHead (re_tenantId i) exceptionId st)]"
        by (rule commit_exception_outcome) (simp add: appendException_Inr)
      with inv recorded_row_allowed [OF recorded(1,3)] show ?thesis by (simp add: allRowsAllowed_def)
    qed (use inv in simp)
  next
    case (transition_step env t q)
    then show ?thesis
    proof (cases rule: transition_outcome)
      case (moved occurredAt head revision target kind quorum)
      from moved(10) have "st_exceptions (gs_core st') = st_exceptions (gs_core st)"
        by (rule commit_transition_outcome)
      with inv show ?thesis by (simp add: allRowsAllowed_def)
    qed (use inv in simp)
  next
    case (vote_step dg ids now v p)
    with inv castVote_rows [OF vote_step] show ?thesis by (simp add: allRowsAllowed_def)
  qed
qed (simp add: allRowsAllowed_def)

text \<open>
  No exception can be recorded for a protected rule: in every reachable state each revision of each
  series names only rules the platform registry opens to exceptions, lives no longer than the cap of
  its tier, and at tier STANDARD covers one rule of one exact identity.
\<close>

lemma recorded_exceptions_respect_registry:
  assumes "st_exceptions (gs_core st0) = []" and "steps governance_step st0 st"
    and "e \<in> set (st_exceptions (gs_core st))"
  shows "ex_allowedRuleCodes e \<noteq> [] \<and> set (ex_allowedRuleCodes e) \<subseteq> set exception_rule_codes \<and>
     (ex_expiresAt e - ex_startsAt e) div 1000 \<le> CG4_PLATFORM_LIFETIME_CAP_SECONDS (ex_tier e) \<and>
     (ex_tier e = STANDARD \<longrightarrow> ex_scopeKind e = ScopeIdentity \<and> length (ex_allowedRuleCodes e) = 1)"
  using registry.reachable_invar [OF assms(1,2)] assms(3) unfolding allRowsAllowed_def registryAllows_def by blast

lemma recorded_exceptions_respect_registry_witness:
  "set (ex_allowedRuleCodes (sample_row 0)) \<subseteq> set exception_rule_codes"
  using recorded_exceptions_respect_registry [OF _ sample_reached, of "sample_row 0"] sample_in_force(1) sample_empty
  by (simp add: inForce_def seriesOf_def)

text \<open>
  Recording an exception and moving its workflow are idempotent under their key: however often a
  client repeats a request that succeeded, and whatever identifiers and clock the repetitions see, all
  tables stay as the first success left them and every repetition gets the first answer.
\<close>

lemma retried_exception_commands:
  assumes "recordException (retryEnv env v) i st = Inr (st1, r)"
    and "transition (retryEnv env v') t st2 = Inr (st3, q)"
  shows "retries (\<lambda>v. recordException (retryEnv env v) i) (v # vs) st = Inr (st1, replicate (Suc (length vs)) r) \<and>
    retries (\<lambda>v. transition (retryEnv env v) t) (v' # vs') st2 = Inr (st3, replicate (Suc (length vs')) q)"
  using recording.retries_once [OF assms(1)] transitions.retries_once [OF assms(2)] by simp

end
