(* ===== verification/EventDelivery.thy ===== *)
theory EventDelivery
  imports ExceptionLifecycle
begin

text \<open>
  How a governance event leaves the outbox and reaches a consumer: the envelope guard
  (\<open>apps/contact-governance/src/cg4-event-envelope.ts\<close>), the relay that drains the outbox
  (\<open>cg4-event-relay.ts\<close>), the inbox decision (\<open>cg4-inbox.ts\<close>) and the consumer inbox with its scope
  pauses (\<open>cg4-consumer-inbox.ts\<close>).

  Each command is one database transaction. Texts for operators are left out: a rejection is its
  reason, and the detail of an inbox row or a pause is the decision it prints. The parser of a
  consumer is an option of its class and an argument here, as is the projection step it runs for an
  applied event; a projection step that throws rolls the delivery back, as if it had not happened.
\<close>

section \<open>Envelope\<close>

definition CG4_CONTRACT_VERSION :: int where "CG4_CONTRACT_VERSION = 1"

definition CG4_EVENT_TYPES :: "string list" where
  "CG4_EVENT_TYPES = [''exception.changed'', ''policy.changed'', ''governance.kill-switch.changed'']"

datatype envelope_rejection =
    MALFORMED_PAYLOAD | UNSUPPORTED_EVENT_TYPE | UNSUPPORTED_CONTRACT_VERSION
  | UNSUPPORTED_POLICY_SCHEMA_VERSION | UNSUPPORTED_RULE_REGISTRY_VERSION
  | UNSUPPORTED_EVALUATOR_VERSION | RESTRICTED_FIELD_PRESENT

definition RESTRICTED_KEYS :: "string list" where
  "RESTRICTED_KEYS =
     [''actorref'', ''actorclass'', ''approverref'', ''makeractorref'', ''checkeractorref'', ''ticketref'',
      ''evidenceref'', ''clearapprovalref'', ''identityvalue'', ''email'', ''phone'', ''phonenumber'',
      ''displayname'', ''contactname'', ''fullname'']"

definition asciiLower :: "char \<Rightarrow> char" where
  "asciiLower c = (if CHR ''A'' \<le> c \<and> c \<le> CHR ''Z'' then char_of (of_char c + 32 :: nat) else c)"

fun findRestrictedKey :: "json \<Rightarrow> bool" where
  "findRestrictedKey (JArr xs) = list_ex findRestrictedKey xs"
| "findRestrictedKey (JObj ps) =
     list_ex (\<lambda>p. map asciiLower (fst p) \<in> set RESTRICTED_KEYS \<or> findRestrictedKey (snd p)) ps"
| "findRestrictedKey _ = False"

definition isStringField :: "json \<Rightarrow> string \<Rightarrow> bool" where
  "isStringField payload field = (case json_prop payload field of Some (JStr _) \<Rightarrow> True | _ \<Rightarrow> False)"

definition isIntegerField :: "json \<Rightarrow> string \<Rightarrow> bool" where
  "isIntegerField payload field =
     (case json_prop payload field of Some (JNum (Fin r)) \<Rightarrow> snd (quotient_of r) = 1 | _ \<Rightarrow> False)"

definition isObjectField :: "json \<Rightarrow> string \<Rightarrow> bool" where
  "isObjectField payload field =
     (case json_prop payload field of Some (JObj _) \<Rightarrow> True | Some (JArr _) \<Rightarrow> True | _ \<Rightarrow> False)"

text \<open>\<open>None\<close> is an accepted event, \<open>Some\<close> the reason it is refused for.\<close>

definition parseCg4CanonicalEvent :: "string \<Rightarrow> json \<Rightarrow> envelope_rejection option" where
  "parseCg4CanonicalEvent eventType payload =
     (if eventType \<notin> set CG4_EVENT_TYPES then Some UNSUPPORTED_EVENT_TYPE
      else if \<not> is_json_object payload then Some MALFORMED_PAYLOAD
      else if \<not> list_all (isStringField payload)
        [''subjectId'', ''mutationId'', ''transitionKind'', ''state'', ''effectiveAt'', ''scopeDigest'',
         ''stateDigest'', ''restrictiveness''] then Some MALFORMED_PAYLOAD
      else if \<not> isIntegerField payload ''subjectVersion'' then Some MALFORMED_PAYLOAD
      else if \<not> isObjectField payload ''affectedScope'' then Some MALFORMED_PAYLOAD
      else if json_prop payload ''restrictiveness'' \<notin>
        {Some (JStr ''TIGHTENING''), Some (JStr ''NEUTRAL''), Some (JStr ''RELAXATION'')}
      then Some MALFORMED_PAYLOAD
      else if json_prop payload ''contractVersion'' \<noteq> Some (jint CG4_CONTRACT_VERSION)
      then Some UNSUPPORTED_CONTRACT_VERSION
      else if json_prop payload ''policySchemaVersion'' \<noteq> Some (jint CG4_POLICY_SCHEMA_VERSION)
      then Some UNSUPPORTED_POLICY_SCHEMA_VERSION
      else if json_prop payload ''ruleRegistryVersion'' \<noteq> Some (JStr CG4_RULE_REGISTRY_VERSION)
      then Some UNSUPPORTED_RULE_REGISTRY_VERSION
      else if json_prop payload ''evaluatorVersion'' \<noteq> Some (JStr CG4_EVALUATOR_VERSION)
      then Some UNSUPPORTED_EVALUATOR_VERSION
      else if findRestrictedKey payload then Some RESTRICTED_FIELD_PRESENT
      else None)"

definition isCg4ProducerSideRejection :: "envelope_rejection \<Rightarrow> bool" where
  "isCg4ProducerSideRejection reason \<longleftrightarrow> reason = MALFORMED_PAYLOAD \<or> reason = RESTRICTED_FIELD_PRESENT"

section \<open>The relay\<close>

text \<open>
  One attempt: the clock, the rows other relays hold locked, whether the broker takes the message and
  whether the cache invalidation after it succeeds.
\<close>

record relay_env =
  rl_now :: time_ms
  rl_locked :: "string \<Rightarrow> bool"
  rl_sendOk :: "outbox_row \<Rightarrow> bool"
  rl_invalidateOk :: "outbox_row \<Rightarrow> bool"
  rl_backoffMs :: "int \<Rightarrow> int"
  rl_leaseOwner :: string
  rl_leaseSeconds :: int
  rl_legacyEventTypes :: "string list"

definition defaultBackoffMs :: "int \<Rightarrow> int" where
  "defaultBackoffMs attempts = min (2 ^ nat attempts * 1000) (5 * 60000)"

record publish_attempt =
  pb_outboxId :: string
  pb_state :: outbox_state
  pb_attempts :: int
  pb_rejection :: "envelope_rejection option"

definition publishCandidate :: "relay_env \<Rightarrow> string \<Rightarrow> outbox_row list \<Rightarrow> outbox_row option" where
  "publishCandidate env tenantId rows =
     (case sort_key (\<lambda>r. ob_createdAt r) (sort_key (\<lambda>r. ob_id r)
        (filter (\<lambda>r. ob_tenantId r = tenantId \<and> ob_state r \<in> {OB_PENDING, OB_FAILED} \<and>
           ob_availableAt r \<le> rl_now env \<and> \<not> rl_locked env (ob_id r)) rows)) of
        [] \<Rightarrow> None
      | r # _ \<Rightarrow> Some r)"

definition updateOutbox :: "string \<Rightarrow> (outbox_row \<Rightarrow> outbox_row) \<Rightarrow> outbox_row list \<Rightarrow> outbox_row list" where
  "updateOutbox rowId f rows = updateWhere (\<lambda>r. ob_id r = rowId) f rows"

text \<open>
  The whole attempt is one transaction: the rows it leaves, the attempt it reports, and the message
  the broker took, if any.
\<close>

definition publishNext :: "relay_env \<Rightarrow> string \<Rightarrow> outbox_row list \<Rightarrow>
    outbox_row list \<times> publish_attempt option \<times> outbox_row option" where
  "publishNext env tenantId rows =
     (case publishCandidate env tenantId rows of
        None \<Rightarrow> (rows, None, None)
      | Some row \<Rightarrow>
          let attempts = ob_attempts row + 1;
              rejection = (if ob_eventType row \<in> set (rl_legacyEventTypes env) then None
                else parseCg4CanonicalEvent (ob_eventType row) (ob_payload row)) in
          if (case rejection of None \<Rightarrow> False | Some reason \<Rightarrow> isCg4ProducerSideRejection reason)
          then (updateOutbox (ob_id row) (\<lambda>r. r\<lparr>ob_state := OB_QUARANTINED, ob_attempts := attempts,
                  ob_leaseOwner := None, ob_leaseExpiresAt := None\<rparr>) rows,
                Some \<lparr> pb_outboxId = ob_id row, pb_state = OB_QUARANTINED, pb_attempts = attempts,
                  pb_rejection = rejection \<rparr>, None)
          else
            let leased = updateOutbox (ob_id row) (\<lambda>r. r\<lparr>ob_state := OB_PUBLISHING,
                  ob_leaseOwner := Some (rl_leaseOwner env),
                  ob_leaseExpiresAt := Some (rl_now env + rl_leaseSeconds env * 1000)\<rparr>) rows;
                failed = updateOutbox (ob_id row) (\<lambda>r. r\<lparr>ob_state := OB_FAILED, ob_attempts := attempts,
                  ob_availableAt := rl_now env + rl_backoffMs env attempts,
                  ob_leaseOwner := None, ob_leaseExpiresAt := None\<rparr>) in
            if \<not> rl_sendOk env row
            then (failed leased, Some \<lparr> pb_outboxId = ob_id row, pb_state = OB_FAILED, pb_attempts = attempts,
                    pb_rejection = None \<rparr>, None)
            else
              let published = updateOutbox (ob_id row) (\<lambda>r. r\<lparr>ob_state := OB_PUBLISHED, ob_attempts := attempts,
                    ob_publishedAt := Some (rl_now env), ob_leaseOwner := None, ob_leaseExpiresAt := None\<rparr>) leased in
              if rl_invalidateOk env row
              then (published, Some \<lparr> pb_outboxId = ob_id row, pb_state = OB_PUBLISHED, pb_attempts = attempts,
                      pb_rejection = None \<rparr>, Some row)
              else (failed published, Some \<lparr> pb_outboxId = ob_id row, pb_state = OB_FAILED, pb_attempts = attempts,
                      pb_rejection = None \<rparr>, Some row))"

definition recoverExpiredLeases :: "time_ms \<Rightarrow> string \<Rightarrow> outbox_row list \<Rightarrow> outbox_row list \<times> nat" where
  "recoverExpiredLeases now tenantId rows =
     (let expired = (\<lambda>r. ob_tenantId r = tenantId \<and> ob_state r = OB_PUBLISHING \<and>
            (case ob_leaseExpiresAt r of None \<Rightarrow> False | Some t \<Rightarrow> t \<le> now)) in
      (updateWhere expired (\<lambda>r. r\<lparr>ob_state := OB_PENDING, ob_availableAt := now, ob_leaseOwner := None,
         ob_leaseExpiresAt := None\<rparr>) rows, countWhere expired rows))"

section \<open>The inbox decision\<close>

datatype inbox_decision =
    Apply
  | Duplicate
  | Quarantine
  | Gap int int
  | OutOfOrder int int
  | Unsupported envelope_rejection

definition cg4InboxDecisionPausesScope :: "inbox_decision \<Rightarrow> bool" where
  "cg4InboxDecisionPausesScope d \<longleftrightarrow> d \<noteq> Apply \<and> d \<noteq> Duplicate"

record inbox_cursor =
  cu_aggregateVersion :: int
  cu_payloadHash :: string

definition classifyCg4InboundEvent ::
  "inbox_cursor option \<Rightarrow> int \<Rightarrow> string \<Rightarrow> envelope_rejection option \<Rightarrow> inbox_decision" where
  "classifyCg4InboundEvent cursor version hash parse =
     (case parse of
        Some reason \<Rightarrow> Unsupported reason
      | None \<Rightarrow>
          (case cursor of
             None \<Rightarrow> if version = 1 then Apply else Gap 1 version
           | Some c \<Rightarrow>
               if version = cu_aggregateVersion c then
                 (if hash = cu_payloadHash c then Duplicate else Quarantine)
               else if version = cu_aggregateVersion c + 1 then Apply
               else if version > cu_aggregateVersion c then Gap (cu_aggregateVersion c + 1) version
               else OutOfOrder (cu_aggregateVersion c) version))"

datatype pause_reason = EVENT_GAP | EVENT_OUT_OF_ORDER | HASH_CONFLICT | UNSUPPORTED_CONTRACT

fun cg4PauseReasonFor :: "inbox_decision \<Rightarrow> pause_reason option" where
  "cg4PauseReasonFor (Gap _ _) = Some EVENT_GAP"
| "cg4PauseReasonFor (OutOfOrder _ _) = Some EVENT_OUT_OF_ORDER"
| "cg4PauseReasonFor Quarantine = Some HASH_CONFLICT"
| "cg4PauseReasonFor (Unsupported _) = Some UNSUPPORTED_CONTRACT"
| "cg4PauseReasonFor _ = None"

section \<open>The consumer inbox\<close>

datatype inbox_state = IB_APPLIED | IB_DUPLICATE | IB_GAP_HELD | IB_OUT_OF_ORDER | IB_QUARANTINED | IB_UNSUPPORTED

fun INBOX_STATE :: "inbox_decision \<Rightarrow> inbox_state" where
  "INBOX_STATE Apply = IB_APPLIED"
| "INBOX_STATE Duplicate = IB_DUPLICATE"
| "INBOX_STATE (Gap _ _) = IB_GAP_HELD"
| "INBOX_STATE (OutOfOrder _ _) = IB_OUT_OF_ORDER"
| "INBOX_STATE Quarantine = IB_QUARANTINED"
| "INBOX_STATE (Unsupported _) = IB_UNSUPPORTED"

record inbound_event =
  ie_tenantId :: string
  ie_eventId :: string
  ie_eventType :: string
  ie_aggregateType :: string
  ie_aggregateId :: string
  ie_aggregateVersion :: int
  ie_payloadHash :: string
  ie_payload :: json
  ie_receivedAt :: time_ms

record inbox_row =
  ib_id :: string
  ib_tenantId :: string
  ib_consumerGroup :: string
  ib_eventId :: string
  ib_aggregateType :: string
  ib_aggregateId :: string
  ib_aggregateVersion :: int
  ib_eventType :: string
  ib_payloadHash :: string
  ib_state :: inbox_state
  ib_receivedAt :: time_ms

datatype pause_kind = PauseContact | PausePolicyScope

datatype pause_state = PauseActive | PauseCleared

record scope_pause =
  pa_id :: string
  pa_tenantId :: string
  pa_consumerGroup :: string
  pa_scopeKind :: pause_kind
  pa_scopeRef :: string
  pa_state :: pause_state
  pa_reason :: pause_reason
  pa_detail :: "inbox_decision option"
  pa_eventId :: "string option"
  pa_observedVersion :: "int option"
  pa_expectedVersion :: "int option"
  pa_pausedAt :: time_ms
  pa_clearedAt :: "time_ms option"
  pa_clearedToVersion :: "int option"

record inbox_store =
  is_inbox :: "inbox_row list"
  is_pauses :: "scope_pause list"

record inbox_outcome =
  io_decision :: inbox_decision
  io_recorded :: bool
  io_inboxId :: string
  io_pauseId :: "string option"
  io_applied :: bool

definition cg4ScopeRefFor :: "inbound_event \<Rightarrow> pause_kind \<times> string" where
  "cg4ScopeRefFor event =
     (if ie_aggregateType event = ''CONTACT'' then (PauseContact, ie_aggregateId event)
      else (PausePolicyScope,
        case Option.bind (json_prop (ie_payload event) ''affectedScope'') (\<lambda>scope. json_prop scope ''scopeKey'') of
          Some (JStr key) \<Rightarrow> if key \<noteq> [] then key else ie_aggregateId event
        | _ \<Rightarrow> ie_aggregateId event))"

definition pauseOf :: "string \<Rightarrow> string \<Rightarrow> pause_kind \<times> string \<Rightarrow> scope_pause \<Rightarrow> bool" where
  "pauseOf consumers tenantId scope p \<longleftrightarrow> pa_tenantId p = tenantId \<and> pa_consumerGroup p = consumers \<and>
     (pa_scopeKind p, pa_scopeRef p) = scope \<and> pa_state p = PauseActive"

definition pauseScope ::
  "string \<Rightarrow> string \<Rightarrow> time_ms \<Rightarrow> inbound_event \<Rightarrow> inbox_decision \<Rightarrow> pause_reason \<Rightarrow> scope_pause list \<Rightarrow>
     scope_pause list \<times> string" where
  "pauseScope consumers freshId now event d reason pauses =
     (let scope = cg4ScopeRefFor event;
          expected = (case d of Gap expectedVersion _ \<Rightarrow> Some expectedVersion | _ \<Rightarrow> None) in
      case find (pauseOf consumers (ie_tenantId event) scope) pauses of
        Some p \<Rightarrow>
          (updateWhere (\<lambda>q. pa_id q = pa_id p) (\<lambda>q. q\<lparr>pa_reason := reason, pa_detail := Some d,
             pa_eventId := Some (ie_eventId event), pa_observedVersion := Some (ie_aggregateVersion event),
             pa_expectedVersion := (case expected of None \<Rightarrow> pa_expectedVersion q | Some v \<Rightarrow> Some v)\<rparr>) pauses,
           pa_id p)
      | None \<Rightarrow>
          (pauses @ [\<lparr> pa_id = freshId, pa_tenantId = ie_tenantId event, pa_consumerGroup = consumers,
             pa_scopeKind = fst scope, pa_scopeRef = snd scope, pa_state = PauseActive, pa_reason = reason,
             pa_detail = Some d, pa_eventId = Some (ie_eventId event),
             pa_observedVersion = Some (ie_aggregateVersion event), pa_expectedVersion = expected,
             pa_pausedAt = now, pa_clearedAt = None, pa_clearedToVersion = None \<rparr>], freshId))"

text \<open>The applied rows of one aggregate, and the cursor: the one of highest version.\<close>

definition appliedRows :: "string \<Rightarrow> string \<Rightarrow> string \<Rightarrow> string \<Rightarrow> inbox_row list \<Rightarrow> inbox_row list" where
  "appliedRows consumers tenantId aggregateType aggregateId rows =
     filter (\<lambda>r. ib_tenantId r = tenantId \<and> ib_consumerGroup r = consumers \<and> ib_aggregateType r = aggregateType \<and>
       ib_aggregateId r = aggregateId \<and> ib_state r = IB_APPLIED) rows"

definition cursorOf :: "inbox_row list \<Rightarrow> inbox_cursor option" where
  "cursorOf applied =
     (case sort_key (\<lambda>r. - ib_aggregateVersion r) applied of
        [] \<Rightarrow> None
      | r # _ \<Rightarrow> Some \<lparr> cu_aggregateVersion = ib_aggregateVersion r, cu_payloadHash = ib_payloadHash r \<rparr>)"

definition recordEvent ::
  "(string \<Rightarrow> json \<Rightarrow> envelope_rejection option) \<Rightarrow> (inbound_event \<Rightarrow> 'p \<Rightarrow> 'p) \<Rightarrow> string \<Rightarrow> (nat \<Rightarrow> string) \<Rightarrow> time_ms \<Rightarrow>
     inbound_event \<Rightarrow> inbox_store \<times> 'p \<Rightarrow> (inbox_store \<times> 'p) \<times> inbox_outcome" where
  "recordEvent parse apply_event consumers ids now event s =
     (let st = fst s; projection = snd s in
      case find (\<lambda>r. ib_tenantId r = ie_tenantId event \<and> ib_consumerGroup r = consumers \<and>
                 ib_eventId r = ie_eventId event) (is_inbox st) of
        Some existing \<Rightarrow>
          ((st, projection), \<lparr> io_decision = Duplicate, io_recorded = False, io_inboxId = ib_id existing,
             io_pauseId = None, io_applied = (ib_state existing = IB_APPLIED) \<rparr>)
      | None \<Rightarrow>
          let cursor = cursorOf (appliedRows consumers (ie_tenantId event) (ie_aggregateType event)
                (ie_aggregateId event) (is_inbox st));
              d = classifyCg4InboundEvent cursor (ie_aggregateVersion event) (ie_payloadHash event)
                (parse (ie_eventType event) (ie_payload event));
              row = \<lparr> ib_id = ids 0, ib_tenantId = ie_tenantId event, ib_consumerGroup = consumers,
                ib_eventId = ie_eventId event, ib_aggregateType = ie_aggregateType event,
                ib_aggregateId = ie_aggregateId event, ib_aggregateVersion = ie_aggregateVersion event,
                ib_eventType = ie_eventType event, ib_payloadHash = ie_payloadHash event,
                ib_state = INBOX_STATE d, ib_receivedAt = ie_receivedAt event \<rparr>;
              (pauses, pauseId) = (case cg4PauseReasonFor d of
                  Some reason \<Rightarrow>
                    if cg4InboxDecisionPausesScope d
                    then (let (ps, i) = pauseScope consumers (ids 1) now event d reason (is_pauses st) in (ps, Some i))
                    else (is_pauses st, None)
                | None \<Rightarrow> (is_pauses st, None)) in
          ((\<lparr> is_inbox = is_inbox st @ [row], is_pauses = pauses \<rparr>,
            if d = Apply then apply_event event projection else projection),
           \<lparr> io_decision = d, io_recorded = True, io_inboxId = ids 0, io_pauseId = pauseId,
             io_applied = (d = Apply) \<rparr>))"

definition isPaused :: "string \<Rightarrow> string \<Rightarrow> pause_kind \<times> string \<Rightarrow> inbox_store \<Rightarrow> bool" where
  "isPaused consumers tenantId scope st \<longleftrightarrow> find (pauseOf consumers tenantId scope) (is_pauses st) \<noteq> None"

definition activePauses :: "string \<Rightarrow> string \<Rightarrow> inbox_store \<Rightarrow> scope_pause list" where
  "activePauses consumers tenantId st =
     sort_key pa_pausedAt (filter (\<lambda>p. pa_tenantId p = tenantId \<and> pa_consumerGroup p = consumers \<and>
       pa_state p = PauseActive) (is_pauses st))"

record resume_input =
  rs_tenantId :: string
  rs_scope :: "pause_kind \<times> string"
  rs_aggregateType :: string
  rs_aggregateId :: string
  rs_canonicalVersion :: int
  rs_canonicalDigest :: string
  rs_eventType :: string

text \<open>\<open>None\<close> is the refusal of the unique key when the synthetic event identifier is already taken.\<close>

definition resumeFromCanonical ::
  "string \<Rightarrow> (nat \<Rightarrow> string) \<Rightarrow> time_ms \<Rightarrow> resume_input \<Rightarrow> inbox_store \<Rightarrow> (inbox_store \<times> nat \<times> int) option" where
  "resumeFromCanonical consumers ids now i st =
     (let existing = list_ex (\<lambda>r. ib_aggregateVersion r = rs_canonicalVersion i)
            (appliedRows consumers (rs_tenantId i) (rs_aggregateType i) (rs_aggregateId i) (is_inbox st));
          taken = list_ex (\<lambda>r. ib_tenantId r = rs_tenantId i \<and> ib_consumerGroup r = consumers \<and> ib_eventId r = ids 1)
            (is_inbox st);
          row = \<lparr> ib_id = ids 0, ib_tenantId = rs_tenantId i, ib_consumerGroup = consumers, ib_eventId = ids 1,
            ib_aggregateType = rs_aggregateType i, ib_aggregateId = rs_aggregateId i,
            ib_aggregateVersion = rs_canonicalVersion i, ib_eventType = rs_eventType i,
            ib_payloadHash = rs_canonicalDigest i, ib_state = IB_APPLIED, ib_receivedAt = now \<rparr>;
          held = pauseOf consumers (rs_tenantId i) (rs_scope i) in
      if \<not> existing \<and> taken then None
      else Some (\<lparr> is_inbox = (if existing then is_inbox st else is_inbox st @ [row]),
             is_pauses = updateWhere held (\<lambda>p. p\<lparr>pa_state := PauseCleared, pa_clearedAt := Some now,
               pa_clearedToVersion := Some (rs_canonicalVersion i)\<rparr>) (is_pauses st) \<rparr>,
           countWhere held (is_pauses st), rs_canonicalVersion i))"

end
