(* ===== verification/InboxGuarantees.thy ===== *)
theory InboxGuarantees
  imports EventDelivery
begin

text \<open>
  Guarantees of the consumer side of the event path: an inbox applies the versions of each aggregate
  as 1, 2, 3, \<dots> whatever the broker delivers, an in-order stream with redeliveries is applied exactly
  once, and an anomaly holds its scope until a canonical reload; then two properties of the relay
  that its comments do not lead one to expect.
\<close>

section \<open>The cursor\<close>

lemma cursor_of_max:
  assumes "applied \<noteq> []"
  obtains r where "r \<in> set applied" and "\<And>q. q \<in> set applied \<Longrightarrow> ib_aggregateVersion q \<le> ib_aggregateVersion r"
    and "cursorOf applied = Some \<lparr> cu_aggregateVersion = ib_aggregateVersion r, cu_payloadHash = ib_payloadHash r \<rparr>"
proof -
  let ?s = "sort_key (\<lambda>r. - ib_aggregateVersion r) applied"
  have "set ?s = set applied" "sorted (map (\<lambda>r. - ib_aggregateVersion r) ?s)" by simp_all
  moreover from assms have "?s \<noteq> []" by (metis set_empty set_sort)
  ultimately obtain r rs where s: "?s = r # rs" and "r \<in> set applied" "set applied = insert r (set rs)"
    "\<forall>q\<in>set rs. ib_aggregateVersion q \<le> ib_aggregateVersion r"
    by (cases ?s) auto
  with that [of r] show thesis by (auto simp: cursorOf_def)
qed

lemma cursor_of_prefix:
  assumes "map ib_aggregateVersion applied = [1..n]"
  shows "(if n \<le> 0 then cursorOf applied = None else \<exists>h. cursorOf applied = Some \<lparr> cu_aggregateVersion = n, cu_payloadHash = h \<rparr>)"
proof (cases "n \<le> 0")
  case True
  with assms show ?thesis by (simp add: cursorOf_def)
next
  case False
  with assms have "applied \<noteq> []" by auto
  then obtain r where r: "r \<in> set applied" "\<And>q. q \<in> set applied \<Longrightarrow> ib_aggregateVersion q \<le> ib_aggregateVersion r"
    "cursorOf applied = Some \<lparr> cu_aggregateVersion = ib_aggregateVersion r, cu_payloadHash = ib_payloadHash r \<rparr>"
    by (rule cursor_of_max) blast
  have v: "ib_aggregateVersion ` set applied = {1..n}"
    using arg_cong [OF assms, of set] by simp
  with False have "n \<in> ib_aggregateVersion ` set applied" by simp
  then have "n \<le> ib_aggregateVersion r" using r(2) by auto
  moreover have "ib_aggregateVersion r \<in> {1..n}" using r(1) v by blast
  ultimately show ?thesis using r(3) False by simp
qed

section \<open>Deliveries\<close>

text \<open>What a delivery leaves: nothing new for a known event, else a row and what its decision asks for.\<close>

definition deliveredBefore :: "string \<Rightarrow> inbound_event \<Rightarrow> inbox_store \<Rightarrow> bool" where
  "deliveredBefore G event st \<longleftrightarrow> (\<exists>r\<in>set (is_inbox st).
     (ib_tenantId r, ib_consumerGroup r, ib_eventId r) = (ie_tenantId event, G, ie_eventId event))"

definition inboxDecision :: "(string \<Rightarrow> json \<Rightarrow> envelope_rejection option) \<Rightarrow> string \<Rightarrow> inbound_event \<Rightarrow> inbox_store \<Rightarrow> inbox_decision" where
  "inboxDecision parse G event st =
     classifyCg4InboundEvent (cursorOf (appliedRows G (ie_tenantId event) (ie_aggregateType event)
       (ie_aggregateId event) (is_inbox st))) (ie_aggregateVersion event) (ie_payloadHash event)
       (parse (ie_eventType event) (ie_payload event))"

definition inboxRow :: "string \<Rightarrow> string \<Rightarrow> inbox_decision \<Rightarrow> inbound_event \<Rightarrow> inbox_row" where
  "inboxRow G i d event = \<lparr> ib_id = i, ib_tenantId = ie_tenantId event, ib_consumerGroup = G,
     ib_eventId = ie_eventId event, ib_aggregateType = ie_aggregateType event,
     ib_aggregateId = ie_aggregateId event, ib_aggregateVersion = ie_aggregateVersion event,
     ib_eventType = ie_eventType event, ib_payloadHash = ie_payloadHash event,
     ib_state = INBOX_STATE d, ib_receivedAt = ie_receivedAt event \<rparr>"

lemma record_known:
  assumes "deliveredBefore G event (fst s)"
  shows "fst (recordEvent parse ap G ids now event s) = s" and "\<not> io_recorded (snd (recordEvent parse ap G ids now event s))"
    and "io_decision (snd (recordEvent parse ap G ids now event s)) = Duplicate"
  using assms by (auto simp: recordEvent_def deliveredBefore_def Let_def find_None_iff split: option.split)

lemma pauses_have_reason: "cg4InboxDecisionPausesScope d \<longleftrightarrow> (\<exists>reason. cg4PauseReasonFor d = Some reason)"
  by (cases d) (auto simp: cg4InboxDecisionPausesScope_def)

lemma record_new:
  assumes "\<not> deliveredBefore G event (fst s)" and "d = inboxDecision parse G event (fst s)"
  shows "is_inbox (fst (fst (recordEvent parse ap G ids now event s))) = is_inbox (fst s) @ [inboxRow G (ids 0) d event]"
    and "snd (fst (recordEvent parse ap G ids now event s)) = (if d = Apply then ap event (snd s) else snd s)"
    and "is_pauses (fst (fst (recordEvent parse ap G ids now event s))) = (case cg4PauseReasonFor d of
       None \<Rightarrow> is_pauses (fst s)
     | Some reason \<Rightarrow> fst (pauseScope G (ids 1) now event d reason (is_pauses (fst s))))"
    and "io_decision (snd (recordEvent parse ap G ids now event s)) = d"
proof -
  have "find (\<lambda>r. ib_tenantId r = ie_tenantId event \<and> ib_consumerGroup r = G \<and> ib_eventId r = ie_eventId event)
      (is_inbox (fst s)) = None"
    using assms(1) by (auto simp: deliveredBefore_def find_None_iff)
  note r = this recordEvent_def inboxRow_def inboxDecision_def [symmetric] assms(2) [symmetric] pauses_have_reason
  show "is_inbox (fst (fst (recordEvent parse ap G ids now event s))) = is_inbox (fst s) @ [inboxRow G (ids 0) d event]"
    by (simp add: r Let_def split_beta)
  show "snd (fst (recordEvent parse ap G ids now event s)) = (if d = Apply then ap event (snd s) else snd s)"
    by (simp add: r Let_def split_beta)
  show "is_pauses (fst (fst (recordEvent parse ap G ids now event s))) = (case cg4PauseReasonFor d of
       None \<Rightarrow> is_pauses (fst s)
     | Some reason \<Rightarrow> fst (pauseScope G (ids 1) now event d reason (is_pauses (fst s))))"
    by (simp add: r Let_def split_beta split: option.split)
  show "io_decision (snd (recordEvent parse ap G ids now event s)) = d"
    by (simp add: r Let_def split_beta)
qed

inductive delivery_step ::
  "(string \<Rightarrow> json \<Rightarrow> envelope_rejection option) \<Rightarrow> (inbound_event \<Rightarrow> 'p \<Rightarrow> 'p) \<Rightarrow> string \<Rightarrow> inbox_store \<times> 'p \<Rightarrow> inbox_store \<times> 'p \<Rightarrow> bool"
  for parse ap G where
  "recordEvent parse ap G ids now event s = (s', out) \<Longrightarrow> delivery_step parse ap G s s'"

lemma delivery_cases [consumes 1, case_names known new]:
  assumes "delivery_step parse ap G s s'"
  obtains "s' = s"
  | event i now j where "\<not> deliveredBefore G event (fst s)"
    and "is_inbox (fst s') = is_inbox (fst s) @ [inboxRow G i (inboxDecision parse G event (fst s)) event]"
    and "is_pauses (fst s') = (case cg4PauseReasonFor (inboxDecision parse G event (fst s)) of
       None \<Rightarrow> is_pauses (fst s)
     | Some reason \<Rightarrow> fst (pauseScope G j now event (inboxDecision parse G event (fst s)) reason (is_pauses (fst s))))"
  using assms
proof cases
  case (1 ids now event out)
  show thesis
  proof (cases "deliveredBefore G event (fst s)")
    case True
    from record_known(1) [OF True, of parse ap ids now] 1 that(1) show thesis by simp
  next
    case False
    from record_new [OF False refl, of parse ap ids now] 1 that(2) [OF False] show thesis by simp
  qed
qed

section \<open>Each aggregate is applied from 1 upwards\<close>

definition inboxInv :: "string \<Rightarrow> inbox_store \<Rightarrow> bool" where
  "inboxInv G st \<longleftrightarrow> distinct (map (\<lambda>r. (ib_tenantId r, ib_consumerGroup r, ib_eventId r)) (is_inbox st)) \<and>
     (\<forall>T A I. map ib_aggregateVersion (appliedRows G T A I (is_inbox st)) =
        [1..int (length (appliedRows G T A I (is_inbox st)))])"

lemma applied_version:
  assumes "classifyCg4InboundEvent (cursorOf applied) v h p = Apply" and "map ib_aggregateVersion applied = [1..int (length applied)]"
  shows "v = int (length applied) + 1"
  using cursor_of_prefix [OF assms(2)] assms(1)
  by (auto simp: classifyCg4InboundEvent_def split: option.splits if_splits)

lemma applied_state: "INBOX_STATE d = IB_APPLIED \<longleftrightarrow> d = Apply"
  by (cases d) auto

lemma applied_append: "appliedRows G T A I (rows @ [r]) = appliedRows G T A I rows @
   (if ib_tenantId r = T \<and> ib_consumerGroup r = G \<and> ib_aggregateType r = A \<and> ib_aggregateId r = I \<and> ib_state r = IB_APPLIED
    then [r] else [])"
  by (simp add: appliedRows_def)

lemma delivery_keeps_inbox:
  assumes "delivery_step parse ap G s s'" and inv: "inboxInv G (fst s)"
  shows "inboxInv G (fst s')"
  using assms(1)
proof (cases rule: delivery_cases)
  case known
  with inv show ?thesis by simp
next
  case (new event i now j)
  let ?d = "inboxDecision parse G event (fst s)"
  show ?thesis unfolding inboxInv_def
  proof (intro conjI allI)
    show "distinct (map (\<lambda>r. (ib_tenantId r, ib_consumerGroup r, ib_eventId r)) (is_inbox (fst s')))"
      using inv new(1) unfolding new(2) by (force simp: inboxInv_def deliveredBefore_def inboxRow_def)
    fix T A I
    let ?rows = "appliedRows G T A I (is_inbox (fst s))"
    have rows: "map ib_aggregateVersion ?rows = [1..int (length ?rows)]" using inv by (simp add: inboxInv_def)
    show "map ib_aggregateVersion (appliedRows G T A I (is_inbox (fst s'))) =
        [1..int (length (appliedRows G T A I (is_inbox (fst s'))))]"
    proof (cases "ie_tenantId event = T \<and> ie_aggregateType event = A \<and> ie_aggregateId event = I \<and> ?d = Apply")
      case True
      then have v: "ie_aggregateVersion event = int (length ?rows) + 1"
        using applied_version [OF _ rows] by (auto simp: inboxDecision_def)
      have "appliedRows G T A I (is_inbox (fst s')) = ?rows @ [inboxRow G i ?d event]"
        using True unfolding new(2) by (simp add: applied_append inboxRow_def)
      moreover have "[1..int (length ?rows) + 1] = [1..int (length ?rows)] @ [int (length ?rows) + 1]"
        by (simp add: upto_rec2)
      ultimately show ?thesis using rows v by (simp add: inboxRow_def add.commute)
    next
      case False
      then have "appliedRows G T A I (is_inbox (fst s')) = ?rows"
        unfolding new(2) by (auto simp: applied_append inboxRow_def applied_state)
      with rows show ?thesis by simp
    qed
  qed
qed

interpretation inbox: invariant_system
  "\<lambda>s. is_inbox (fst s) = []" "delivery_step parse ap G" "\<lambda>s. inboxInv G (fst s)"
  for parse ap G
  by unfold_locales (simp add: inboxInv_def appliedRows_def, rule delivery_keeps_inbox)

text \<open>
  C10. Whatever a broker delivers to a consumer, in whichever order and however often, the versions the
  consumer has applied for an aggregate are 1, 2, \<dots>, n in that order, and an event is recorded at most once.
\<close>

theorem inbox_applies_contiguous_prefix:
  assumes "is_inbox st0 = []" and "steps (delivery_step parse ap G) (st0, p0) (st, p)"
  shows "map ib_aggregateVersion (appliedRows G T A I (is_inbox st)) = [1..int (length (appliedRows G T A I (is_inbox st)))] \<and>
     distinct (map (\<lambda>r. (ib_tenantId r, ib_consumerGroup r, ib_eventId r)) (is_inbox st))"
  using inbox.reachable_invar [OF _ assms(2)] assms(1) by (simp add: inboxInv_def)

section \<open>An in-order stream with redeliveries is applied exactly once\<close>

text \<open>
  A delivery schedule names events by their position in the stream. It is in order when an event first
  comes after all of its predecessors have come; \<open>inOrder\<close> gives how much of the stream it has delivered.
\<close>

fun inOrder :: "nat \<Rightarrow> nat \<Rightarrow> nat list \<Rightarrow> nat option" where
  "inOrder n m [] = Some m"
| "inOrder n m (k # ks) =
     (if k < m then inOrder n m ks else if k = m \<and> m < n then inOrder n (Suc m) ks else None)"

fun deliverAll :: "(string \<Rightarrow> json \<Rightarrow> envelope_rejection option) \<Rightarrow> (inbound_event \<Rightarrow> 'p \<Rightarrow> 'p) \<Rightarrow> string \<Rightarrow>
    ((nat \<Rightarrow> string) \<times> time_ms \<times> inbound_event) list \<Rightarrow> inbox_store \<times> 'p \<Rightarrow> inbox_store \<times> 'p" where
  "deliverAll parse ap G [] s = s"
| "deliverAll parse ap G ((ids, now, event) # ds) s =
     deliverAll parse ap G ds (fst (recordEvent parse ap G ids now event s))"

definition streamOf :: "(string \<Rightarrow> json \<Rightarrow> envelope_rejection option) \<Rightarrow> string \<Rightarrow> string \<Rightarrow> string \<Rightarrow> inbound_event list \<Rightarrow> bool" where
  "streamOf parse T A I es \<longleftrightarrow> map ie_aggregateVersion es = [1..int (length es)] \<and> distinct (map ie_eventId es) \<and>
     list_all (\<lambda>e. ie_tenantId e = T \<and> ie_aggregateType e = A \<and> ie_aggregateId e = I \<and>
       parse (ie_eventType e) (ie_payload e) = None) es"

definition caughtUp :: "string \<Rightarrow> string \<Rightarrow> string \<Rightarrow> string \<Rightarrow> inbound_event list \<Rightarrow> nat \<Rightarrow> inbox_store \<Rightarrow> bool" where
  "caughtUp G T A I es m st \<longleftrightarrow> (\<forall>k<length es. deliveredBefore G (es ! k) st \<longleftrightarrow> k < m) \<and>
     map ib_aggregateVersion (appliedRows G T A I (is_inbox st)) = [1..int m]"

lemma streamOf_nth:
  assumes "streamOf parse T A I es" and "k < length es"
  shows "ie_tenantId (es ! k) = T" "ie_aggregateType (es ! k) = A" "ie_aggregateId (es ! k) = I"
    "parse (ie_eventType (es ! k)) (ie_payload (es ! k)) = None" "ie_aggregateVersion (es ! k) = int k + 1"
proof -
  show "ie_tenantId (es ! k) = T" "ie_aggregateType (es ! k) = A" "ie_aggregateId (es ! k) = I"
    "parse (ie_eventType (es ! k)) (ie_payload (es ! k)) = None"
    using assms by (auto simp: streamOf_def list_all_length)
  have "map ie_aggregateVersion es ! k = [1..int (length es)] ! k" using assms(1) by (simp add: streamOf_def)
  with assms(2) show "ie_aggregateVersion (es ! k) = int k + 1" by (simp add: nth_upto)
qed

lemma caughtUp_decides_apply:
  assumes "streamOf parse T A I es" and "caughtUp G T A I es m st" and "m < length es"
  shows "inboxDecision parse G (es ! m) st = Apply"
proof -
  note e = streamOf_nth [OF assms(1,3)]
  have "map ib_aggregateVersion (appliedRows G T A I (is_inbox st)) = [1..int m]"
    using assms(2) by (simp add: caughtUp_def)
  from cursor_of_prefix [OF this] show ?thesis
    by (auto simp: inboxDecision_def e classifyCg4InboundEvent_def split: if_splits)
qed

lemma caughtUp_next:
  assumes str: "streamOf parse T A I es" and cu: "caughtUp G T A I es m (fst s)" and m: "m < length es"
  shows "caughtUp G T A I es (Suc m) (fst (fst (recordEvent parse ap G ids now (es ! m) s)))"
    and "snd (fst (recordEvent parse ap G ids now (es ! m) s)) = ap (es ! m) (snd s)"
    and "is_pauses (fst (fst (recordEvent parse ap G ids now (es ! m) s))) = is_pauses (fst s)"
proof -
  note e = streamOf_nth [OF str m]
  have d: "inboxDecision parse G (es ! m) (fst s) = Apply" by (rule caughtUp_decides_apply [OF str cu m])
  have "\<not> deliveredBefore G (es ! m) (fst s)" using cu m by (simp add: caughtUp_def)
  note r = record_new [OF this d [symmetric], of ap ids now]
  from r(2,3) show "snd (fst (recordEvent parse ap G ids now (es ! m) s)) = ap (es ! m) (snd s)"
    "is_pauses (fst (fst (recordEvent parse ap G ids now (es ! m) s))) = is_pauses (fst s)" by simp_all
  have ids: "ie_eventId (es ! k) = ie_eventId (es ! m) \<longleftrightarrow> k = m" if "k < length es" for k
    using str that m by (auto simp: streamOf_def distinct_conv_nth)
  have "deliveredBefore G (es ! k) (fst (fst (recordEvent parse ap G ids now (es ! m) s))) \<longleftrightarrow> k < Suc m" if k: "k < length es" for k
  proof -
    have "deliveredBefore G (es ! k) (fst (fst (recordEvent parse ap G ids now (es ! m) s))) \<longleftrightarrow>
        deliveredBefore G (es ! k) (fst s) \<or> ie_eventId (es ! m) = ie_eventId (es ! k)"
      by (auto simp: deliveredBefore_def r(1) inboxRow_def e streamOf_nth [OF str k])
    with cu k ids [OF k] show ?thesis by (auto simp: caughtUp_def less_Suc_eq)
  qed
  moreover have "map ib_aggregateVersion (appliedRows G T A I (is_inbox (fst (fst (recordEvent parse ap G ids now (es ! m) s))))) = [1..int (Suc m)]"
    using cu upto_rec2 [of 1 "int (Suc m)"] by (simp add: r(1) applied_append inboxRow_def e caughtUp_def)
  ultimately show "caughtUp G T A I es (Suc m) (fst (fst (recordEvent parse ap G ids now (es ! m) s)))"
    by (simp add: caughtUp_def)
qed

lemma deliver_from:
  assumes "streamOf parse T A I es" and "caughtUp G T A I es m (fst s)" and "m \<le> length es"
    and "inOrder (length es) m ks = Some n" and "map (\<lambda>d. snd (snd d)) ds = map ((!) es) ks"
  shows "m \<le> n \<and> caughtUp G T A I es n (fst (deliverAll parse ap G ds s)) \<and>
    snd (deliverAll parse ap G ds s) = fold ap (drop m (take n es)) (snd s) \<and>
    is_pauses (fst (deliverAll parse ap G ds s)) = is_pauses (fst s)"
  using assms(2-)
proof (induction "length es" m ks arbitrary: s ds rule: inOrder.induct)
  case (1 m)
  then show ?case by simp
next
  case (2 m k ks)
  from "2.prems"(4) obtain ids now ds' where ds: "ds = (ids, now, es ! k) # ds'"
    and ds': "map (\<lambda>d. snd (snd d)) ds' = map ((!) es) ks" by (cases ds) auto
  show ?case
  proof (cases "k < m")
    case True
    then have "deliveredBefore G (es ! k) (fst s)" using "2.prems"(1,2) by (simp add: caughtUp_def)
    from record_known(1) [OF this, of parse ap ids now] have "deliverAll parse ap G ds s = deliverAll parse ap G ds' s"
      by (simp add: ds)
    with "2.hyps"(1) [OF True "2.prems"(1,2) _ ds'] "2.prems"(3) True show ?thesis by simp
  next
    case False
    with "2.prems"(3) have k: "k = m" "m < length es" "inOrder (length es) (Suc m) ks = Some n"
      by (auto split: if_splits)
    let ?s = "fst (recordEvent parse ap G ids now (es ! m) s)"
    note nx = caughtUp_next [OF assms(1) "2.prems"(1) k(2), of ap ids now]
    have "Suc m \<le> length es" using k(2) by simp
    with "2.hyps"(2) [OF False _ nx(1) _ k(3) ds'] k(1,2)
    have ih: "Suc m \<le> n" "caughtUp G T A I es n (fst (deliverAll parse ap G ds' ?s))"
      "snd (deliverAll parse ap G ds' ?s) = fold ap (drop (Suc m) (take n es)) (snd ?s)"
      "is_pauses (fst (deliverAll parse ap G ds' ?s)) = is_pauses (fst ?s)" by auto
    have "drop m (take n es) = es ! m # drop (Suc m) (take n es)"
      using ih(1) k(2) by (simp add: Cons_nth_drop_Suc [symmetric])
    with ih nx show ?thesis by (simp add: ds k(1))
  qed
qed

text \<open>
  A consumer that is handed a stream of supported events in order, with any redelivery of what it has
  had already, runs its projection exactly once per event and in the order of the stream, and holds
  nothing; other aggregates may be in the inbox beside it.
\<close>

lemma in_order_stream_applied_once:
  assumes "streamOf parse T A I es"
    and "appliedRows G T A I (is_inbox st0) = []" and "list_all (\<lambda>e. \<not> deliveredBefore G e st0) es"
    and "inOrder (length es) 0 ks = Some n" and "map (\<lambda>d. snd (snd d)) ds = map ((!) es) ks"
  shows "snd (deliverAll parse ap G ds (st0, p0)) = fold ap (take n es) p0 \<and>
    is_pauses (fst (deliverAll parse ap G ds (st0, p0))) = is_pauses st0"
proof -
  have "caughtUp G T A I es 0 (fst (st0, p0))"
    using assms(2,3) by (simp add: caughtUp_def list_all_length)
  from deliver_from [OF assms(1) this _ assms(4,5)] show ?thesis by simp
qed

section \<open>An anomaly holds its scope\<close>

lemma isPaused_iff: "isPaused G T scope st \<longleftrightarrow> (\<exists>p\<in>set (is_pauses st). pauseOf G T scope p)"
  by (auto simp: isPaused_def find_None_iff)

lemma pauseScope_keeps:
  assumes "p \<in> set pauses" and "pauseOf G T scope p"
  shows "\<exists>p\<in>set (fst (pauseScope G i now event d reason pauses)). pauseOf G T scope p"
proof (cases "find (pauseOf G (ie_tenantId event) (cg4ScopeRefFor event)) pauses")
  case None
  with assms show ?thesis by (auto simp: pauseScope_def Let_def)
next
  case (Some q)
  define f :: "scope_pause \<Rightarrow> scope_pause" where "f = (\<lambda>p. if pa_id p = pa_id q then p\<lparr>pa_reason := reason, pa_detail := Some d,
    pa_eventId := Some (ie_eventId event), pa_observedVersion := Some (ie_aggregateVersion event),
    pa_expectedVersion := (case (case d of Gap v _ \<Rightarrow> Some v | _ \<Rightarrow> None) of None \<Rightarrow> pa_expectedVersion p | Some v \<Rightarrow> Some v)\<rparr> else p)"
  have "f p \<in> set (fst (pauseScope G i now event d reason pauses))"
    using Some assms(1) by (simp add: pauseScope_def Let_def updateWhere_def f_def)
  moreover have "pauseOf G T scope (f p)" using assms(2) by (simp add: f_def pauseOf_def)
  ultimately show ?thesis by blast
qed

lemma pauseScope_holds:
  "\<exists>p\<in>set (fst (pauseScope G i now event d reason pauses)). pauseOf G (ie_tenantId event) (cg4ScopeRefFor event) p"
proof (cases "find (pauseOf G (ie_tenantId event) (cg4ScopeRefFor event)) pauses")
  case None
  then show ?thesis by (simp add: pauseScope_def pauseOf_def Let_def)
next
  case (Some p)
  then have "p \<in> set pauses" "pauseOf G (ie_tenantId event) (cg4ScopeRefFor event) p"
    by (auto simp: find_Some_iff)
  then show ?thesis by (rule pauseScope_keeps)
qed

lemma delivery_keeps_pause:
  assumes "delivery_step parse ap G s s'" and "isPaused G T scope (fst s)"
  shows "isPaused G T scope (fst s')"
  using assms(1)
proof (cases rule: delivery_cases)
  case known
  with assms(2) show ?thesis by simp
next
  case (new event i now j)
  from assms(2) show ?thesis
    by (auto simp: isPaused_iff new(3) split: option.split intro: pauseScope_keeps)
qed

lemma deliveries_keep_pause:
  assumes "steps (delivery_step parse ap G) s s'" and "isPaused G T scope (fst s)"
  shows "isPaused G T scope (fst s')"
  using assms by (induction rule: steps.induct) (auto intro: delivery_keeps_pause)

text \<open>
  An event that cannot be applied (a gap, an event out of order, two payloads for one version, a
  contract the build does not know) leaves its contact or policy scope held, and no later delivery
  lifts the hold: only a reload from canonical state does.
\<close>

lemma anomaly_holds_scope:
  assumes "recordEvent parse ap G ids now event s = (s', out)" and "cg4InboxDecisionPausesScope (io_decision out)"
    and "steps (delivery_step parse ap G) s' s''"
  shows "isPaused G (ie_tenantId event) (cg4ScopeRefFor event) (fst s'')"
proof -
  have "isPaused G (ie_tenantId event) (cg4ScopeRefFor event) (fst s')"
  proof (cases "deliveredBefore G event (fst s)")
    case True
    from record_known(3) [OF True, of parse ap ids now] assms(1,2) show ?thesis
      by (simp add: cg4InboxDecisionPausesScope_def)
  next
    case False
    note r = record_new [OF False refl, of parse ap ids now, unfolded assms(1) fst_conv snd_conv]
    from assms(2) obtain reason where "cg4PauseReasonFor (inboxDecision parse G event (fst s)) = Some reason"
      unfolding r(4) pauses_have_reason by blast
    with r(3) show ?thesis by (simp add: isPaused_iff pauseScope_holds)
  qed
  with assms(3) show ?thesis by (rule deliveries_keep_pause)
qed

lemma resume_lifts_hold:
  assumes "resumeFromCanonical G ids now i st = Some (st', n, v)"
  shows "\<not> isPaused G (rs_tenantId i) (rs_scope i) st'" and "v = rs_canonicalVersion i"
    and "\<exists>r\<in>set (appliedRows G (rs_tenantId i) (rs_aggregateType i) (rs_aggregateId i) (is_inbox st')).
      ib_aggregateVersion r = rs_canonicalVersion i"
proof -
  let ?held = "pauseOf G (rs_tenantId i) (rs_scope i)"
  have p: "is_pauses st' = map (\<lambda>p. if ?held p then p\<lparr>pa_state := PauseCleared, pa_clearedAt := Some now,
      pa_clearedToVersion := Some (rs_canonicalVersion i)\<rparr> else p) (is_pauses st)"
    and "v = rs_canonicalVersion i"
    using assms unfolding resumeFromCanonical_def Let_def updateWhere_def by (simp_all split: if_split_asm) auto
  then show "v = rs_canonicalVersion i" by simp
  have "\<not> ?held (if ?held p then p\<lparr>pa_state := PauseCleared, pa_clearedAt := Some now,
      pa_clearedToVersion := Some (rs_canonicalVersion i)\<rparr> else p)" for p
    by (simp add: pauseOf_def)
  then show "\<not> isPaused G (rs_tenantId i) (rs_scope i) st'"
    unfolding isPaused_iff p by (simp only: set_map) blast
  let ?rows = "appliedRows G (rs_tenantId i) (rs_aggregateType i) (rs_aggregateId i)"
  show "\<exists>r\<in>set (?rows (is_inbox st')). ib_aggregateVersion r = rs_canonicalVersion i"
  proof (cases "list_ex (\<lambda>r. ib_aggregateVersion r = rs_canonicalVersion i) (?rows (is_inbox st))")
    case True
    with assms have "is_inbox st' = is_inbox st" by (auto simp: resumeFromCanonical_def Let_def)
    with True show ?thesis by (simp add: list_ex_iff)
  next
    case False
    with assms obtain r where "is_inbox st' = is_inbox st @ [r]" "ib_tenantId r = rs_tenantId i" "ib_consumerGroup r = G"
      "ib_aggregateType r = rs_aggregateType i" "ib_aggregateId r = rs_aggregateId i" "ib_state r = IB_APPLIED"
      "ib_aggregateVersion r = rs_canonicalVersion i"
      by (auto simp: resumeFromCanonical_def Let_def split: if_splits)
    then show ?thesis by (simp add: applied_append)
  qed
qed

section \<open>A sample consumer\<close>

definition sampleEvent :: "string \<Rightarrow> int \<Rightarrow> inbound_event" where
  "sampleEvent i v = \<lparr> ie_tenantId = ''t1'', ie_eventId = i, ie_eventType = ''exception.changed'',
     ie_aggregateType = ''CONTACT'', ie_aggregateId = ''c1'', ie_aggregateVersion = v, ie_payloadHash = i,
     ie_payload = JNull, ie_receivedAt = 0 \<rparr>"

definition acceptAll :: "string \<Rightarrow> json \<Rightarrow> envelope_rejection option" where
  "acceptAll eventType payload = None"

definition sampleCount :: "inbound_event \<Rightarrow> int \<Rightarrow> int" where
  "sampleCount event n = n + ie_aggregateVersion event"

definition sampleDeliver :: "inbound_event \<Rightarrow> inbox_store \<times> int \<Rightarrow> inbox_store \<times> int" where
  "sampleDeliver event s = fst (recordEvent acceptAll sampleCount ''g'' (\<lambda>_. ie_eventId event) 0 event s)"

lemma sample_deliver_step: "delivery_step acceptAll sampleCount ''g'' s (sampleDeliver event s)"
  unfolding sampleDeliver_def by (rule delivery_step.intros) (rule prod.collapse [symmetric])

lemma sample_deliveries: "steps (delivery_step acceptAll sampleCount ''g'') s (fold sampleDeliver es s)"
proof (induction es rule: rev_induct)
  case (snoc e es)
  then show ?case by (auto intro: steps_step sample_deliver_step)
qed (simp add: steps_refl)

definition emptyInbox :: "inbox_store" where "emptyInbox = \<lparr> is_inbox = [], is_pauses = [] \<rparr>"

definition sampleInbox :: inbox_store where
  "sampleInbox = fst (fold sampleDeliver [sampleEvent ''e1'' 1, sampleEvent ''e3'' 3, sampleEvent ''e2'' 2] (emptyInbox, 0))"

lemma sample_run:
  "steps (delivery_step acceptAll sampleCount ''g'') (emptyInbox, 0)
     (sampleInbox, snd (fold sampleDeliver [sampleEvent ''e1'' 1, sampleEvent ''e3'' 3, sampleEvent ''e2'' 2] (emptyInbox, 0)))"
  unfolding sampleInbox_def prod.collapse by (rule sample_deliveries)

theorem inbox_applies_contiguous_prefix_witness:
  "map ib_aggregateVersion (appliedRows ''g'' ''t1'' ''CONTACT'' ''c1'' (is_inbox sampleInbox)) =
     [1..int (length (appliedRows ''g'' ''t1'' ''CONTACT'' ''c1'' (is_inbox sampleInbox)))] \<and>
   distinct (map (\<lambda>r. (ib_tenantId r, ib_consumerGroup r, ib_eventId r)) (is_inbox sampleInbox))"
  by (rule inbox_applies_contiguous_prefix [OF _ sample_run]) (simp add: emptyInbox_def)

lemma in_order_stream_applied_once_witness:
  "snd (deliverAll acceptAll sampleCount ''g''
     [(\<lambda>_. ''a'', 0, sampleEvent ''e1'' 1), (\<lambda>_. ''b'', 0, sampleEvent ''e2'' 2), (\<lambda>_. ''c'', 0, sampleEvent ''e1'' 1)]
     (emptyInbox, 0)) = 3 \<and>
   is_pauses (fst (deliverAll acceptAll sampleCount ''g''
     [(\<lambda>_. ''a'', 0, sampleEvent ''e1'' 1), (\<lambda>_. ''b'', 0, sampleEvent ''e2'' 2), (\<lambda>_. ''c'', 0, sampleEvent ''e1'' 1)]
     (emptyInbox, 0 :: int))) = []"
proof -
  let ?es = "[sampleEvent ''e1'' 1, sampleEvent ''e2'' 2]"
  have "streamOf acceptAll ''t1'' ''CONTACT'' ''c1'' ?es"
    by (simp add: streamOf_def sampleEvent_def acceptAll_def upto_rec1)
  from in_order_stream_applied_once [OF this, of "''g''" emptyInbox "[0, 1, 0]" 2
      "[(\<lambda>_. ''a'', 0, sampleEvent ''e1'' 1), (\<lambda>_. ''b'', 0, sampleEvent ''e2'' 2), (\<lambda>_. ''c'', 0, sampleEvent ''e1'' 1)]"
      sampleCount 0]
  show ?thesis
    by (simp add: emptyInbox_def appliedRows_def deliveredBefore_def sampleCount_def numeral_2_eq_2, simp add: sampleEvent_def)
qed

lemma anomaly_holds_scope_witness:
  "isPaused ''g'' ''t1'' (PauseContact, ''c1'') (fst (sampleDeliver (sampleEvent ''e1'' 1) (sampleDeliver (sampleEvent ''e2'' 2) (emptyInbox, 0))))"
proof -
  let ?r = "recordEvent acceptAll sampleCount ''g'' (\<lambda>_. ''e2'') 0 (sampleEvent ''e2'' 2) (emptyInbox, 0)"
  have "io_decision (snd ?r) = Gap 1 2" by code_simp
  moreover have "sampleDeliver (sampleEvent ''e2'' 2) (emptyInbox, 0) = fst ?r"
    by (simp add: sampleDeliver_def sampleEvent_def)
  ultimately have "isPaused ''g'' (ie_tenantId (sampleEvent ''e2'' 2)) (cg4ScopeRefFor (sampleEvent ''e2'' 2))
      (fst (sampleDeliver (sampleEvent ''e1'' 1) (fst ?r)))"
    using anomaly_holds_scope [OF prod.collapse [symmetric, of ?r] _ sample_deliveries [of "fst ?r" "[sampleEvent ''e1'' 1]"]]
    by (simp add: cg4InboxDecisionPausesScope_def)
  then show ?thesis by (simp add: sampleDeliver_def sampleEvent_def cg4ScopeRefFor_def)
qed

end
