(* ===== verification/EventGuarantees.thy ===== *)
theory EventGuarantees
  imports InboxGuarantees ExceptionGuarantees
begin

text \<open>
  Guarantees of the producing side of the event path, for stores on which the commands of the exception
  lifecycle and the relay run in any order: the stream of a contact has no holes, and the relay holds
  back no event the lifecycle writes. Then two properties of the relay that its comments do not lead
  one to expect, the second composed with the consumer inbox.
\<close>

section \<open>Commands and relay together\<close>

text \<open>What an attempt of the relay leaves of a row: its event, in a settled state.\<close>

definition eventOf :: "outbox_row \<Rightarrow> string \<times> string \<times> string \<times> string \<times> string \<times> int \<times> string \<times> string \<times> json \<times> string" where
  "eventOf r = (ob_id r, ob_mutationId r, ob_tenantId r, ob_aggregateType r, ob_aggregateId r, ob_aggregateVersion r,
     ob_eventType r, ob_orderingKey r, ob_payload r, ob_payloadHash r)"

lemma updateOutbox_twice:
  "(\<And>r. ob_id (g r) = ob_id r) \<Longrightarrow> updateOutbox i f (updateOutbox i g rows) = updateOutbox i (\<lambda>r. f (g r)) rows"
  by (simp add: updateOutbox_def updateWhere_def)

lemma first_in: "(case xs of [] \<Rightarrow> None | r # _ \<Rightarrow> Some r) = Some x \<Longrightarrow> x \<in> set xs"
  by (cases xs) auto

lemma publish_outcome [consumes 1, case_names idle settled]:
  assumes "publishNext env T rows = (rows', a, m)"
  obtains "rows' = rows" and "a = None"
  | row f i where "row \<in> set rows" and "rows' = updateOutbox i f rows" and "\<And>r. eventOf (f r) = eventOf r"
    and "\<And>r. ob_state (f r) \<noteq> OB_PUBLISHING"
    and "a \<noteq> None" and "pb_state (the a) = OB_QUARANTINED \<Longrightarrow>
      (case parseCg4CanonicalEvent (ob_eventType row) (ob_payload row) of None \<Rightarrow> False | Some reason \<Rightarrow> isCg4ProducerSideRejection reason)"
proof (cases "publishCandidate env T rows")
  case None
  with assms that(1) show thesis by (simp add: publishNext_def)
next
  case (Some row)
  have row: "row \<in> set rows"
    using first_in [OF Some [unfolded publishCandidate_def]] by simp
  let ?rejection = "if ob_eventType row \<in> set (rl_legacyEventTypes env) then None
      else parseCg4CanonicalEvent (ob_eventType row) (ob_payload row)"
  let ?held = "case ?rejection of None \<Rightarrow> False | Some reason \<Rightarrow> isCg4ProducerSideRejection reason"
  let ?n = "ob_attempts row + 1"
  let ?quarantine = "\<lambda>r :: outbox_row. r\<lparr>ob_state := OB_QUARANTINED, ob_attempts := ?n, ob_leaseOwner := None, ob_leaseExpiresAt := None\<rparr>"
  let ?lease = "\<lambda>r :: outbox_row. r\<lparr>ob_state := OB_PUBLISHING, ob_leaseOwner := Some (rl_leaseOwner env),
    ob_leaseExpiresAt := Some (rl_now env + rl_leaseSeconds env * 1000)\<rparr>"
  let ?fail = "\<lambda>r :: outbox_row. r\<lparr>ob_state := OB_FAILED, ob_attempts := ?n, ob_availableAt := rl_now env + rl_backoffMs env ?n,
    ob_leaseOwner := None, ob_leaseExpiresAt := None\<rparr>"
  let ?publish = "\<lambda>r :: outbox_row. r\<lparr>ob_state := OB_PUBLISHED, ob_attempts := ?n, ob_publishedAt := Some (rl_now env),
    ob_leaseOwner := None, ob_leaseExpiresAt := None\<rparr>"
  note p = assms [unfolded publishNext_def Some option.case Let_def]
  consider (held) ?held | (unsent) "\<not> ?held" "\<not> rl_sendOk env row"
    | (published) "\<not> ?held" "rl_sendOk env row" "rl_invalidateOk env row"
    | (stale) "\<not> ?held" "rl_sendOk env row" "\<not> rl_invalidateOk env row" by blast
  then show thesis
  proof cases
    case held
    with p show thesis
      by (intro that(2) [OF row, where i = "ob_id row" and f = ?quarantine])
         (auto simp: eventOf_def split: if_splits)
  next
    case unsent
    with p show thesis
      by (intro that(2) [OF row, where i = "ob_id row" and f = "\<lambda>r. ?fail (?lease r)"])
         (auto simp: eventOf_def updateOutbox_twice)
  next
    case published
    with p show thesis
      by (intro that(2) [OF row, where i = "ob_id row" and f = "\<lambda>r. ?publish (?lease r)"])
         (auto simp: eventOf_def updateOutbox_twice)
  next
    case stale
    with p show thesis
      by (intro that(2) [OF row, where i = "ob_id row" and f = "\<lambda>r. ?fail (?publish (?lease r))"])
         (auto simp: eventOf_def updateOutbox_twice)
  qed
qed

inductive system_step :: "governance_store \<Rightarrow> governance_store \<Rightarrow> bool" where
  governed: "governance_step st st' \<Longrightarrow> system_step st st'"
| relayed: "publishNext env T (gs_outbox st) = (rows, a, m) \<Longrightarrow> system_step st (st\<lparr>gs_outbox := rows\<rparr>)"
| recovered: "recoverExpiredLeases now T (gs_outbox st) = (rows, n) \<Longrightarrow> system_step st (st\<lparr>gs_outbox := rows\<rparr>)"

section \<open>The stream of a contact\<close>

definition streamVersion :: "string \<Rightarrow> string \<Rightarrow> stream_head list \<Rightarrow> int" where
  "streamVersion T C heads =
     (case find (\<lambda>h. sh_tenantId h = T \<and> sh_contactId h = C) heads of None \<Rightarrow> 0 | Some h \<Rightarrow> sh_aggregateVersion h)"

definition publishedVersions :: "string \<Rightarrow> string \<Rightarrow> outbox_row list \<Rightarrow> int list" where
  "publishedVersions T C rows =
     map ob_aggregateVersion (filter (\<lambda>r. ob_tenantId r = T \<and> ob_aggregateType r = ''CONTACT'' \<and> ob_aggregateId r = C) rows)"

lemma find_updateWhere:
  assumes "\<And>x. Q (if P x then f x else x) = Q x"
  shows "find Q (updateWhere P f xs) = map_option (\<lambda>x. if P x then f x else x) (find Q xs)"
  using assms by (induction xs) (auto simp: updateWhere_def)

lemma find_append: "find P (xs @ ys) = (case find P xs of None \<Rightarrow> find P ys | Some x \<Rightarrow> Some x)"
  by (induction xs) auto

lemma nextContactStreamVersion_spec:
  assumes "nextContactStreamVersion env T C m heads = (heads', v)"
  shows "v = streamVersion T C heads + 1"
    and "streamVersion T' C' heads' = (if (T', C') = (T, C) then v else streamVersion T' C' heads)"
proof -
  let ?here = "\<lambda>h. sh_tenantId h = T \<and> sh_contactId h = C"
  let ?there = "\<lambda>h. sh_tenantId h = T' \<and> sh_contactId h = C'"
  show "v = streamVersion T C heads + 1"
    using assms by (auto simp: nextContactStreamVersion_def streamVersion_def Let_def split: option.splits)
  show "streamVersion T' C' heads' = (if (T', C') = (T, C) then v else streamVersion T' C' heads)"
  proof (cases "find ?here heads")
    case None
    with assms have "v = 1" and h: "heads' = heads @ [\<lparr> sh_tenantId = T, sh_contactId = C, sh_aggregateVersion = 1,
        sh_currentDigest = EMPTY_CONTACT_STATE_DIGEST env, sh_latestMutationId = m \<rparr>]"
      by (auto simp: nextContactStreamVersion_def Let_def)
    with None show ?thesis by (auto simp: streamVersion_def find_append split: option.splits)
  next
    case (Some h)
    let ?f = "\<lambda>h. h\<lparr>sh_aggregateVersion := sh_aggregateVersion h + 1, sh_latestMutationId := m\<rparr>"
    from Some assms have "heads' = updateWhere ?here ?f heads" "v = sh_aggregateVersion h + 1"
      by (auto simp: nextContactStreamVersion_def Let_def)
    moreover have "find ?there (updateWhere ?here ?f heads) = map_option (\<lambda>x. if ?here x then ?f x else x) (find ?there heads)"
      by (rule find_updateWhere) auto
    ultimately show ?thesis
      using Some by (auto simp: streamVersion_def split: option.splits dest: find_Some_in)
  qed
qed

definition streamInv :: "governance_store \<Rightarrow> bool" where
  "streamInv st \<longleftrightarrow> (\<forall>T C. 0 \<le> streamVersion T C (gs_streamHeads st) \<and>
     publishedVersions T C (gs_outbox st) = [1..streamVersion T C (gs_streamHeads st)])"

lemma upto_snoc: "0 \<le> n \<Longrightarrow> [1..n + 1] = [1..n] @ [n + 1]" for n :: int
  by (simp add: upto_rec2)

lemma publish_keeps_stream:
  assumes "streamInv st"
    and "nextContactStreamVersion env T C m (gs_streamHeads st) = (gs_streamHeads st', v)"
    and "appendOutbox (outboxEvent env eventId m T C eventType v payload) (gs_outbox st) = Inr (gs_outbox st')"
  shows "streamInv st'"
  unfolding streamInv_def
proof (intro allI)
  fix T' C'
  have out: "gs_outbox st' = gs_outbox st @ [outboxEvent env eventId m T C eventType v payload]"
    using assms(3) by (auto simp: appendOutbox_def split: if_splits)
  note s = nextContactStreamVersion_spec [OF assms(2)]
  have i: "0 \<le> streamVersion T' C' (gs_streamHeads st)"
    "publishedVersions T' C' (gs_outbox st) = [1..streamVersion T' C' (gs_streamHeads st)]"
    using assms(1) by (auto simp: streamInv_def)
  show "0 \<le> streamVersion T' C' (gs_streamHeads st') \<and>
     publishedVersions T' C' (gs_outbox st') = [1..streamVersion T' C' (gs_streamHeads st')]"
  proof (cases "(T', C') = (T, C)")
    case True
    with s(1) s(2) [of T' C'] have v: "streamVersion T' C' (gs_streamHeads st') = streamVersion T' C' (gs_streamHeads st) + 1" by simp
    have "publishedVersions T' C' (gs_outbox st') = publishedVersions T' C' (gs_outbox st) @ [v]"
      using True by (simp add: publishedVersions_def out outboxEvent_def)
    with i s(1) True show ?thesis unfolding v by (simp add: upto_snoc)
  next
    case False
    with s(2) [of T' C'] i show ?thesis by (auto simp: publishedVersions_def out outboxEvent_def)
  qed
qed

lemma updates_keep_versions:
  assumes "\<And>r. eventOf (f r) = eventOf r"
  shows "publishedVersions T C (updateWhere P f rows) = publishedVersions T C rows"
  using assms by (induction rows) (auto simp: publishedVersions_def updateWhere_def eventOf_def)

text \<open>What a command does to the outbox: nothing, or one event of its contact at the next version.\<close>

definition lifecycleEvent :: "outbox_row \<Rightarrow> bool" where
  "lifecycleEvent r \<longleftrightarrow> ob_eventType r = ''exception.recorded'' \<or>
     ob_eventType r = ''exception.changed'' \<and> parseCg4CanonicalEvent (ob_eventType r) (ob_payload r) = None"

text \<open>The payload of a transition passes the envelope guard it will meet at the relay and at the inbox.\<close>

lemma transition_payload_is_canonical:
  "parseCg4CanonicalEvent ''exception.changed'' (transitionPayload env i revision target kind occurredAt mutationId afterDigest) = None"
proof -
  have keys: "\<not> findRestrictedKey (transitionPayload env i revision target kind occurredAt mutationId afterDigest)"
    unfolding transitionPayload_def findRestrictedKey.simps
    by (simp add: RESTRICTED_KEYS_def asciiLower_def jint_def jopt_def)
  show ?thesis
    using keys
    by (simp add: parseCg4CanonicalEvent_def transitionPayload_def CG4_EVENT_TYPES_def isStringField_def isIntegerField_def
        isObjectField_def CG4_CONTRACT_VERSION_def jint_def split: if_splits)
qed

lemma commit_exception_event:
  assumes "commitException env i w hash exceptionId hd0 st = Inr (st', res)"
  obtains version digest where
    "nextContactStreamVersion env (re_tenantId i) (re_contactId i) (ge_id env 1) (gs_streamHeads st) = (gs_streamHeads st', version)"
    "appendOutbox (outboxEvent env (ge_id env 4) (ge_id env 1) (re_tenantId i) (re_contactId i) ''exception.recorded'' version
       (recordedPayload env i w (ge_id env 1) (ge_digest env digest) version)) (gs_outbox st) = Inr (gs_outbox st')"
proof -
  obtain heads version where n: "nextContactStreamVersion env (re_tenantId i) (re_contactId i) (ge_id env 1)
      (gs_streamHeads st) = (heads, version)" by fastforce
  show thesis
    using assms that [of version]
    unfolding commitException_def Let_def n prod.case rbind_eq_Inr_iff by (elim exE conjE) (force simp: n)
qed

lemma commit_transition_event:
  assumes "commitTransition env i occurredAt hash head revision target kind quorum st = Inr (st', res)"
  obtains version digest where
    "nextContactStreamVersion env (ti_tenantId i) (ex_contactId revision) (ge_id env 1) (gs_streamHeads st) = (gs_streamHeads st', version)"
    "appendOutbox (outboxEvent env (ge_id env 4) (ge_id env 1) (ti_tenantId i) (ex_contactId revision) ''exception.changed'' version
       (transitionPayload env i revision target kind occurredAt (ge_id env 1) (ge_digest env digest))) (gs_outbox st) = Inr (gs_outbox st')"
proof -
  obtain heads version where n: "nextContactStreamVersion env (ti_tenantId i) (ex_contactId revision) (ge_id env 1)
      (gs_streamHeads st) = (heads, version)" by fastforce
  show thesis
    using assms that [of version]
    unfolding commitTransition_def Let_def n prod.case rbind_eq_Inr_iff by (elim exE conjE) (force simp: n)
qed

lemma command_events [consumes 1, case_names silent event]:
  assumes "governance_step st st'"
  obtains "gs_streamHeads st' = gs_streamHeads st" "gs_outbox st' = gs_outbox st"
  | env T C m i eventType v payload where
    "nextContactStreamVersion env T C m (gs_streamHeads st) = (gs_streamHeads st', v)"
    "appendOutbox (outboxEvent env i m T C eventType v payload) (gs_outbox st) = Inr (gs_outbox st')"
    "eventType = ''exception.recorded'' \<or> eventType = ''exception.changed'' \<and> parseCg4CanonicalEvent eventType payload = None"
  using assms
proof cases
  case (record_step env i r)
  then show thesis
  proof (cases rule: record_outcome)
    case (recorded w exceptionId)
    from recorded(5) obtain version digest where
      "nextContactStreamVersion env (re_tenantId i) (re_contactId i) (ge_id env 1) (gs_streamHeads st) = (gs_streamHeads st', version)"
      "appendOutbox (outboxEvent env (ge_id env 4) (ge_id env 1) (re_tenantId i) (re_contactId i) ''exception.recorded'' version
         (recordedPayload env i w (ge_id env 1) (ge_digest env digest) version)) (gs_outbox st) = Inr (gs_outbox st')"
      by (rule commit_exception_event)
    then show thesis by (rule that(2)) simp
  qed (use that(1) in simp)
next
  case (transition_step env t q)
  then show thesis
  proof (cases rule: transition_outcome)
    case (moved occurredAt head revision target kind quorum)
    from moved(10) obtain version digest where
      "nextContactStreamVersion env (ti_tenantId t) (ex_contactId revision) (ge_id env 1) (gs_streamHeads st) = (gs_streamHeads st', version)"
      "appendOutbox (outboxEvent env (ge_id env 4) (ge_id env 1) (ti_tenantId t) (ex_contactId revision) ''exception.changed'' version
         (transitionPayload env t revision target kind occurredAt (ge_id env 1) (ge_digest env digest))) (gs_outbox st) = Inr (gs_outbox st')"
      by (rule commit_transition_event)
    then show thesis by (rule that(2)) (simp add: transition_payload_is_canonical)
  qed (use that(1) in simp)
next
  case (vote_step dg ids now v p)
  then have "gs_streamHeads st' = gs_streamHeads st" "gs_outbox st' = gs_outbox st"
    by (auto simp: castVote_def Let_def result_simps)
  then show thesis by (rule that(1))
qed

section \<open>The invariant of the outbox\<close>

definition outboxInv :: "governance_store \<Rightarrow> bool" where
  "outboxInv st \<longleftrightarrow> streamInv st \<and> list_all lifecycleEvent (gs_outbox st) \<and>
     list_all (\<lambda>r. ob_state r \<noteq> OB_PUBLISHING) (gs_outbox st)"

lemma lifecycleEvent_eventOf: "eventOf r' = eventOf r \<Longrightarrow> lifecycleEvent r' = lifecycleEvent r"
  by (simp add: eventOf_def lifecycleEvent_def)

lemma update_keeps_outbox:
  assumes inv: "outboxInv st" and f: "\<And>r. eventOf (f r) = eventOf r" "\<And>r. ob_state (f r) \<noteq> OB_PUBLISHING"
  shows "outboxInv (st\<lparr>gs_outbox := updateWhere P f (gs_outbox st)\<rparr>)"
proof -
  have "streamInv (st\<lparr>gs_outbox := updateWhere P f (gs_outbox st)\<rparr>)"
    using inv by (simp add: outboxInv_def streamInv_def updates_keep_versions [OF f(1)])
  moreover have "list_all lifecycleEvent (updateWhere P f (gs_outbox st))"
    "list_all (\<lambda>r. ob_state r \<noteq> OB_PUBLISHING) (updateWhere P f (gs_outbox st))"
    using inv by (auto simp: outboxInv_def list_all_iff updateWhere_def f(2) lifecycleEvent_eventOf [OF f(1)])
  ultimately show ?thesis by (simp add: outboxInv_def)
qed

lemma command_keeps_outbox:
  assumes inv: "outboxInv st" and "governance_step st st'"
  shows "outboxInv st'"
  using assms(2)
proof (cases rule: command_events)
  case silent
  with inv show ?thesis by (simp add: outboxInv_def streamInv_def)
next
  case (event env T C m i eventType v payload)
  have "streamInv st'" using inv by (intro publish_keeps_stream [OF _ event(1,2)]) (simp add: outboxInv_def)
  moreover have "gs_outbox st' = gs_outbox st @ [outboxEvent env i m T C eventType v payload]"
    using event(2) by (auto simp: appendOutbox_def split: if_splits)
  ultimately show ?thesis using inv event(3) by (auto simp: outboxInv_def outboxEvent_def lifecycleEvent_def)
qed

interpretation outbox: invariant_system
  "\<lambda>st. gs_streamHeads st = [] \<and> gs_outbox st = []" system_step outboxInv
proof
  fix st st' assume inv: "outboxInv st" and "system_step st st'"
  from this(2) show "outboxInv st'"
  proof cases
    case governed
    with inv show ?thesis by (auto intro: command_keeps_outbox)
  next
    case (relayed env T rows a m)
    from relayed(2) show ?thesis
    proof (cases rule: publish_outcome)
      case (settled row f i)
      from update_keeps_outbox [OF inv settled(3,4)] show ?thesis
        by (simp add: relayed(1) settled(2) updateOutbox_def)
    qed (use inv relayed in simp)
  next
    case (recovered now T rows n)
    then have "rows = updateWhere (\<lambda>r. ob_tenantId r = T \<and> ob_state r = OB_PUBLISHING \<and>
            (case ob_leaseExpiresAt r of None \<Rightarrow> False | Some t \<Rightarrow> t \<le> now))
        (\<lambda>r. r\<lparr>ob_state := OB_PENDING, ob_availableAt := now, ob_leaseOwner := None, ob_leaseExpiresAt := None\<rparr>) (gs_outbox st)"
      by (simp add: recoverExpiredLeases_def Let_def)
    then show ?thesis unfolding recovered(1)
      by (simp only:) (rule update_keeps_outbox [OF inv], simp_all add: eventOf_def)
  qed
qed (simp add: outboxInv_def streamInv_def streamVersion_def publishedVersions_def)

lemma governance_is_system: "steps governance_step s t \<Longrightarrow> steps system_step s t"
  by (induction rule: steps.induct) (auto intro: steps.intros governed)

lemma sample_system: "steps system_step sample_store sample_final"
  by (rule governance_is_system [OF sample_reached])

lemma sample_starts_empty: "gs_streamHeads sample_store = [] \<and> gs_outbox sample_store = []"
  by (simp add: sample_store_def)

text \<open>
  C9. The events of a contact carry the versions 1, 2, 3, \<dots> without a gap or a repetition, in the order
  they were written, whichever commands ran, on however many series, and whatever the relay did in
  between; the head of the stream is the last of them.
\<close>

theorem contact_stream_is_gapless:
  assumes "gs_streamHeads st0 = [] \<and> gs_outbox st0 = []" and "steps system_step st0 st"
  shows "publishedVersions T C (gs_outbox st) = [1..streamVersion T C (gs_streamHeads st)]"
  using outbox.reachable_invar [OF assms] by (simp add: outboxInv_def streamInv_def)

theorem contact_stream_is_gapless_witness:
  "publishedVersions ''t1'' ''c1'' (gs_outbox sample_final) = [1..streamVersion ''t1'' ''c1'' (gs_streamHeads sample_final)]"
  by (rule contact_stream_is_gapless [OF sample_starts_empty sample_system])

text \<open>
  The relay never quarantines an event of the exception lifecycle: what the lifecycle writes passes
  the guard against malformed payloads and restricted fields that the relay applies before publishing.
\<close>

lemma lifecycle_events_are_not_quarantined:
  assumes "gs_streamHeads st0 = [] \<and> gs_outbox st0 = []" and "steps system_step st0 st"
    and "publishNext env T (gs_outbox st) = (rows, Some a, m)"
  shows "pb_state a \<noteq> OB_QUARANTINED"
  using assms(3)
proof (cases rule: publish_outcome)
  case (settled row f i)
  have "lifecycleEvent row"
    using outbox.reachable_invar [OF assms(1,2)] settled(1) by (auto simp: outboxInv_def list_all_iff)
  with settled(6) show ?thesis
    by (auto simp: lifecycleEvent_def isCg4ProducerSideRejection_def parseCg4CanonicalEvent_def CG4_EVENT_TYPES_def)
qed simp

definition relayAt :: "time_ms \<Rightarrow> bool \<Rightarrow> relay_env" where
  "relayAt now brokerUp = \<lparr> rl_now = now, rl_locked = (\<lambda>_. False), rl_sendOk = (\<lambda>_. brokerUp),
     rl_invalidateOk = (\<lambda>_. True), rl_backoffMs = defaultBackoffMs, rl_leaseOwner = ''relay-1'',
     rl_leaseSeconds = 30, rl_legacyEventTypes = [] \<rparr>"

text \<open>
  C40. The lease the relay writes on a row is gone before its transaction commits: no committed row is
  ever in the state PUBLISHING, so the recovery of expired leases never finds a row.
\<close>

theorem lease_is_never_committed:
  assumes "gs_streamHeads st0 = [] \<and> gs_outbox st0 = []" and "steps system_step st0 st"
  shows "recoverExpiredLeases now T (gs_outbox st) = (gs_outbox st, 0)"
proof -
  have "r \<in> set (gs_outbox st) \<Longrightarrow> ob_state r \<noteq> OB_PUBLISHING" for r
    using outbox.reachable_invar [OF assms] by (auto simp: outboxInv_def list_all_iff)
  then show ?thesis
    by (auto simp: recoverExpiredLeases_def Let_def updateWhere_def countWhere_def intro!: map_idI filter_False)
qed

theorem lease_is_never_committed_witness:
  "recoverExpiredLeases 5000 ''t1'' (gs_outbox sample_final) = (gs_outbox sample_final, 0)"
  by (rule lease_is_never_committed [OF sample_starts_empty sample_system])

section \<open>A failed publish overtaken by its successor\<close>

text \<open>A message as the consumer of the broker hands it to its inbox.\<close>

definition inboundOf :: "time_ms \<Rightarrow> outbox_row \<Rightarrow> inbound_event" where
  "inboundOf now r = \<lparr> ie_tenantId = ob_tenantId r, ie_eventId = ob_id r, ie_eventType = ob_eventType r,
     ie_aggregateType = ob_aggregateType r, ie_aggregateId = ob_aggregateId r,
     ie_aggregateVersion = ob_aggregateVersion r, ie_payloadHash = ob_payloadHash r,
     ie_payload = ob_payload r, ie_receivedAt = now \<rparr>"

definition sample_payload :: "int \<Rightarrow> json" where
  "sample_payload v = JObj
     [(''contractVersion'', jint 1), (''mutationId'', JStr ''m''), (''transitionKind'', JStr ''EXCEPTION_REVOKED''),
      (''subjectId'', JStr ''e1''), (''subjectVersion'', jint v), (''state'', JStr ''REVOKED''),
      (''effectiveAt'', JStr ''2026-09-19T10:07:23.000Z''), (''affectedScope'', JObj [(''scopeKey'', JStr ''k'')]),
      (''scopeDigest'', JStr ''d''), (''ruleRegistryVersion'', JStr CG4_RULE_REGISTRY_VERSION),
      (''policySchemaVersion'', jint CG4_POLICY_SCHEMA_VERSION), (''evaluatorVersion'', JStr CG4_EVALUATOR_VERSION),
      (''stateDigest'', JStr ''s''), (''restrictiveness'', JStr ''TIGHTENING'')]"

lemma filter_updateWhere:
  assumes "\<And>x. P x \<Longrightarrow> \<not> Q (f x)"
  shows "filter Q (updateWhere P f xs) = filter Q (filter (\<lambda>x. \<not> P x) xs)"
  using assms by (induction xs) (auto simp: updateWhere_def)

lemma failed_send:
  assumes "publishCandidate env T rows = Some row" and "parseCg4CanonicalEvent (ob_eventType row) (ob_payload row) = None"
    and "\<not> rl_sendOk env row"
  obtains f where "fst (publishNext env T rows) = updateWhere (\<lambda>r. ob_id r = ob_id row) f rows"
    and "\<And>r. ob_availableAt (f r) = rl_now env + rl_backoffMs env (ob_attempts row + 1)"
proof
  let ?f = "\<lambda>r :: outbox_row. r\<lparr>ob_state := OB_PUBLISHING, ob_leaseOwner := Some (rl_leaseOwner env),
      ob_leaseExpiresAt := Some (rl_now env + rl_leaseSeconds env * 1000)\<rparr>
    \<lparr>ob_state := OB_FAILED, ob_attempts := ob_attempts row + 1,
      ob_availableAt := rl_now env + rl_backoffMs env (ob_attempts row + 1), ob_leaseOwner := None, ob_leaseExpiresAt := None\<rparr>"
  show "fst (publishNext env T rows) = updateWhere (\<lambda>r. ob_id r = ob_id row) ?f rows"
    using assms by (simp add: publishNext_def Let_def updateOutbox_def updateWhere_def)
qed simp

lemma successful_send:
  assumes "publishCandidate env T rows = Some row" and "parseCg4CanonicalEvent (ob_eventType row) (ob_payload row) = None"
    and "rl_sendOk env row"
  shows "snd (snd (publishNext env T rows)) = Some row"
  using assms by (simp add: publishNext_def Let_def)

lemma overtaking_send:
  assumes "publishCandidate env1 T rows = Some r1" and "parseCg4CanonicalEvent (ob_eventType r1) (ob_payload r1) = None"
    and "\<not> rl_sendOk env1 r1" and "rl_now env2 < rl_now env1 + rl_backoffMs env1 (ob_attempts r1 + 1)"
    and "publishCandidate env2 T (filter (\<lambda>r. ob_id r \<noteq> ob_id r1) rows) = Some r2"
    and "parseCg4CanonicalEvent (ob_eventType r2) (ob_payload r2) = None" and "rl_sendOk env2 r2"
  shows "snd (snd (publishNext env2 T (fst (publishNext env1 T rows)))) = Some r2"
proof -
  obtain f where f: "fst (publishNext env1 T rows) = updateWhere (\<lambda>r. ob_id r = ob_id r1) f rows"
    "\<And>r. ob_availableAt (f r) = rl_now env1 + rl_backoffMs env1 (ob_attempts r1 + 1)"
    using failed_send [OF assms(1-3)] by blast
  have "publishCandidate env2 T (fst (publishNext env1 T rows)) =
      publishCandidate env2 T (filter (\<lambda>r. ob_id r \<noteq> ob_id r1) rows)"
    unfolding publishCandidate_def f(1) using assms(4) by (subst filter_updateWhere) (simp_all add: f(2))
  with assms(5) show ?thesis by (intro successful_send [OF _ assms(6,7)]) simp
qed

lemma delivery_keeps_rows: "delivery_step parse ap G s s' \<Longrightarrow> set (is_inbox (fst s)) \<subseteq> set (is_inbox (fst s'))"
  by (cases rule: delivery_cases, assumption) auto

lemma deliveries_keep_rows:
  "steps (delivery_step parse ap G) s s' \<Longrightarrow> set (is_inbox (fst s)) \<subseteq> set (is_inbox (fst s'))"
  by (induction rule: steps.induct) (auto dest: delivery_keeps_rows)

text \<open>An event beyond the next version is recorded as a gap, which holds its scope.\<close>

lemma early_event_is_gap:
  assumes "map ib_aggregateVersion (appliedRows G (ie_tenantId e) (ie_aggregateType e) (ie_aggregateId e) (is_inbox st)) = [1..n]"
    and "0 \<le> n" and "n + 1 < ie_aggregateVersion e" and "parse (ie_eventType e) (ie_payload e) = None"
  shows "\<exists>expected. inboxDecision parse G e st = Gap expected (ie_aggregateVersion e)"
  using cursor_of_prefix [OF assms(1)] assms(2-)
  by (auto simp: inboxDecision_def classifyCg4InboundEvent_def split: if_splits)

lemma held_event_ends_stream:
  assumes run: "steps (delivery_step parse ap G) (st0, p0) (st, p)" and "is_inbox st0 = []"
    and r: "r \<in> set (is_inbox st)" "ib_consumerGroup r = G" "ib_state r \<noteq> IB_APPLIED" "1 \<le> ib_aggregateVersion r"
    and only: "\<forall>q\<in>set (is_inbox st). (ib_consumerGroup q, ib_tenantId q, ib_aggregateType q, ib_aggregateId q, ib_aggregateVersion q) =
      (G, ib_tenantId r, ib_aggregateType r, ib_aggregateId r, ib_aggregateVersion r) \<longrightarrow> ib_eventId q = ib_eventId r"
  shows "\<forall>q\<in>set (is_inbox st). (ib_consumerGroup q, ib_tenantId q, ib_aggregateType q, ib_aggregateId q) =
      (G, ib_tenantId r, ib_aggregateType r, ib_aggregateId r) \<and> ib_aggregateVersion r \<le> ib_aggregateVersion q \<longrightarrow>
      ib_state q \<noteq> IB_APPLIED"
proof (intro ballI impI notI)
  fix q
  let ?rows = "appliedRows G (ib_tenantId r) (ib_aggregateType r) (ib_aggregateId r) (is_inbox st)"
  assume q: "q \<in> set (is_inbox st)" "ib_state q = IB_APPLIED" "(ib_consumerGroup q, ib_tenantId q, ib_aggregateType q, ib_aggregateId q) =
      (G, ib_tenantId r, ib_aggregateType r, ib_aggregateId r) \<and> ib_aggregateVersion r \<le> ib_aggregateVersion q"
  have inv: "map ib_aggregateVersion ?rows = [1..int (length ?rows)]"
    "distinct (map (\<lambda>r. (ib_tenantId r, ib_consumerGroup r, ib_eventId r)) (is_inbox st))"
    using inbox.reachable_invar [OF _ run] assms(2) by (simp_all add: inboxInv_def)
  then have versions: "ib_aggregateVersion ` set ?rows = {1..int (length ?rows)}" by (metis set_map set_upto)
  have "ib_aggregateVersion q \<in> ib_aggregateVersion ` set ?rows" using q by (simp add: appliedRows_def)
  then have "ib_aggregateVersion r \<in> ib_aggregateVersion ` set ?rows" using q(3) r(4) unfolding versions by simp
  then obtain x where x: "x \<in> set (is_inbox st)" "ib_state x = IB_APPLIED" "ib_aggregateVersion x = ib_aggregateVersion r"
    "ib_tenantId x = ib_tenantId r" "ib_consumerGroup x = G" "ib_aggregateType x = ib_aggregateType r"
    "ib_aggregateId x = ib_aggregateId r" by (auto simp: appliedRows_def)
  with only have "ib_eventId x = ib_eventId r" by auto
  with x r(1,2) inv(2) have "x = r" by (auto simp: distinct_map dest!: inj_onD)
  with x(2) r(3) show False by simp
qed

text \<open>
  C28. One failed send reorders the stream of a contact, for any outbox and any consumer: while the event
  of version v waits for its retry, the relay publishes the event of version v + 1 as soon as that one is
  the oldest of the rest. A consumer that has not applied version v records it as a gap and holds the
  contact; since it is recorded, every redelivery is skipped, so that whatever else is delivered the
  consumer never applies version v + 1 or anything after it, not even once version v has arrived.
\<close>

theorem failed_publish_is_overtaken:
  assumes failed: "publishCandidate env1 T rows = Some r1" "parseCg4CanonicalEvent (ob_eventType r1) (ob_payload r1) = None"
      "\<not> rl_sendOk env1 r1"
    and tick: "rl_now env2 < rl_now env1 + rl_backoffMs env1 (ob_attempts r1 + 1)"
      "publishCandidate env2 T (filter (\<lambda>r. ob_id r \<noteq> ob_id r1) rows) = Some r2"
      "parseCg4CanonicalEvent (ob_eventType r2) (ob_payload r2) = None" "rl_sendOk env2 r2"
    and successor: "(ob_tenantId r2, ob_aggregateType r2, ob_aggregateId r2, ob_aggregateVersion r2) =
      (ob_tenantId r1, ob_aggregateType r1, ob_aggregateId r1, ob_aggregateVersion r1 + 1)"
    and consumer: "is_inbox st0 = []" "steps (delivery_step parse ap G) (st0, p0) (st, p)"
      "\<not> deliveredBefore G (inboundOf received r2) st" "parse (ob_eventType r2) (ob_payload r2) = None"
      "int (length (appliedRows G (ob_tenantId r2) (ob_aggregateType r2) (ob_aggregateId r2) (is_inbox st))) < ob_aggregateVersion r1"
    and later: "recordEvent parse ap G ids now (inboundOf received r2) (st, p) = (s1, out)"
      "steps (delivery_step parse ap G) s1 (st', p')"
      "\<forall>r\<in>set (is_inbox st'). (ib_consumerGroup r, ib_tenantId r, ib_aggregateType r, ib_aggregateId r, ib_aggregateVersion r) =
         (G, ob_tenantId r2, ob_aggregateType r2, ob_aggregateId r2, ob_aggregateVersion r2) \<longrightarrow> ib_eventId r = ob_id r2"
  shows "snd (snd (publishNext env2 T (fst (publishNext env1 T rows)))) = Some r2 \<and>
    isPaused G (ob_tenantId r2) (cg4ScopeRefFor (inboundOf received r2)) st' \<and>
    (\<forall>r\<in>set (is_inbox st'). (ib_consumerGroup r, ib_tenantId r, ib_aggregateType r, ib_aggregateId r) =
         (G, ob_tenantId r2, ob_aggregateType r2, ob_aggregateId r2) \<and> ob_aggregateVersion r2 \<le> ib_aggregateVersion r \<longrightarrow>
       ib_state r \<noteq> IB_APPLIED)"
proof (intro conjI)
  let ?e = "inboundOf received r2"
  show "snd (snd (publishNext env2 T (fst (publishNext env1 T rows)))) = Some r2"
    by (rule overtaking_send [OF failed tick])
  have "map ib_aggregateVersion (appliedRows G (ie_tenantId ?e) (ie_aggregateType ?e) (ie_aggregateId ?e) (is_inbox st)) =
      [1..int (length (appliedRows G (ie_tenantId ?e) (ie_aggregateType ?e) (ie_aggregateId ?e) (is_inbox st)))]"
    using inbox.reachable_invar [OF _ consumer(2)] consumer(1) by (simp add: inboxInv_def)
  from early_event_is_gap [OF this] consumer(4,5) successor
  obtain v where gap: "inboxDecision parse G ?e st = Gap v (ob_aggregateVersion r2)" by (auto simp: inboundOf_def)
  note new = record_new [of G ?e "(st, p)" _ parse ap ids now, simplified later(1), simplified, OF consumer(3) refl]
  have row: "inboxRow G (ids 0) (Gap v (ob_aggregateVersion r2)) ?e \<in> set (is_inbox st')"
    using deliveries_keep_rows [OF later(2)] new(1) by (auto simp: gap)
  have "cg4InboxDecisionPausesScope (io_decision out)" using new(4) by (simp add: gap cg4InboxDecisionPausesScope_def)
  from anomaly_holds_scope [OF later(1) this later(2)] show "isPaused G (ob_tenantId r2) (cg4ScopeRefFor ?e) st'"
    by (simp add: inboundOf_def)
  have "delivery_step parse ap G (st, p) s1" using later(1) by (rule delivery_step.intros)
  with consumer(2) later(2) have run: "steps (delivery_step parse ap G) (st0, p0) (st', p')"
    by (blast intro: steps_trans steps.intros)
  show "\<forall>r\<in>set (is_inbox st'). (ib_consumerGroup r, ib_tenantId r, ib_aggregateType r, ib_aggregateId r) =
         (G, ob_tenantId r2, ob_aggregateType r2, ob_aggregateId r2) \<and> ob_aggregateVersion r2 \<le> ib_aggregateVersion r \<longrightarrow>
       ib_state r \<noteq> IB_APPLIED"
    using held_event_ends_stream [OF run consumer(1) row] consumer(5) later(3) successor
    by (simp add: inboxRow_def inboundOf_def)
qed

definition sample_sent :: "int \<Rightarrow> outbox_row" where
  "sample_sent v = outboxEvent (sample_env 0) (if v = 1 then ''o1'' else ''o2'') (if v = 1 then ''m1'' else ''m2'')
     ''t1'' ''c1'' ''exception.changed'' v (sample_payload v)"

definition sample_take :: "outbox_row \<Rightarrow> inbox_store \<times> int \<Rightarrow> inbox_store \<times> int" where
  "sample_take r s = fst (recordEvent acceptAll sampleCount ''g'' (\<lambda>_. ob_id r) 0 (inboundOf 0 r) s)"

definition sample_overtaken :: inbox_store where
  "sample_overtaken = fst (fold sample_take [sample_sent 2, sample_sent 1, sample_sent 2] (emptyInbox, 0))"

lemma sample_sent_fields:
  "ob_id (sample_sent 1) = ''o1''" "ob_id (sample_sent 2) = ''o2''" "ob_tenantId (sample_sent v) = ''t1''"
  "ob_aggregateType (sample_sent v) = ''CONTACT''" "ob_aggregateId (sample_sent v) = ''c1''"
  "ob_aggregateVersion (sample_sent v) = v" "ob_attempts (sample_sent v) = 0"
  by (simp_all add: sample_sent_def outboxEvent_def)

lemma sample_sent_canonical:
  "parseCg4CanonicalEvent (ob_eventType (sample_sent 1)) (ob_payload (sample_sent 1)) = None"
  "parseCg4CanonicalEvent (ob_eventType (sample_sent 2)) (ob_payload (sample_sent 2)) = None"
  by code_simp+

lemma sample_take_step: "delivery_step acceptAll sampleCount ''g'' s (sample_take r s)"
  unfolding sample_take_def by (rule delivery_step.intros) (rule prod.collapse [symmetric])

lemma sample_candidates:
  "publishCandidate (relayAt 1000000 False) ''t1'' [sample_sent 1, sample_sent 2] = Some (sample_sent 1)"
  "publishCandidate (relayAt 1000001 True) ''t1'' [sample_sent 2] = Some (sample_sent 2)"
  by code_simp+

lemma sample_overtaken_rows:
  "map (\<lambda>r. (ib_eventId r, ib_aggregateVersion r)) (is_inbox sample_overtaken) = [(''o2'', 2), (''o1'', 1)]"
  by code_simp

theorem failed_publish_is_overtaken_witness:
  "snd (snd (publishNext (relayAt 1000001 True) ''t1'' (fst (publishNext (relayAt 1000000 False) ''t1'' [sample_sent 1, sample_sent 2])))) =
     Some (sample_sent 2) \<and>
   isPaused ''g'' ''t1'' (PauseContact, ''c1'') sample_overtaken"
proof -
  let ?take = "recordEvent acceptAll sampleCount ''g'' (\<lambda>_. ''o2'') 0 (inboundOf 0 (sample_sent 2)) (emptyInbox, 0)"
  let ?final = "fold sample_take [sample_sent 1, sample_sent 2] (fst ?take)"
  have take: "fst ?take = sample_take (sample_sent 2) (emptyInbox, 0)" by (simp add: sample_take_def sample_sent_fields)
  have run: "steps (delivery_step acceptAll sampleCount ''g'') (fst ?take) (fst ?final, snd ?final)"
    unfolding prod.collapse fold_simps by (rule steps_step [OF steps_step [OF steps_refl]]) (rule sample_take_step)+
  have e: "fst ?final = sample_overtaken" by (simp add: sample_overtaken_def take)
  have "snd (snd (publishNext (relayAt 1000001 True) ''t1'' (fst (publishNext (relayAt 1000000 False) ''t1'' [sample_sent 1, sample_sent 2])))) =
      Some (sample_sent 2) \<and>
    isPaused ''g'' (ob_tenantId (sample_sent 2)) (cg4ScopeRefFor (inboundOf 0 (sample_sent 2))) (fst ?final) \<and>
    (\<forall>r\<in>set (is_inbox (fst ?final)). (ib_consumerGroup r, ib_tenantId r, ib_aggregateType r, ib_aggregateId r) =
         (''g'', ob_tenantId (sample_sent 2), ob_aggregateType (sample_sent 2), ob_aggregateId (sample_sent 2)) \<and>
         ob_aggregateVersion (sample_sent 2) \<le> ib_aggregateVersion r \<longrightarrow> ib_state r \<noteq> IB_APPLIED)"
  proof (rule failed_publish_is_overtaken [OF sample_candidates(1) sample_sent_canonical(1) _ _ _ sample_sent_canonical(2) _ _ _ steps_refl
        _ _ _ prod.collapse [symmetric] run])
    show "publishCandidate (relayAt 1000001 True) ''t1'' (filter (\<lambda>r. ob_id r \<noteq> ob_id (sample_sent 1)) [sample_sent 1, sample_sent 2]) =
        Some (sample_sent 2)" by (simp add: sample_sent_fields sample_candidates(2))
    show "\<forall>r\<in>set (is_inbox (fst ?final)). (ib_consumerGroup r, ib_tenantId r, ib_aggregateType r, ib_aggregateId r, ib_aggregateVersion r) =
        (''g'', ob_tenantId (sample_sent 2), ob_aggregateType (sample_sent 2), ob_aggregateId (sample_sent 2), ob_aggregateVersion (sample_sent 2)) \<longrightarrow>
        ib_eventId r = ob_id (sample_sent 2)"
      using sample_overtaken_rows unfolding e by (auto simp: sample_sent_fields map_eq_Cons_conv)
  qed (simp_all add: relayAt_def sample_sent_fields defaultBackoffMs_def acceptAll_def emptyInbox_def deliveredBefore_def appliedRows_def)
  then show ?thesis unfolding e by (simp add: cg4ScopeRefFor_def inboundOf_def sample_sent_fields)
qed

end
