(* ===== verification/Downstream.thy ===== *)
theory Downstream
  imports EventDelivery CanonicalJson
begin

text \<open>
  How a consumer outside Contact Governance reads its events
  (\<open>packages/cxa-contracts/src/contact-governance-downstream.ts\<close>): the shape of the two event families,
  the effect an event asks for, the work its scope covers, and the position of an event in the stream
  of its aggregate. Messages for people are left out: a rejection is its reason.

  Parameters: SHA-256, the text of a number, the date parser and printer, and the collation key by
  which \<open>localeCompare\<close> orders member names.
\<close>

record downstream_env =
  dn_sha256 :: "string \<Rightarrow> string"
  dn_show :: "rat \<Rightarrow> string"
  dn_collationKey :: "string \<Rightarrow> string"
  dn_parseDate :: "string \<Rightarrow> time_ms option"
  dn_toISO :: "time_ms \<Rightarrow> string"

section \<open>Events\<close>

definition CG3_CONTACT_EVENT_TYPES :: "string list" where
  "CG3_CONTACT_EVENT_TYPES = [''restriction.changed'', ''consent.changed'', ''preference.changed'']"

definition CG4_FOUNDATION_CONTACT_EVENT_TYPES :: "string list" where
  "CG4_FOUNDATION_CONTACT_EVENT_TYPES = [''exception.recorded'']"

definition GOVERNANCE_KILL_SWITCH_ACTIVE :: string where
  "GOVERNANCE_KILL_SWITCH_ACTIVE = ''GOVERNANCE_KILL_SWITCH_ACTIVE''"

datatype stream_aggregate = AggContact | AggPolicy

datatype event_family = FamilyCG3 | FamilyCG4

datatype downstream_effect = REAUTHORIZE | HOLD_SCOPE | NO_OP_EFFECT

record downstream_scope =
  ds_identityId :: "string option"
  ds_channel :: "string option"
  ds_purpose :: "string option"
  ds_contactKind :: "string option"
  ds_sourceType :: "string option"
  ds_scopeKey :: "string option"

record downstream_event =
  de_family :: event_family
  de_eventType :: string
  de_aggregate :: stream_aggregate
  de_aggregateId :: string
  de_aggregateVersion :: int
  de_subjectVersion :: int
  de_mutationId :: string
  de_transitionKind :: "string option"
  de_state :: "string option"
  de_restrictiveness :: Cg4PolicyDiffClass
  de_effect :: downstream_effect
  de_scope :: downstream_scope
  de_stateDigest :: string
  de_effectiveAt :: string
  de_policyVersion :: "int option"
  de_payloadDigest :: string

datatype downstream_reason =
    DR_UNSUPPORTED_EVENT_TYPE | DR_UNSUPPORTED_TRANSITION_KIND | DR_MALFORMED_PAYLOAD
  | DR_UNSUPPORTED_CONTRACT_VERSION | DR_UNSUPPORTED_POLICY_SCHEMA_VERSION
  | DR_UNSUPPORTED_RULE_REGISTRY_VERSION | DR_UNSUPPORTED_EVALUATOR_VERSION

fun reasonText :: "downstream_reason \<Rightarrow> string" where
  "reasonText DR_UNSUPPORTED_EVENT_TYPE = ''UNSUPPORTED_EVENT_TYPE''"
| "reasonText DR_UNSUPPORTED_TRANSITION_KIND = ''UNSUPPORTED_TRANSITION_KIND''"
| "reasonText DR_MALFORMED_PAYLOAD = ''MALFORMED_PAYLOAD''"
| "reasonText DR_UNSUPPORTED_CONTRACT_VERSION = ''UNSUPPORTED_CONTRACT_VERSION''"
| "reasonText DR_UNSUPPORTED_POLICY_SCHEMA_VERSION = ''UNSUPPORTED_POLICY_SCHEMA_VERSION''"
| "reasonText DR_UNSUPPORTED_RULE_REGISTRY_VERSION = ''UNSUPPORTED_RULE_REGISTRY_VERSION''"
| "reasonText DR_UNSUPPORTED_EVALUATOR_VERSION = ''UNSUPPORTED_EVALUATOR_VERSION''"

definition GOVERNANCE_DOWNSTREAM_REJECTION_REASONS :: "string list" where
  "GOVERNANCE_DOWNSTREAM_REJECTION_REASONS = map reasonText
     [DR_UNSUPPORTED_EVENT_TYPE, DR_UNSUPPORTED_TRANSITION_KIND, DR_MALFORMED_PAYLOAD,
      DR_UNSUPPORTED_CONTRACT_VERSION, DR_UNSUPPORTED_POLICY_SCHEMA_VERSION,
      DR_UNSUPPORTED_RULE_REGISTRY_VERSION, DR_UNSUPPORTED_EVALUATOR_VERSION]"

definition isGovernanceContractRejection :: "string option \<Rightarrow> bool" where
  "isGovernanceContractRejection reasonCode =
     (case reasonCode of None \<Rightarrow> False | Some code \<Rightarrow> code \<in> set GOVERNANCE_DOWNSTREAM_REJECTION_REASONS)"

record downstream_rejection =
  dr_reason :: downstream_reason
  dr_aggregate :: stream_aggregate
  dr_aggregateId :: string
  dr_aggregateVersion :: int
  dr_payloadDigest :: string

record event_envelope =
  ee_type :: string
  ee_aggregateType :: string
  ee_aggregateId :: string
  ee_aggregateVersion :: int
  ee_payload :: json

definition governanceStreamAggregate :: "string \<Rightarrow> stream_aggregate option" where
  "governanceStreamAggregate aggregateType =
     (if aggregateType = ''contact_governance_contact'' then Some AggContact
      else if aggregateType = ''contact_governance_policy'' then Some AggPolicy
      else None)"

section \<open>The digest of a payload\<close>

function encode :: "downstream_env \<Rightarrow> json \<Rightarrow> string" where
  "encode env (JArr xs) = ''['' @ commaSep (map (encode env) xs) @ '']''"
| "encode env (JObj ps) = ''{'' @ commaSep (map (\<lambda>p. jsonQuote (fst p) @ '':'' @ encode env (snd p))
     (sort_key (\<lambda>p. dn_collationKey env (fst p)) ps)) @ ''}''"
| "encode env JNull = ''null''"
| "encode env (JBool b) = (if b then ''true'' else ''false'')"
| "encode env (JStr s) = jsonQuote s"
| "encode env (JNum n) = (case n of Fin r \<Rightarrow> dn_show env r | _ \<Rightarrow> ''null'')"
  by pat_completeness auto

termination encode
  by (relation "measure (\<lambda>(env, j). size j)") (auto dest: json_size_item json_size_entry)

definition governancePayloadDigest :: "downstream_env \<Rightarrow> json \<Rightarrow> string" where
  "governancePayloadDigest env payload = dn_sha256 env (encode env payload)"

section \<open>Reading a payload\<close>

definition objectField :: "json option \<Rightarrow> downstream_reason + (string \<times> json) list" where
  "objectField v = (case v of Some (JObj ps) \<Rightarrow> Inr ps | _ \<Rightarrow> Inl DR_MALFORMED_PAYLOAD)"

definition requiredField :: "json option \<Rightarrow> downstream_reason + string" where
  "requiredField v = (case v of Some (JStr s) \<Rightarrow> if s = [] then Inl DR_MALFORMED_PAYLOAD else Inr s
     | _ \<Rightarrow> Inl DR_MALFORMED_PAYLOAD)"

definition optionalText :: "json option \<Rightarrow> downstream_reason + string option" where
  "optionalText v = (case v of None \<Rightarrow> Inr None | Some JNull \<Rightarrow> Inr None
     | _ \<Rightarrow> rbind (requiredField v) (\<lambda>s. Inr (Some s)))"

definition positiveInteger :: "json option \<Rightarrow> downstream_reason + int" where
  "positiveInteger v = (case v of
       Some (JNum (Fin r)) \<Rightarrow> if snd (quotient_of r) = 1 \<and> 1 \<le> r then Inr \<lfloor>r\<rfloor> else Inl DR_MALFORMED_PAYLOAD
     | _ \<Rightarrow> Inl DR_MALFORMED_PAYLOAD)"

definition sha256Field :: "json option \<Rightarrow> downstream_reason + string" where
  "sha256Field v = (case v of Some (JStr s) \<Rightarrow> if lowercaseSha256 s then Inr s else Inl DR_MALFORMED_PAYLOAD
     | _ \<Rightarrow> Inl DR_MALFORMED_PAYLOAD)"

definition instantField :: "downstream_env \<Rightarrow> json option \<Rightarrow> downstream_reason + string" where
  "instantField env v =
     rbind (requiredField v) (\<lambda>text.
     case dn_parseDate env text of None \<Rightarrow> Inl DR_MALFORMED_PAYLOAD | Some t \<Rightarrow> Inr (dn_toISO env t))"

definition optionalPolicyVersion :: "(string \<times> json) list \<Rightarrow> downstream_reason + int option" where
  "optionalPolicyVersion payload =
     (case map_of payload ''policyVersion'' of
        None \<Rightarrow> Inr None
      | v \<Rightarrow> rbind (positiveInteger v) (\<lambda>n. Inr (Some n)))"

definition parseCg3Shape ::
  "downstream_env \<Rightarrow> event_envelope \<Rightarrow> stream_aggregate \<Rightarrow> string \<Rightarrow> downstream_reason + downstream_event" where
  "parseCg3Shape env i aggregate payloadDigest =
     rbind (objectField (Some (ee_payload i))) (\<lambda>payload.
     rbind (throw_if (map_of payload ''contractVersion'' \<noteq> Some (jint 1)) DR_UNSUPPORTED_CONTRACT_VERSION) (\<lambda>_.
     rbind (positiveInteger (map_of payload ''subjectVersion'')) (\<lambda>subjectVersion.
     rbind (throw_if (subjectVersion \<noteq> ee_aggregateVersion i) DR_MALFORMED_PAYLOAD) (\<lambda>_.
     rbind (objectField (map_of payload ''affectedScope'')) (\<lambda>scope.
     rbind (requiredField (map_of payload ''mutationId'')) (\<lambda>mutationId.
     rbind (optionalText (map_of scope ''identityId'')) (\<lambda>identityId.
     rbind (optionalText (map_of scope ''channel'')) (\<lambda>channel.
     rbind (optionalText (map_of scope ''purpose'')) (\<lambda>purpose.
     rbind (optionalText (map_of scope ''contactKind'')) (\<lambda>contactKind.
     rbind (sha256Field (map_of payload ''stateDigest'')) (\<lambda>stateDigest.
     rbind (instantField env (map_of payload ''effectiveAt'')) (\<lambda>effectiveAt.
     rbind (optionalPolicyVersion payload) (\<lambda>policyVersion.
     Inr \<lparr> de_family = FamilyCG3, de_eventType = ee_type i, de_aggregate = aggregate,
           de_aggregateId = ee_aggregateId i, de_aggregateVersion = ee_aggregateVersion i,
           de_subjectVersion = subjectVersion, de_mutationId = mutationId, de_transitionKind = None,
           de_state = None, de_restrictiveness = NEUTRAL, de_effect = REAUTHORIZE,
           de_scope = \<lparr> ds_identityId = identityId, ds_channel = channel, ds_purpose = purpose,
             ds_contactKind = contactKind, ds_sourceType = None, ds_scopeKey = None \<rparr>,
           de_stateDigest = stateDigest, de_effectiveAt = effectiveAt, de_policyVersion = policyVersion,
           de_payloadDigest = payloadDigest \<rparr>)))))))))))))"

definition TRANSITION_KINDS :: "string list" where
  "TRANSITION_KINDS =
     [''EXCEPTION_REQUESTED'', ''EXCEPTION_APPROVED'', ''EXCEPTION_REJECTED'', ''EXCEPTION_CANCELLED'',
      ''EXCEPTION_ACTIVATED'', ''EXCEPTION_EXPIRED'', ''EXCEPTION_REVOKED'', ''POLICY_CHANGED'',
      ''POLICY_ACTIVATED'', ''KILL_SWITCH_ACTIVATED'', ''KILL_SWITCH_CLEARED'']"

definition transitionFits :: "string \<Rightarrow> string \<Rightarrow> bool" where
  "transitionFits eventType kind =
     (if eventType = ''exception.changed'' then take 10 kind = ''EXCEPTION_''
      else if eventType = ''policy.changed'' then kind = ''POLICY_CHANGED'' \<or> kind = ''POLICY_ACTIVATED''
      else if eventType = ''governance.kill-switch.changed'' then take 12 kind = ''KILL_SWITCH_''
      else False)"

definition restrictivenessOf :: "string \<Rightarrow> downstream_reason + Cg4PolicyDiffClass" where
  "restrictivenessOf text =
     (if text = ''TIGHTENING'' then Inr TIGHTENING
      else if text = ''NEUTRAL'' then Inr NEUTRAL
      else if text = ''RELAXATION'' then Inr RELAXATION
      else Inl DR_MALFORMED_PAYLOAD)"

definition effectOf :: "string \<Rightarrow> string \<Rightarrow> Cg4PolicyDiffClass \<Rightarrow> downstream_reason + downstream_effect" where
  "effectOf eventType state restrictiveness =
     (if eventType = ''governance.kill-switch.changed'' then
        (if state = ''ACTIVE'' then
           (if restrictiveness \<noteq> TIGHTENING then Inl DR_MALFORMED_PAYLOAD else Inr HOLD_SCOPE)
         else if state = ''CLEARED'' then Inr NO_OP_EFFECT
         else Inl DR_MALFORMED_PAYLOAD)
      else if eventType = ''policy.changed'' \<and> state = ''SCHEDULED'' then Inr NO_OP_EFFECT
      else Inr (if restrictiveness = RELAXATION then NO_OP_EFFECT else REAUTHORIZE))"

definition parseCg4Shape ::
  "downstream_env \<Rightarrow> event_envelope \<Rightarrow> stream_aggregate \<Rightarrow> string \<Rightarrow> downstream_reason + downstream_event" where
  "parseCg4Shape env i aggregate payloadDigest =
     rbind (objectField (Some (ee_payload i))) (\<lambda>payload.
     rbind (throw_if (map_of payload ''contractVersion'' \<noteq> Some (jint CG4_CONTRACT_VERSION))
              DR_UNSUPPORTED_CONTRACT_VERSION) (\<lambda>_.
     rbind (throw_if (map_of payload ''policySchemaVersion'' \<noteq> Some (jint CG4_POLICY_SCHEMA_VERSION))
              DR_UNSUPPORTED_POLICY_SCHEMA_VERSION) (\<lambda>_.
     rbind (throw_if (map_of payload ''ruleRegistryVersion'' \<noteq> Some (JStr CG4_RULE_REGISTRY_VERSION))
              DR_UNSUPPORTED_RULE_REGISTRY_VERSION) (\<lambda>_.
     rbind (throw_if (map_of payload ''evaluatorVersion'' \<noteq> Some (JStr CG4_EVALUATOR_VERSION))
              DR_UNSUPPORTED_EVALUATOR_VERSION) (\<lambda>_.
     rbind (requiredField (map_of payload ''transitionKind'')) (\<lambda>transitionKind.
     rbind (throw_if (transitionKind \<notin> set TRANSITION_KINDS) DR_UNSUPPORTED_TRANSITION_KIND) (\<lambda>_.
     rbind (throw_if (\<not> transitionFits (ee_type i) transitionKind) DR_MALFORMED_PAYLOAD) (\<lambda>_.
     rbind (requiredField (map_of payload ''restrictiveness'')) (\<lambda>text.
     rbind (restrictivenessOf text) (\<lambda>restrictiveness.
     rbind (requiredField (map_of payload ''state'')) (\<lambda>state.
     rbind (objectField (map_of payload ''affectedScope'')) (\<lambda>scope.
     rbind (requiredField (map_of payload ''subjectId'')) (\<lambda>_.
     rbind (sha256Field (map_of payload ''scopeDigest'')) (\<lambda>_.
     rbind (effectOf (ee_type i) state restrictiveness) (\<lambda>effect.
     rbind (positiveInteger (map_of payload ''subjectVersion'')) (\<lambda>subjectVersion.
     rbind (requiredField (map_of payload ''mutationId'')) (\<lambda>mutationId.
     rbind (optionalText (map_of scope ''channel'')) (\<lambda>channel.
     rbind (optionalText (map_of scope ''purpose'')) (\<lambda>purpose.
     rbind (optionalText (map_of scope ''contactKind'')) (\<lambda>contactKind.
     rbind (optionalText (map_of scope ''sourceType'')) (\<lambda>sourceType.
     rbind (requiredField (map_of scope ''scopeKey'')) (\<lambda>scopeKey.
     rbind (sha256Field (map_of payload ''stateDigest'')) (\<lambda>stateDigest.
     rbind (instantField env (map_of payload ''effectiveAt'')) (\<lambda>effectiveAt.
     rbind (optionalPolicyVersion payload) (\<lambda>policyVersion.
     Inr \<lparr> de_family = FamilyCG4, de_eventType = ee_type i, de_aggregate = aggregate,
           de_aggregateId = ee_aggregateId i, de_aggregateVersion = ee_aggregateVersion i,
           de_subjectVersion = subjectVersion, de_mutationId = mutationId,
           de_transitionKind = Some transitionKind, de_state = Some state,
           de_restrictiveness = restrictiveness, de_effect = effect,
           de_scope = \<lparr> ds_identityId = None, ds_channel = channel, ds_purpose = purpose,
             ds_contactKind = contactKind, ds_sourceType = sourceType, ds_scopeKey = Some scopeKey \<rparr>,
           de_stateDigest = stateDigest, de_effectiveAt = effectiveAt, de_policyVersion = policyVersion,
           de_payloadDigest = payloadDigest \<rparr>)))))))))))))))))))))))))"

section \<open>Classification\<close>

datatype classification =
    NotGovernance
  | Accepted downstream_event
  | Rejected downstream_rejection

definition parseShape ::
  "downstream_env \<Rightarrow> event_envelope \<Rightarrow> stream_aggregate \<Rightarrow> string \<Rightarrow> downstream_reason + downstream_event" where
  "parseShape env i aggregate payloadDigest =
     (case aggregate of
        AggContact \<Rightarrow>
          if ee_type i \<in> set CG3_CONTACT_EVENT_TYPES \<or> ee_type i \<in> set CG4_FOUNDATION_CONTACT_EVENT_TYPES
          then parseCg3Shape env i aggregate payloadDigest
          else if ee_type i = ''exception.changed'' then parseCg4Shape env i aggregate payloadDigest
          else Inl DR_UNSUPPORTED_EVENT_TYPE
      | AggPolicy \<Rightarrow>
          if ee_type i = ''policy.changed'' then
            (if json_prop (ee_payload i) ''transitionKind'' \<noteq> None then parseCg4Shape env i aggregate payloadDigest
             else parseCg3Shape env i aggregate payloadDigest)
          else if ee_type i = ''governance.kill-switch.changed'' then parseCg4Shape env i aggregate payloadDigest
          else Inl DR_UNSUPPORTED_EVENT_TYPE)"

definition classifyGovernanceEvent :: "downstream_env \<Rightarrow> event_envelope \<Rightarrow> classification" where
  "classifyGovernanceEvent env i =
     (case governanceStreamAggregate (ee_aggregateType i) of
        None \<Rightarrow> NotGovernance
      | Some aggregate \<Rightarrow>
          let payloadDigest = governancePayloadDigest env (ee_payload i);
              rejection = (\<lambda>reason. Rejected \<lparr> dr_reason = reason, dr_aggregate = aggregate,
                dr_aggregateId = ee_aggregateId i, dr_aggregateVersion = ee_aggregateVersion i,
                dr_payloadDigest = payloadDigest \<rparr>) in
          if ee_aggregateVersion i < 1 then rejection DR_MALFORMED_PAYLOAD
          else case parseShape env i aggregate payloadDigest of
              Inl reason \<Rightarrow> rejection reason
            | Inr event \<Rightarrow> Accepted event)"

section \<open>Scope and position\<close>

record work_scope =
  ws_identityId :: string
  ws_channel :: string
  ws_purpose :: string
  ws_contactKind :: "string option"
  ws_sourceTypes :: "string list"

text \<open>A dimension that is absent or empty binds nothing.\<close>

definition governanceScopeCovers :: "downstream_scope \<Rightarrow> work_scope \<Rightarrow> bool" where
  "governanceScopeCovers scope work \<longleftrightarrow>
     \<not> (truthyText (ds_identityId scope) \<and> the (ds_identityId scope) \<noteq> ws_identityId work) \<and>
     \<not> (truthyText (ds_channel scope) \<and> the (ds_channel scope) \<noteq> ws_channel work) \<and>
     \<not> (truthyText (ds_purpose scope) \<and> the (ds_purpose scope) \<noteq> ws_purpose work) \<and>
     \<not> (truthyText (ds_sourceType scope) \<and> the (ds_sourceType scope) \<notin> set (ws_sourceTypes work)) \<and>
     \<not> (truthyText (ds_contactKind scope) \<and> truthyText (ws_contactKind work) \<and>
         ds_contactKind scope \<noteq> ws_contactKind work)"

record stream_cursor =
  sc_version :: int
  sc_digest :: string

datatype stream_position =
    PosApply | PosDuplicate | PosHashConflict int | PosGap int int | PosSuperseded

definition classifyGovernanceStreamPosition ::
  "stream_cursor option \<Rightarrow> string option \<Rightarrow> stream_cursor \<Rightarrow> stream_position" where
  "classifyGovernanceStreamPosition cursor appliedAtIncoming incoming =
     (case cursor of
        None \<Rightarrow> if sc_version incoming = 1 then PosApply else PosGap 1 (sc_version incoming)
      | Some c \<Rightarrow>
          if sc_version incoming = sc_version c + 1 then PosApply
          else if sc_version incoming > sc_version c then PosGap (sc_version c + 1) (sc_version incoming)
          else (case (if sc_version incoming = sc_version c then Some (sc_digest c) else appliedAtIncoming) of
              None \<Rightarrow> PosSuperseded
            | Some digest \<Rightarrow>
                if digest = sc_digest incoming then PosDuplicate else PosHashConflict (sc_version incoming)))"

end
