(* ===== verification/DialerGovernance.thy ===== *)
theory DialerGovernance
  imports Downstream
begin

text \<open>
  The Dialer as a consumer of Contact Governance (\<open>apps/dialer/src/dialer-governance.ts\<close>): an event of
  the stream re-authorizes, holds or cancels the attempts it covers, in one transaction with the inbox
  row, the staged effects and the acknowledgement; with it the relays that run the effects and publish
  the acknowledgements (\<open>dialer-governance-effect-relay.ts\<close>, \<open>dialer-governance-ack-relay.ts\<close>) and the
  store that makes the broker's deliveries idempotent (\<open>dialer-governance-consumer.ts\<close>).

  The port of Contact Governance is a parameter, as are the broker and the settlement of an effect.
  Metrics and error texts are left out.
\<close>

section \<open>Tables\<close>

datatype realtime_state =
    RT_QUEUED | RT_RESERVED | RT_PRE_BARRIER | RT_POST_BARRIER | RT_ACCEPTED | RT_IN_PROGRESS
  | RT_CANCELLED | RT_DEFERRED | RT_PARKED | RT_HELD | RT_CANCEL_REQUESTED | RT_SETTLED

definition ACTIVE_STATES :: "realtime_state list" where
  "ACTIVE_STATES = [RT_QUEUED, RT_RESERVED, RT_PRE_BARRIER, RT_POST_BARRIER, RT_ACCEPTED, RT_IN_PROGRESS,
     RT_CANCEL_REQUESTED]"

definition PRE_BARRIER_STATES :: "realtime_state list" where
  "PRE_BARRIER_STATES = [RT_QUEUED, RT_RESERVED, RT_PRE_BARRIER]"

definition POST_BARRIER_STATES :: "realtime_state list" where
  "POST_BARRIER_STATES = [RT_POST_BARRIER, RT_ACCEPTED, RT_CANCEL_REQUESTED]"

record dialer_attempt =
  oa_id :: string
  oa_tenantId :: string
  oa_actionKey :: string
  oa_contactId :: string
  oa_identityId :: string
  oa_channel :: string
  oa_purpose :: string
  oa_reservationId :: "string option"
  oa_realtimeState :: realtime_state
  oa_nextEligibleAt :: "time_ms option"
  oa_appliedAggregateVersion :: "int option"
  oa_appliedPayloadHash :: "string option"
  oa_deliveryId :: "string option"
  oa_providerRequestKey :: "string option"
  oa_cancelRequestedAt :: "time_ms option"
  oa_nextOutboundBlocked :: bool

datatype consumer_state = GS_APPLIED | GS_NO_OP | GS_GAP | GS_QUARANTINED | GS_DUPLICATE

definition CURSOR_STATES :: "consumer_state list" where
  "CURSOR_STATES = [GS_APPLIED, GS_NO_OP]"

record dialer_inbox_row =
  gi_id :: string
  gi_consumer :: string
  gi_tenantId :: string
  gi_eventId :: string
  gi_aggregateType :: stream_aggregate
  gi_aggregateId :: string
  gi_aggregateVersion :: int
  gi_payloadHash :: string
  gi_state :: consumer_state
  gi_affectedCount :: nat
  gi_appliedAt :: time_ms
  gi_reasonCode :: "string option"

datatype ack_outcome = ACK_APPLIED | ACK_NO_OP | ACK_FAILED

datatype ack_state = AckPending | AckPublished | AckFailed

record acknowledgement_row =
  ak_id :: string
  ak_tenantId :: string
  ak_eventId :: string
  ak_consumer :: string
  ak_aggregateType :: stream_aggregate
  ak_aggregateId :: string
  ak_appliedVersion :: int
  ak_outcome :: ack_outcome
  ak_affectedCount :: nat
  ak_sourcePayloadHash :: string
  ak_appliedStateDigest :: "string option"
  ak_state :: ack_state
  ak_attempts :: int
  ak_availableAt :: time_ms
  ak_publishedAt :: "time_ms option"
  ak_createdAt :: time_ms

datatype effect_kind = RELEASE_BEFORE_BARRIER | REQUEST_RECONCILE

datatype effect_state = EffectPending | EffectProcessing | EffectSucceeded | EffectFailed

record effect_row =
  ef_id :: string
  ef_tenantId :: string
  ef_eventId :: string
  ef_attemptId :: string
  ef_actionKey :: string
  ef_reservationId :: string
  ef_deliveryId :: "string option"
  ef_providerRequestKey :: "string option"
  ef_correlationId :: string
  ef_kind :: effect_kind
  ef_state :: effect_state
  ef_attempts :: int
  ef_availableAt :: time_ms
  ef_completedAt :: "time_ms option"
  ef_createdAt :: time_ms

record dialer_store =
  og_attempts :: "dialer_attempt list"
  og_inbox :: "dialer_inbox_row list"
  og_acks :: "acknowledgement_row list"
  og_effects :: "effect_row list"

section \<open>Events, decisions and results\<close>

record canonical_event =
  ke_canonical :: bool
  ke_tenantId :: string
  ke_eventId :: string
  ke_correlationId :: string
  ke_envelope :: event_envelope

datatype revalidation_decision =
    DecideAllow
  | DecideBlock string
  | DecideDefer string time_ms
  | DecideTimezoneUnknown string
  | DecideReview string

text \<open>What the governance port answers about a reservation.\<close>

datatype port_answer =
    PortAllow
  | PortBlock string
  | PortReview string
  | PortDefer string "time_ms option"

definition createDialerCanonicalRevalidator ::
  "(dialer_attempt \<Rightarrow> downstream_event \<Rightarrow> port_answer) \<Rightarrow> dialer_attempt \<Rightarrow> downstream_event \<Rightarrow> revalidation_decision" where
  "createDialerCanonicalRevalidator governance attempt event =
     (if \<not> truthyText (oa_reservationId attempt) then DecideReview ''GOVERNANCE_CONTEXT_UNAVAILABLE''
      else case governance attempt event of
          PortAllow \<Rightarrow> DecideAllow
        | PortBlock reason \<Rightarrow> DecideBlock reason
        | PortReview reason \<Rightarrow> DecideReview reason
        | PortDefer reason (Some t) \<Rightarrow> DecideDefer reason t
        | PortDefer reason None \<Rightarrow> DecideTimezoneUnknown reason)"

datatype fresh_use = FreshInbox | FreshAck | FreshEffect string | FreshEvent

record dialer_env =
  dl_consumer :: string
  dl_downstream :: downstream_env
  dl_revalidate :: "dialer_attempt \<Rightarrow> downstream_event \<Rightarrow> revalidation_decision"
  dl_fresh :: "fresh_use \<Rightarrow> string"
  dl_now :: time_ms
  dl_dbNow :: time_ms

record apply_result =
  ap_outcome :: ack_outcome
  ap_affectedCount :: nat
  ap_state :: consumer_state
  ap_reasonCode :: "string option"

datatype dialer_error =
    NotCanonicalEvent
  | UnsupportedAggregate
  | InvalidCanonicalVersion
  | InvalidCanonicalDigest
  | CanonicalReloadConflict string int
  | DialerUniqueConstraint

definition DIALER_CANONICAL_RELOAD_REASON :: string where
  "DIALER_CANONICAL_RELOAD_REASON = ''CANONICAL_RELOAD''"

definition DIALER_SOURCE_TYPES :: "string list" where
  "DIALER_SOURCE_TYPES = [''DIALER'', ''CAMPAIGN'']"

fun targetState :: "revalidation_decision \<Rightarrow> realtime_state option" where
  "targetState (DecideBlock _) = Some RT_CANCELLED"
| "targetState (DecideDefer _ _) = Some RT_DEFERRED"
| "targetState (DecideTimezoneUnknown _) = Some RT_PARKED"
| "targetState (DecideReview _) = Some RT_HELD"
| "targetState DecideAllow = None"

section \<open>Reads\<close>

definition findInbox :: "dialer_env \<Rightarrow> canonical_event \<Rightarrow> dialer_store \<Rightarrow> dialer_inbox_row option" where
  "findInbox env event st = find (\<lambda>r. gi_consumer r = dl_consumer env \<and> gi_tenantId r = ke_tenantId event \<and>
     gi_eventId r = ke_eventId event) (og_inbox st)"

definition cursorRows :: "dialer_env \<Rightarrow> string \<Rightarrow> stream_aggregate \<Rightarrow> string \<Rightarrow> dialer_inbox_row list \<Rightarrow> dialer_inbox_row list" where
  "cursorRows env tenantId aggregateType aggregateId rows =
     filter (\<lambda>r. gi_consumer r = dl_consumer env \<and> gi_tenantId r = tenantId \<and> gi_aggregateType r = aggregateType \<and>
       gi_aggregateId r = aggregateId \<and> gi_state r \<in> set CURSOR_STATES) rows"

definition cursorRow ::
  "dialer_env \<Rightarrow> string \<Rightarrow> stream_aggregate \<Rightarrow> string \<Rightarrow> int option \<Rightarrow> dialer_inbox_row list \<Rightarrow> dialer_inbox_row option" where
  "cursorRow env tenantId aggregateType aggregateId version rows =
     (case sort_key (\<lambda>r. - gi_aggregateVersion r)
        (filter (\<lambda>r. case version of None \<Rightarrow> True | Some v \<Rightarrow> gi_aggregateVersion r = v)
          (cursorRows env tenantId aggregateType aggregateId rows)) of
        [] \<Rightarrow> None
      | r # _ \<Rightarrow> Some r)"

definition comparable :: "dialer_inbox_row \<Rightarrow> downstream_event \<Rightarrow> string \<Rightarrow> string" where
  "comparable row stream payloadHash =
     (if gi_reasonCode row \<noteq> Some DIALER_CANONICAL_RELOAD_REASON then gi_payloadHash row
      else if gi_payloadHash row = de_stateDigest stream then payloadHash else gi_payloadHash row)"

definition workOf :: "dialer_attempt \<Rightarrow> work_scope" where
  "workOf a = \<lparr> ws_identityId = oa_identityId a, ws_channel = oa_channel a, ws_purpose = oa_purpose a,
     ws_contactKind = None, ws_sourceTypes = DIALER_SOURCE_TYPES \<rparr>"

definition attemptInScope :: "canonical_event \<Rightarrow> downstream_scope option \<Rightarrow> dialer_attempt \<Rightarrow> bool" where
  "attemptInScope event scope a \<longleftrightarrow> oa_tenantId a = ke_tenantId event \<and> oa_realtimeState a \<in> set ACTIVE_STATES \<and>
     (ee_aggregateType (ke_envelope event) = ''contact_governance_contact'' \<longrightarrow>
        oa_contactId a = ee_aggregateId (ke_envelope event)) \<and>
     (case scope of None \<Rightarrow> True | Some s \<Rightarrow> governanceScopeCovers s (workOf a))"

definition attemptsFor :: "canonical_event \<Rightarrow> downstream_scope option \<Rightarrow> dialer_store \<Rightarrow> dialer_attempt list" where
  "attemptsFor event scope st = filter (attemptInScope event scope) (og_attempts st)"

section \<open>Writes\<close>

definition updateAttempt :: "string \<Rightarrow> (dialer_attempt \<Rightarrow> dialer_attempt) \<Rightarrow> dialer_store \<Rightarrow> dialer_store" where
  "updateAttempt i f st = st\<lparr>og_attempts := updateWhere (\<lambda>a. oa_id a = i) f (og_attempts st)\<rparr>"

definition holdAttempt :: "time_ms \<Rightarrow> dialer_attempt \<Rightarrow> dialer_store \<Rightarrow> dialer_store" where
  "holdAttempt now attempt st =
     (if oa_realtimeState attempt = RT_IN_PROGRESS
      then updateAttempt (oa_id attempt) (\<lambda>a. a\<lparr>oa_nextOutboundBlocked := True\<rparr>) st
      else updateAttempt (oa_id attempt) (\<lambda>a. a\<lparr>oa_realtimeState := RT_HELD, oa_nextOutboundBlocked := True,
             oa_cancelRequestedAt := Some now\<rparr>) st)"

definition holdMatchingAttempts ::
  "canonical_event \<Rightarrow> downstream_scope option \<Rightarrow> time_ms \<Rightarrow> dialer_store \<Rightarrow> dialer_store \<times> nat" where
  "holdMatchingAttempts event scope now st =
     (let attempts = attemptsFor event scope st in (fold (holdAttempt now) attempts st, length attempts))"

definition stageEffect ::
  "dialer_env \<Rightarrow> canonical_event \<Rightarrow> dialer_attempt \<Rightarrow> effect_kind \<Rightarrow> dialer_store \<Rightarrow> dialer_store" where
  "stageEffect env event attempt kind st =
     (if list_ex (\<lambda>e. ef_tenantId e = ke_tenantId event \<and> ef_eventId e = ke_eventId event \<and>
           ef_attemptId e = oa_id attempt \<and> ef_kind e = kind) (og_effects st)
      then st
      else st\<lparr>og_effects := og_effects st @ [\<lparr> ef_id = dl_fresh env (FreshEffect (oa_id attempt)),
        ef_tenantId = ke_tenantId event, ef_eventId = ke_eventId event, ef_attemptId = oa_id attempt,
        ef_actionKey = oa_actionKey attempt, ef_reservationId = the (oa_reservationId attempt),
        ef_deliveryId = oa_deliveryId attempt, ef_providerRequestKey = oa_providerRequestKey attempt,
        ef_correlationId = ke_correlationId event, ef_kind = kind, ef_state = EffectPending,
        ef_attempts = 0, ef_availableAt = dl_now env, ef_completedAt = None, ef_createdAt = dl_dbNow env \<rparr>]\<rparr>)"

definition recordInbox ::
  "dialer_env \<Rightarrow> string option \<Rightarrow> canonical_event \<Rightarrow> stream_aggregate \<Rightarrow> string \<Rightarrow> consumer_state \<Rightarrow> nat \<Rightarrow> string option \<Rightarrow>
     dialer_store \<Rightarrow> dialer_store" where
  "recordInbox env existingId event aggregateType payloadHash state affectedCount reasonCode st =
     (let fill = (\<lambda>r. r\<lparr>gi_aggregateType := aggregateType,
            gi_aggregateId := ee_aggregateId (ke_envelope event),
            gi_aggregateVersion := ee_aggregateVersion (ke_envelope event), gi_payloadHash := payloadHash,
            gi_state := state, gi_affectedCount := affectedCount, gi_appliedAt := dl_now env,
            gi_reasonCode := reasonCode\<rparr>) in
      case existingId of
        Some i \<Rightarrow> st\<lparr>og_inbox := updateWhere (\<lambda>r. gi_id r = i) fill (og_inbox st)\<rparr>
      | None \<Rightarrow> st\<lparr>og_inbox := og_inbox st @ [\<lparr> gi_id = dl_fresh env FreshInbox, gi_consumer = dl_consumer env,
          gi_tenantId = ke_tenantId event, gi_eventId = ke_eventId event, gi_aggregateType = aggregateType,
          gi_aggregateId = ee_aggregateId (ke_envelope event),
          gi_aggregateVersion = ee_aggregateVersion (ke_envelope event), gi_payloadHash = payloadHash,
          gi_state = state, gi_affectedCount = affectedCount, gi_appliedAt = dl_now env,
          gi_reasonCode = reasonCode \<rparr>]\<rparr>)"

definition complete ::
  "dialer_env \<Rightarrow> string option \<Rightarrow> canonical_event \<Rightarrow> stream_aggregate \<Rightarrow> string \<Rightarrow> ack_outcome \<Rightarrow> nat \<Rightarrow>
     consumer_state option \<Rightarrow> string option \<Rightarrow> string option \<Rightarrow> dialer_store \<Rightarrow> dialer_store \<times> apply_result" where
  "complete env existingId event aggregateType payloadHash outcome affectedCount quarantine reasonCode stateDigest st =
     (let state = (case quarantine of Some q \<Rightarrow> q | None \<Rightarrow> if outcome = ACK_NO_OP then GS_NO_OP else GS_APPLIED);
          st1 = recordInbox env existingId event aggregateType payloadHash state affectedCount reasonCode st;
          known = list_ex (\<lambda>k. ak_tenantId k = ke_tenantId event \<and> ak_eventId k = ke_eventId event \<and>
            ak_consumer k = dl_consumer env \<and> ak_appliedVersion k = ee_aggregateVersion (ke_envelope event)) (og_acks st1);
          st2 = (if known then st1 else st1\<lparr>og_acks := og_acks st1 @ [\<lparr> ak_id = dl_fresh env FreshAck,
            ak_tenantId = ke_tenantId event, ak_eventId = ke_eventId event, ak_consumer = dl_consumer env,
            ak_aggregateType = aggregateType, ak_aggregateId = ee_aggregateId (ke_envelope event),
            ak_appliedVersion = ee_aggregateVersion (ke_envelope event), ak_outcome = outcome,
            ak_affectedCount = affectedCount, ak_sourcePayloadHash = payloadHash,
            ak_appliedStateDigest = stateDigest, ak_state = AckPending, ak_attempts = 0,
            ak_availableAt = dl_now env, ak_publishedAt = None, ak_createdAt = dl_dbNow env \<rparr>]\<rparr>) in
      (st2, \<lparr> ap_outcome = outcome, ap_affectedCount = affectedCount, ap_state = state,
              ap_reasonCode = (if isGovernanceContractRejection reasonCode then reasonCode else None) \<rparr>))"

section \<open>Applying an event\<close>

definition decide :: "dialer_env \<Rightarrow> downstream_event \<Rightarrow> dialer_attempt \<Rightarrow> revalidation_decision" where
  "decide env stream attempt =
     (if de_effect stream = HOLD_SCOPE then DecideReview GOVERNANCE_KILL_SWITCH_ACTIVE
      else dl_revalidate env attempt stream)"

text \<open>The store, how many attempts were affected, and whether a binding was missing.\<close>

definition applyAttempt ::
  "dialer_env \<Rightarrow> canonical_event \<Rightarrow> downstream_event \<Rightarrow> string \<Rightarrow> dialer_attempt \<Rightarrow>
     dialer_store \<times> nat \<times> bool \<Rightarrow> dialer_store \<times> nat \<times> bool" where
  "applyAttempt env event stream payloadHash attempt s =
     (let (st, affected, missing) = s;
          version = ee_aggregateVersion (ke_envelope event);
          mark = (\<lambda>a. a\<lparr>oa_appliedAggregateVersion := Some version, oa_appliedPayloadHash := Some payloadHash\<rparr>);
          update = updateAttempt (oa_id attempt);
          held = update (\<lambda>a. mark (a\<lparr>oa_realtimeState := RT_HELD, oa_nextOutboundBlocked := True\<rparr>));
          decision = decide env stream attempt in
      case targetState decision of
        None \<Rightarrow> (update mark st, affected, missing)
      | Some state \<Rightarrow>
          if oa_realtimeState attempt = RT_IN_PROGRESS
          then (update (\<lambda>a. mark (a\<lparr>oa_nextOutboundBlocked := True\<rparr>)) st, affected + 1, missing)
          else if oa_realtimeState attempt \<in> set PRE_BARRIER_STATES then
            (if oa_realtimeState attempt \<noteq> RT_QUEUED \<and> \<not> truthyText (oa_reservationId attempt)
             then (held st, affected + 1, True)
             else
               let st1 = (if oa_realtimeState attempt \<noteq> RT_QUEUED
                     then stageEffect env event attempt RELEASE_BEFORE_BARRIER st else st);
                   eligible = (\<lambda>a. case decision of DecideDefer _ t \<Rightarrow> a\<lparr>oa_nextEligibleAt := Some t\<rparr> | _ \<Rightarrow> a) in
               (update (\<lambda>a. mark (eligible (a\<lparr>oa_realtimeState := state, oa_nextOutboundBlocked := True\<rparr>))) st1,
                affected + 1, missing))
          else if oa_realtimeState attempt \<in> set POST_BARRIER_STATES then
            (if \<not> truthyText (oa_reservationId attempt) \<or> \<not> truthyText (oa_deliveryId attempt) \<or>
                \<not> truthyText (oa_providerRequestKey attempt)
             then (held st, affected + 1, True)
             else (update (\<lambda>a. mark (a\<lparr>oa_realtimeState := RT_CANCEL_REQUESTED, oa_nextOutboundBlocked := True,
                     oa_cancelRequestedAt := Some (dl_now env)\<rparr>))
                     (stageEffect env event attempt REQUEST_RECONCILE st), affected + 1, missing))
          else (st, affected + 1, missing))"

definition applyStream ::
  "dialer_env \<Rightarrow> string option \<Rightarrow> canonical_event \<Rightarrow> downstream_event \<Rightarrow> string \<Rightarrow> dialer_store \<Rightarrow>
     dialer_store \<times> apply_result" where
  "applyStream env existingId event stream payloadHash st =
     (if de_effect stream = NO_OP_EFFECT
      then complete env existingId event (de_aggregate stream) payloadHash ACK_NO_OP 0 None None
             (Some (de_stateDigest stream)) st
      else
        let (st1, affected, missing) =
              fold (applyAttempt env event stream payloadHash) (attemptsFor event (Some (de_scope stream)) st)
                (st, 0, False) in
        complete env existingId event (de_aggregate stream) payloadHash
          (if missing then ACK_FAILED else if affected \<noteq> 0 then ACK_APPLIED else ACK_NO_OP) affected None None
          (Some (de_stateDigest stream)) st1)"

definition positionOf :: "dialer_env \<Rightarrow> canonical_event \<Rightarrow> downstream_event \<Rightarrow> string \<Rightarrow> dialer_store \<Rightarrow> stream_position" where
  "positionOf env event stream payloadHash st =
     (let version = ee_aggregateVersion (ke_envelope event);
          cursorAt = (\<lambda>v. cursorRow env (ke_tenantId event) (de_aggregate stream)
            (ee_aggregateId (ke_envelope event)) v (og_inbox st));
          prior = cursorAt None;
          appliedAtIncoming = (case prior of
              Some p \<Rightarrow> if version < gi_aggregateVersion p then cursorAt (Some version) else None
            | None \<Rightarrow> None) in
      classifyGovernanceStreamPosition
        (map_option (\<lambda>p. \<lparr> sc_version = gi_aggregateVersion p, sc_digest = comparable p stream payloadHash \<rparr>) prior)
        (map_option (\<lambda>p. comparable p stream payloadHash) appliedAtIncoming)
        \<lparr> sc_version = version, sc_digest = payloadHash \<rparr>)"

definition applyAccepted ::
  "dialer_env \<Rightarrow> string option \<Rightarrow> canonical_event \<Rightarrow> downstream_event \<Rightarrow> dialer_store \<Rightarrow> dialer_store \<times> apply_result" where
  "applyAccepted env existingId event stream st =
     (let payloadHash = de_payloadDigest stream; aggregateType = de_aggregate stream;
          duplicate = (\<lambda>reasonCode. (recordInbox env existingId event aggregateType payloadHash GS_DUPLICATE 0 reasonCode st,
            \<lparr> ap_outcome = ACK_NO_OP, ap_affectedCount = 0, ap_state = GS_DUPLICATE, ap_reasonCode = None \<rparr>)) in
      case positionOf env event stream payloadHash st of
        PosDuplicate \<Rightarrow> duplicate None
      | PosSuperseded \<Rightarrow> duplicate (Some ''SUPERSEDED_BY_RELOAD'')
      | PosHashConflict _ \<Rightarrow>
          complete env existingId event aggregateType payloadHash ACK_FAILED 0 (Some GS_QUARANTINED)
            (Some ''EVENT_HASH_CONFLICT'') None
            (fst (holdMatchingAttempts event (Some (de_scope stream)) (dl_now env) st))
      | PosGap _ _ \<Rightarrow>
          (recordInbox env existingId event aggregateType payloadHash GS_GAP 0 (Some ''EVENT_GAP'')
             (fst (holdMatchingAttempts event (Some (de_scope stream)) (dl_now env) st)),
           \<lparr> ap_outcome = ACK_FAILED, ap_affectedCount = 0, ap_state = GS_GAP, ap_reasonCode = None \<rparr>)
      | PosApply \<Rightarrow> applyStream env existingId event stream payloadHash st)"

definition applyRejected ::
  "dialer_env \<Rightarrow> string option \<Rightarrow> canonical_event \<Rightarrow> downstream_rejection \<Rightarrow> dialer_store \<Rightarrow> dialer_store \<times> apply_result" where
  "applyRejected env existingId event rejection st =
     (let (st1, held) = holdMatchingAttempts event None (dl_now env) st in
      complete env existingId event (dr_aggregate rejection) (dr_payloadDigest rejection) ACK_FAILED held
        (Some GS_QUARANTINED) (Some (reasonText (dr_reason rejection))) None st1)"

text \<open>The answer to a redelivered event that has been completed.\<close>

definition completedBefore :: "dialer_inbox_row \<Rightarrow> apply_result" where
  "completedBefore row = \<lparr> ap_outcome = (case gi_state row of GS_QUARANTINED \<Rightarrow> ACK_FAILED | GS_APPLIED \<Rightarrow> ACK_APPLIED | _ \<Rightarrow> ACK_NO_OP),
     ap_affectedCount = 0, ap_state = gi_state row,
     ap_reasonCode = (if isGovernanceContractRejection (gi_reasonCode row) then gi_reasonCode row else None) \<rparr>"

definition applyEvent ::
  "dialer_env \<Rightarrow> canonical_event \<Rightarrow> dialer_store \<Rightarrow> dialer_error + dialer_store \<times> apply_result" where
  "applyEvent env event st =
     (if \<not> ke_canonical event then Inl NotCanonicalEvent
      else
        let existing = findInbox env event st;
            existingId = map_option gi_id existing;
            settled = (case existing of None \<Rightarrow> None | Some row \<Rightarrow> if gi_state row = GS_GAP then None else Some row) in
        case classifyGovernanceEvent (dl_downstream env) (ke_envelope event) of
          NotGovernance \<Rightarrow> Inl UnsupportedAggregate
        | Accepted stream \<Rightarrow>
            Inr (case settled of Some row \<Rightarrow> (st, completedBefore row) | None \<Rightarrow> applyAccepted env existingId event stream st)
        | Rejected rejection \<Rightarrow>
            Inr (case settled of Some row \<Rightarrow> (st, completedBefore row) | None \<Rightarrow> applyRejected env existingId event rejection st))"

section \<open>Canonical reload\<close>

record reload_input =
  rl_tenantId :: string
  rl_aggregateType :: stream_aggregate
  rl_aggregateId :: string
  rl_canonicalVersion :: int
  rl_canonicalStateDigest :: string

record reload_result =
  rr_cursorVersion :: int
  rr_reloaded :: bool
  rr_heldAttempts :: nat

definition resumeDialer ::
  "dialer_env \<Rightarrow> reload_input \<Rightarrow> dialer_store \<Rightarrow> dialer_error + dialer_store \<times> reload_result" where
  "resumeDialer env i st =
     (if rl_canonicalVersion i < 1 then Inl InvalidCanonicalVersion
      else if \<not> lowercaseSha256 (rl_canonicalStateDigest i) then Inl InvalidCanonicalDigest
      else
        let held = countWhere (\<lambda>a. oa_tenantId a = rl_tenantId i \<and> oa_realtimeState a = RT_HELD \<and>
              (rl_aggregateType i = AggContact \<longrightarrow> oa_contactId a = rl_aggregateId i)) (og_attempts st);
            cursorAt = (\<lambda>v. cursorRow env (rl_tenantId i) (rl_aggregateType i) (rl_aggregateId i) v (og_inbox st));
            reload =
              st\<lparr>og_inbox := og_inbox st @ [\<lparr> gi_id = dl_fresh env FreshInbox, gi_consumer = dl_consumer env,
                   gi_tenantId = rl_tenantId i, gi_eventId = dl_fresh env FreshEvent,
                   gi_aggregateType = rl_aggregateType i, gi_aggregateId = rl_aggregateId i,
                   gi_aggregateVersion = rl_canonicalVersion i, gi_payloadHash = rl_canonicalStateDigest i,
                   gi_state = GS_NO_OP, gi_affectedCount = 0, gi_appliedAt = dl_now env,
                   gi_reasonCode = Some DIALER_CANONICAL_RELOAD_REASON \<rparr>],
                 og_acks := og_acks st @ [\<lparr> ak_id = dl_fresh env FreshAck, ak_tenantId = rl_tenantId i,
                   ak_eventId = dl_fresh env FreshEvent, ak_consumer = dl_consumer env,
                   ak_aggregateType = rl_aggregateType i, ak_aggregateId = rl_aggregateId i,
                   ak_appliedVersion = rl_canonicalVersion i, ak_outcome = ACK_NO_OP, ak_affectedCount = 0,
                   ak_sourcePayloadHash = rl_canonicalStateDigest i,
                   ak_appliedStateDigest = Some (rl_canonicalStateDigest i), ak_state = AckPending,
                   ak_attempts = 0, ak_availableAt = dl_now env, ak_publishedAt = None,
                   ak_createdAt = dl_dbNow env \<rparr>]\<rparr>;
            reloaded = (if list_ex (\<lambda>r. gi_consumer r = dl_consumer env \<and> gi_tenantId r = rl_tenantId i \<and>
                gi_eventId r = dl_fresh env FreshEvent) (og_inbox st)
              then Inl DialerUniqueConstraint
              else Inr (reload, \<lparr> rr_cursorVersion = rl_canonicalVersion i, rr_reloaded = True, rr_heldAttempts = held \<rparr>)) in
        case cursorAt None of
          None \<Rightarrow> reloaded
        | Some prior \<Rightarrow>
            if gi_aggregateVersion prior < rl_canonicalVersion i then reloaded
            else
              let atVersion = (if gi_aggregateVersion prior = rl_canonicalVersion i then Some prior
                    else cursorAt (Some (rl_canonicalVersion i))) in
              if (case atVersion of None \<Rightarrow> False
                  | Some r \<Rightarrow> gi_reasonCode r = Some DIALER_CANONICAL_RELOAD_REASON \<and>
                      gi_payloadHash r \<noteq> rl_canonicalStateDigest i)
              then Inl (CanonicalReloadConflict (rl_aggregateId i) (rl_canonicalVersion i))
              else Inr (st, \<lparr> rr_cursorVersion = gi_aggregateVersion prior, rr_reloaded = False, rr_heldAttempts = held \<rparr>))"

section \<open>Delivery by the broker\<close>

datatype delivery_answer = Delivered apply_result | DuplicateDelivery

text \<open>The durable idempotency store around the handler: only a gap is handled again.\<close>

definition executeDelivery ::
  "dialer_env \<Rightarrow> canonical_event \<Rightarrow> dialer_store \<Rightarrow> dialer_error + dialer_store \<times> delivery_answer" where
  "executeDelivery env event st =
     (case findInbox env event st of
        Some row \<Rightarrow>
          if gi_state row \<noteq> GS_GAP then Inr (st, DuplicateDelivery)
          else rbind (applyEvent env event st) (\<lambda>(st', r). Inr (st', Delivered r))
      | None \<Rightarrow> rbind (applyEvent env event st) (\<lambda>(st', r). Inr (st', Delivered r)))"

datatype dlq_reason = INVALID_ENVELOPE | UNSUPPORTED_SCHEMA_VERSION

definition publishGovernanceContractRejection :: "string option \<Rightarrow> dlq_reason option" where
  "publishGovernanceContractRejection reasonCode =
     (if \<not> isGovernanceContractRejection reasonCode then None
      else if reasonCode = Some ''MALFORMED_PAYLOAD'' \<or> reasonCode = Some ''UNSUPPORTED_EVENT_TYPE''
      then Some INVALID_ENVELOPE else Some UNSUPPORTED_SCHEMA_VERSION)"

section \<open>The effect relay\<close>

text \<open>
  Claiming an effect and completing it are two transactions, with the settlement between them: first the
  claim and the row it took, then the outcome.
\<close>

definition claimEffect :: "time_ms \<Rightarrow> (string \<Rightarrow> bool) \<Rightarrow> string \<Rightarrow> effect_row list \<Rightarrow> effect_row list \<times> effect_row option" where
  "claimEffect now locked tenantId rows =
     (case sort_key (\<lambda>e. ef_availableAt e) (sort_key (\<lambda>e. ef_createdAt e)
        (filter (\<lambda>e. ef_tenantId e = tenantId \<and> ef_state e = EffectPending \<and> ef_availableAt e \<le> now \<and>
          \<not> locked (ef_id e)) rows)) of
        [] \<Rightarrow> (rows, None)
      | e # _ \<Rightarrow> (updateWhere (\<lambda>r. ef_id r = ef_id e) (\<lambda>r. r\<lparr>ef_state := EffectProcessing,
            ef_attempts := ef_attempts r + 1\<rparr>) rows, Some e))"

definition settleEffect :: "(effect_row \<Rightarrow> bool) \<Rightarrow> effect_row \<Rightarrow> bool" where
  "settleEffect settlement e \<longleftrightarrow> (ef_kind e = RELEASE_BEFORE_BARRIER \<or>
     truthyText (ef_deliveryId e) \<and> truthyText (ef_providerRequestKey e)) \<and> settlement e"

definition finishEffect :: "time_ms \<Rightarrow> int \<Rightarrow> bool \<Rightarrow> effect_row \<Rightarrow> effect_row list \<Rightarrow> effect_row list" where
  "finishEffect now retryDelayMs succeeded e rows =
     updateWhere (\<lambda>r. ef_id r = ef_id e) (\<lambda>r. if succeeded
         then r\<lparr>ef_state := EffectSucceeded, ef_completedAt := Some now\<rparr>
         else r\<lparr>ef_state := EffectPending, ef_availableAt := now + retryDelayMs\<rparr>) rows"

definition executeNext ::
  "(nat \<Rightarrow> time_ms) \<Rightarrow> (string \<Rightarrow> bool) \<Rightarrow> (effect_row \<Rightarrow> bool) \<Rightarrow> int \<Rightarrow> string \<Rightarrow> effect_row list \<Rightarrow>
     effect_row list \<times> bool option" where
  "executeNext now locked settlement retryDelayMs tenantId rows =
     (case claimEffect (now 0) locked tenantId rows of
        (rows', None) \<Rightarrow> (rows', None)
      | (rows', Some e) \<Rightarrow>
          let succeeded = settleEffect settlement e in
          (finishEffect (now 1) retryDelayMs succeeded e rows', Some succeeded))"

section \<open>The acknowledgement relay\<close>

definition ackBackoffMs :: "int \<Rightarrow> int" where
  "ackBackoffMs attempt = min (2 ^ nat attempt * 1000) 300000"

definition publishAcknowledgement ::
  "time_ms \<Rightarrow> (string \<Rightarrow> bool) \<Rightarrow> (acknowledgement_row \<Rightarrow> bool) \<Rightarrow> string \<Rightarrow> acknowledgement_row list \<Rightarrow>
     acknowledgement_row list \<times> ack_state option" where
  "publishAcknowledgement now locked send tenantId rows =
     (case sort_key (\<lambda>k. ak_createdAt k) (sort_key (\<lambda>k. ak_id k)
        (filter (\<lambda>k. ak_tenantId k = tenantId \<and> ak_state k \<in> {AckPending, AckFailed} \<and> ak_availableAt k \<le> now \<and>
          \<not> locked (ak_id k)) rows)) of
        [] \<Rightarrow> (rows, None)
      | k # _ \<Rightarrow>
          let attempts = ak_attempts k + 1 in
          if send k
          then (updateWhere (\<lambda>r. ak_id r = ak_id k) (\<lambda>r. r\<lparr>ak_state := AckPublished, ak_attempts := attempts,
                  ak_publishedAt := Some now\<rparr>) rows, Some AckPublished)
          else (updateWhere (\<lambda>r. ak_id r = ak_id k) (\<lambda>r. r\<lparr>ak_state := AckFailed, ak_attempts := attempts,
                  ak_availableAt := now + ackBackoffMs attempts\<rparr>) rows, Some AckFailed))"

end
