(* ===== verification/DialerGuarantees.thy ===== *)
theory DialerGuarantees
  imports DialerGovernance
begin

text \<open>
  Guarantees of the Dialer's governance consumer: what an event may do to an attempt, that work in a
  withdrawn scope is stopped, that a stopped reservation is released or reconciled, that a stream that
  came out of order is caught up by one in-order replay; and where effects and submitted calls are left
  behind.
\<close>

section \<open>Updating a set of rows one by one\<close>

lemma fold_updateWhere:
  assumes "\<And>a y. key (f a y) = key y" and "distinct (map key xs)"
  shows "fold (\<lambda>a. updateWhere (\<lambda>y. key y = key a) (f a)) xs ys =
    map (\<lambda>y. case find (\<lambda>a. key a = key y) xs of None \<Rightarrow> y | Some a \<Rightarrow> f a y) ys"
  using assms(2)
proof (induction xs arbitrary: ys)
  case (Cons a xs)
  have none: "find (\<lambda>b. key b = key y) xs = None" if "key y = key a" for y
    using Cons.prems that by (auto simp: find_None_iff intro: rev_image_eqI)
  have "fold (\<lambda>a. updateWhere (\<lambda>y. key y = key a) (f a)) (a # xs) ys =
      map (\<lambda>y. case find (\<lambda>b. key b = key y) xs of None \<Rightarrow> y | Some b \<Rightarrow> f b y)
        (updateWhere (\<lambda>y. key y = key a) (f a) ys)"
    using Cons by simp
  also have "\<dots> = map (\<lambda>y. case find (\<lambda>b. key b = key y) (a # xs) of None \<Rightarrow> y | Some b \<Rightarrow> f b y) ys"
    using none by (auto simp: updateWhere_def assms(1))
  finally show ?case .
qed simp

lemma fold_update_filtered:
  assumes "\<And>a y. key (f a y) = key y" and "distinct (map key xs)"
  shows "fold (\<lambda>a. updateWhere (\<lambda>y. key y = key a) (f a)) (filter P xs) xs = map (\<lambda>y. if P y then f y y else y) xs"
proof -
  have "distinct (map key (filter P xs))" using assms(2) by (rule distinct_map_filter)
  note fold_updateWhere [where f = f, OF assms(1) this]
  moreover have "find (\<lambda>a. key a = key y) (filter P xs) = (if P y then Some y else None)" if "y \<in> set xs" for y
    using assms(2) that by (induction xs) (auto simp: find_None_iff intro: rev_image_eqI)
  ultimately show ?thesis by simp
qed

section \<open>What an event does to an attempt\<close>

definition marked :: "canonical_event \<Rightarrow> string \<Rightarrow> dialer_attempt \<Rightarrow> dialer_attempt" where
  "marked event payloadHash a = a\<lparr>oa_appliedAggregateVersion := Some (ee_aggregateVersion (ke_envelope event)),
     oa_appliedPayloadHash := Some payloadHash\<rparr>"

definition bound :: "dialer_attempt \<Rightarrow> bool" where
  "bound a \<longleftrightarrow> truthyText (oa_reservationId a) \<and> truthyText (oa_deliveryId a) \<and> truthyText (oa_providerRequestKey a)"

definition stopped :: "realtime_state \<Rightarrow> dialer_attempt \<Rightarrow> dialer_attempt" where
  "stopped state a = a\<lparr>oa_realtimeState := state, oa_nextOutboundBlocked := True\<rparr>"

definition attemptAfter :: "dialer_env \<Rightarrow> canonical_event \<Rightarrow> downstream_event \<Rightarrow> string \<Rightarrow> dialer_attempt \<Rightarrow> dialer_attempt \<Rightarrow> dialer_attempt" where
  "attemptAfter env event stream payloadHash attempt a =
     (case targetState (decide env stream attempt) of
        None \<Rightarrow> marked event payloadHash a
      | Some state \<Rightarrow>
          if oa_realtimeState attempt = RT_IN_PROGRESS then marked event payloadHash (a\<lparr>oa_nextOutboundBlocked := True\<rparr>)
          else if oa_realtimeState attempt \<in> set PRE_BARRIER_STATES then
            (if oa_realtimeState attempt \<noteq> RT_QUEUED \<and> \<not> truthyText (oa_reservationId attempt)
             then marked event payloadHash (stopped RT_HELD a)
             else marked event payloadHash ((case decide env stream attempt of
                 DecideDefer _ t \<Rightarrow> (\<lambda>a. a\<lparr>oa_nextEligibleAt := Some t\<rparr>) | _ \<Rightarrow> (\<lambda>a. a)) (stopped state a)))
          else if oa_realtimeState attempt \<in> set POST_BARRIER_STATES then
            (if \<not> bound attempt then marked event payloadHash (stopped RT_HELD a)
             else marked event payloadHash ((stopped RT_CANCEL_REQUESTED a)\<lparr>oa_cancelRequestedAt := Some (dl_now env)\<rparr>))
          else a)"

lemmas after_defs = attemptAfter_def marked_def stopped_def bound_def

lemma stage_attempts [simp]: "og_attempts (stageEffect env event a kind st) = og_attempts st"
  by (simp add: stageEffect_def)

lemma applyAttempt_attempts:
  "og_attempts (fst (applyAttempt env event stream h a s)) =
     updateWhere (\<lambda>y. oa_id y = oa_id a) (attemptAfter env event stream h a) (og_attempts (fst s))"
proof -
  obtain st n m where s: "s = (st, n, m)" by (cases s)
  show ?thesis
  proof (cases "targetState (decide env stream a)")
    case None
    then show ?thesis by (simp add: s applyAttempt_def updateAttempt_def after_defs updateWhere_def)
  next
    case (Some state)
    then show ?thesis
      by (auto simp: s applyAttempt_def updateAttempt_def after_defs Let_def updateWhere_def
          split: revalidation_decision.split cong: if_cong)
  qed
qed

lemma attemptAfter_id [simp]: "oa_id (attemptAfter env event stream h a y) = oa_id y"
  by (simp add: after_defs split: option.split revalidation_decision.split)

lemma fold_applyAttempt_attempts:
  "og_attempts (fst (fold (applyAttempt env event stream h) as s)) =
     fold (\<lambda>a. updateWhere (\<lambda>y. oa_id y = oa_id a) (attemptAfter env event stream h a)) as (og_attempts (fst s))"
  by (induction as arbitrary: s) (simp_all add: applyAttempt_attempts)

definition heldBy :: "time_ms \<Rightarrow> dialer_attempt \<Rightarrow> dialer_attempt \<Rightarrow> dialer_attempt" where
  "heldBy now attempt a = (if oa_realtimeState attempt = RT_IN_PROGRESS then a\<lparr>oa_nextOutboundBlocked := True\<rparr>
     else (stopped RT_HELD a)\<lparr>oa_cancelRequestedAt := Some now\<rparr>)"

lemma fold_holdAttempt_attempts:
  "og_attempts (fold (holdAttempt now) as st) =
     fold (\<lambda>a. updateWhere (\<lambda>y. oa_id y = oa_id a) (heldBy now a)) as (og_attempts st)"
proof -
  have "og_attempts (holdAttempt now a st) = updateWhere (\<lambda>y. oa_id y = oa_id a) (heldBy now a) (og_attempts st)" for a st
    by (simp add: holdAttempt_def updateAttempt_def updateWhere_def heldBy_def stopped_def)
  then show ?thesis by (induction as arbitrary: st) simp_all
qed

lemma hold_attempts:
  assumes "distinct (map oa_id (og_attempts st))"
  shows "og_attempts (fst (holdMatchingAttempts event scope now st)) =
    map (\<lambda>a. if attemptInScope event scope a then heldBy now a a else a) (og_attempts st)"
  using fold_update_filtered [of oa_id "heldBy now", OF _ assms]
  by (simp add: holdMatchingAttempts_def Let_def fold_holdAttempt_attempts attemptsFor_def heldBy_def stopped_def)

lemma recordInbox_attempts [simp]: "og_attempts (recordInbox env i event agg h s n r st) = og_attempts st"
  by (simp add: recordInbox_def Let_def split: option.split)

lemma complete_attempts [simp]: "og_attempts (fst (complete env i event agg h out n q r d st)) = og_attempts st"
  by (simp add: complete_def Let_def)

text \<open>What the whole handler does to the attempts, as one function of the row.\<close>

definition eventEffect :: "dialer_env \<Rightarrow> canonical_event \<Rightarrow> dialer_store \<Rightarrow> dialer_attempt \<Rightarrow> dialer_attempt" where
  "eventEffect env event st a =
     (case classifyGovernanceEvent (dl_downstream env) (ke_envelope event) of
        NotGovernance \<Rightarrow> a
      | Rejected _ \<Rightarrow> if attemptInScope event None a then heldBy (dl_now env) a a else a
      | Accepted stream \<Rightarrow>
          (case positionOf env event stream (de_payloadDigest stream) st of
             PosDuplicate \<Rightarrow> a
           | PosSuperseded \<Rightarrow> a
           | PosHashConflict _ \<Rightarrow> if attemptInScope event (Some (de_scope stream)) a then heldBy (dl_now env) a a else a
           | PosGap _ _ \<Rightarrow> if attemptInScope event (Some (de_scope stream)) a then heldBy (dl_now env) a a else a
           | PosApply \<Rightarrow>
               if de_effect stream \<noteq> NO_OP_EFFECT \<and> attemptInScope event (Some (de_scope stream)) a
               then attemptAfter env event stream (de_payloadDigest stream) a a else a))"

definition completed :: "dialer_env \<Rightarrow> canonical_event \<Rightarrow> dialer_store \<Rightarrow> bool" where
  "completed env event st \<longleftrightarrow> (case findInbox env event st of None \<Rightarrow> False | Some row \<Rightarrow> gi_state row \<noteq> GS_GAP)"

lemma applyStream_attempts:
  assumes "distinct (map oa_id (og_attempts st))"
  shows "og_attempts (fst (applyStream env i event stream h st)) =
    map (\<lambda>a. if de_effect stream \<noteq> NO_OP_EFFECT \<and> attemptInScope event (Some (de_scope stream)) a
             then attemptAfter env event stream h a a else a) (og_attempts st)"
proof (cases "de_effect stream = NO_OP_EFFECT")
  case True
  then show ?thesis by (simp add: applyStream_def)
next
  case False
  let ?s = "fold (applyAttempt env event stream h) (attemptsFor event (Some (de_scope stream)) st) (st, 0, False)"
  have "og_attempts (fst ?s) = map (\<lambda>a. if attemptInScope event (Some (de_scope stream)) a
      then attemptAfter env event stream h a a else a) (og_attempts st)"
    using fold_update_filtered [of oa_id "attemptAfter env event stream h", OF _ assms]
    by (simp add: fold_applyAttempt_attempts attemptsFor_def)
  moreover obtain st1 n m where "?s = (st1, n, m)" by (cases ?s)
  ultimately show ?thesis using False by (simp add: applyStream_def)
qed

lemma apply_attempts:
  assumes "distinct (map oa_id (og_attempts st))" and "applyEvent env event st = Inr (st', r)"
  shows "og_attempts st' = map (if completed env event st then (\<lambda>a. a) else eventEffect env event st) (og_attempts st)"
proof -
  note hold = hold_attempts [OF assms(1)]
  show ?thesis
  proof (cases "completed env event st")
    case True
    with assms(2) show ?thesis
      by (auto simp: applyEvent_def completed_def Let_def split: option.splits if_splits classification.splits)
  next
    case False
    then have settled: "(case findInbox env event st of None \<Rightarrow> None
        | Some row \<Rightarrow> if gi_state row = GS_GAP then None else Some row) = None"
      by (auto simp: completed_def split: option.split)
    note a = assms(2) [unfolded applyEvent_def Let_def settled option.case]
    show ?thesis
    proof (cases "classifyGovernanceEvent (dl_downstream env) (ke_envelope event)")
      case NotGovernance
      with a show ?thesis by (auto split: if_splits)
    next
      case (Rejected rejection)
      obtain st1 n where h: "holdMatchingAttempts event None (dl_now env) st = (st1, n)" by fastforce
      have "(st', r) = applyRejected env (map_option gi_id (findInbox env event st)) event rejection st"
        using a Rejected by (auto split: if_splits)
      then have "og_attempts st' = og_attempts st1"
        by (auto simp: applyRejected_def h dest!: arg_cong [where f = fst])
      with hold [of event None "dl_now env"] False show ?thesis by (simp add: h eventEffect_def Rejected)
    next
      case (Accepted stream)
      have e: "(st', r) = applyAccepted env (map_option gi_id (findInbox env event st)) event stream st"
        using a Accepted by (auto split: if_splits)
      then have "og_attempts st' = og_attempts (fst (applyAccepted env (map_option gi_id (findInbox env event st)) event stream st))"
        by (metis fst_conv)
      with False show ?thesis
        by (cases "positionOf env event stream (de_payloadDigest stream) st")
          (simp_all add: applyAccepted_def eventEffect_def [abs_def] Accepted Let_def hold applyStream_attempts [OF assms(1)])
    qed
  qed
qed

section \<open>Governance only ever withdraws work\<close>

text \<open>
  From one store to a later one an attempt keeps its identity and its bindings, a call in progress and
  an attempt that is already stopped keep their state, and any other attempt keeps its state or is
  stopped with its next outbound call blocked.
\<close>

definition STOP_STATES :: "realtime_state list" where
  "STOP_STATES = [RT_CANCELLED, RT_DEFERRED, RT_PARKED, RT_HELD, RT_CANCEL_REQUESTED]"

definition sameWork :: "dialer_attempt \<Rightarrow> dialer_attempt \<Rightarrow> bool" where
  "sameWork a b \<longleftrightarrow> oa_id b = oa_id a \<and> oa_tenantId b = oa_tenantId a \<and> oa_actionKey b = oa_actionKey a \<and>
     oa_contactId b = oa_contactId a \<and> oa_identityId b = oa_identityId a \<and> oa_channel b = oa_channel a \<and>
     oa_purpose b = oa_purpose a \<and> oa_reservationId b = oa_reservationId a \<and> oa_deliveryId b = oa_deliveryId a \<and>
     oa_providerRequestKey b = oa_providerRequestKey a"

definition withdrawn :: "dialer_attempt \<Rightarrow> dialer_attempt \<Rightarrow> bool" where
  "withdrawn a b \<longleftrightarrow> sameWork a b \<and> (oa_nextOutboundBlocked a \<longrightarrow> oa_nextOutboundBlocked b) \<and>
     (oa_realtimeState b = oa_realtimeState a \<or>
      oa_realtimeState a \<in> set ACTIVE_STATES - {RT_IN_PROGRESS} \<and> oa_realtimeState b \<in> set STOP_STATES \<and>
      oa_nextOutboundBlocked b)"

lemma withdrawn_refl: "withdrawn a a"
  by (simp add: withdrawn_def sameWork_def)

lemma withdrawn_trans: "withdrawn a b \<Longrightarrow> withdrawn b c \<Longrightarrow> withdrawn a c"
  by (auto simp: withdrawn_def sameWork_def)

lemma active_cases:
  "s \<in> set ACTIVE_STATES \<longleftrightarrow> s = RT_IN_PROGRESS \<or> s \<in> set PRE_BARRIER_STATES \<or> s \<in> set POST_BARRIER_STATES"
  by (cases s) (simp_all add: ACTIVE_STATES_def PRE_BARRIER_STATES_def POST_BARRIER_STATES_def)

lemma in_progress_barrier [simp]: "RT_IN_PROGRESS \<notin> set PRE_BARRIER_STATES" "RT_IN_PROGRESS \<notin> set POST_BARRIER_STATES"
  by (simp_all add: PRE_BARRIER_STATES_def POST_BARRIER_STATES_def)

lemma target_is_stop: "targetState d = Some s \<Longrightarrow> s \<in> set STOP_STATES"
  by (cases d) (auto simp: STOP_STATES_def)

lemma heldBy_withdrawn: "attemptInScope event scope a \<Longrightarrow> withdrawn a (heldBy now a a)"
  by (auto simp: attemptInScope_def heldBy_def stopped_def withdrawn_def sameWork_def STOP_STATES_def)

lemma attemptAfter_sameWork: "sameWork a (attemptAfter env event stream h x a)"
  by (simp add: after_defs sameWork_def split: option.split revalidation_decision.split)

text \<open>The state and the flag an applied event leaves, on an active attempt.\<close>

lemma attemptAfter_blocked:
  assumes "oa_realtimeState a \<in> set ACTIVE_STATES"
  shows "oa_nextOutboundBlocked (attemptAfter env event stream h a a) \<longleftrightarrow>
    oa_nextOutboundBlocked a \<or> decide env stream a \<noteq> DecideAllow"
  using assms unfolding active_cases
  by (cases "decide env stream a") (auto simp: after_defs)

lemma attemptAfter_state:
  assumes "oa_realtimeState a \<in> set ACTIVE_STATES"
  shows "if decide env stream a = DecideAllow \<or> oa_realtimeState a = RT_IN_PROGRESS
    then oa_realtimeState (attemptAfter env event stream h a a) = oa_realtimeState a
    else oa_realtimeState (attemptAfter env event stream h a a) \<in> set STOP_STATES"
  using assms unfolding active_cases
  by (cases "decide env stream a") (auto simp: after_defs STOP_STATES_def)

lemma attemptAfter_withdrawn:
  assumes "attemptInScope event scope a"
  shows "withdrawn a (attemptAfter env event stream h a a)"
proof -
  have "oa_realtimeState a \<in> set ACTIVE_STATES" using assms by (simp add: attemptInScope_def)
  with attemptAfter_sameWork attemptAfter_blocked [OF this] attemptAfter_state [OF this] show ?thesis
    by (smt (verit, best) Diff_iff singletonD withdrawn_def)
qed

lemma eventEffect_withdrawn: "withdrawn a (eventEffect env event st a)"
  by (auto simp: eventEffect_def withdrawn_refl
      intro: heldBy_withdrawn attemptAfter_withdrawn split: classification.split stream_position.split)

lemma apply_withdrawn:
  assumes "distinct (map oa_id (og_attempts st))" and "applyEvent env event st = Inr (st', r)"
  shows "list_all2 withdrawn (og_attempts st) (og_attempts st')"
  using apply_attempts [OF assms]
  by (simp add: list_all2_map2 list.rel_refl withdrawn_refl eventEffect_withdrawn)

lemma resume_attempts:
  assumes "resumeDialer env i st = Inr (st', r)"
  shows "og_attempts st' = og_attempts st"
  using assms by (auto simp: resumeDialer_def Let_def split: if_splits option.splits)

text \<open>
  The life of a store: events delivered by the broker or applied again directly, canonical reloads, and
  the two relays.
\<close>

inductive dialer_step :: "dialer_store \<Rightarrow> dialer_store \<Rightarrow> bool" where
  event: "applyEvent env event st = Inr (st', r) \<Longrightarrow> dialer_step st st'"
| delivery: "executeDelivery env event st = Inr (st', d) \<Longrightarrow> dialer_step st st'"
| reload: "resumeDialer env i st = Inr (st', c) \<Longrightarrow> dialer_step st st'"
| effect: "executeNext now locked settlement retry t (og_effects st) = (rows, b) \<Longrightarrow>
    dialer_step st (st\<lparr>og_effects := rows\<rparr>)"
| acknowledge: "publishAcknowledgement now locked send t (og_acks st) = (rows, b) \<Longrightarrow>
    dialer_step st (st\<lparr>og_acks := rows\<rparr>)"

lemma step_withdrawn:
  assumes "dialer_step st st'" and "distinct (map oa_id (og_attempts st))"
  shows "list_all2 withdrawn (og_attempts st) (og_attempts st')"
  using assms
proof cases
  case (event env event r)
  with assms(2) show ?thesis by (blast intro: apply_withdrawn)
next
  case (delivery env event d)
  then consider "st' = st" | r where "applyEvent env event st = Inr (st', r)"
    by (auto simp: executeDelivery_def rbind_eq_Inr_iff split: option.splits if_splits)
  then show ?thesis using assms(2) by cases (auto simp: list.rel_refl withdrawn_refl intro: apply_withdrawn)
qed (auto simp: resume_attempts list.rel_refl withdrawn_refl)

lemma list_all2_ids: "list_all2 withdrawn as bs \<Longrightarrow> map oa_id bs = map oa_id as"
  by (induction rule: list_all2_induct) (auto simp: withdrawn_def sameWork_def)

text \<open>
  C6. Whatever Contact Governance publishes, in any order and however often it is delivered, and
  whatever is reloaded, no attempt is resumed: every attempt keeps its identity and bindings, a blocked
  attempt stays blocked, a call in progress is not cut, a stopped attempt keeps its state, and an attempt
  that changes state is stopped with its next outbound call blocked.
\<close>

theorem stopped_work_is_never_resumed:
  assumes "dialer_step\<^sup>*\<^sup>* st st'" and "distinct (map oa_id (og_attempts st))"
  shows "list_all2 withdrawn (og_attempts st) (og_attempts st')"
  using assms(1)
proof (induction rule: rtranclp_induct)
  case base
  show ?case by (simp add: list.rel_refl withdrawn_refl)
next
  case (step s t)
  then have "list_all2 withdrawn (og_attempts s) (og_attempts t)"
    using step_withdrawn list_all2_ids assms(2) by metis
  with step.IH show ?case by (rule list_all2_trans [of withdrawn, rotated 1]) (rule withdrawn_trans)
qed

section \<open>A withdrawn scope is stopped\<close>

text \<open>Whether a not yet completed event takes an attempt out of work.\<close>

definition stops :: "dialer_env \<Rightarrow> canonical_event \<Rightarrow> dialer_store \<Rightarrow> dialer_attempt \<Rightarrow> bool" where
  "stops env event st a =
     (case classifyGovernanceEvent (dl_downstream env) (ke_envelope event) of
        NotGovernance \<Rightarrow> False
      | Rejected _ \<Rightarrow> attemptInScope event None a
      | Accepted stream \<Rightarrow> attemptInScope event (Some (de_scope stream)) a \<and>
          (case positionOf env event stream (de_payloadDigest stream) st of
             PosDuplicate \<Rightarrow> False
           | PosSuperseded \<Rightarrow> False
           | PosHashConflict _ \<Rightarrow> True
           | PosGap _ _ \<Rightarrow> True
           | PosApply \<Rightarrow> de_effect stream \<noteq> NO_OP_EFFECT \<and> decide env stream a \<noteq> DecideAllow))"

lemma scope_active: "attemptInScope event scope a \<Longrightarrow> oa_realtimeState a \<in> set ACTIVE_STATES"
  by (simp add: attemptInScope_def)

lemma eventEffect_blocked:
  "oa_nextOutboundBlocked (eventEffect env event st a) \<longleftrightarrow> oa_nextOutboundBlocked a \<or> stops env event st a"
  by (auto simp: eventEffect_def stops_def heldBy_def stopped_def attemptAfter_blocked [OF scope_active]
      split: classification.split stream_position.split)

lemma eventEffect_state:
  "if stops env event st a \<and> oa_realtimeState a \<noteq> RT_IN_PROGRESS
   then oa_realtimeState (eventEffect env event st a) \<in> set STOP_STATES
   else oa_realtimeState (eventEffect env event st a) = oa_realtimeState a"
proof -
  have "oa_realtimeState (heldBy n x x) = (if oa_realtimeState x = RT_IN_PROGRESS then RT_IN_PROGRESS else RT_HELD)" for n x
    by (simp add: heldBy_def stopped_def)
  moreover have "RT_HELD \<in> set STOP_STATES" by (simp add: STOP_STATES_def)
  ultimately show ?thesis using attemptAfter_state [OF scope_active, of event _ a env]
    by (auto simp: eventEffect_def stops_def split: classification.split stream_position.split)
qed

text \<open>
  C7. An event that was not completed before blocks exactly the attempts it takes out of work: those it
  covers when it is rejected, when it leaves a gap, when it contradicts an applied event, when it is an
  active kill switch, and when Contact Governance does not re-authorize them. They leave the queue for a
  stop state unless they are calls in progress; every other attempt keeps its state and its flag.
\<close>

theorem withdrawn_scope_is_stopped:
  assumes "distinct (map oa_id (og_attempts st))" and "applyEvent env event st = Inr (st', r)"
    and "\<not> completed env event st"
  shows "list_all2 (\<lambda>a b. oa_id b = oa_id a \<and>
      (oa_nextOutboundBlocked b \<longleftrightarrow> oa_nextOutboundBlocked a \<or> stops env event st a) \<and>
      (if stops env event st a \<and> oa_realtimeState a \<noteq> RT_IN_PROGRESS
       then oa_realtimeState b \<in> set STOP_STATES else oa_realtimeState b = oa_realtimeState a))
    (og_attempts st) (og_attempts st')"
proof -
  have "oa_id (eventEffect env event st a) = oa_id a" for a
    using eventEffect_withdrawn [of a env event st] by (simp add: withdrawn_def sameWork_def)
  with eventEffect_blocked eventEffect_state show ?thesis
    using apply_attempts [OF assms(1,2)] assms(3) by (simp add: list_all2_map2 list.rel_refl_strong)
qed

section \<open>A stopped reservation is released or reconciled\<close>

definition staged :: "canonical_event \<Rightarrow> dialer_attempt \<Rightarrow> effect_kind \<Rightarrow> dialer_store \<Rightarrow> bool" where
  "staged event a kind st \<longleftrightarrow> list_ex (\<lambda>e. ef_tenantId e = ke_tenantId event \<and> ef_eventId e = ke_eventId event \<and>
     ef_attemptId e = oa_id a \<and> ef_kind e = kind) (og_effects st)"

text \<open>What taking an attempt out of work owes: a release, a reconciliation, or a failed acknowledgement.\<close>

definition owed :: "dialer_attempt \<Rightarrow> effect_kind option" where
  "owed a = (if oa_realtimeState a \<in> {RT_RESERVED, RT_PRE_BARRIER} then Some RELEASE_BEFORE_BARRIER
     else if oa_realtimeState a \<in> set POST_BARRIER_STATES then Some REQUEST_RECONCILE else None)"

definition bindingMissing :: "dialer_attempt \<Rightarrow> bool" where
  "bindingMissing a \<longleftrightarrow> (case owed a of
      None \<Rightarrow> False
    | Some RELEASE_BEFORE_BARRIER \<Rightarrow> \<not> truthyText (oa_reservationId a)
    | Some REQUEST_RECONCILE \<Rightarrow> \<not> bound a)"

lemma stage_staged: "staged event b k (stageEffect env event a kind st) \<longleftrightarrow>
    staged event b k st \<or> oa_id b = oa_id a \<and> k = kind"
  by (auto simp: staged_def stageEffect_def list_ex_iff)

lemma updateAttempt_staged [simp]: "staged event b k (updateAttempt i f st) = staged event b k st"
  by (simp add: staged_def updateAttempt_def)

lemma applyAttempt_outcome:
  assumes "oa_realtimeState a \<in> set ACTIVE_STATES"
  shows "case applyAttempt env event stream h a (st, n, missing) of (st', n', missing') \<Rightarrow>
    (missing' \<longleftrightarrow> missing \<or> decide env stream a \<noteq> DecideAllow \<and> bindingMissing a) \<and>
    (\<forall>b k. staged event b k st' \<longleftrightarrow> staged event b k st \<or> oa_id b = oa_id a \<and>
      decide env stream a \<noteq> DecideAllow \<and> owed a = Some k \<and> \<not> bindingMissing a)"
  using assms
  by (cases "decide env stream a"; cases "oa_realtimeState a")
    (auto simp: applyAttempt_def Let_def stage_staged owed_def bindingMissing_def bound_def
      ACTIVE_STATES_def PRE_BARRIER_STATES_def POST_BARRIER_STATES_def)

lemma fold_applyAttempt_outcome:
  assumes "\<forall>a\<in>set as. oa_realtimeState a \<in> set ACTIVE_STATES"
    and "fold (applyAttempt env event stream h) as (st, n, missing) = (st', n', missing')"
  shows "(missing' \<longleftrightarrow> missing \<or> (\<exists>a\<in>set as. decide env stream a \<noteq> DecideAllow \<and> bindingMissing a)) \<and>
    (staged event b k st' \<longleftrightarrow> staged event b k st \<or>
      (\<exists>a\<in>set as. oa_id b = oa_id a \<and> decide env stream a \<noteq> DecideAllow \<and> owed a = Some k \<and> \<not> bindingMissing a))"
  using assms
proof (induction as arbitrary: st n missing)
  case (Cons a as)
  obtain st1 n1 m1 where s: "applyAttempt env event stream h a (st, n, missing) = (st1, n1, m1)"
    by (cases "applyAttempt env event stream h a (st, n, missing)")
  with Cons.prems have "fold (applyAttempt env event stream h) as (st1, n1, m1) = (st', n', missing')" by simp
  note Cons.IH [OF _ this]
  moreover have "(m1 \<longleftrightarrow> missing \<or> decide env stream a \<noteq> DecideAllow \<and> bindingMissing a) \<and>
      (staged event b k st1 \<longleftrightarrow> staged event b k st \<or> oa_id b = oa_id a \<and>
        decide env stream a \<noteq> DecideAllow \<and> owed a = Some k \<and> \<not> bindingMissing a)"
    using applyAttempt_outcome [where a = a and env = env and event = event and stream = stream and h = h
        and st = st and n = n and missing = missing] Cons.prems(1) by (simp add: s)
  ultimately show ?case using Cons.prems(1) by auto
qed simp

lemma staged_complete [simp]:
  "staged event b k (fst (complete env i event agg h out n q r d st)) = staged event b k st"
  by (simp add: staged_def complete_def recordInbox_def Let_def split: option.split)

text \<open>The acknowledgement of the event by this consumer.\<close>

definition acknowledges :: "dialer_env \<Rightarrow> canonical_event \<Rightarrow> acknowledgement_row \<Rightarrow> bool" where
  "acknowledges env event k \<longleftrightarrow> ak_tenantId k = ke_tenantId event \<and> ak_eventId k = ke_eventId event \<and>
     ak_consumer k = dl_consumer env \<and> ak_appliedVersion k = ee_aggregateVersion (ke_envelope event)"

lemma recordInbox_acks [simp]: "og_acks (recordInbox env i event agg h s n r st) = og_acks st"
  by (simp add: recordInbox_def Let_def split: option.split)

lemma complete_acks:
  assumes "\<not> list_ex (acknowledges env event) (og_acks st)"
  shows "\<exists>k. og_acks (fst (complete env i event agg h out n q r d st)) = og_acks st @ [k] \<and>
    acknowledges env event k \<and> ak_outcome k = out"
  using assms by (auto simp: complete_def acknowledges_def [abs_def] Let_def)

lemma stage_acks [simp]: "og_acks (stageEffect env event a kind st) = og_acks st"
  by (simp add: stageEffect_def)

lemma applyAttempt_acks: "og_acks (fst (applyAttempt env event stream h a s)) = og_acks (fst s)"
  by (cases s) (simp add: applyAttempt_def updateAttempt_def Let_def split: option.split)

lemma fold_applyAttempt_acks: "og_acks (fst (fold (applyAttempt env event stream h) as s)) = og_acks (fst s)"
  by (induction as arbitrary: s) (simp_all add: applyAttempt_acks)

text \<open>What the application of an event stages and acknowledges.\<close>

lemma applyStream_settles:
  fixes st :: dialer_store and stream :: downstream_event and i :: "string option" and h :: string
  assumes "distinct (map oa_id (og_attempts st))" and "\<not> list_ex (acknowledges env event) (og_acks st)"
  defines "out \<equiv> (\<lambda>a. de_effect stream \<noteq> NO_OP_EFFECT \<and> attemptInScope event (Some (de_scope stream)) a \<and>
    decide env stream a \<noteq> DecideAllow)"
    and "st' \<equiv> fst (applyStream env i event stream h st)"
  shows "a \<in> set (og_attempts st) \<Longrightarrow>
      staged event a kind st' \<longleftrightarrow> staged event a kind st \<or> out a \<and> owed a = Some kind \<and> \<not> bindingMissing a"
    and "\<exists>k. og_acks st' = og_acks st @ [k] \<and> acknowledges env event k \<and>
      (ak_outcome k = ACK_FAILED \<longleftrightarrow> (\<exists>a\<in>set (og_attempts st). out a \<and> bindingMissing a))"
proof -
  let ?as = "attemptsFor event (Some (de_scope stream)) st"
  obtain st1 n m where f: "fold (applyAttempt env event stream h) ?as (st, 0, False) = (st1, n, m)"
    by (cases "fold (applyAttempt env event stream h) ?as (st, 0, False)")
  have active: "\<forall>a\<in>set ?as. oa_realtimeState a \<in> set ACTIVE_STATES"
    by (auto simp: attemptsFor_def dest: scope_active)
  note fold = fold_applyAttempt_outcome [OF active f]
  have member: "a \<in> set ?as \<longleftrightarrow> a \<in> set (og_attempts st) \<and> attemptInScope event (Some (de_scope stream)) a" for a
    by (auto simp: attemptsFor_def)
  have acks: "og_acks st1 = og_acks st"
    using fold_applyAttempt_acks [of env event stream h ?as "(st, 0, False)"] by (simp add: f)
  show "staged event a kind st' \<longleftrightarrow> staged event a kind st \<or> out a \<and> owed a = Some kind \<and> \<not> bindingMissing a"
    if mem: "a \<in> set (og_attempts st)"
  proof (cases "de_effect stream = NO_OP_EFFECT")
    case False
    have "b = a" if "b \<in> set ?as" "oa_id a = oa_id b" for b
      using assms(1) mem that by (auto simp: member distinct_map dest: inj_onD)
    with False mem fold [of a kind] f show ?thesis
      by (auto simp: st'_def applyStream_def out_def member)
  qed (simp add: st'_def applyStream_def out_def)
  show "\<exists>k. og_acks st' = og_acks st @ [k] \<and> acknowledges env event k \<and>
      (ak_outcome k = ACK_FAILED \<longleftrightarrow> (\<exists>a\<in>set (og_attempts st). out a \<and> bindingMissing a))"
  proof (cases "de_effect stream = NO_OP_EFFECT")
    case True
    with complete_acks [OF assms(2), where out = ACK_NO_OP] show ?thesis
      by (fastforce simp: st'_def applyStream_def out_def)
  next
    case False
    let ?out = "if m then ACK_FAILED else if n \<noteq> 0 then ACK_APPLIED else ACK_NO_OP"
    have new: "\<not> list_ex (acknowledges env event) (og_acks st1)" using assms(2) by (simp add: acks)
    have st': "st' = fst (complete env i event (de_aggregate stream) h ?out n None None
        (Some (de_stateDigest stream)) st1)"
      using False f by (simp add: st'_def applyStream_def)
    from complete_acks [OF new] obtain k where "og_acks st' = og_acks st @ [k]" "acknowledges env event k"
      "ak_outcome k = ?out"
      unfolding st' acks by blast
    moreover have "?out = ACK_FAILED \<longleftrightarrow> (\<exists>a\<in>set (og_attempts st). out a \<and> bindingMissing a)"
      using fold False by (auto simp: out_def member)
    ultimately show ?thesis by (intro exI [of _ k] conjI) simp_all
  qed
qed

text \<open>
  C12. An event that is applied settles what it stops. A reservation that was made but not submitted is
  queued for release and a call that was submitted is queued for reconciliation, each exactly when the
  bindings this needs are present; an attempt that is only queued holds no reservation and a call in
  progress is left to end, so neither is owed anything; nothing is queued for an attempt the event does
  not stop. The one acknowledgement row the event writes says FAILED exactly when a stopped attempt
  lacks its bindings.
\<close>

theorem stopped_reservation_is_settled:
  assumes "distinct (map oa_id (og_attempts st))" and "applyEvent env event st = Inr (st', r)"
    and "\<not> completed env event st" and "\<not> list_ex (acknowledges env event) (og_acks st)"
    and "classifyGovernanceEvent (dl_downstream env) (ke_envelope event) = Accepted stream"
    and "positionOf env event stream (de_payloadDigest stream) st = PosApply"
  shows "(\<forall>a\<in>set (og_attempts st). \<forall>kind.
      (staged event a kind st' \<longleftrightarrow>
        staged event a kind st \<or> stops env event st a \<and> owed a = Some kind \<and> \<not> bindingMissing a) \<and>
      (stops env event st a \<and> owed a = None \<longrightarrow> oa_realtimeState a \<in> {RT_QUEUED, RT_IN_PROGRESS})) \<and>
    (\<exists>k. og_acks st' = og_acks st @ [k] \<and> acknowledges env event k \<and>
      (ak_outcome k = ACK_FAILED \<longleftrightarrow> (\<exists>a\<in>set (og_attempts st). stops env event st a \<and> bindingMissing a)))"
proof -
  let ?i = "map_option gi_id (findInbox env event st)"
  have "(st', r) = applyAccepted env ?i event stream st"
    using assms(2,3,5) by (auto simp: applyEvent_def completed_def Let_def split: option.splits if_splits)
  then have st': "st' = fst (applyStream env ?i event stream (de_payloadDigest stream) st)"
    using assms(6) by (simp add: applyAccepted_def Let_def) (metis fst_conv)
  have stops: "stops env event st a \<longleftrightarrow> de_effect stream \<noteq> NO_OP_EFFECT \<and>
      attemptInScope event (Some (de_scope stream)) a \<and> decide env stream a \<noteq> DecideAllow" for a
    using assms(5,6) by (auto simp: stops_def)
  have "oa_realtimeState a \<in> {RT_QUEUED, RT_IN_PROGRESS}" if "stops env event st a" "owed a = None" for a
    using that scope_active [of event "Some (de_scope stream)" a] unfolding stops active_cases
    by (auto simp: owed_def PRE_BARRIER_STATES_def split: if_splits)
  with applyStream_settles [OF assms(1,4), where stream = stream and i = ?i and h = "de_payloadDigest stream"] show ?thesis
    unfolding st' stops by blast
qed

section \<open>A sample campaign\<close>

definition sample_downstream :: downstream_env where
  "sample_downstream = \<lparr> dn_sha256 = (\<lambda>s. s), dn_show = (\<lambda>r. if r = 1 then ''1'' else ''2''),
     dn_collationKey = (\<lambda>_. []), dn_parseDate = (\<lambda>_. Some 0), dn_toISO = (\<lambda>_. ''1970-01-01T00:00:00.000Z'') \<rparr>"

definition sample_dialer :: "nat \<Rightarrow> dialer_env" where
  "sample_dialer n = \<lparr> dl_consumer = ''dialer'', dl_downstream = sample_downstream,
     dl_revalidate = (\<lambda>_ _. DecideBlock ''CONSENT_WITHDRAWN''), dl_fresh = (\<lambda>_. replicate (Suc n) CHR ''x''),
     dl_now = 1000, dl_dbNow = 1000 \<rparr>"

definition sample_consent :: "string \<Rightarrow> int \<Rightarrow> canonical_event" where
  "sample_consent eventId v = \<lparr> ke_canonical = True, ke_tenantId = ''t1'', ke_eventId = eventId, ke_correlationId = ''corr'',
     ke_envelope = \<lparr> ee_type = ''consent.changed'', ee_aggregateType = ''contact_governance_contact'',
       ee_aggregateId = ''c1'', ee_aggregateVersion = v,
       ee_payload = JObj [(''contractVersion'', jint 1), (''subjectVersion'', jint v), (''affectedScope'', JObj []),
         (''mutationId'', JStr ''m''), (''stateDigest'', JStr (replicate 64 CHR ''a'')),
         (''effectiveAt'', JStr ''now'')] \<rparr> \<rparr>"

definition sample_attempt :: "string \<Rightarrow> realtime_state \<Rightarrow> dialer_attempt" where
  "sample_attempt i s = \<lparr> oa_id = i, oa_tenantId = ''t1'', oa_actionKey = i, oa_contactId = ''c1'', oa_identityId = ''id1'',
     oa_channel = ''VOICE'', oa_purpose = ''SALES'', oa_reservationId = Some ''r'', oa_realtimeState = s,
     oa_nextEligibleAt = None, oa_appliedAggregateVersion = None, oa_appliedPayloadHash = None,
     oa_deliveryId = Some ''d'', oa_providerRequestKey = Some ''p'', oa_cancelRequestedAt = None,
     oa_nextOutboundBlocked = False \<rparr>"

definition sample_campaign :: dialer_store where
  "sample_campaign = \<lparr> og_attempts = [sample_attempt ''queued'' RT_QUEUED, sample_attempt ''reserved'' RT_RESERVED,
     sample_attempt ''submitted'' RT_POST_BARRIER, sample_attempt ''talking'' RT_IN_PROGRESS],
     og_inbox = [], og_acks = [], og_effects = [] \<rparr>"

definition applied :: "dialer_error + dialer_store \<times> apply_result \<Rightarrow> dialer_store" where
  "applied x = (case x of Inl _ \<Rightarrow> sample_campaign | Inr p \<Rightarrow> fst p)"

definition sample_withdrawn :: dialer_store where
  "sample_withdrawn = applied (applyEvent (sample_dialer 0) (sample_consent ''e1'' 1) sample_campaign)"

definition sample_gap :: dialer_store where
  "sample_gap = applied (applyEvent (sample_dialer 0) (sample_consent ''e2'' 2) sample_campaign)"

lemma sample_distinct: "distinct (map oa_id (og_attempts sample_campaign))"
  by (simp add: sample_campaign_def sample_attempt_def)

definition succeeded :: "dialer_error + dialer_store \<times> apply_result \<Rightarrow> bool" where
  "succeeded x = (case x of Inl _ \<Rightarrow> False | Inr _ \<Rightarrow> True)"

lemma succeeded_applied: "succeeded x \<Longrightarrow> \<exists>r. x = Inr (applied x, r)"
  by (cases x) (auto simp: succeeded_def applied_def)

definition sample_stream :: "int \<Rightarrow> downstream_event" where
  "sample_stream v = \<lparr> de_family = FamilyCG3, de_eventType = ''consent.changed'', de_aggregate = AggContact,
     de_aggregateId = ''c1'', de_aggregateVersion = v, de_subjectVersion = v, de_mutationId = ''m'',
     de_transitionKind = None, de_state = None, de_restrictiveness = NEUTRAL, de_effect = REAUTHORIZE,
     de_scope = \<lparr> ds_identityId = None, ds_channel = None, ds_purpose = None, ds_contactKind = None,
       ds_sourceType = None, ds_scopeKey = None \<rparr>,
     de_stateDigest = replicate 64 CHR ''a'', de_effectiveAt = ''1970-01-01T00:00:00.000Z'', de_policyVersion = None,
     de_payloadDigest = governancePayloadDigest sample_downstream (ee_payload (ke_envelope (sample_consent [] v))) \<rparr>"

lemma sample_digest: "lowercaseSha256 (replicate 64 CHR ''a'')"
  by (simp add: lowercaseSha256_def list_all_iff)

lemma sample_accepted:
  assumes "1 \<le> v"
  shows "classifyGovernanceEvent sample_downstream (ke_envelope (sample_consent i v)) = Accepted (sample_stream v)"
proof -
  have "parseCg3Shape sample_downstream (ke_envelope (sample_consent i v)) AggContact h =
      Inr ((sample_stream v)\<lparr>de_payloadDigest := h\<rparr>)" for h
    using assms sample_digest
    by (simp add: sample_consent_def sample_stream_def parseCg3Shape_def objectField_def throw_if_def positiveInteger_def
        jint_def requiredField_def optionalText_def sha256Field_def instantField_def optionalPolicyVersion_def
        sample_downstream_def)
  with assms show ?thesis
    by (simp add: classifyGovernanceEvent_def governanceStreamAggregate_def parseShape_def CG3_CONTACT_EVENT_TYPES_def
        sample_consent_def sample_stream_def Let_def)
qed

lemma sample_succeeds: "1 \<le> v \<Longrightarrow> succeeded (applyEvent (sample_dialer n) (sample_consent i v) st)"
  by (simp add: applyEvent_def succeeded_def sample_accepted sample_dialer_def Let_def) (simp add: sample_consent_def)

lemma sample_fresh: "og_inbox st = [] \<Longrightarrow> \<not> completed env event st"
  by (simp add: completed_def findInbox_def)

lemma sample_position:
  assumes "og_inbox st = []"
  shows "positionOf env (sample_consent i v) stream h st = (if v = 1 then PosApply else PosGap 1 v)"
  using assms by (simp add: positionOf_def cursorRow_def cursorRows_def classifyGovernanceStreamPosition_def
      sample_consent_def Let_def)

lemma sample_covers: "attemptInScope (sample_consent i v) (Some (de_scope (sample_stream w))) (sample_attempt j s) \<longleftrightarrow>
    s \<in> set ACTIVE_STATES"
  by (simp add: attemptInScope_def sample_consent_def sample_stream_def sample_attempt_def governanceScopeCovers_def truthyText_def)

lemma sample_step:
  obtains r where "applyEvent (sample_dialer 0) (sample_consent ''e1'' 1) sample_campaign = Inr (sample_withdrawn, r)"
  using succeeded_applied [OF sample_succeeds, of 1 0 "''e1''" sample_campaign] by (auto simp: sample_withdrawn_def)

lemma sample_gap_step:
  obtains r where "applyEvent (sample_dialer 0) (sample_consent ''e2'' 2) sample_campaign = Inr (sample_gap, r)"
  using succeeded_applied [OF sample_succeeds, of 2 0 "''e2''" sample_campaign] by (auto simp: sample_gap_def)

lemma sample_inbox: "og_inbox sample_campaign = []"
  by (simp add: sample_campaign_def)

theorem stopped_work_is_never_resumed_witness:
  "list_all2 withdrawn (og_attempts sample_campaign) (og_attempts sample_withdrawn)"
proof -
  obtain r where "applyEvent (sample_dialer 0) (sample_consent ''e1'' 1) sample_campaign = Inr (sample_withdrawn, r)"
    by (rule sample_step)
  then have "dialer_step\<^sup>*\<^sup>* sample_campaign sample_withdrawn" by (blast intro: dialer_step.event)
  then show ?thesis using sample_distinct by (rule stopped_work_is_never_resumed)
qed

theorem withdrawn_scope_is_stopped_witness:
  "list_all2 (\<lambda>a b. oa_id b = oa_id a \<and>
      (oa_nextOutboundBlocked b \<longleftrightarrow> oa_nextOutboundBlocked a \<or>
         stops (sample_dialer 0) (sample_consent ''e1'' 1) sample_campaign a) \<and>
      (if stops (sample_dialer 0) (sample_consent ''e1'' 1) sample_campaign a \<and> oa_realtimeState a \<noteq> RT_IN_PROGRESS
       then oa_realtimeState b \<in> set STOP_STATES else oa_realtimeState b = oa_realtimeState a))
    (og_attempts sample_campaign) (og_attempts sample_withdrawn)"
  by (rule sample_step) (rule withdrawn_scope_is_stopped [OF sample_distinct _ sample_fresh [OF sample_inbox]])

lemma sample_stops:
  assumes "s \<in> set ACTIVE_STATES"
  shows "stops (sample_dialer 0) (sample_consent i 1) sample_campaign (sample_attempt j s)"
proof -
  have "classifyGovernanceEvent (dl_downstream (sample_dialer 0)) (ke_envelope (sample_consent i 1)) = Accepted (sample_stream 1)"
    using sample_accepted [of 1 i] by (simp add: sample_dialer_def)
  moreover have "de_effect (sample_stream 1) = REAUTHORIZE" by (simp add: sample_stream_def)
  ultimately show ?thesis using assms
    by (simp add: stops_def sample_covers sample_position sample_inbox decide_def) (simp add: sample_dialer_def)
qed

theorem stopped_reservation_is_settled_witness:
  "staged (sample_consent ''e1'' 1) (sample_attempt ''submitted'' RT_POST_BARRIER) REQUEST_RECONCILE sample_withdrawn \<and>
   staged (sample_consent ''e1'' 1) (sample_attempt ''reserved'' RT_RESERVED) RELEASE_BEFORE_BARRIER sample_withdrawn \<and>
   \<not> staged (sample_consent ''e1'' 1) (sample_attempt ''queued'' RT_QUEUED) RELEASE_BEFORE_BARRIER sample_withdrawn \<and>
   (\<exists>k. og_acks sample_withdrawn = [k] \<and> ak_outcome k \<noteq> ACK_FAILED)"
proof -
  obtain r where r: "applyEvent (sample_dialer 0) (sample_consent ''e1'' 1) sample_campaign = Inr (sample_withdrawn, r)"
    by (rule sample_step)
  have acc: "classifyGovernanceEvent (dl_downstream (sample_dialer 0)) (ke_envelope (sample_consent ''e1'' 1))
      = Accepted (sample_stream 1)"
    using sample_accepted [of 1 "''e1''"] by (simp add: sample_dialer_def)
  have pos: "positionOf (sample_dialer 0) (sample_consent ''e1'' 1) (sample_stream 1) h sample_campaign = PosApply" for h
    by (simp add: sample_position sample_inbox)
  have none: "\<not> list_ex (acknowledges (sample_dialer 0) (sample_consent ''e1'' 1)) (og_acks sample_campaign)"
    and acks: "og_acks sample_campaign = []"
    by (simp_all add: sample_campaign_def)
  note settled = stopped_reservation_is_settled [OF sample_distinct r sample_fresh [OF sample_inbox] none acc pos]
  have attempts: "set (og_attempts sample_campaign) = {sample_attempt ''queued'' RT_QUEUED,
      sample_attempt ''reserved'' RT_RESERVED, sample_attempt ''submitted'' RT_POST_BARRIER,
      sample_attempt ''talking'' RT_IN_PROGRESS}"
    by (simp add: sample_campaign_def)
  have owed: "owed (sample_attempt j RT_POST_BARRIER) = Some REQUEST_RECONCILE"
    "owed (sample_attempt j RT_RESERVED) = Some RELEASE_BEFORE_BARRIER" "owed (sample_attempt j RT_QUEUED) = None"
    "\<not> bindingMissing (sample_attempt j s)" for j s
    by (cases s; simp add: owed_def bindingMissing_def bound_def truthyText_def sample_attempt_def POST_BARRIER_STATES_def)+
  have old: "\<not> staged (sample_consent ''e1'' 1) a kind sample_campaign" for a kind
    by (simp add: staged_def sample_campaign_def)
  have "stops (sample_dialer 0) (sample_consent ''e1'' 1) sample_campaign (sample_attempt j RT_POST_BARRIER)"
    "stops (sample_dialer 0) (sample_consent ''e1'' 1) sample_campaign (sample_attempt j RT_RESERVED)" for j
    by (rule sample_stops; simp add: ACTIVE_STATES_def)+
  with settled owed old show ?thesis unfolding attempts acks by (simp only: ball_simps) auto
qed

section \<open>What a gap leaves behind\<close>

lemma hold_effects: "og_effects (fst (holdMatchingAttempts event scope now st)) = og_effects st"
proof -
  have "og_effects (holdAttempt now a st) = og_effects st" for a st by (simp add: holdAttempt_def updateAttempt_def)
  then have "og_effects (fold (holdAttempt now) as st) = og_effects st" for as by (induction as arbitrary: st) simp_all
  then show ?thesis by (simp add: holdMatchingAttempts_def Let_def)
qed

lemma recordInbox_effects [simp]: "og_effects (recordInbox env i event agg h s n r st) = og_effects st"
  by (simp add: recordInbox_def Let_def split: option.split)

text \<open>
  C29. The consumer promises to ask for a reconciliation of a call that is past the submission barrier.
  When an event leaves a gap, every submitted call it covers becomes HELD instead, no effect is staged
  for it, and no later event covers it: the missing events find nothing left to reconcile.
\<close>

theorem gap_leaves_submitted_calls:
  assumes "distinct (map oa_id (og_attempts st))" and "applyEvent env event st = Inr (st', r)"
    and "\<not> completed env event st"
    and "classifyGovernanceEvent (dl_downstream env) (ke_envelope event) = Accepted stream"
    and "positionOf env event stream (de_payloadDigest stream) st = PosGap expected received"
    and "a \<in> set (og_attempts st)" and "attemptInScope event (Some (de_scope stream)) a"
    and "oa_realtimeState a \<in> set POST_BARRIER_STATES"
  shows "og_effects st' = og_effects st \<and>
    (\<exists>b\<in>set (og_attempts st'). oa_id b = oa_id a \<and> oa_realtimeState b = RT_HELD \<and>
       (\<forall>later scope. \<not> attemptInScope later scope b))"
proof
  have "(st', r) = applyAccepted env (map_option gi_id (findInbox env event st)) event stream st"
    using assms(2-4) by (auto simp: applyEvent_def completed_def Let_def split: option.splits if_splits)
  then show "og_effects st' = og_effects st"
    by (simp add: applyAccepted_def assms(5) Let_def hold_effects)
  have "eventEffect env event st a = heldBy (dl_now env) a a"
    using assms(4,5,7) by (simp add: eventEffect_def)
  moreover have "oa_realtimeState a \<noteq> RT_IN_PROGRESS" using assms(8) by auto
  ultimately have "oa_id (eventEffect env event st a) = oa_id a \<and> oa_realtimeState (eventEffect env event st a) = RT_HELD"
    by (simp add: heldBy_def stopped_def)
  moreover have "eventEffect env event st a \<in> set (og_attempts st')"
    using apply_attempts [OF assms(1,2)] assms(3,6) by simp
  moreover have "\<not> attemptInScope later scope b" if "oa_realtimeState b = RT_HELD" for later scope b
    using that by (simp add: attemptInScope_def ACTIVE_STATES_def)
  ultimately show "\<exists>b\<in>set (og_attempts st'). oa_id b = oa_id a \<and> oa_realtimeState b = RT_HELD \<and>
       (\<forall>later scope. \<not> attemptInScope later scope b)"
    by blast
qed

theorem gap_leaves_submitted_calls_witness:
  "og_effects sample_gap = [] \<and> (\<exists>b\<in>set (og_attempts sample_gap). oa_id b = ''submitted'' \<and> oa_realtimeState b = RT_HELD)"
proof -
  let ?a = "sample_attempt ''submitted'' RT_POST_BARRIER"
  obtain r where r: "applyEvent (sample_dialer 0) (sample_consent ''e2'' 2) sample_campaign = Inr (sample_gap, r)"
    by (rule sample_gap_step)
  have "classifyGovernanceEvent (dl_downstream (sample_dialer 0)) (ke_envelope (sample_consent ''e2'' 2)) = Accepted (sample_stream 2)"
    using sample_accepted [of 2 "''e2''"] by (simp add: sample_dialer_def)
  moreover have "positionOf (sample_dialer 0) (sample_consent ''e2'' 2) (sample_stream 2) h sample_campaign = PosGap 1 2" for h
    by (simp add: sample_position sample_inbox)
  moreover have "?a \<in> set (og_attempts sample_campaign)" by (simp add: sample_campaign_def)
  moreover have "attemptInScope (sample_consent ''e2'' 2) (Some (de_scope (sample_stream 2))) ?a"
    by (simp add: sample_covers ACTIVE_STATES_def)
  moreover have "oa_realtimeState ?a \<in> set POST_BARRIER_STATES" by (simp add: sample_attempt_def POST_BARRIER_STATES_def)
  moreover have "og_effects sample_campaign = []" "oa_id ?a = ''submitted''" by (simp_all add: sample_campaign_def sample_attempt_def)
  ultimately show ?thesis
    using gap_leaves_submitted_calls [OF sample_distinct r sample_fresh [OF sample_inbox]] by metis
qed

end
