(* ===== verification/DialerRecovery.thy ===== *)
theory DialerRecovery
  imports DialerGuarantees
begin

text \<open>
  How the Dialer recovers: a stream that came out of order is caught up by one in-order replay, and an
  effect whose relay stopped between its two transactions is never run again.
\<close>

section \<open>The stream of one aggregate\<close>

definition isStream :: "downstream_env \<Rightarrow> string \<Rightarrow> stream_aggregate \<Rightarrow> string \<Rightarrow> canonical_event list \<Rightarrow> bool" where
  "isStream D T agg aid evs \<longleftrightarrow> distinct (map ke_eventId evs) \<and>
     (\<forall>i<length evs. ke_canonical (evs ! i) \<and> ke_tenantId (evs ! i) = T \<and>
        ee_aggregateId (ke_envelope (evs ! i)) = aid \<and> ee_aggregateVersion (ke_envelope (evs ! i)) = int i + 1 \<and>
        (\<exists>stream. classifyGovernanceEvent D (ke_envelope (evs ! i)) = Accepted stream \<and> de_aggregate stream = agg))"

text \<open>A delivery that raises leaves the store as it was; the broker delivers again.\<close>

definition deliver :: "dialer_env \<times> canonical_event \<Rightarrow> dialer_store \<Rightarrow> dialer_store" where
  "deliver d st = (case executeDelivery (fst d) (snd d) st of Inl _ \<Rightarrow> st | Inr (st', _) \<Rightarrow> st')"

definition rowFor :: "string \<Rightarrow> string \<Rightarrow> stream_aggregate \<Rightarrow> string \<Rightarrow> canonical_event list \<Rightarrow> nat \<Rightarrow> dialer_inbox_row \<Rightarrow> bool" where
  "rowFor C T agg aid evs i r \<longleftrightarrow> gi_consumer r = C \<and> gi_tenantId r = T \<and> gi_aggregateType r = agg \<and>
     gi_aggregateId r = aid \<and> gi_eventId r = ke_eventId (evs ! i) \<and> gi_aggregateVersion r = int i + 1 \<and>
     gi_state r \<in> {GS_APPLIED, GS_NO_OP, GS_GAP}"

definition isCursor :: "dialer_inbox_row \<Rightarrow> bool" where
  "isCursor r \<longleftrightarrow> gi_state r \<in> set CURSOR_STATES"

text \<open>The first \<open>c\<close> events are applied; every other event is unknown or waits as a gap.\<close>

definition prefixApplied ::
  "string \<Rightarrow> string \<Rightarrow> stream_aggregate \<Rightarrow> string \<Rightarrow> canonical_event list \<Rightarrow> nat \<Rightarrow> dialer_inbox_row list \<Rightarrow> bool" where
  "prefixApplied C T agg aid evs c rows \<longleftrightarrow> distinct (map gi_id rows) \<and> distinct (map gi_eventId rows) \<and> c \<le> length evs \<and>
     (\<forall>r\<in>set rows. \<exists>i<length evs. rowFor C T agg aid evs i r \<and> (isCursor r \<longrightarrow> i < c)) \<and>
     (\<forall>i<c. \<exists>r\<in>set rows. rowFor C T agg aid evs i r \<and> isCursor r)"

section \<open>Recording a row\<close>

lemma updateWhere_single:
  assumes "distinct (map key rows)" and "r \<in> set rows" and "\<And>x. key (f x) = key x"
  shows "set (updateWhere (\<lambda>x. key x = key r) f rows) = insert (f r) (set rows - {r})"
    and "map key (updateWhere (\<lambda>x. key x = key r) f rows) = map key rows"
proof -
  have "x = r" if "x \<in> set rows" "key x = key r" for x
    using assms(1,2) that by (auto simp: distinct_map inj_on_def)
  then show "set (updateWhere (\<lambda>x. key x = key r) f rows) = insert (f r) (set rows - {r})"
    using assms(2) by (fastforce simp: updateWhere_def)
  show "map key (updateWhere (\<lambda>x. key x = key r) f rows) = map key rows"
    by (simp add: updateWhere_def assms(3))
qed

lemma prefixApplied_record:
  assumes "prefixApplied C T agg aid evs c rows" and "i < length evs" and "c \<le> i" and "isStream D T agg aid evs"
    and "rowFor C T agg aid evs i x" and "isCursor x \<Longrightarrow> i = c"
    and "set rows' = insert x {r \<in> set rows. gi_eventId r \<noteq> ke_eventId (evs ! i)}"
    and "distinct (map gi_id rows')" and "distinct (map gi_eventId rows')"
  shows "prefixApplied C T agg aid evs (if isCursor x then Suc c else c) rows'"
proof -
  have apart: "ke_eventId (evs ! j) \<noteq> ke_eventId (evs ! i)" if "j < c" for j
    using assms(2,3,4) that nth_eq_iff_index_eq [of "map ke_eventId evs" j i] by (auto simp: isStream_def)
  have old: "\<exists>r\<in>set rows'. rowFor C T agg aid evs j r \<and> isCursor r" if lt: "j < c" for j
  proof -
    obtain r where r: "r \<in> set rows" "rowFor C T agg aid evs j r" "isCursor r"
      using assms(1) lt unfolding prefixApplied_def by blast
    moreover have "gi_eventId r \<noteq> ke_eventId (evs ! i)" using apart [OF lt] r(2) by (simp add: rowFor_def)
    ultimately show ?thesis using assms(7) by blast
  qed
  show ?thesis
    unfolding prefixApplied_def
  proof (intro conjI allI ballI impI)
    show "(if isCursor x then Suc c else c) \<le> length evs" using assms(1,2,6) by (auto simp: prefixApplied_def)
    show "\<exists>j<length evs. rowFor C T agg aid evs j r \<and> (isCursor r \<longrightarrow> j < (if isCursor x then Suc c else c))"
      if "r \<in> set rows'" for r
    proof (cases "r = x")
      case True
      with assms(2,5,6) show ?thesis by auto
    next
      case False
      with that assms(7) have "r \<in> set rows" by blast
      then obtain j where "j < length evs" "rowFor C T agg aid evs j r" "isCursor r \<longrightarrow> j < c"
        using assms(1) unfolding prefixApplied_def by blast
      then show ?thesis by auto
    qed
    show "\<exists>r\<in>set rows'. rowFor C T agg aid evs j r \<and> isCursor r" if "j < (if isCursor x then Suc c else c)" for j
    proof (cases "j < c")
      case False
      with that have "j = c \<and> isCursor x" by (auto split: if_splits)
      with assms(5,6,7) show ?thesis by auto
    qed (rule old)
  qed (use assms(8,9) in auto)
qed

text \<open>What \<open>recordInbox\<close> leaves, for an event whose row is absent or is found by its id.\<close>

lemma recordInbox_rows:
  assumes "distinct (map gi_id (og_inbox st))" and "distinct (map gi_eventId (og_inbox st))"
    and "\<forall>r\<in>set (og_inbox st). gi_consumer r = dl_consumer env \<and> gi_tenantId r = ke_tenantId event"
    and "dl_fresh env FreshInbox \<notin> gi_id ` set (og_inbox st)"
    and "rows' = og_inbox (recordInbox env (map_option gi_id (findInbox env event st)) event agg h s n why st)"
  obtains x where "gi_consumer x = dl_consumer env" "gi_tenantId x = ke_tenantId event" "gi_aggregateType x = agg"
    "gi_aggregateId x = ee_aggregateId (ke_envelope event)" "gi_eventId x = ke_eventId event"
    "gi_aggregateVersion x = ee_aggregateVersion (ke_envelope event)" "gi_state x = s"
    "set rows' = insert x {r \<in> set (og_inbox st). gi_eventId r \<noteq> ke_eventId event}"
    "distinct (map gi_id rows')" "distinct (map gi_eventId rows')"
    "gi_id ` set rows' \<subseteq> insert (dl_fresh env FreshInbox) (gi_id ` set (og_inbox st))"
proof (cases "findInbox env event st")
  case None
  then have none: "ke_eventId event \<notin> gi_eventId ` set (og_inbox st)"
    using assms(3) by (force simp: findInbox_def find_None_iff)
  then have "{r \<in> set (og_inbox st). gi_eventId r \<noteq> ke_eventId event} = set (og_inbox st)" by (auto intro: rev_image_eqI)
  then show ?thesis
    by (intro that) (use assms none in \<open>auto simp: None recordInbox_def Let_def\<close>)
next
  case (Some r)
  let ?f = "\<lambda>r. r\<lparr>gi_aggregateType := agg, gi_aggregateId := ee_aggregateId (ke_envelope event),
     gi_aggregateVersion := ee_aggregateVersion (ke_envelope event), gi_payloadHash := h, gi_state := s,
     gi_affectedCount := n, gi_appliedAt := dl_now env, gi_reasonCode := why\<rparr>"
  have r: "r \<in> set (og_inbox st)" "gi_eventId r = ke_eventId event" "gi_consumer r = dl_consumer env"
      "gi_tenantId r = ke_tenantId event"
    using Some by (auto simp: findInbox_def find_Some_iff)
  have rows': "rows' = updateWhere (\<lambda>x. gi_id x = gi_id r) ?f (og_inbox st)"
    using assms(5) by (simp add: Some recordInbox_def Let_def)
  have "{q \<in> set (og_inbox st). gi_eventId q \<noteq> ke_eventId event} = set (og_inbox st) - {r}"
    using assms(2) r by (auto simp: distinct_map inj_on_def)
  with updateWhere_single(1) [OF assms(1) r(1), of ?f]
  have upd: "set rows' = insert (?f r) {q \<in> set (og_inbox st). gi_eventId q \<noteq> ke_eventId event}" by (simp add: rows')
  have ids: "map gi_id rows' = map gi_id (og_inbox st)" "map gi_eventId rows' = map gi_eventId (og_inbox st)"
    by (simp_all add: rows' updateWhere_def)
  show ?thesis
    by (rule that [OF _ _ _ _ _ _ _ upd]) (use r assms(1,2) in \<open>auto simp: ids set_map [symmetric] simp del: set_map\<close>)
qed

section \<open>The cursor\<close>

lemma cursorRow_cases:
  assumes "cursorRow env T agg aid None rows = p"
  shows "case p of None \<Rightarrow> cursorRows env T agg aid rows = []
    | Some r \<Rightarrow> r \<in> set (cursorRows env T agg aid rows) \<and>
        (\<forall>x\<in>set (cursorRows env T agg aid rows). gi_aggregateVersion x \<le> gi_aggregateVersion r)"
proof -
  let ?c = "cursorRows env T agg aid rows" and ?s = "sort_key (\<lambda>r. - gi_aggregateVersion r) (cursorRows env T agg aid rows)"
  have set: "set ?s = set ?c" by simp
  have sorted: "sorted (map (\<lambda>r. - gi_aggregateVersion r) ?s)" by simp
  show ?thesis
  proof (cases ?s)
    case Nil
    with set have "?c = []" by simp
    with assms show ?thesis by (auto simp: cursorRow_def)
  next
    case (Cons r rs)
    with assms have "p = Some r" by (auto simp: cursorRow_def)
    moreover have "gi_aggregateVersion x \<le> gi_aggregateVersion r" if "x \<in> set ?c" for x
      using that sorted unfolding set [symmetric] Cons by auto
    moreover have "r \<in> set ?c" unfolding set [symmetric] Cons by simp
    ultimately show ?thesis by simp
  qed
qed

lemma prefixApplied_cursorRows:
  assumes "prefixApplied C T agg aid evs c rows" and "dl_consumer env = C"
  shows "gi_aggregateVersion ` set (cursorRows env T agg aid rows) = {1..int c}"
proof -
  have "v \<in> {1..int c}" if "v \<in> gi_aggregateVersion ` set (cursorRows env T agg aid rows)" for v
    using that assms unfolding prefixApplied_def by (fastforce simp: cursorRows_def isCursor_def rowFor_def)
  moreover have "v \<in> gi_aggregateVersion ` set (cursorRows env T agg aid rows)" if v: "v \<in> {1..int c}" for v
  proof -
    have "nat (v - 1) < c" using v by auto
    then obtain r where "r \<in> set rows" "rowFor C T agg aid evs (nat (v - 1)) r" "isCursor r"
      using assms(1) unfolding prefixApplied_def by blast
    with v assms(2) show ?thesis by (auto simp: cursorRows_def isCursor_def rowFor_def intro!: rev_image_eqI)
  qed
  ultimately show ?thesis by blast
qed

text \<open>An event beyond the applied prefix is applied when it is the next one and is a gap otherwise.\<close>

lemma prefixApplied_position:
  assumes "prefixApplied C T agg aid evs c (og_inbox st)" and "dl_consumer env = C" and "ke_tenantId event = T"
    and "de_aggregate stream = agg" and "ee_aggregateId (ke_envelope event) = aid"
    and "ee_aggregateVersion (ke_envelope event) = int i + 1" and "c \<le> i"
  shows "positionOf env event stream h st = (if i = c then PosApply else PosGap (int c + 1) (int i + 1))"
proof -
  note versions = prefixApplied_cursorRows [OF assms(1,2)]
  show ?thesis
  proof (cases "cursorRow env T agg aid None (og_inbox st)")
    case None
    then have "c = 0" using cursorRow_cases [OF None] versions by (cases c) auto
    with None show ?thesis
      using assms by (auto simp: positionOf_def classifyGovernanceStreamPosition_def Let_def)
  next
    case (Some r)
    have r: "r \<in> set (cursorRows env T agg aid (og_inbox st))"
        "\<And>x. x \<in> set (cursorRows env T agg aid (og_inbox st)) \<Longrightarrow> gi_aggregateVersion x \<le> gi_aggregateVersion r"
      using cursorRow_cases [OF Some] by auto
    then have "gi_aggregateVersion r \<in> {1..int c}" using versions by blast
    moreover from this have "int c \<in> gi_aggregateVersion ` set (cursorRows env T agg aid (og_inbox st))"
      unfolding versions by auto
    ultimately have "gi_aggregateVersion r = int c" using r(2) by fastforce
    with Some show ?thesis
      using assms by (auto simp: positionOf_def classifyGovernanceStreamPosition_def Let_def)
  qed
qed

section \<open>One delivery\<close>

lemma recordInbox_inbox:
  "og_inbox st = og_inbox st1 \<Longrightarrow>
    og_inbox (recordInbox env i event agg h s n why st) = og_inbox (recordInbox env i event agg h s n why st1)"
  by (simp add: recordInbox_def Let_def split: option.split)

lemma complete_inbox:
  "og_inbox (fst (complete env i event agg h out n None why d st)) =
    og_inbox (recordInbox env i event agg h (if out = ACK_NO_OP then GS_NO_OP else GS_APPLIED) n why st)"
  by (simp add: complete_def Let_def)

lemma hold_inbox: "og_inbox (fst (holdMatchingAttempts event scope now st)) = og_inbox st"
proof -
  have "og_inbox (holdAttempt now a st) = og_inbox st" for a st by (simp add: holdAttempt_def updateAttempt_def)
  then have "og_inbox (fold (holdAttempt now) as st) = og_inbox st" for as by (induction as arbitrary: st) simp_all
  then show ?thesis by (simp add: holdMatchingAttempts_def Let_def)
qed

lemma stage_inbox [simp]: "og_inbox (stageEffect env event a kind st) = og_inbox st"
  by (simp add: stageEffect_def)

lemma applyAttempt_inbox: "og_inbox (fst (applyAttempt env event stream h a s)) = og_inbox (fst s)"
  by (cases s) (auto simp: applyAttempt_def updateAttempt_def Let_def split: option.split)

lemma applyStream_inbox:
  obtains s n where "s \<in> set CURSOR_STATES"
    "og_inbox (fst (applyStream env i event stream h st)) = og_inbox (recordInbox env i event (de_aggregate stream) h s n None st)"
proof (cases "de_effect stream = NO_OP_EFFECT")
  case True
  then show ?thesis
    by (intro that [of GS_NO_OP 0]) (simp_all add: applyStream_def complete_inbox CURSOR_STATES_def)
next
  case False
  let ?f = "fold (applyAttempt env event stream h) (attemptsFor event (Some (de_scope stream)) st) (st, 0, False)"
  obtain st1 n m where f: "?f = (st1, n, m)" by (cases ?f)
  have "og_inbox (fst (fold (applyAttempt env event stream h) as s)) = og_inbox (fst s)" for as s
    by (induction as arbitrary: s) (simp_all add: applyAttempt_inbox)
  from this [of "attemptsFor event (Some (de_scope stream)) st" "(st, 0, False)"] have st1: "og_inbox st1 = og_inbox st"
    by (simp add: f)
  show ?thesis
    by (rule that [of "if (if m then ACK_FAILED else if n \<noteq> 0 then ACK_APPLIED else ACK_NO_OP) = ACK_NO_OP then GS_NO_OP else GS_APPLIED" n])
      (use False f in \<open>simp_all add: applyStream_def complete_inbox recordInbox_inbox [OF st1] CURSOR_STATES_def\<close>)
qed

lemma prefixApplied_completed:
  assumes inv: "prefixApplied C T agg aid evs c (og_inbox st)" and "isStream D T agg aid evs" and "i < length evs"
    and "dl_consumer env = C"
  shows "completed env (evs ! i) st \<longleftrightarrow> i < c"
proof
  have index: "j = i" if "j < length evs" "ke_eventId (evs ! j) = ke_eventId (evs ! i)" for j
    using assms(2,3) that nth_eq_iff_index_eq [of "map ke_eventId evs" j i] by (auto simp: isStream_def)
  show "i < c" if yes: "completed env (evs ! i) st"
  proof -
    obtain r where r: "r \<in> set (og_inbox st)" "gi_eventId r = ke_eventId (evs ! i)" "gi_state r \<noteq> GS_GAP"
      using yes by (auto simp: completed_def findInbox_def find_Some_iff split: option.splits intro: nth_mem)
    then obtain j where j: "j < length evs" "rowFor C T agg aid evs j r" "isCursor r \<longrightarrow> j < c"
      using inv unfolding prefixApplied_def by blast
    moreover have "isCursor r" using j(2) r(3) by (auto simp: rowFor_def isCursor_def CURSOR_STATES_def)
    moreover have "ke_eventId (evs ! j) = ke_eventId (evs ! i)" using j(2) r(2) unfolding rowFor_def by metis
    ultimately show ?thesis using index [of j] by blast
  qed
  show "completed env (evs ! i) st" if lt: "i < c"
  proof -
    obtain r where r: "r \<in> set (og_inbox st)" "rowFor C T agg aid evs i r" "isCursor r"
      using inv lt unfolding prefixApplied_def by blast
    have "ke_tenantId (evs ! i) = T" using assms(2,3) by (simp add: isStream_def)
    with r(1,2) assms(4) obtain q where q: "findInbox env (evs ! i) st = Some q"
      by (cases "findInbox env (evs ! i) st") (auto simp: findInbox_def find_None_iff rowFor_def)
    then have "q \<in> set (og_inbox st)" "gi_eventId q = gi_eventId r"
      using r(2) by (auto simp: findInbox_def find_Some_iff rowFor_def)
    with inv r(1) have "q = r" unfolding prefixApplied_def by (auto simp: distinct_map inj_on_def)
    with q r(3) show ?thesis by (auto simp: completed_def isCursor_def CURSOR_STATES_def)
  qed
qed

lemma deliver_prefixApplied:
  assumes inv: "prefixApplied C T agg aid evs c (og_inbox st)" and stream: "isStream D T agg aid evs" and i: "i < length evs"
    and env: "dl_consumer env = C" "dl_downstream env = D"
    and fresh: "dl_fresh env FreshInbox \<notin> gi_id ` set (og_inbox st)"
  shows "prefixApplied C T agg aid evs (if i = c then Suc c else c) (og_inbox (deliver (env, evs ! i) st)) \<and>
    gi_id ` set (og_inbox (deliver (env, evs ! i) st)) \<subseteq> insert (dl_fresh env FreshInbox) (gi_id ` set (og_inbox st))"
proof (cases "i < c")
  case True
  then have "completed env (evs ! i) st" using prefixApplied_completed [OF inv stream i env(1)] by blast
  then have "deliver (env, evs ! i) st = st" by (auto simp: deliver_def executeDelivery_def completed_def split: option.splits)
  with inv True show ?thesis by auto
next
  case False
  let ?event = "evs ! i" and ?e = "map_option gi_id (findInbox env (evs ! i) st)"
  have "\<not> completed env ?event st" using prefixApplied_completed [OF inv stream i env(1)] False by blast
  obtain s where s: "classifyGovernanceEvent D (ke_envelope ?event) = Accepted s" "de_aggregate s = agg"
    and ev: "ke_canonical ?event" "ke_tenantId ?event = T" "ee_aggregateId (ke_envelope ?event) = aid"
      "ee_aggregateVersion (ke_envelope ?event) = int i + 1"
    using stream i unfolding isStream_def by blast
  have "applyEvent env ?event st = Inr (applyAccepted env ?e ?event s st)"
    using \<open>\<not> completed env ?event st\<close> ev(1) s(1) env(2) by (auto simp: applyEvent_def completed_def Let_def split: option.splits)
  then have deliver: "deliver (env, ?event) st = fst (applyAccepted env ?e ?event s st)"
    using \<open>\<not> completed env ?event st\<close>
    by (auto simp: deliver_def executeDelivery_def completed_def rbind_def split: option.splits prod.splits)
  have position: "positionOf env ?event s h st = (if i = c then PosApply else PosGap (int c + 1) (int i + 1))" for h
    using prefixApplied_position [OF inv env(1) ev(2) s(2) ev(3,4)] False by simp
  obtain state n why where rec: "og_inbox (deliver (env, ?event) st) =
      og_inbox (recordInbox env ?e ?event agg (de_payloadDigest s) state n why st)"
    and state: "if i = c then state \<in> set CURSOR_STATES else state = GS_GAP"
  proof (cases "i = c")
    case True
    then show ?thesis using that position s(2)
      by (metis (no_types, lifting) applyAccepted_def applyStream_inbox deliver stream_position.case(1))
  next
    case False
    then show ?thesis
      by (intro that [of GS_GAP 0 "Some ''EVENT_GAP''"])
        (simp_all add: deliver applyAccepted_def position Let_def s(2) recordInbox_inbox [OF hold_inbox])
  qed
  have rows: "\<forall>r\<in>set (og_inbox st). gi_consumer r = dl_consumer env \<and> gi_tenantId r = ke_tenantId ?event"
    using inv env(1) ev(2) unfolding prefixApplied_def rowFor_def by blast
  have d: "distinct (map gi_id (og_inbox st))" "distinct (map gi_eventId (og_inbox st))"
    using inv by (simp_all add: prefixApplied_def)
  show ?thesis
  proof (rule recordInbox_rows [OF d rows fresh rec])
    fix x :: dialer_inbox_row
    assume x: "gi_consumer x = dl_consumer env" "gi_tenantId x = ke_tenantId ?event" "gi_aggregateType x = agg"
      "gi_aggregateId x = ee_aggregateId (ke_envelope ?event)" "gi_eventId x = ke_eventId ?event"
      "gi_aggregateVersion x = ee_aggregateVersion (ke_envelope ?event)" "gi_state x = state"
    assume rest: "set (og_inbox (deliver (env, ?event) st)) = insert x {r \<in> set (og_inbox st). gi_eventId r \<noteq> ke_eventId ?event}"
      "distinct (map gi_id (og_inbox (deliver (env, ?event) st)))" "distinct (map gi_eventId (og_inbox (deliver (env, ?event) st)))"
    assume ids: "gi_id ` set (og_inbox (deliver (env, ?event) st)) \<subseteq> insert (dl_fresh env FreshInbox) (gi_id ` set (og_inbox st))"
    have "rowFor C T agg aid evs i x"
      using x env(1) ev state by (auto simp: rowFor_def CURSOR_STATES_def split: if_splits)
    moreover have cursor: "isCursor x \<longleftrightarrow> i = c" using x(7) state by (auto simp: isCursor_def CURSOR_STATES_def split: if_splits)
    ultimately show ?thesis using prefixApplied_record [OF inv i _ stream _ _ rest] False ids by simp
  qed
qed

section \<open>Catching up\<close>

definition rowId :: "dialer_env \<times> canonical_event \<Rightarrow> string" where
  "rowId d = dl_fresh (fst d) FreshInbox"

definition ofStream :: "string \<Rightarrow> downstream_env \<Rightarrow> canonical_event list \<Rightarrow> dialer_env \<times> canonical_event \<Rightarrow> bool" where
  "ofStream C D evs d \<longleftrightarrow> dl_consumer (fst d) = C \<and> dl_downstream (fst d) = D \<and> snd d \<in> set evs"

lemma disjoint_rest: "X \<subseteq> insert y Z \<Longrightarrow> y \<notin> A \<Longrightarrow> A \<inter> Z = {} \<Longrightarrow> A \<inter> X = {}"
  by blast

lemma deliver_step:
  assumes "prefixApplied C T agg aid evs c (og_inbox st)" and "isStream D T agg aid evs" and "ofStream C D evs d"
    and "rowId d \<notin> gi_id ` set (og_inbox st)"
  shows "\<exists>i<length evs. snd d = evs ! i \<and>
    prefixApplied C T agg aid evs (if i = c then Suc c else c) (og_inbox (deliver d st)) \<and>
    gi_id ` set (og_inbox (deliver d st)) \<subseteq> insert (rowId d) (gi_id ` set (og_inbox st))"
proof -
  obtain i env where i: "i < length evs" and d: "d = (env, evs ! i)"
    using assms(3) by (cases d) (auto simp: ofStream_def in_set_conv_nth)
  have "dl_consumer env = C" "dl_downstream env = D" "dl_fresh env FreshInbox \<notin> gi_id ` set (og_inbox st)"
    using assms(3,4) by (simp_all add: ofStream_def rowId_def d)
  from deliver_prefixApplied [OF assms(1,2) i this] i show ?thesis unfolding d rowId_def fst_conv snd_conv by blast
qed

lemma deliveries_prefixApplied:
  assumes "prefixApplied C T agg aid evs c (og_inbox st)" and "isStream D T agg aid evs" and "\<forall>d\<in>set ds. ofStream C D evs d"
    and "distinct (map rowId ds)" and "rowId ` set ds \<inter> gi_id ` set (og_inbox st) = {}"
  shows "\<exists>c'\<ge>c. prefixApplied C T agg aid evs c' (og_inbox (fold deliver ds st)) \<and>
    gi_id ` set (og_inbox (fold deliver ds st)) \<subseteq> rowId ` set ds \<union> gi_id ` set (og_inbox st)"
  using assms(1,3-5)
proof (induction ds arbitrary: c st)
  case (Cons d ds)
  have "rowId d \<notin> gi_id ` set (og_inbox st)" using Cons.prems(4) by simp
  from deliver_step [OF Cons.prems(1) assms(2) _ this] Cons.prems(2)
  obtain i where i: "prefixApplied C T agg aid evs (if i = c then Suc c else c) (og_inbox (deliver d st))"
    and ids: "gi_id ` set (og_inbox (deliver d st)) \<subseteq> insert (rowId d) (gi_id ` set (og_inbox st))"
    by auto
  obtain c1 where c1: "c \<le> c1" "prefixApplied C T agg aid evs c1 (og_inbox (deliver d st))"
    by (rule that [OF _ i]) simp
  have "rowId ` set ds \<inter> gi_id ` set (og_inbox (deliver d st)) = {}"
    by (rule disjoint_rest [OF ids]) (use Cons.prems(3,4) in auto)
  with Cons.IH [OF c1(2)] Cons.prems(2,3) obtain c' where "c1 \<le> c'"
      "prefixApplied C T agg aid evs c' (og_inbox (fold deliver ds (deliver d st)))"
      "gi_id ` set (og_inbox (fold deliver ds (deliver d st))) \<subseteq> rowId ` set ds \<union> gi_id ` set (og_inbox (deliver d st))"
    by auto
  moreover from this(3) ids have "gi_id ` set (og_inbox (fold deliver ds (deliver d st))) \<subseteq>
      rowId ` set (d # ds) \<union> gi_id ` set (og_inbox st)"
    by (simp only: list.set image_insert) blast
  ultimately show ?case using c1(1) by (intro exI [of _ c']) simp
qed auto

text \<open>A replay in order, from the \<open>k\<close>-th event on: every event replayed is in the applied prefix.\<close>

lemma replay_prefixApplied:
  assumes "prefixApplied C T agg aid evs c (og_inbox st)" and "isStream D T agg aid evs" and "\<forall>d\<in>set rs. ofStream C D evs d"
    and "distinct (map rowId rs)" and "rowId ` set rs \<inter> gi_id ` set (og_inbox st) = {}"
    and "map snd rs = drop k evs" and "k \<le> c"
  shows "prefixApplied C T agg aid evs (length evs) (og_inbox (fold deliver rs st))"
  using assms(1,3-7)
proof (induction rs arbitrary: c k st)
  case Nil
  then have "c = length evs" by (auto simp: prefixApplied_def)
  with Nil show ?case by simp
next
  case (Cons d rs)
  have "rowId d \<notin> gi_id ` set (og_inbox st)" using Cons.prems(4) by simp
  from deliver_step [OF Cons.prems(1) assms(2) _ this] Cons.prems(2)
  obtain i where i: "i < length evs" "snd d = evs ! i"
    and inv: "prefixApplied C T agg aid evs (if i = c then Suc c else c) (og_inbox (deliver d st))"
    and ids: "gi_id ` set (og_inbox (deliver d st)) \<subseteq> insert (rowId d) (gi_id ` set (og_inbox st))"
    by auto
  have k: "k < length evs" using Cons.prems(5) by (metis drop_eq_Nil2 list.simps(9) list.distinct(1) not_le)
  then have drop: "snd d = evs ! k" "map snd rs = drop (Suc k) evs"
    using Cons.prems(5) Cons_nth_drop_Suc [OF k] by (metis list.inject list.simps(9))+
  have "i = k"
    using assms(2) i k drop(1) nth_eq_iff_index_eq [of "map ke_eventId evs" i k] by (auto simp: isStream_def)
  with Cons.prems(6) have "Suc k \<le> (if i = c then Suc c else c)" by auto
  moreover have "rowId ` set rs \<inter> gi_id ` set (og_inbox (deliver d st)) = {}"
    by (rule disjoint_rest [OF ids]) (use Cons.prems(3,4) in auto)
  ultimately show ?case using Cons.IH [OF inv _ _ _ drop(2)] Cons.prems(2,3) by simp
qed

text \<open>
  C11. The Dialer catches up. After any deliveries of the events of a stream, in any order and with
  repetitions, one replay of the stream in order leaves every event applied exactly once and none
  waiting: a gap does not stop the consumer for good.
\<close>

theorem dialer_catches_up:
  assumes "isStream D T agg aid evs" and "\<forall>d\<in>set (ds @ rs). ofStream C D evs d" and "map snd rs = evs"
    and "distinct (map rowId (ds @ rs))" and "og_inbox st = []"
  defines "inbox \<equiv> og_inbox (fold deliver (ds @ rs) st)"
  shows "distinct (map gi_eventId inbox) \<and> gi_eventId ` set inbox = ke_eventId ` set evs \<and>
    (\<forall>r\<in>set inbox. gi_state r \<in> set CURSOR_STATES)"
proof -
  have start: "prefixApplied C T agg aid evs 0 (og_inbox st)" using assms(5) by (simp add: prefixApplied_def)
  have "\<forall>d\<in>set ds. ofStream C D evs d" "distinct (map rowId ds)" "rowId ` set ds \<inter> gi_id ` set (og_inbox st) = {}"
    using assms(2,4,5) by auto
  from deliveries_prefixApplied [OF start assms(1) this] obtain c
    where c: "prefixApplied C T agg aid evs c (og_inbox (fold deliver ds st))"
      and ids: "gi_id ` set (og_inbox (fold deliver ds st)) \<subseteq> rowId ` set ds"
    using assms(5) by auto
  have "\<forall>d\<in>set rs. ofStream C D evs d" "distinct (map rowId rs)"
      "rowId ` set rs \<inter> gi_id ` set (og_inbox (fold deliver ds st)) = {}"
    using assms(2,4) ids by auto
  from replay_prefixApplied [OF c assms(1) this, of 0] assms(3) have inv: "prefixApplied C T agg aid evs (length evs) inbox"
    by (simp add: inbox_def)
  have row: "\<exists>r\<in>set inbox. rowFor C T agg aid evs i r \<and> isCursor r" if "i < length evs" for i
    using inv that unfolding prefixApplied_def by blast
  have unique: "q = r" if "q \<in> set inbox" "r \<in> set inbox" "gi_eventId q = gi_eventId r" for q r
    using inv that unfolding prefixApplied_def by (auto simp: distinct_map inj_on_def)
  have known: "\<exists>i<length evs. rowFor C T agg aid evs i r" if "r \<in> set inbox" for r
    using inv that unfolding prefixApplied_def by blast
  have "gi_state r \<in> set CURSOR_STATES" if mem: "r \<in> set inbox" for r
  proof -
    obtain i where "i < length evs" "rowFor C T agg aid evs i r" using known [OF mem] by blast
    moreover from this(1) obtain q where "q \<in> set inbox" "rowFor C T agg aid evs i q" "isCursor q" using row by blast
    ultimately show ?thesis using unique [of q r] mem unfolding rowFor_def isCursor_def by metis
  qed
  moreover have "gi_eventId ` set inbox = ke_eventId ` set evs"
  proof (intro equalityI image_subsetI)
    show "gi_eventId r \<in> ke_eventId ` set evs" if "r \<in> set inbox" for r
      using known [OF that] unfolding rowFor_def by force
    show "ke_eventId e \<in> gi_eventId ` set inbox" if e: "e \<in> set evs" for e
    proof -
      obtain i where i: "i < length evs" "e = evs ! i" using e by (auto simp: in_set_conv_nth)
      then obtain r where "r \<in> set inbox" "gi_eventId r = ke_eventId e" using row [OF i(1)] unfolding rowFor_def by blast
      then show ?thesis by (metis image_eqI)
    qed
  qed
  ultimately show ?thesis using inv unfolding prefixApplied_def by blast
qed

theorem dialer_catches_up_witness:
  "\<exists>inbox. inbox = og_inbox (fold deliver
       [(sample_dialer 0, sample_consent ''e2'' 2), (sample_dialer 1, sample_consent ''e2'' 2),
        (sample_dialer 2, sample_consent ''e1'' 1), (sample_dialer 3, sample_consent ''e2'' 2)] sample_campaign) \<and>
     gi_eventId ` set inbox = {''e1'', ''e2''} \<and> (\<forall>r\<in>set inbox. gi_state r \<in> set CURSOR_STATES)"
proof -
  let ?evs = "[sample_consent ''e1'' 1, sample_consent ''e2'' 2]"
  have fields: "ke_canonical (sample_consent i v)" "ke_tenantId (sample_consent i v) = ''t1''"
      "ke_eventId (sample_consent i v) = i" "ee_aggregateId (ke_envelope (sample_consent i v)) = ''c1''"
      "ee_aggregateVersion (ke_envelope (sample_consent i v)) = v" for i v
    by (simp_all add: sample_consent_def)
  have "\<exists>s. classifyGovernanceEvent sample_downstream (ke_envelope (?evs ! i)) = Accepted s \<and> de_aggregate s = AggContact"
    if "i < 2" for i
    using that sample_accepted [of 1 "''e1''"] sample_accepted [of 2 "''e2''"]
    by (auto simp: less_2_cases_iff sample_stream_def)
  then have s: "isStream sample_downstream ''t1'' AggContact ''c1'' ?evs"
    by (auto simp: isStream_def fields less_Suc_eq numeral_2_eq_2)
  let ?ds = "[(sample_dialer 0, sample_consent ''e2'' 2), (sample_dialer 1, sample_consent ''e2'' 2)]"
  let ?rs = "[(sample_dialer 2, sample_consent ''e1'' 1), (sample_dialer 3, sample_consent ''e2'' 2)]"
  have "\<forall>d\<in>set (?ds @ ?rs). ofStream ''dialer'' sample_downstream ?evs d"
    by (simp add: ofStream_def) (simp add: sample_dialer_def)
  moreover have "distinct (map rowId (?ds @ ?rs))"
    by (simp add: rowId_def sample_dialer_def numeral_2_eq_2 numeral_3_eq_3)
  ultimately show ?thesis
    using dialer_catches_up [OF s _ _ _ sample_inbox, of ?ds ?rs "''dialer''"] by (auto simp: fields)
qed

section \<open>An effect whose relay stopped\<close>

text \<open>
  What happens to the effects of a tenant afterwards: any relay runs any effect it can claim, and events
  stage effects under new ids.
\<close>

inductive effect_life :: "effect_row list \<Rightarrow> effect_row list \<Rightarrow> bool" where
  run: "executeNext now locked settlement retryDelayMs tenantId rows = (rows', answer) \<Longrightarrow> effect_life rows rows'"
| stage: "ef_id e \<notin> ef_id ` set rows \<Longrightarrow> effect_life rows (rows @ [e])"

lemma claimEffect_cases:
  assumes "claimEffect now locked tenantId rows = (rows', claimed)"
  shows "case claimed of None \<Rightarrow> rows' = rows
    | Some e \<Rightarrow> e \<in> set rows \<and> ef_state e = EffectPending \<and>
        rows' = updateWhere (\<lambda>r. ef_id r = ef_id e) (\<lambda>r. r\<lparr>ef_state := EffectProcessing, ef_attempts := ef_attempts r + 1\<rparr>) rows"
proof -
  let ?due = "filter (\<lambda>e. ef_tenantId e = tenantId \<and> ef_state e = EffectPending \<and> ef_availableAt e \<le> now \<and>
    \<not> locked (ef_id e)) rows"
  let ?s = "sort_key ef_availableAt (sort_key ef_createdAt ?due)"
  have "set ?s = set ?due" by simp
  then show ?thesis using assms
    by (cases ?s) (auto simp: claimEffect_def dest!: arg_cong [where f = "\<lambda>A. _ \<in> A"])
qed

lemma updateWhere_keys: "(\<And>x. key (f x) = key x) \<Longrightarrow> map key (updateWhere P f rows) = map key rows"
  by (simp add: updateWhere_def)

lemma untouched_row: "r \<in> set rows \<Longrightarrow> \<not> P r \<Longrightarrow> r \<in> set (updateWhere P f rows)"
  by (force simp: updateWhere_def)

lemma life_keeps_processing:
  assumes "effect_life rows rows'" and "distinct (map ef_id rows)" and "r \<in> set rows" and "ef_state r = EffectProcessing"
  shows "distinct (map ef_id rows') \<and> r \<in> set rows'"
  using assms
proof cases
  case (run now locked settlement retryDelayMs tenantId answer)
  obtain rows1 claimed where c: "claimEffect (now 0) locked tenantId rows = (rows1, claimed)" by fastforce
  note cases = claimEffect_cases [OF c]
  show ?thesis
  proof (cases claimed)
    case None
    with run c cases assms(2,3) show ?thesis by (auto simp: executeNext_def)
  next
    case (Some e)
    with cases have e: "e \<in> set rows" "ef_state e = EffectPending" by auto
    have "ef_id r \<noteq> ef_id e" using e assms(2,3,4) by (auto simp: distinct_map inj_on_def)
    moreover have "rows' = finishEffect (now 1) retryDelayMs (settleEffect settlement e) e rows1"
      using run c Some by (auto simp: executeNext_def Let_def)
    ultimately show ?thesis using cases Some assms(2,3)
      by (simp add: finishEffect_def updateWhere_keys untouched_row)
  qed
qed auto

text \<open>
  C30. An effect is claimed in one transaction and completed in another. If the relay stops in between,
  the effect is lost: whatever relays run afterwards and whatever is staged, its row stays in PROCESSING,
  and the reservation is neither released nor reconciled.
\<close>

theorem claimed_effect_is_stranded:
  assumes "distinct (map ef_id rows)" and "claimEffect now locked tenantId rows = (rows', Some e)"
    and "effect_life\<^sup>*\<^sup>* rows' rows''"
  shows "\<exists>r\<in>set rows''. ef_id r = ef_id e \<and> ef_kind r = ef_kind e \<and> ef_state r = EffectProcessing \<and>
    ef_completedAt r = ef_completedAt e"
proof -
  have e: "e \<in> set rows" and rows': "rows' = updateWhere (\<lambda>r. ef_id r = ef_id e)
      (\<lambda>r. r\<lparr>ef_state := EffectProcessing, ef_attempts := ef_attempts r + 1\<rparr>) rows"
    using claimEffect_cases [OF assms(2)] by auto
  let ?r = "e\<lparr>ef_state := EffectProcessing, ef_attempts := ef_attempts e + 1\<rparr>"
  have "distinct (map ef_id rows') \<and> ?r \<in> set rows'"
    using updateWhere_single [OF assms(1) e] assms(1) by (simp add: rows')
  from assms(3) this have "distinct (map ef_id rows'') \<and> ?r \<in> set rows''"
    by (induction rule: rtranclp_induct) (auto dest: life_keeps_processing)
  then show ?thesis by (intro bexI [of _ ?r]) auto
qed

definition sample_effect :: effect_row where
  "sample_effect = \<lparr> ef_id = ''ef1'', ef_tenantId = ''t1'', ef_eventId = ''e1'', ef_attemptId = ''submitted'',
     ef_actionKey = ''submitted'', ef_reservationId = ''r'', ef_deliveryId = Some ''d'', ef_providerRequestKey = Some ''p'',
     ef_correlationId = ''corr'', ef_kind = REQUEST_RECONCILE, ef_state = EffectPending, ef_attempts = 0,
     ef_availableAt = 1000, ef_completedAt = None, ef_createdAt = 1000 \<rparr>"

definition sample_claim :: "effect_row list \<times> effect_row option" where
  "sample_claim = claimEffect 2000 (\<lambda>_. False) ''t1'' [sample_effect]"

theorem claimed_effect_is_stranded_witness:
  "\<exists>r\<in>set (fst (executeNext (\<lambda>_. 900000) (\<lambda>_. False) (\<lambda>_. True) 1000 ''t1'' (fst sample_claim))).
     ef_id r = ''ef1'' \<and> ef_state r = EffectProcessing"
proof -
  have claim: "claimEffect 2000 (\<lambda>_. False) ''t1'' [sample_effect] = (fst sample_claim, Some sample_effect)"
    by (simp add: sample_claim_def claimEffect_def sample_effect_def)
  let ?e = "executeNext (\<lambda>_. 900000) (\<lambda>_. False) (\<lambda>_. True) 1000 ''t1'' (fst sample_claim)"
  have "effect_life (fst sample_claim) (fst ?e)" by (rule effect_life.run [OF prod.collapse [symmetric]])
  then have "effect_life\<^sup>*\<^sup>* (fst sample_claim) (fst ?e)" by (rule r_into_rtranclp)
  from claimed_effect_is_stranded [OF _ claim this] show ?thesis by (auto simp: sample_effect_def)
qed

end
