(* ===== verification/MetricsConsumer.thy ===== *)
theory MetricsConsumer
  imports InboxGuarantees
begin

text \<open>
  The metrics projection over the governance stream
  (\<open>apps/contact-governance/src/cg5-event-metrics-consumer.ts\<close>): a consumer inbox whose effect is to
  count the event in time buckets, with the validation of the CG3 payload it uses
  (\<open>cg3-persistence.ts\<close>). Texts of errors are left out: a refused payload is named by its field.

  Parameters: the date parser and the digest of the dimensions.
\<close>

section \<open>The CG3 payload\<close>

definition CONTACT_CHANNELS :: "string list" where
  "CONTACT_CHANNELS = [''VOICE'', ''WEBCHAT'', ''LINE'', ''FACEBOOK'', ''WHATSAPP'', ''EMAIL'']"

type_synonym field_error = string

definition jsonRecord :: "json option \<Rightarrow> string \<Rightarrow> field_error + (string \<times> json) list" where
  "jsonRecord v field = (case v of Some (JObj ps) \<Rightarrow> Inr ps | _ \<Rightarrow> Inl field)"

definition assertKnownKeys :: "(string \<times> json) list \<Rightarrow> string list \<Rightarrow> string \<Rightarrow> field_error + unit" where
  "assertKnownKeys ps allowedKeys field = (if set (map fst ps) \<subseteq> set allowedKeys then Inr () else Inl field)"

definition optionalString :: "json option \<Rightarrow> string \<Rightarrow> field_error + string option" where
  "optionalString v field = (case v of
       None \<Rightarrow> Inr None
     | Some JNull \<Rightarrow> Inr None
     | Some (JStr s) \<Rightarrow> if js_trim s = [] then Inl field else Inr (Some (js_trim s))
     | Some _ \<Rightarrow> Inl field)"

definition requiredString :: "json option \<Rightarrow> string \<Rightarrow> field_error + string" where
  "requiredString v field = rbind (optionalString v field) (\<lambda>s. case s of None \<Rightarrow> Inl field | Some t \<Rightarrow> Inr t)"

definition isPositiveInteger :: "json option \<Rightarrow> bool" where
  "isPositiveInteger v = (case v of Some (JNum (Fin r)) \<Rightarrow> snd (quotient_of r) = 1 \<and> 1 \<le> r | _ \<Rightarrow> False)"

record preference_scope =
  ps_identityId :: "string option"
  ps_channel :: "string option"
  ps_purpose :: "string option"
  ps_contactKind :: "string option"

definition validateCgScope :: "json option \<Rightarrow> field_error + preference_scope" where
  "validateCgScope v =
     rbind (jsonRecord v ''affectedScope'') (\<lambda>scope.
     rbind (assertKnownKeys scope [''identityId'', ''channel'', ''purpose'', ''contactKind''] ''affectedScope'') (\<lambda>_.
     rbind (optionalString (map_of scope ''channel'') ''channel'') (\<lambda>channel.
     rbind (throw_if (case channel of None \<Rightarrow> False | Some c \<Rightarrow> c \<notin> set CONTACT_CHANNELS) ''channel'') (\<lambda>_.
     rbind (optionalString (map_of scope ''identityId'') ''identityId'') (\<lambda>identityId.
     rbind (optionalString (map_of scope ''purpose'') ''purpose'') (\<lambda>purpose.
     rbind (optionalString (map_of scope ''contactKind'') ''contactKind'') (\<lambda>contactKind.
     Inr \<lparr> ps_identityId = identityId, ps_channel = channel, ps_purpose = purpose, ps_contactKind = contactKind \<rparr>)))))))"

text \<open>The validated payload is dropped by the one caller below: what counts is whether it is refused.\<close>

definition validateCgEventPayloadV1 :: "(string \<Rightarrow> time_ms option) \<Rightarrow> json \<Rightarrow> field_error + preference_scope" where
  "validateCgEventPayloadV1 parseDate v =
     rbind (jsonRecord (Some v) ''payload'') (\<lambda>payload.
     rbind (assertKnownKeys payload [''contractVersion'', ''mutationId'', ''subjectVersion'', ''identityId'',
       ''affectedScope'', ''effectiveAt'', ''policyVersion'', ''stateDigest''] ''payload'') (\<lambda>_.
     rbind (throw_if (map_of payload ''contractVersion'' \<noteq> Some (jint 1)) ''contractVersion'') (\<lambda>_.
     rbind (throw_if (\<not> isPositiveInteger (map_of payload ''subjectVersion'')) ''subjectVersion'') (\<lambda>_.
     rbind (throw_if (map_of payload ''policyVersion'' \<noteq> None \<and> \<not> isPositiveInteger (map_of payload ''policyVersion''))
              ''policyVersion'') (\<lambda>_.
     rbind (requiredString (map_of payload ''stateDigest'') ''stateDigest'') (\<lambda>stateDigest.
     rbind (throw_if (\<not> lowercaseSha256 stateDigest) ''stateDigest'') (\<lambda>_.
     rbind (requiredString (map_of payload ''effectiveAt'') ''effectiveAt'') (\<lambda>effectiveAt.
     rbind (throw_if (parseDate effectiveAt = None) ''effectiveAt'') (\<lambda>_.
     rbind (optionalString (map_of payload ''identityId'') ''identityId'') (\<lambda>_.
     rbind (requiredString (map_of payload ''mutationId'') ''mutationId'') (\<lambda>_.
     validateCgScope (map_of payload ''affectedScope''))))))))))))"

section \<open>The consumer\<close>

definition CG5_EVENT_METRICS_CONSUMER_GROUP :: string where
  "CG5_EVENT_METRICS_CONSUMER_GROUP = ''cg5-event-metrics-v1''"

definition EVENT_METRICS :: "(string \<times> string list) list" where
  "EVENT_METRICS =
     [(''preference.changed'', [''cg.restriction'', ''cg.audit'']),
      (''restriction.changed'', [''cg.restriction'', ''cg.audit'']),
      (''consent.changed'', [''cg.consent'', ''cg.audit'']),
      (''exception.changed'', [''cg.exception'', ''cg.audit'']),
      (''policy.changed'', [''cg.policy.health'', ''cg.audit'']),
      (''governance.kill-switch.changed'', [''cg.policy.health'', ''cg.audit''])]"

definition CG4_ALIASES :: "string list" where
  "CG4_ALIASES = [''restriction.changed'', ''consent.changed'']"

definition parseCg5MetricEvent :: "(string \<Rightarrow> time_ms option) \<Rightarrow> string \<Rightarrow> json \<Rightarrow> envelope_rejection option" where
  "parseCg5MetricEvent parseDate eventType payload =
     (if eventType = ''preference.changed'' then
        (case validateCgEventPayloadV1 parseDate payload of Inr _ \<Rightarrow> None | Inl _ \<Rightarrow> Some MALFORMED_PAYLOAD)
      else if eventType \<in> set CG4_ALIASES then parseCg4CanonicalEvent ''policy.changed'' payload
      else parseCg4CanonicalEvent eventType payload)"

definition cg5MetricKeysForEvent :: "string \<Rightarrow> string list" where
  "cg5MetricKeysForEvent eventType = (case map_of EVENT_METRICS eventType of None \<Rightarrow> [] | Some ms \<Rightarrow> ms)"

record metric_dimensions =
  md_channel :: "string option"
  md_purpose :: "string option"
  md_decision :: "string option"
  md_gate :: "string option"
  md_reasonCode :: "string option"
  md_teamId :: "string option"

definition CG5_EMPTY_DIMENSIONS :: metric_dimensions where
  "CG5_EMPTY_DIMENSIONS = \<lparr> md_channel = None, md_purpose = None, md_decision = None, md_gate = None,
     md_reasonCode = None, md_teamId = None \<rparr>"

definition cg5DimensionKey :: "(json \<Rightarrow> string) \<Rightarrow> metric_dimensions \<Rightarrow> string" where
  "cg5DimensionKey digest d = digest (JObj
     [(''channel'', jopt (md_channel d)), (''purpose'', jopt (md_purpose d)), (''decision'', jopt (md_decision d)),
      (''gate'', jopt (md_gate d)), (''reasonCode'', jopt (md_reasonCode d)), (''teamId'', jopt (md_teamId d))])"

definition textMember :: "json option \<Rightarrow> string \<Rightarrow> string option" where
  "textMember v k = (case v of Some j \<Rightarrow> (case json_prop j k of Some (JStr s) \<Rightarrow> Some s | _ \<Rightarrow> None) | None \<Rightarrow> None)"

definition dimensionsFor :: "json \<Rightarrow> metric_dimensions" where
  "dimensionsFor payload = (let scope = json_prop payload ''affectedScope'' in
     CG5_EMPTY_DIMENSIONS\<lparr>md_channel := textMember scope ''channel'', md_purpose := textMember scope ''purpose''\<rparr>)"

definition occurredAt :: "(string \<Rightarrow> time_ms option) \<Rightarrow> inbound_event \<Rightarrow> time_ms" where
  "occurredAt parseDate event =
     (case textMember (Some (ie_payload event)) ''effectiveAt'' of
        Some text \<Rightarrow> (case parseDate text of Some t \<Rightarrow> t | None \<Rightarrow> ie_receivedAt event)
      | None \<Rightarrow> ie_receivedAt event)"

datatype granularity = FIVE_MIN | HOUR | DAY

definition CG5_GRANULARITIES :: "granularity list" where
  "CG5_GRANULARITIES = [FIVE_MIN, HOUR, DAY]"

fun granularityMs :: "granularity \<Rightarrow> int" where
  "granularityMs FIVE_MIN = 300000"
| "granularityMs HOUR = 3600000"
| "granularityMs DAY = 86400000"

definition cg5BucketStart :: "time_ms \<Rightarrow> granularity \<Rightarrow> time_ms" where
  "cg5BucketStart date g = (date div granularityMs g) * granularityMs g"

record metric_bucket =
  mb_tenantId :: string
  mb_metricKey :: string
  mb_granularity :: granularity
  mb_bucketStart :: time_ms
  mb_dimensions :: metric_dimensions
  mb_dimensionKey :: string
  mb_value :: int
  mb_sampleCount :: int
  mb_updatedAt :: time_ms

definition bucketKey :: "metric_bucket \<Rightarrow> string \<times> string \<times> granularity \<times> time_ms \<times> string" where
  "bucketKey b = (mb_tenantId b, mb_metricKey b, mb_granularity b, mb_bucketStart b, mb_dimensionKey b)"

text \<open>The upsert on the unique key.\<close>

definition upsertBucket :: "metric_bucket \<Rightarrow> metric_bucket list \<Rightarrow> metric_bucket list" where
  "upsertBucket b rows =
     (if list_ex (\<lambda>r. bucketKey r = bucketKey b) rows
      then updateWhere (\<lambda>r. bucketKey r = bucketKey b)
        (\<lambda>r. r\<lparr>mb_value := mb_value r + 1, mb_sampleCount := mb_sampleCount r + 1, mb_updatedAt := mb_updatedAt b\<rparr>) rows
      else rows @ [b])"

definition incrementBuckets ::
  "(string \<Rightarrow> time_ms option) \<Rightarrow> (json \<Rightarrow> string) \<Rightarrow> inbound_event \<Rightarrow> metric_bucket list \<Rightarrow> metric_bucket list" where
  "incrementBuckets parseDate digest event rows =
     (let dimensions = dimensionsFor (ie_payload event);
          dimensionKey = cg5DimensionKey digest dimensions;
          timestamp = occurredAt parseDate event in
      fold (\<lambda>metricKey. fold (\<lambda>g. upsertBucket
          \<lparr> mb_tenantId = ie_tenantId event, mb_metricKey = metricKey, mb_granularity = g,
            mb_bucketStart = cg5BucketStart timestamp g, mb_dimensions = dimensions, mb_dimensionKey = dimensionKey,
            mb_value = 1, mb_sampleCount = 1, mb_updatedAt = timestamp \<rparr>) CG5_GRANULARITIES)
        (cg5MetricKeysForEvent (ie_eventType event)) rows)"

definition consumeMetricEvent ::
  "(string \<Rightarrow> time_ms option) \<Rightarrow> (json \<Rightarrow> string) \<Rightarrow> (nat \<Rightarrow> string) \<Rightarrow> time_ms \<Rightarrow> inbound_event \<Rightarrow>
     inbox_store \<times> metric_bucket list \<Rightarrow> (inbox_store \<times> metric_bucket list) \<times> inbox_outcome" where
  "consumeMetricEvent parseDate digest ids now event s =
     recordEvent (parseCg5MetricEvent parseDate) (incrementBuckets parseDate digest) CG5_EVENT_METRICS_CONSUMER_GROUP
       ids now event s"

section \<open>Every applied event is counted once\<close>

definition counted :: "string \<Rightarrow> string \<Rightarrow> granularity \<Rightarrow> metric_bucket list \<Rightarrow> int" where
  "counted T m g rows = (\<Sum>b\<leftarrow>rows. if (mb_tenantId b, mb_metricKey b, mb_granularity b) = (T, m, g) then mb_sampleCount b else 0)"

lemma known_key: "list_ex (\<lambda>r. key r = k) rows \<longleftrightarrow> k \<in> key ` set rows"
  by (auto simp: list_ex_iff)

lemma upsert_keys: "map bucketKey (upsertBucket b rows) =
    map bucketKey rows @ (if bucketKey b \<in> bucketKey ` set rows then [] else [bucketKey b])"
  unfolding upsertBucket_def known_key by (simp add: updateWhere_def) (simp add: bucketKey_def)

lemma upsert_distinct: "distinct (map bucketKey rows) \<Longrightarrow> distinct (map bucketKey (upsertBucket b rows))"
  by (simp add: upsert_keys)

lemma counted_update:
  assumes "\<And>r. bucketKey (f r) = bucketKey r" and "\<And>r. mb_sampleCount (f r) = mb_sampleCount r + 1"
    and "distinct (map bucketKey rows)" and "bucketKey b \<in> bucketKey ` set rows"
  shows "counted T m g (updateWhere (\<lambda>r. bucketKey r = bucketKey b) f rows) = counted T m g rows +
    (if (mb_tenantId b, mb_metricKey b, mb_granularity b) = (T, m, g) then 1 else 0)"
  using assms(3,4)
proof (induction rows)
  case (Cons r rows)
  have f: "mb_tenantId (f r) = mb_tenantId r" "mb_metricKey (f r) = mb_metricKey r" "mb_granularity (f r) = mb_granularity r"
    using assms(1) [of r] by (simp_all add: bucketKey_def)
  show ?case
  proof (cases "bucketKey r = bucketKey b")
    case True
    then have "bucketKey b \<notin> bucketKey ` set rows" using Cons.prems(1) by simp
    then have "updateWhere (\<lambda>r. bucketKey r = bucketKey b) f rows = rows"
      unfolding updateWhere_def by (intro map_idI) (auto intro: rev_image_eqI)
    moreover have "mb_tenantId r = mb_tenantId b" "mb_metricKey r = mb_metricKey b" "mb_granularity r = mb_granularity b"
      using True by (simp_all add: bucketKey_def)
    ultimately show ?thesis using True by (simp add: counted_def updateWhere_def f assms(2))
  next
    case False
    with Cons show ?thesis by (auto simp: counted_def updateWhere_def)
  qed
qed simp

lemma upsert_counted:
  assumes "distinct (map bucketKey rows)" and "mb_sampleCount b = 1"
  shows "counted T m g (upsertBucket b rows) = counted T m g rows +
    (if (mb_tenantId b, mb_metricKey b, mb_granularity b) = (T, m, g) then 1 else 0)"
proof (cases "bucketKey b \<in> bucketKey ` set rows")
  case True
  have f: "bucketKey (r\<lparr>mb_value := mb_value r + 1, mb_sampleCount := mb_sampleCount r + 1, mb_updatedAt := mb_updatedAt b\<rparr>) =
      bucketKey r" for r
    by (simp add: bucketKey_def)
  show ?thesis unfolding upsertBucket_def known_key using True counted_update [OF f _ assms(1) True] by simp
next
  case False
  then show ?thesis unfolding upsertBucket_def known_key using assms(2) by (simp add: counted_def)
qed

lemma fold_upsert_counted:
  assumes "distinct (map bucketKey rows)" and "\<And>x. mb_sampleCount (bucket x) = 1"
  shows "distinct (map bucketKey (fold (\<lambda>x. upsertBucket (bucket x)) xs rows)) \<and>
    counted T m g (fold (\<lambda>x. upsertBucket (bucket x)) xs rows) = counted T m g rows +
      int (length (filter (\<lambda>x. (mb_tenantId (bucket x), mb_metricKey (bucket x), mb_granularity (bucket x)) = (T, m, g)) xs))"
  using assms(1)
proof (induction xs arbitrary: rows)
  case (Cons x xs)
  from Cons.IH [OF upsert_distinct [OF Cons.prems]] upsert_counted [OF Cons.prems assms(2)] show ?case by simp
qed simp

lemma keys_distinct: "distinct (cg5MetricKeysForEvent eventType)"
  by (simp add: cg5MetricKeysForEvent_def EVENT_METRICS_def split: option.split)

text \<open>The two loops as one, over the pairs of a metric and a granularity.\<close>

lemma fold_pairs: "fold (\<lambda>x. fold (\<lambda>y. f (x, y)) ys) xs = fold f (List.product xs ys)"
  by (induction xs) (auto simp: fold_map comp_def)

lemma one_occurrence: "distinct zs \<Longrightarrow> length (filter (\<lambda>p. p = z) zs) = (if z \<in> set zs then 1 else 0)"
  by (induction zs) auto

lemma increment_counts:
  assumes "distinct (map bucketKey rows)"
  shows "distinct (map bucketKey (incrementBuckets parseDate digest event rows)) \<and>
    counted T m g (incrementBuckets parseDate digest event rows) = counted T m g rows +
      (if ie_tenantId event = T \<and> m \<in> set (cg5MetricKeysForEvent (ie_eventType event)) then 1 else 0)"
proof -
  let ?d = "dimensionsFor (ie_payload event)" and ?t = "occurredAt parseDate event"
  let ?bucket = "\<lambda>p. \<lparr> mb_tenantId = ie_tenantId event, mb_metricKey = fst p, mb_granularity = snd p,
    mb_bucketStart = cg5BucketStart ?t (snd p), mb_dimensions = ?d, mb_dimensionKey = cg5DimensionKey digest ?d,
    mb_value = 1, mb_sampleCount = 1, mb_updatedAt = ?t \<rparr>"
  let ?ps = "List.product (cg5MetricKeysForEvent (ie_eventType event)) CG5_GRANULARITIES"
  have i: "incrementBuckets parseDate digest event rows = fold (\<lambda>p. upsertBucket (?bucket p)) ?ps rows"
    by (simp add: incrementBuckets_def Let_def flip: fold_pairs)
  have "g \<in> set CG5_GRANULARITIES" by (cases g) (simp_all add: CG5_GRANULARITIES_def)
  moreover have "distinct CG5_GRANULARITIES" by (simp add: CG5_GRANULARITIES_def)
  ultimately have one: "length (filter (\<lambda>p. p = (m, g)) ?ps) = (if m \<in> set (cg5MetricKeysForEvent (ie_eventType event)) then 1 else 0)"
    by (simp add: one_occurrence distinct_product keys_distinct)
  have "filter (\<lambda>p. (mb_tenantId (?bucket p), mb_metricKey (?bucket p), mb_granularity (?bucket p)) = (T, m, g)) ?ps =
      (if ie_tenantId event = T then filter (\<lambda>p. p = (m, g)) ?ps else [])"
    by (auto intro: filter_cong)
  with fold_upsert_counted [OF assms, of ?bucket ?ps T m g] one show ?thesis by (simp add: i)
qed

definition appliedWith :: "string \<Rightarrow> string \<Rightarrow> inbox_row list \<Rightarrow> nat" where
  "appliedWith T m rows = length (filter (\<lambda>r. ib_consumerGroup r = CG5_EVENT_METRICS_CONSUMER_GROUP \<and> ib_tenantId r = T \<and>
     ib_state r = IB_APPLIED \<and> m \<in> set (cg5MetricKeysForEvent (ib_eventType r))) rows)"

definition metricsInv :: "inbox_store \<times> metric_bucket list \<Rightarrow> bool" where
  "metricsInv s \<longleftrightarrow> distinct (map bucketKey (snd s)) \<and>
     (\<forall>T m g. counted T m g (snd s) = int (appliedWith T m (is_inbox (fst s))))"

inductive metrics_step :: "(string \<Rightarrow> time_ms option) \<Rightarrow> (json \<Rightarrow> string) \<Rightarrow>
    inbox_store \<times> metric_bucket list \<Rightarrow> inbox_store \<times> metric_bucket list \<Rightarrow> bool" for parseDate digest where
  "consumeMetricEvent parseDate digest ids now event s = (s', out) \<Longrightarrow> metrics_step parseDate digest s s'"

lemma metrics_keeps_count:
  assumes "metrics_step parseDate digest s s'" and "metricsInv s"
  shows "metricsInv s'"
  using assms(1)
proof cases
  case (1 ids now event out)
  let ?G = CG5_EVENT_METRICS_CONSUMER_GROUP
  have r: "s' = fst (recordEvent (parseCg5MetricEvent parseDate) (incrementBuckets parseDate digest) ?G ids now event s)"
    using 1 by (simp add: consumeMetricEvent_def)
  show ?thesis
  proof (cases "deliveredBefore ?G event (fst s)")
    case True
    from record_known(1) [OF True] assms(2) show ?thesis by (simp add: r)
  next
    case False
    note new = record_new(1,2) [OF False refl, of "parseCg5MetricEvent parseDate" "incrementBuckets parseDate digest" ids now]
    let ?d = "inboxDecision (parseCg5MetricEvent parseDate) ?G event (fst s)"
    have rows: "appliedWith T m (is_inbox (fst s')) = appliedWith T m (is_inbox (fst s)) +
        (if ie_tenantId event = T \<and> ?d = Apply \<and> m \<in> set (cg5MetricKeysForEvent (ie_eventType event)) then 1 else 0)" for T m
      by (simp add: r new appliedWith_def inboxRow_def applied_state)
    show ?thesis
    proof (cases "?d = Apply")
      case True
      with assms(2) increment_counts [of "snd s" parseDate digest event] show ?thesis
        unfolding metricsInv_def rows by (simp add: r new)
    next
      case False
      with assms(2) show ?thesis unfolding metricsInv_def rows by (simp add: r new)
    qed
  qed
qed

interpretation metrics: invariant_system
  "\<lambda>s. is_inbox (fst s) = [] \<and> snd s = []" "metrics_step parseDate digest" metricsInv
  for parseDate digest
  by unfold_locales (simp add: metricsInv_def counted_def appliedWith_def, rule metrics_keeps_count)

text \<open>
  C13. However the broker delivers, a metric counts every applied event of its kinds exactly once at each
  granularity, in one bucket per instant and dimensions: the samples of a tenant's buckets add up to the
  events the consumer has applied, and redelivered, refused and early events count nothing.
\<close>

theorem metrics_count_applied_events:
  assumes "is_inbox st0 = []" and "steps (metrics_step parseDate digest) (st0, []) (st, buckets)"
  shows "counted T m g buckets = int (appliedWith T m (is_inbox st)) \<and> distinct (map bucketKey buckets)"
  using metrics.reachable_invar [OF _ assms(2)] assms(1) by (simp add: metricsInv_def)

section \<open>A recorded exception ends the projection of its contact\<close>

lemma metrics_is_delivery:
  "metrics_step parseDate digest s s' \<Longrightarrow>
    delivery_step (parseCg5MetricEvent parseDate) (incrementBuckets parseDate digest) CG5_EVENT_METRICS_CONSUMER_GROUP s s'"
  by (erule metrics_step.cases) (auto simp: consumeMetricEvent_def intro: delivery_step.intros)

lemma metrics_deliveries:
  "steps (metrics_step parseDate digest) s s' \<Longrightarrow>
    steps (delivery_step (parseCg5MetricEvent parseDate) (incrementBuckets parseDate digest) CG5_EVENT_METRICS_CONSUMER_GROUP) s s'"
  by (induction rule: steps.induct) (auto intro: steps.intros metrics_is_delivery)

lemma applied_is_accepted:
  assumes "steps (delivery_step parse ap G) s s'" and "is_inbox (fst s) = []"
    and "r \<in> set (is_inbox (fst s'))" and "ib_state r = IB_APPLIED"
  shows "\<exists>payload. parse (ib_eventType r) payload = None"
  using assms
proof (induction arbitrary: r rule: steps.induct)
  case (steps_step s t u)
  from steps_step(2) show ?case
  proof (cases rule: delivery_cases)
    case known
    with steps_step show ?thesis by simp
  next
    case (new event i now j)
    let ?d = "inboxDecision parse G event (fst t)"
    show ?thesis
    proof (cases "r \<in> set (is_inbox (fst t))")
      case False
      then have r: "r = inboxRow G i ?d event" using new(2) steps_step.prems(2) by simp
      with steps_step.prems(3) have "?d = Apply" by (simp add: inboxRow_def applied_state)
      then have "parse (ie_eventType event) (ie_payload event) = None"
        by (auto simp: inboxDecision_def classifyCg4InboundEvent_def split: option.splits)
      with r show ?thesis by (auto simp: inboxRow_def)
    qed (use steps_step in blast)
  qed
qed simp

lemma recorded_is_unsupported: "parseCg5MetricEvent parseDate ''exception.recorded'' payload = Some UNSUPPORTED_EVENT_TYPE"
  by (simp add: parseCg5MetricEvent_def CG4_ALIASES_def parseCg4CanonicalEvent_def CG4_EVENT_TYPES_def)

text \<open>
  C31. The metrics consumer refuses \<open>exception.recorded\<close>, an event every exception puts on the stream of
  its contact. From that version on nothing of the contact is ever applied: neither the approvals and
  revocations of the exception nor any later change of consent or preference is counted.
\<close>

theorem recorded_exception_ends_metrics:
  assumes "is_inbox st0 = []" and "steps (metrics_step parseDate digest) (st0, buckets0) (st, buckets)" and "1 \<le> v"
    and "\<forall>r\<in>set (is_inbox st). (ib_consumerGroup r, ib_tenantId r, ib_aggregateType r, ib_aggregateId r, ib_aggregateVersion r) =
      (CG5_EVENT_METRICS_CONSUMER_GROUP, T, A, C, v) \<longrightarrow> ib_eventType r = ''exception.recorded''"
  shows "\<forall>r\<in>set (is_inbox st). (ib_consumerGroup r, ib_tenantId r, ib_aggregateType r, ib_aggregateId r) =
      (CG5_EVENT_METRICS_CONSUMER_GROUP, T, A, C) \<and> v \<le> ib_aggregateVersion r \<longrightarrow> ib_state r \<noteq> IB_APPLIED"
proof (intro ballI impI notI)
  fix r
  let ?G = CG5_EVENT_METRICS_CONSUMER_GROUP
  let ?rows = "appliedRows ?G T A C (is_inbox st)"
  assume r: "r \<in> set (is_inbox st)" "ib_state r = IB_APPLIED"
    and key: "(ib_consumerGroup r, ib_tenantId r, ib_aggregateType r, ib_aggregateId r) = (?G, T, A, C) \<and> v \<le> ib_aggregateVersion r"
  note run = metrics_deliveries [OF assms(2)]
  have "map ib_aggregateVersion ?rows = [1..int (length ?rows)]"
    using inbox.reachable_invar [OF _ run] assms(1) by (simp add: inboxInv_def)
  then have versions: "ib_aggregateVersion ` set ?rows = {1..int (length ?rows)}" by (metis set_map set_upto)
  have "r \<in> set ?rows" using r key by (simp add: appliedRows_def)
  then have "ib_aggregateVersion r \<in> {1..int (length ?rows)}" using versions by blast
  with assms(3) key have "v \<in> ib_aggregateVersion ` set ?rows" unfolding versions by simp
  then obtain q where q: "q \<in> set ?rows" "ib_aggregateVersion q = v" by auto
  then have "ib_eventType q = ''exception.recorded''" using assms(4) by (simp add: appliedRows_def)
  moreover have "\<exists>payload. parseCg5MetricEvent parseDate (ib_eventType q) payload = None"
    by (rule applied_is_accepted [OF run]) (use q(1) assms(1) in \<open>simp_all add: appliedRows_def\<close>)
  ultimately show False by (simp add: recorded_is_unsupported)
qed

section \<open>A sample stream\<close>

definition sample_metric :: "string \<Rightarrow> string \<Rightarrow> int \<Rightarrow> inbound_event" where
  "sample_metric eventId eventType v = \<lparr> ie_tenantId = ''t1'', ie_eventId = eventId, ie_eventType = eventType,
     ie_aggregateType = ''CONTACT'', ie_aggregateId = ''c1'', ie_aggregateVersion = v, ie_payloadHash = ''h'',
     ie_payload = JObj [(''contractVersion'', jint 1), (''mutationId'', JStr ''m''), (''subjectVersion'', jint 1),
       (''affectedScope'', JObj []), (''effectiveAt'', JStr ''now''), (''stateDigest'', JStr (replicate 64 CHR ''a''))],
     ie_receivedAt = 0 \<rparr>"

definition sample_count :: "inbound_event \<Rightarrow> inbox_store \<times> metric_bucket list \<Rightarrow> inbox_store \<times> metric_bucket list" where
  "sample_count event s = fst (consumeMetricEvent (\<lambda>_. Some 0) (\<lambda>_. ''d'') (\<lambda>n. ie_eventId event) 0 event s)"

lemma sample_count_step: "metrics_step (\<lambda>_. Some 0) (\<lambda>_. ''d'') s (sample_count event s)"
  unfolding sample_count_def by (rule metrics_step.intros [OF prod.collapse [symmetric]])

definition sample_counted :: "inbox_store \<times> metric_bucket list" where
  "sample_counted = sample_count (sample_metric ''e1'' ''preference.changed'' 1) (emptyInbox, [])"

definition sample_ended :: "inbox_store \<times> metric_bucket list" where
  "sample_ended = sample_count (sample_metric ''e2'' ''preference.changed'' 2)
     (sample_count (sample_metric ''e1'' ''exception.recorded'' 1) (emptyInbox, []))"

theorem metrics_count_applied_events_witness:
  "counted ''t1'' ''cg.audit'' DAY (snd sample_counted) = 1"
proof -
  have "steps (metrics_step (\<lambda>_. Some 0) (\<lambda>_. ''d'')) (emptyInbox, []) (fst sample_counted, snd sample_counted)"
    using sample_count_step [of "(emptyInbox, [])"] by (auto simp: sample_counted_def intro: steps.intros)
  from metrics_count_applied_events [OF _ this, of "''t1''" "''cg.audit''" DAY]
  have "counted ''t1'' ''cg.audit'' DAY (snd sample_counted) = int (appliedWith ''t1'' ''cg.audit'' (is_inbox (fst sample_counted)))"
    by (simp add: emptyInbox_def)
  moreover have "appliedWith ''t1'' ''cg.audit'' (is_inbox (fst sample_counted)) = 1" by code_simp
  ultimately show ?thesis by simp
qed

theorem recorded_exception_ends_metrics_witness:
  "list_all (\<lambda>r. ib_state r \<noteq> IB_APPLIED) (is_inbox (fst sample_ended))"
proof -
  let ?s = "sample_count (sample_metric ''e1'' ''exception.recorded'' 1) (emptyInbox, [])"
  have run: "steps (metrics_step (\<lambda>_. Some 0) (\<lambda>_. ''d'')) (emptyInbox, []) (fst sample_ended, snd sample_ended)"
    unfolding sample_ended_def prod.collapse by (blast intro: steps.intros sample_count_step)
  have rows: "map (\<lambda>r. (ib_consumerGroup r, ib_tenantId r, ib_aggregateType r, ib_aggregateId r, ib_aggregateVersion r, ib_eventType r))
      (is_inbox (fst sample_ended)) =
    [(CG5_EVENT_METRICS_CONSUMER_GROUP, ''t1'', ''CONTACT'', ''c1'', 1, ''exception.recorded''),
     (CG5_EVENT_METRICS_CONSUMER_GROUP, ''t1'', ''CONTACT'', ''c1'', 2, ''preference.changed'')]" by code_simp
  show ?thesis
    using recorded_exception_ends_metrics [OF _ run, of 1 "''t1''" "''CONTACT''" "''c1''"] rows
    by (auto simp: emptyInbox_def map_eq_Cons_conv list_all_iff)
qed

end
