(* ===== verification/LifecycleAtDialer.thy ===== *)
theory LifecycleAtDialer
  imports DialerGuarantees EventGuarantees
begin





lemma jint_reads [simp]: "1 \<le> n \<Longrightarrow> positiveInteger (Some (jint n)) = Inr n"
  by (simp add: positiveInteger_def jint_def)

lemma text_reads [simp]:
  "s \<noteq> [] \<Longrightarrow> requiredField (Some (JStr s)) = Inr s" "s \<noteq> [] \<Longrightarrow> optionalText (Some (JStr s)) = Inr (Some s)"
  "optionalText None = Inr None" "lowercaseSha256 s \<Longrightarrow> sha256Field (Some (JStr s)) = Inr s"
  by (simp_all add: requiredField_def optionalText_def sha256Field_def)

lemma channelText_nonempty [simp]: "channelText c \<noteq> []"
  by (cases c) simp_all

lemma workflowText_nonempty [simp]: "workflowText s \<noteq> []"
  by (cases s) simp_all







section \<open>A revocation\<close>

definition sample_sha :: string where
  "sample_sha = replicate 64 CHR ''a''"

definition sample_host :: governance_env where
  "sample_host = \<lparr> ge_digest = (\<lambda>_. sample_sha), ge_parseDate = (\<lambda>_. Some 0), ge_toISO = (\<lambda>_. ''iso''),
     ge_id = (\<lambda>k. replicate (Suc k) CHR ''x''), ge_now = (\<lambda>_. 10), ge_dbNow = 10 \<rparr>"






lemma sample_host_fields [simp]:
  "ge_digest sample_host x = sample_sha" "ge_toISO sample_host t = ''iso''" "ge_id sample_host k = replicate (Suc k) CHR ''x''"
  by (simp_all add: sample_host_def)




end
