(* ===== verification/Spec2Isabelle.thy ===== *)
theory Spec2Isabelle
  imports Prelude RuleRegistry ExceptionEvaluation Authorization ApprovalRepository Calendar
    TimeWindows PolicyEvaluator PolicyScope CanonicalJson PolicyCompiler PolicyDiff VoiceRouter
    VoiceRouting VoiceGuarantees AgentPresence EmbedOrigin WorkSession SessionMoves
    WorkSessionGuarantees Expression ExpressionGuarantees Segments SegmentGuarantees
    ExceptionLifecycle ExceptionGuarantees EventDelivery InboxGuarantees EventGuarantees
    Downstream DialerGovernance DialerGuarantees DialerRecovery MetricsConsumer LifecycleAtDialer
begin

text \<open>
  \<^bold>\<open>D-Contact: contact governance, inbound voice routing and customer segments\<close>

  D-Contact is a multi-tenant contact centre. Three of its subsystems decide things that must not go
  wrong, and this library models them from their TypeScript sources under \<open>src/\<close>: \<^emph>\<open>contact
  governance\<close> (\<open>apps/contact-governance/src\<close>) decides whether a customer may be contacted now,
  \<^emph>\<open>inbound voice routing\<close> (\<open>apps/router/src/inbound-voice-router.ts\<close>, with the endpoints of
  \<open>apps/api/src\<close> that write the same tables) decides which agent gets which call, and the
  \<^emph>\<open>expression language\<close> (\<open>packages/expression/src\<close>) decides which customers a segment of
  \<open>apps/customer-360/src\<close> holds.

  \<^bold>\<open>How the parts interact.\<close>
  A tenant authors a policy. \<open>PolicyCompiler\<close> normalizes the content, checks it against the
  platform's \<open>RuleRegistry\<close> and digests its \<open>CanonicalJson\<close> text; \<open>PolicyScope\<close> keys the policy to
  the requests it governs; \<open>PolicyDiff\<close> classifies a change as tightening, relaxing or neutral, and
  the class fixes the quorum that \<open>Authorization\<close> asks for and \<open>ApprovalRepository\<close> records votes
  towards. At contact time \<open>PolicyEvaluator\<close> runs the gates over the compiled facts: the customer's
  preferences, local time (\<open>Calendar\<close>, \<open>TimeWindows\<close>), callbacks and approved exceptions, whose
  coverage is decided by \<open>ExceptionEvaluation\<close> over the registry. \<open>ExceptionLifecycle\<close> is where such an
  exception comes from: it is requested against a pinned policy, voted on, approved or refused, and
  revoked, and every step appends an event to the stream of its contact; \<open>EventDelivery\<close> publishes
  these events and lets a consumer apply them in order or hold the contact. \<open>Downstream\<close> is the contract by
  which a consumer outside governance reads an event, and \<open>DialerGovernance\<close> the consumer that matters
  most: it takes the outbound calls an event no longer allows out of work. \<open>MetricsConsumer\<close> counts the
  same events in time buckets. \<open>LifecycleAtDialer\<close> follows an exception from its transition to the calls
  of the Dialer.
  An inbound call becomes an interaction in the tables of \<open>VoiceRouter\<close>; telephony events, agent
  and supervisor commands and a periodic sweep move it and the agent's state log. \<open>AgentPresence\<close>
  writes the same two tables from the workspace services. \<open>WorkSession\<close> decides which browser or
  phone surface an agent works from: it signs agents off in the state log, puts offers back into
  the queue on a takeover, and carries the SIP credentials.
  A segment is an expression over the facts of a customer: \<open>Segments\<close> checks it at authoring and runs
  \<open>Expression\<close> on a normalized snapshot of the facts.

  \<^bold>\<open>Theories, their sources and what they show.\<close>
  \<^item> \<open>Prelude\<close>: JavaScript values (numbers, JSON, trimming, insertion-ordered maps, stable sorting),
    code that may throw (\<^const>\<open>rbind\<close>, \<^const>\<open>rmap\<close>), and two interfaces as locales:
    \<open>invariant_system\<close> (an invariant of the initial states that every step keeps, hence of all
    reachable states) and \<open>idempotent_command\<close> (a retry changes nothing and answers the same,
    hence any number of retries). Both are interpreted on the models: voting, the router, the
    platform, exception series, the outbox, the inbox, the metrics; recording of votes, call events, supervisor,
    wrap-up and exception commands.
  \<^item> \<open>RuleRegistry\<close> (\<open>cg4-rule-registry.ts\<close>): the frozen table, lookup including members inherited
    from \<open>Object.prototype\<close>, override eligibility; an exact characterization of what can be
    overridden and that protected rules never can.
  \<^item> \<open>ExceptionEvaluation\<close> (\<open>cg4-exception-evaluation.ts\<close>): effective state, scope match, coverage;
    an applied exception is exact and bound to the pinned policy, the scan is first match.
  \<^item> \<open>Authorization\<close> (\<open>cg4-authorization-engine.ts\<close>): vote admission, quorum, delegation;
    separation of duties and the two-person rule; an emergency quorum does not depend on when the votes were cast.
  \<^item> \<open>ApprovalRepository\<close> (\<open>cg4-approval-repository.ts\<close>): the vote transactions on tables, as a step
    relation; one vote per checker and revision in reachable states, idempotent retries; the reported quorum
    does not look at the recorded decisions.
  \<^item> \<open>Calendar\<close>, \<open>TimeWindows\<close> (time functions of \<open>cg3-policy-evaluator.ts\<close>, the window normalizer of
    \<open>cg3-persistence.ts\<close>): proleptic Gregorian dates, zone conversion, windows; accepted windows are
    disjoint, and the two readings of a window agree inside a day and differ across midnight in an exactly
    described way; the wall clock conversion is exact up to the repeated readings of a clock set back.
  \<^item> \<open>PolicyEvaluator\<close> (\<open>cg3-policy-evaluator.ts\<close>): the whole decision with its trace; a temporal block
    is lifted only on evidence, callbacks are consumed only when exercised, the offered next
    instant is eligible, also around a change of the clock, but is past in the hour a clock west of UTC repeats.
  \<^item> \<open>PolicyScope\<close>, \<open>CanonicalJson\<close>, \<open>PolicyCompiler\<close> (\<open>cg4-policy-compiler.ts\<close>, canonical text of
    \<open>packages/cxa-contracts/src/contact-governance-cg4.ts\<close>): round trip of scope keys, the ambiguity
    test, canonical text and compilation independent of authoring order and idempotent.
  \<^item> \<open>PolicyDiff\<close> (\<open>cg4-policy-diff.ts\<close>): the classifier against the run-time evaluator as the
    specification: what is not a relaxation blocks at least as much.
  \<^item> \<open>VoiceRouter\<close> (\<open>inbound-voice-router.ts\<close>): one record per table, one function per handler and
    per stage of \<open>processDue\<close>, with the messages they publish.
  \<^item> \<open>VoiceRouting\<close>: the specification of routing as elementary moves of one interaction and one
    agent, the invariant, tenant isolation and progress of the moves, and the refinement of every
    handler to a sequence of moves.
  \<^item> \<open>VoiceGuarantees\<close>: the resulting properties of the handlers, with a small call centre as the
    concrete instance of the witnesses.
  \<^item> \<open>AgentPresence\<close> (\<open>agent-workspace-api.ts\<close>, \<open>supervisor-live-api.ts\<close>): availability, legacy
    wrap-up and forced states; each refines the moves, and retried commands are absorbed.
  \<^item> \<open>EmbedOrigin\<close> (\<open>packages/shared/src/embed-origin.ts\<close>): the form of an embedding origin.
  \<^item> \<open>WorkSession\<close> (\<open>work-session.ts\<close>, \<open>agent-sip-credentials.ts\<close>): leases, their transactions and
    reads with the signals sent after the commit, SIP credentials.
  \<^item> \<open>SessionMoves\<close>: the invariant of leases and credentials, the transactions as moves, and the
    platform, in which the router, agents, supervisors, sessions, credentials and administrators
    interleave.
  \<^item> \<open>WorkSessionGuarantees\<close>: one live call and one session per agent, a busy agent keeps the
    session, the sweep is complete, host pages are served only while allowlisted; and that a
    session released during an offer does not keep its agent out of routing.
  \<^item> \<open>Expression\<close>, \<open>ExpressionGuarantees\<close> (\<open>packages/expression/src/evaluator.ts\<close>): validation, evaluation
    under a deadline, masking; the evaluator is type sound on untrusted documents, refines the
    meaning of the abstract syntax, and shows no sensitive value in its trace.
  \<^item> \<open>Segments\<close>, \<open>SegmentGuarantees\<close> (\<open>segment-definition.ts\<close>, \<open>segment-evaluator.ts\<close>): the contract of a
    segment and its evaluation, the client of the evaluator through the locale
    \<open>expression_evaluator\<close>; an accepted definition fails only on limits, types or the deadline,
    unless its operator is an array.
  \<^item> \<open>ExceptionLifecycle\<close> (\<open>cg4-foundation-repository.ts\<close>, \<open>cg4-exception-lifecycle.ts\<close>,
    \<open>cg4-contact-stream.ts\<close>, the vote of \<open>contact-governance-cg4-api.ts\<close>): recording and transitions as
    transactions on the tables of \<open>ApprovalRepository\<close> and those of heads, streams and the outbox.
  \<^item> \<open>ExceptionGuarantees\<close>: the commands as moves of a series, the invariant over all interleavings of
    commands and votes; approved exceptions never overlap, carry an independent quorum, stay within
    the registry and are immutable; retries are absorbed.
  \<^item> \<open>EventDelivery\<close> (\<open>cg4-event-envelope.ts\<close>, \<open>cg4-event-relay.ts\<close>, \<open>cg4-inbox.ts\<close>,
    \<open>cg4-consumer-inbox.ts\<close>): the envelope guard, the relay, the inbox with its scope pauses.
  \<^item> \<open>InboxGuarantees\<close>: applied versions are a contiguous prefix under any delivery, an in-order stream is
    applied exactly once, an anomaly holds its scope.
  \<^item> \<open>EventGuarantees\<close>: commands and relay together; gapless streams, no quarantine of lifecycle events,
    leases that are never committed, and a failed publish that its successor overtakes.
  \<^item> \<open>Downstream\<close> (\<open>packages/cxa-contracts/src/contact-governance-downstream.ts\<close>): the shapes of the two
    event families, the effect of an event, scope coverage, the position of an event in its stream.
  \<^item> \<open>DialerGovernance\<close> (\<open>dialer-governance.ts\<close> and its consumer, effect relay and acknowledgement relay
    under \<open>apps/dialer/src\<close>): the handler as a transaction on attempts, inbox, effects and acknowledgements.
  \<^item> \<open>DialerGuarantees\<close>, \<open>DialerRecovery\<close>: the handler as one function of the attempt row; governance only
    withdraws work and stops exactly what an event takes out, stopped reservations are settled and acknowledged, a stream
    is caught up by one replay; a gap leaves submitted calls behind, and a claimed effect can be stranded.
  \<^item> \<open>MetricsConsumer\<close> (\<open>cg5-event-metrics-consumer.ts\<close>, payload contract of \<open>cg3-persistence.ts\<close>): samples
    equal applied events; a recorded exception ends the projection of its contact.
  \<^item> \<open>LifecycleAtDialer\<close>: the composition of lifecycle, relay message, contract and Dialer.

  \<^bold>\<open>Modelling choices.\<close>
  A database transaction is a function from tables to an error, which leaves them unchanged, or to
  new tables and a result; transactions are serial, so row locks, \<open>SKIP LOCKED\<close> and the retry after
  a unique violation have no counterpart. Each read of a clock or identifier supply is a separate
  argument or index, so successive reads may differ. Strings are lists of code units below 256.
  Dates are integers of milliseconds. Rows hold the columns the modelled code reads or writes.

  \<^bold>\<open>Parameters\<close> for code outside the repository: the time zone database and the set of known zones
  (\<open>Intl\<close>), SHA-256, MD5, base64, the URL parser, the decimal text of a number, the request digest of the repository, the clocks
  and identifier supplies (\<^typ>\<open>router_env\<close>). The hypotheses about them are in the statements: a
  zone that has a whole-minute offset and changes it at most once, in either direction, in the five weeks
  around the request for the next eligible instant, a clock that does not run
  backwards and unused identifiers for the reachable states of the router.

  \<^bold>\<open>Loops and bounds.\<close>
  All functions are total. The look-ahead for the next eligible instant is recursion over its 8641
  grid points, zone conversion its two fixed rounds, the canonical text recursion over the value;
  the due work and the session sweep recurse over the lists their queries return. No fuel is used.

  \<^bold>\<open>Not modelled.\<close>
  The policy life cycle, activation jobs, kill switches and the other CG5 projections around the modelled
  decisions, and the read model and remaining endpoints of the governance gateway; the managed voice runtime (queues with \<open>voiceConfigVersion\<close> 1, which the
  router refuses); the V1 wrap-up; administration of embedding origins; journeys, delivery, the origination and pacing of the dialer, the
  repositories of Customer 360, cases, quality management, platform administration; user interfaces, transport,
  infrastructure, generated clients and tests.
\<close>

end
